(* ===== verification/Prelude.thy ===== *)
theory Prelude
  imports Main "HOL-Library.Word" "HOL-Library.Multiset" "HOL-Library.AList"
begin

text \<open>
  Shared ground of the macSFTP development: the machine types and the string type of the Rust
  sources, the iterator idioms the code uses on vectors (\<open>find\<close>, \<open>position\<close>, \<open>iter_mut().find\<close>,
  \<open>remove\<close>, \<open>insert\<close>), the generic lemmas about them, and the locales that state what a
  state-carrying component promises to its clients.

  A Rust \<open>char\<close> is its Unicode scalar value and a Rust \<open>String\<close> the list of them: the
  lexicographic order of such lists is the order of the UTF-8 bytes that \<open>str::cmp\<close> compares,
  and \<open>utf8_len\<close> gives the byte count that \<open>str::len\<close> returns.
\<close>

section \<open>Collections of facts\<close>

named_theorems vec_simps "rewrite rules for the vector idioms"
named_theorems guard_simps "unfolding rules for the stale-event guards"
named_theorems store_defs "definitions of the store operations"

section \<open>Machine types and strings\<close>

type_synonym u8 = "8 word"
type_synonym u16 = "16 word"
type_synonym u32 = "32 word"
type_synonym u64 = "64 word"
type_synonym usize = nat

type_synonym rchar = nat
type_synonym rstr = "rchar list"

definition lit :: "string \<Rightarrow> rstr" where
  "lit s = map of_char s"

abbreviation slash :: rchar where
  "slash \<equiv> 47"

abbreviation dot :: rchar where
  "dot \<equiv> 46"

fun utf8_len_char :: "rchar \<Rightarrow> nat" where
  "utf8_len_char c = (if c < 0x80 then 1 else if c < 0x800 then 2 else if c < 0x10000 then 3 else 4)"

definition utf8_len :: "rstr \<Rightarrow> nat" where
  "utf8_len s = sum_list (map utf8_len_char s)"

section \<open>Vector idioms\<close>

fun position :: "('a \<Rightarrow> bool) \<Rightarrow> 'a list \<Rightarrow> nat option" where
  "position P [] = None"
| "position P (x # xs) = (if P x then Some 0 else map_option Suc (position P xs))"

fun update_first :: "('a \<Rightarrow> bool) \<Rightarrow> ('a \<Rightarrow> 'a) \<Rightarrow> 'a list \<Rightarrow> 'a list" where
  "update_first P f [] = []"
| "update_first P f (x # xs) = (if P x then f x # xs else x # update_first P f xs)"

fun remove_first :: "('a \<Rightarrow> bool) \<Rightarrow> 'a list \<Rightarrow> 'a list" where
  "remove_first P [] = []"
| "remove_first P (x # xs) = (if P x then xs else x # remove_first P xs)"

definition remove_at :: "nat \<Rightarrow> 'a list \<Rightarrow> 'a list" where
  "remove_at i xs = take i xs @ drop (Suc i) xs"

definition insert_at :: "nat \<Rightarrow> 'a \<Rightarrow> 'a list \<Rightarrow> 'a list" where
  "insert_at i x xs = take i xs @ x # drop i xs"

lemma position_None_iff [vec_simps]: "position P xs = None \<longleftrightarrow> (\<forall>x \<in> set xs. \<not> P x)"
  by (induction xs) auto

lemma position_Some_nth:
  "position P xs = Some i \<Longrightarrow> i < length xs \<and> P (xs ! i) \<and> (\<forall>j < i. \<not> P (xs ! j))"
proof (induction xs arbitrary: i)
  case (Cons x xs)
  show ?case
  proof (cases "P x")
    case True
    with Cons.prems show ?thesis by simp
  next
    case False
    with Cons.prems obtain k where k: "position P xs = Some k" "i = Suc k" by auto
    with Cons.IH[of k] False show ?thesis by (auto simp: less_Suc_eq_0_disj)
  qed
qed simp

lemma position_Some_ex: "x \<in> set xs \<Longrightarrow> P x \<Longrightarrow> \<exists>i. position P xs = Some i"
  by (cases "position P xs") (auto simp: position_None_iff)

lemma find_position: "find P xs = map_option ((!) xs) (position P xs)"
  by (induction xs) (auto simp: option.map_comp comp_def)

lemma find_Some_mem: "find P xs = Some x \<Longrightarrow> x \<in> set xs \<and> P x"
  by (induction xs) (auto split: if_splits)

lemma find_None_mem [vec_simps]: "find P xs = None \<longleftrightarrow> (\<forall>x \<in> set xs. \<not> P x)"
  by (induction xs) auto

lemma remove_at_position:
  "position P xs = Some i \<Longrightarrow> remove_at i xs = remove_first P xs"
proof (induction xs arbitrary: i)
  case (Cons x xs)
  show ?case
  proof (cases "P x")
    case True
    with Cons.prems show ?thesis by (simp add: remove_at_def)
  next
    case False
    with Cons.prems obtain k where k: "position P xs = Some k" "i = Suc k" by auto
    then show ?thesis using Cons.IH[of k] False by (simp add: remove_at_def)
  qed
qed simp

lemma list_update_position:
  "position P xs = Some i \<Longrightarrow> xs[i := f (xs ! i)] = update_first P f xs"
proof (induction xs arbitrary: i)
  case (Cons x xs)
  then show ?case by (cases "P x") auto
qed simp

lemma length_update_first [simp]: "length (update_first P f xs) = length xs"
  by (induction xs) auto

lemma update_first_id: "(\<forall>x \<in> set xs. \<not> P x) \<Longrightarrow> update_first P f xs = xs"
  by (induction xs) auto

lemma map_update_first_same:
  "(\<And>x. x \<in> set xs \<Longrightarrow> P x \<Longrightarrow> g (f x) = g x) \<Longrightarrow> map g (update_first P f xs) = map g xs"
  by (induction xs) auto

lemma set_update_first_subset: "set (update_first P f xs) \<subseteq> set xs \<union> f ` {x \<in> set xs. P x}"
  by (induction xs) auto

lemma mem_update_firstE:
  assumes "y \<in> set (update_first P f xs)"
  obtains "y \<in> set xs" | x where "x \<in> set xs" "P x" "y = f x"
  using assms set_update_first_subset[of P f xs] by auto

lemma set_remove_first_subset: "set (remove_first P xs) \<subseteq> set xs"
  by (induction xs) auto

lemma distinct_map_remove_first: "distinct (map g xs) \<Longrightarrow> distinct (map g (remove_first P xs))"
proof (induction xs)
  case (Cons x xs)
  then show ?case using set_remove_first_subset[of P xs] by auto
qed simp

lemma remove_first_key_filter:
  "distinct (map key xs) \<Longrightarrow> remove_first (\<lambda>x. key x = k) xs = filter (\<lambda>x. key x \<noteq> k) xs"
proof (induction xs)
  case (Cons x xs)
  show ?case
  proof (cases "key x = k")
    case True
    with Cons.prems have "\<forall>y \<in> set xs. key y \<noteq> k" by (force simp: image_iff)
    with True show ?thesis by simp
  qed (use Cons in auto)
qed simp

lemma update_first_key_map:
  "distinct (map key xs) \<Longrightarrow>
   update_first (\<lambda>x. key x = k) f xs = map (\<lambda>x. if key x = k then f x else x) xs"
proof (induction xs)
  case (Cons x xs)
  show ?case
  proof (cases "key x = k")
    case True
    with Cons.prems have "\<forall>y \<in> set xs. key y \<noteq> k" by (force simp: image_iff)
    with True show ?thesis by (auto simp: map_idI)
  qed (use Cons in auto)
qed simp

lemma find_key_Some_iff:
  "distinct (map key xs) \<Longrightarrow> find (\<lambda>x. key x = k) xs = Some x \<longleftrightarrow> x \<in> set xs \<and> key x = k"
proof (induction xs)
  case (Cons y ys)
  show ?case
  proof (cases "key y = k")
    case True
    with Cons.prems have "\<forall>z \<in> set ys. key z \<noteq> k" by (force simp: image_iff)
    with True show ?thesis by auto
  qed (use Cons in auto)
qed simp

lemma find_update_first_same:
  assumes "\<And>x. key (f x) = key x"
  shows "find (\<lambda>x. key x = k) (update_first (\<lambda>x. key x = k) f xs)
       = map_option f (find (\<lambda>x. key x = k) xs)"
  using assms by (induction xs) auto

lemma find_update_first_other:
  assumes "\<And>x. key (f x) = key x" and "k' \<noteq> k"
  shows "find (\<lambda>x. key x = k') (update_first (\<lambda>x. key x = k) f xs) = find (\<lambda>x. key x = k') xs"
  using assms by (induction xs) auto

lemma find_filter_other:
  "find (\<lambda>x. key x = j) (filter (\<lambda>x. key x \<noteq> i) xs) =
   (if j = i then None else find (\<lambda>x. key x = j) xs)"
  by (induction xs) auto

lemma mset_filter_split: "mset (filter (\<lambda>x. \<not> P x) xs) + mset (filter P xs) = mset xs"
  by (induction xs) auto

lemma mset_insert_at: "mset (insert_at i x xs) = add_mset x (mset xs)"
  by (metis append_take_drop_id insert_at_def mset.simps(2) mset_append union_mset_add_mset_right)

lemma set_insert_at [simp]: "set (insert_at i x xs) = insert x (set xs)"
  using arg_cong[OF mset_insert_at[of i x xs], of set_mset] by simp

lemma length_insert_at [simp]: "length (insert_at i x xs) = Suc (length xs)"
  using arg_cong[OF mset_insert_at[of i x xs], of size] by simp

lemma map_insert_at: "map g (insert_at i x xs) = insert_at i (g x) (map g xs)"
  by (simp add: insert_at_def take_map drop_map)

section \<open>What a state-carrying component promises\<close>

text \<open>
  A component is a state, the operations on it and an invariant. Its laws are that the initial
  states satisfy the invariant and that every operation keeps it; what a client gets is that
  every state reached by any sequence of operations satisfies it.
\<close>

locale state_machine =
  fixes init :: "'s \<Rightarrow> bool"
    and step :: "'s \<Rightarrow> 'op \<Rightarrow> 's"
    and inv :: "'s \<Rightarrow> bool"
  assumes inv_init: "init s \<Longrightarrow> inv s"
    and inv_step: "inv s \<Longrightarrow> inv (step s a)"
begin

lemma inv_run: "inv s \<Longrightarrow> inv (foldl step s ops)"
  by (induction ops arbitrary: s) (auto intro: inv_step)

lemma reachable_inv: "init s \<Longrightarrow> inv (foldl step s ops)"
  by (blast intro: inv_init inv_run)

end

text \<open>
  Some components keep their invariant only for the requests their environment really sends: the
  admissible ones, which may depend on the state they arrive in.
\<close>

primrec guarded_run :: "('s \<Rightarrow> 'op \<Rightarrow> 's) \<Rightarrow> ('s \<Rightarrow> 'op \<Rightarrow> bool) \<Rightarrow> 's \<Rightarrow> 'op list \<Rightarrow> bool" where
  "guarded_run step admissible s [] = True"
| "guarded_run step admissible s (a # ops) = (admissible s a \<and> guarded_run step admissible (step s a) ops)"

locale guarded_machine =
  fixes init :: "'s \<Rightarrow> bool"
    and step :: "'s \<Rightarrow> 'op \<Rightarrow> 's"
    and admissible :: "'s \<Rightarrow> 'op \<Rightarrow> bool"
    and inv :: "'s \<Rightarrow> bool"
  assumes inv_init: "init s \<Longrightarrow> inv s"
    and inv_step: "inv s \<Longrightarrow> admissible s a \<Longrightarrow> inv (step s a)"
begin

primrec admissible_run :: "'s \<Rightarrow> 'op list \<Rightarrow> bool" where
  "admissible_run s [] = True"
| "admissible_run s (a # ops) = (admissible s a \<and> admissible_run (step s a) ops)"

lemma admissible_run_eq: "admissible_run s ops = guarded_run step admissible s ops"
  by (induction ops arbitrary: s) simp_all

lemma inv_run: "inv s \<Longrightarrow> admissible_run s ops \<Longrightarrow> inv (foldl step s ops)"
  by (induction ops arbitrary: s) (auto intro: inv_step)

lemma reachable_inv: "init s \<Longrightarrow> admissible_run s ops \<Longrightarrow> inv (foldl step s ops)"
  by (blast intro: inv_init inv_run)

lemma admissible_take: "admissible_run s ops \<Longrightarrow> admissible_run s (take n ops)"
  by (induction ops arbitrary: s n) (auto simp: take_Cons split: nat.splits)

end

sublocale state_machine \<subseteq> guarded: guarded_machine init step "\<lambda>_ _. True" inv
  by unfold_locales (auto intro: inv_init inv_step)

text \<open>
  A latch is an observation of the state that no operation takes back: once \<open>closed\<close> holds of a
  state it holds of every later one.
\<close>

locale latch =
  fixes step :: "'s \<Rightarrow> 'op \<Rightarrow> 's"
    and closed :: "'s \<Rightarrow> bool"
  assumes closed_step: "closed s \<Longrightarrow> closed (step s a)"
begin

lemma closed_run: "closed s \<Longrightarrow> closed (foldl step s ops)"
  by (induction ops arbitrary: s) (auto intro: closed_step)

end

end
