(* ===== verification/Core_Types.thy ===== *)
theory Core_Types
  imports Prelude
begin

text \<open>
  The identifiers, times, errors, paths and connection descriptions of \<open>crates/core/src/core.rs\<close>.
  Rust newtypes over \<open>u64\<close> are one-constructor datatypes over 64-bit words, structs are records
  (the two mutually recursive ones are datatypes with selectors), enums are datatypes whose
  constructors are written with the name of their type, as in the source.
\<close>

section \<open>Identifiers\<close>

datatype TabId = TabId u64
datatype SessionId = SessionId u64
datatype TransferId = TransferId (transfer_raw: u64)
datatype TransferPlanId = TransferPlanId u64
datatype TrustRequestId = TrustRequestId u64
datatype ConflictRequestId = ConflictRequestId u64
datatype KeyboardInteractiveRequestId = KeyboardInteractiveRequestId u64
datatype ProfileId = ProfileId u64
datatype EditSessionId = EditSessionId u64
datatype EditCheckId = EditCheckId u64

text \<open>\<open>TransferId\<close> derives \<open>Ord\<close>: the order of the wrapped numbers.\<close>

instantiation TransferId :: linorder
begin

definition less_eq_TransferId :: "TransferId \<Rightarrow> TransferId \<Rightarrow> bool" where
  "less_eq_TransferId a b \<longleftrightarrow> transfer_raw a \<le> transfer_raw b"

definition less_TransferId :: "TransferId \<Rightarrow> TransferId \<Rightarrow> bool" where
  "less_TransferId a b \<longleftrightarrow> transfer_raw a < transfer_raw b"

instance
  by standard (auto simp: less_eq_TransferId_def less_TransferId_def intro: TransferId.expand)

end

lemma TransferId_less_eq_iff [simp]: "TransferId a \<le> TransferId b \<longleftrightarrow> a \<le> b"
  by (simp add: less_eq_TransferId_def)

lemma TransferId_less_iff [simp]: "TransferId a < TransferId b \<longleftrightarrow> a < b"
  by (simp add: less_TransferId_def)

section \<open>Time\<close>

text \<open>
  A \<open>SystemTime\<close> is a signed count of nanoseconds around the Unix epoch, of which the platform
  represents those with a 64-bit count of seconds. \<open>UNIX_EPOCH + Duration\<close> panics outside that
  range; the model returns \<open>None\<close> there.
\<close>

type_synonym SystemTime = int
type_synonym Timestamp = SystemTime

definition nanos_per_sec :: int where
  "nanos_per_sec = 1000000000"

definition representable :: "SystemTime \<Rightarrow> bool" where
  "representable t \<longleftrightarrow> - (2 ^ 63) \<le> t div nanos_per_sec \<and> t div nanos_per_sec < 2 ^ 63"

definition unix_epoch :: Timestamp where
  "unix_epoch = 0"

definition from_secs_since_epoch :: "u64 \<Rightarrow> Timestamp option" where
  "from_secs_since_epoch seconds =
     (let t = uint seconds * nanos_per_sec in if representable t then Some t else None)"

definition from_system_time :: "SystemTime \<Rightarrow> Timestamp" where
  "from_system_time time = time"

text \<open>\<open>duration_since(UNIX_EPOCH).map(as_secs).unwrap_or(0)\<close>.\<close>

definition secs_since_epoch :: "Timestamp \<Rightarrow> int" where
  "secs_since_epoch t = (if t < 0 then 0 else t div nanos_per_sec)"

definition truncated_to_secs :: "Timestamp \<Rightarrow> Timestamp" where
  "truncated_to_secs t = secs_since_epoch t * nanos_per_sec"

text \<open>The serde form is a signed number of seconds.\<close>

definition serialize_timestamp :: "Timestamp \<Rightarrow> 64 word" where
  "serialize_timestamp t = word_of_int (secs_since_epoch t)"

definition deserialize_timestamp :: "64 word \<Rightarrow> Timestamp" where
  "deserialize_timestamp seconds = max 0 (sint seconds) * nanos_per_sec"

section \<open>Characters that must not reach a name\<close>

definition is_control :: "rchar \<Rightarrow> bool" where
  "is_control ch \<longleftrightarrow> ch \<le> 0x1F \<or> (0x7F \<le> ch \<and> ch \<le> 0x9F)"

definition is_bidi_or_control :: "rchar \<Rightarrow> bool" where
  "is_bidi_or_control ch \<longleftrightarrow>
     is_control ch \<or>
     ch = 0x200E \<or> ch = 0x200F \<or> ch = 0x061C \<or>
     (0x202A \<le> ch \<and> ch \<le> 0x202E) \<or>
     (0x2066 \<le> ch \<and> ch \<le> 0x2069)"

section \<open>Paths and file-system operations\<close>

datatype LocalPath = LocalPath (local_str: rstr)
datatype RemotePath = RemotePath (remote_str: rstr)

datatype FsSide = Local | Remote

datatype FsScope =
    Local TabId
  | Remote TabId u64

datatype FsPath =
    Local LocalPath
  | Remote RemotePath

record FsEntryRef =
  fer_path :: FsPath
  fer_is_dir :: bool

datatype FsOp =
    Delete "FsEntryRef list"
  | Rename FsPath FsPath
  | CreateDirectory FsPath rstr

record FsCommand =
  fsc_scope :: FsScope
  fsc_op :: FsOp

datatype EntryPath =
    Local LocalPath
  | Remote RemotePath

section \<open>Errors\<close>

datatype ErrorCode =
    AuthFailed | HostKeyMismatch | LocalNetworkPermissionDenied | PermissionDenied
  | FileExists | NotFound | UnsupportedSymlink | MetadataPreservationFailed
  | ChannelClosed | NetworkTimeout | NetworkError | ServerDisconnected
  | Cancelled | Unknown

record UserFacingError =
  ufe_code :: ErrorCode
  ufe_title :: rstr
  ufe_message :: rstr
  ufe_detail :: "rstr option"
  ufe_retryable :: bool

definition user_facing_error :: "ErrorCode \<Rightarrow> rstr \<Rightarrow> rstr \<Rightarrow> UserFacingError" where
  "user_facing_error code title message =
     \<lparr>ufe_code = code, ufe_title = title, ufe_message = message,
      ufe_detail = None, ufe_retryable = False\<rparr>"

definition with_retryable :: "UserFacingError \<Rightarrow> bool \<Rightarrow> UserFacingError" where
  "with_retryable e retryable = e\<lparr>ufe_retryable := retryable\<rparr>"

fun display_error_code :: "ErrorCode \<Rightarrow> rstr" where
  "display_error_code AuthFailed = lit ''auth_failed''"
| "display_error_code HostKeyMismatch = lit ''host_key_mismatch''"
| "display_error_code LocalNetworkPermissionDenied = lit ''local_network_permission_denied''"
| "display_error_code PermissionDenied = lit ''permission_denied''"
| "display_error_code FileExists = lit ''file_exists''"
| "display_error_code NotFound = lit ''not_found''"
| "display_error_code UnsupportedSymlink = lit ''unsupported_symlink''"
| "display_error_code MetadataPreservationFailed = lit ''metadata_preservation_failed''"
| "display_error_code ChannelClosed = lit ''channel_closed''"
| "display_error_code NetworkTimeout = lit ''network_timeout''"
| "display_error_code NetworkError = lit ''network_error''"
| "display_error_code ServerDisconnected = lit ''server_disconnected''"
| "display_error_code Cancelled = lit ''cancelled''"
| "display_error_code Unknown = lit ''unknown''"

section \<open>Profiles, credentials and connection identities\<close>

datatype SecretRef = SecretRef rstr

datatype ConnectionRoute =
    Direct
  | JumpHost ProfileId
  | ProxyCommand rstr

datatype AuthMethod =
    Password SecretRef
  | PrivateKey LocalPath bool "SecretRef option"
  | KeyboardInteractive
  | SshAgent "LocalPath option"

datatype AuthMethodKind = Password | PrivateKey | KeyboardInteractive | SshAgent

fun auth_method_kind :: "AuthMethod \<Rightarrow> AuthMethodKind" where
  "auth_method_kind (AuthMethod.Password _) = AuthMethodKind.Password"
| "auth_method_kind (AuthMethod.PrivateKey _ _ _) = AuthMethodKind.PrivateKey"
| "auth_method_kind AuthMethod.KeyboardInteractive = AuthMethodKind.KeyboardInteractive"
| "auth_method_kind (AuthMethod.SshAgent _) = AuthMethodKind.SshAgent"

record ConnectionProfile =
  prof_id :: ProfileId
  prof_revision :: u64
  prof_name :: rstr
  prof_host :: rstr
  prof_port :: u16
  prof_username :: rstr
  prof_auth :: AuthMethod
  prof_route :: ConnectionRoute
  prof_default_remote_path :: "RemotePath option"

definition connection_profile_new ::
  "ProfileId \<Rightarrow> rstr \<Rightarrow> rstr \<Rightarrow> rstr \<Rightarrow> AuthMethod \<Rightarrow> ConnectionProfile" where
  "connection_profile_new pid name host username auth =
     \<lparr>prof_id = pid, prof_revision = 1, prof_name = name, prof_host = host, prof_port = 22,
      prof_username = username, prof_auth = auth, prof_route = ConnectionRoute.Direct,
      prof_default_remote_path = None\<rparr>"

datatype AuthCredential =
    Password rstr
  | PrivateKey rstr "rstr option"
  | KeyboardInteractive
  | SshAgent "rstr option"

datatype ConnectionSettings =
  ConnectionSettings (cs_host: rstr) (cs_port: u16) (cs_username: rstr)
    (cs_auth: AuthCredential) (cs_route: ResolvedConnectionRoute)
and ResolvedConnectionRoute =
    Direct
  | JumpHost ConnectionSettings
  | ProxyCommand rstr

fun persisted_shape :: "ResolvedConnectionRoute \<Rightarrow> ConnectionRoute" where
  "persisted_shape ResolvedConnectionRoute.Direct = ConnectionRoute.Direct"
| "persisted_shape (ResolvedConnectionRoute.JumpHost _) = ConnectionRoute.Direct"
| "persisted_shape (ResolvedConnectionRoute.ProxyCommand command) = ConnectionRoute.ProxyCommand command"

record AuthFingerprint =
  af_method :: AuthMethodKind
  af_secret_ref :: "SecretRef option"
  af_private_key_path_hash :: "rstr option"
  af_profile_revision :: u64
  af_saved_profile_id :: "ProfileId option"
  af_jump_profile_revision :: "(ProfileId \<times> u64) option"

definition fingerprint_password :: "SecretRef \<Rightarrow> u64 \<Rightarrow> AuthFingerprint" where
  "fingerprint_password secret revision =
     \<lparr>af_method = AuthMethodKind.Password, af_secret_ref = Some secret,
      af_private_key_path_hash = None, af_profile_revision = revision,
      af_saved_profile_id = None, af_jump_profile_revision = None\<rparr>"

definition fingerprint_private_key :: "rstr \<Rightarrow> SecretRef option \<Rightarrow> u64 \<Rightarrow> AuthFingerprint" where
  "fingerprint_private_key path_hash passphrase_ref revision =
     \<lparr>af_method = AuthMethodKind.PrivateKey, af_secret_ref = passphrase_ref,
      af_private_key_path_hash = Some path_hash, af_profile_revision = revision,
      af_saved_profile_id = None, af_jump_profile_revision = None\<rparr>"

definition fingerprint_keyboard_interactive :: "u64 \<Rightarrow> AuthFingerprint" where
  "fingerprint_keyboard_interactive revision =
     \<lparr>af_method = AuthMethodKind.KeyboardInteractive, af_secret_ref = None,
      af_private_key_path_hash = None, af_profile_revision = revision,
      af_saved_profile_id = None, af_jump_profile_revision = None\<rparr>"

definition fingerprint_ssh_agent :: "u64 \<Rightarrow> AuthFingerprint" where
  "fingerprint_ssh_agent revision =
     \<lparr>af_method = AuthMethodKind.SshAgent, af_secret_ref = None,
      af_private_key_path_hash = None, af_profile_revision = revision,
      af_saved_profile_id = None, af_jump_profile_revision = None\<rparr>"

definition with_saved_profile :: "AuthFingerprint \<Rightarrow> ProfileId \<Rightarrow> AuthFingerprint" where
  "with_saved_profile f pid = f\<lparr>af_saved_profile_id := Some pid\<rparr>"

definition with_jump_profile :: "AuthFingerprint \<Rightarrow> ProfileId \<Rightarrow> u64 \<Rightarrow> AuthFingerprint" where
  "with_jump_profile f pid revision = f\<lparr>af_jump_profile_revision := Some (pid, revision)\<rparr>"

datatype ConnectionPoolIdentity =
    Saved AuthFingerprint
  | Ephemeral SessionId

record ConnectionKey =
  ck_host :: rstr
  ck_port :: u16
  ck_username :: rstr
  ck_identity :: ConnectionPoolIdentity

definition connection_key_new :: "ConnectionSettings \<Rightarrow> ConnectionPoolIdentity \<Rightarrow> ConnectionKey" where
  "connection_key_new settings identity =
     \<lparr>ck_host = cs_host settings, ck_port = cs_port settings,
      ck_username = cs_username settings, ck_identity = identity\<rparr>"

section \<open>Times: lemmas\<close>

lemma nanos_per_sec_pos [simp]: "0 < nanos_per_sec"
  by (simp add: nanos_per_sec_def)

lemma secs_since_epoch_nonneg [simp]: "0 \<le> secs_since_epoch t"
  by (auto simp: secs_since_epoch_def pos_imp_zdiv_nonneg_iff)

lemma secs_since_epoch_above_min [simp]: "- 9223372036854775808 \<le> secs_since_epoch t"
  by (rule order_trans[of _ 0]) simp_all

lemma secs_since_epoch_whole [simp]: "0 \<le> s \<Longrightarrow> secs_since_epoch (s * nanos_per_sec) = s"
  by (simp add: secs_since_epoch_def nanos_per_sec_def)

lemma truncated_to_secs_idem [simp]: "truncated_to_secs (truncated_to_secs t) = truncated_to_secs t"
  by (simp add: truncated_to_secs_def)

lemma truncated_to_secs_le: "0 \<le> t \<Longrightarrow> truncated_to_secs t \<le> t \<and> t < truncated_to_secs t + nanos_per_sec"
  unfolding truncated_to_secs_def secs_since_epoch_def nanos_per_sec_def by simp linarith

lemma secs_since_epoch_range: "representable t \<Longrightarrow> secs_since_epoch t < 2 ^ 63"
  by (auto simp: secs_since_epoch_def representable_def)

lemma from_secs_truncated:
  assumes "representable t"
  shows "from_secs_since_epoch (word_of_int (secs_since_epoch t)) = Some (truncated_to_secs t)"
proof -
  have b: "- (2 ^ 63) \<le> secs_since_epoch t" "0 \<le> secs_since_epoch t" "secs_since_epoch t < 2 ^ 63"
    using secs_since_epoch_range[OF assms] secs_since_epoch_nonneg[of t] by linarith+
  then have "uint (word_of_int (secs_since_epoch t) :: u64) = secs_since_epoch t"
    by (simp add: uint_word_of_int take_bit_int_eq_self)
  moreover have "representable (secs_since_epoch t * nanos_per_sec)"
    unfolding representable_def nanos_per_sec_def using b by simp
  ultimately show ?thesis
    by (simp add: from_secs_since_epoch_def truncated_to_secs_def)
qed

lemma timestamp_roundtrip_aux:
  assumes "representable t"
  shows "deserialize_timestamp (serialize_timestamp t) = truncated_to_secs t"
proof -
  have b: "- (2 ^ 63) \<le> secs_since_epoch t" "0 \<le> secs_since_epoch t" "secs_since_epoch t < 2 ^ 63"
    using secs_since_epoch_range[OF assms] secs_since_epoch_nonneg[of t] by linarith+
  then have "sint (word_of_int (secs_since_epoch t) :: 64 word) = secs_since_epoch t"
    by (simp add: signed_of_int signed_take_bit_int_eq_self_iff)
  then show ?thesis
    by (simp add: deserialize_timestamp_def serialize_timestamp_def truncated_to_secs_def)
qed

end
