(* ===== verification/Paths.thy ===== *)
theory Paths
  imports Core_Types
begin

text \<open>
  Slash-separated paths: the string functions of \<open>str\<close> and \<open>std::path::Path\<close> that the sources
  use, the path operations of \<open>crates/core/src/core.rs\<close> on them, and the targets of file-system
  operations (\<open>FsPath\<close>, \<open>FsScope\<close>, \<open>FsOp\<close>).
\<close>

section \<open>String functions of the standard library\<close>

fun split_on :: "rchar \<Rightarrow> rstr \<Rightarrow> rstr list" where
  "split_on c [] = [[]]"
| "split_on c (x # xs) =
     (if x = c then [] # split_on c xs
      else case split_on c xs of [] \<Rightarrow> [[x]] | w # ws \<Rightarrow> (x # w) # ws)"

fun join_with :: "rchar \<Rightarrow> rstr list \<Rightarrow> rstr" where
  "join_with c [] = []"
| "join_with c [w] = w"
| "join_with c (w # ws) = w @ c # join_with c ws"

definition trim_start_matches :: "rchar \<Rightarrow> rstr \<Rightarrow> rstr" where
  "trim_start_matches c s = dropWhile (\<lambda>x. x = c) s"

definition trim_end_matches :: "rchar \<Rightarrow> rstr \<Rightarrow> rstr" where
  "trim_end_matches c s = rev (dropWhile (\<lambda>x. x = c) (rev s))"

definition trim_matches :: "rchar \<Rightarrow> rstr \<Rightarrow> rstr" where
  "trim_matches c s = trim_end_matches c (trim_start_matches c s)"

definition rfind :: "rchar \<Rightarrow> rstr \<Rightarrow> nat option" where
  "rfind c s = map_option (\<lambda>i. length s - 1 - i) (position (\<lambda>x. x = c) (rev s))"

section \<open>The components of \<open>std::path::Path\<close>\<close>

definition skipped_piece :: "rstr \<Rightarrow> bool" where
  "skipped_piece p \<longleftrightarrow> p = [] \<or> p = [dot]"

definition drop_trailing_skipped :: "rstr list \<Rightarrow> rstr list" where
  "drop_trailing_skipped ps = rev (dropWhile skipped_piece (rev ps))"

definition path_file_name :: "rstr \<Rightarrow> rstr option" where
  "path_file_name s =
     (let cs = filter (\<lambda>p. \<not> skipped_piece p) (split_on slash s)
      in if cs = [] \<or> last cs = [dot, dot] then None else Some (last cs))"

definition path_parent :: "rstr \<Rightarrow> rstr option" where
  "path_parent s =
     (let ps = split_on slash s; first = hd ps; rest = drop_trailing_skipped (tl ps)
      in if rest = [] then (if first = [] then None else Some [])
         else let rest' = drop_trailing_skipped (butlast rest)
              in if rest' = [] then Some (if first = [] then [slash] else first)
                 else Some (join_with slash (first # rest')))"

definition path_extension :: "rstr \<Rightarrow> rstr option" where
  "path_extension s =
     (case path_file_name s of
        None \<Rightarrow> None
      | Some f \<Rightarrow> (case rfind dot f of
                     None \<Rightarrow> None
                   | Some i \<Rightarrow> if i = 0 then None else Some (drop (Suc i) f)))"

definition path_join :: "rstr \<Rightarrow> rstr \<Rightarrow> rstr" where
  "path_join p q =
     (if q \<noteq> [] \<and> hd q = slash then q
      else if p = [] then q
      else if last p = slash then p @ q else p @ slash # q)"

section \<open>Path operations of the core crate\<close>

fun normalize_step :: "rstr list \<Rightarrow> rstr \<Rightarrow> rstr list" where
  "normalize_step components component =
     (if component = [] \<or> component = [dot] then components
      else if component = [dot, dot] then butlast components
      else components @ [component])"

definition normalize_remote_path :: "rstr \<Rightarrow> rstr" where
  "normalize_remote_path path =
     slash # join_with slash (foldl normalize_step [] (split_on slash path))"

definition parent_path :: "rstr \<Rightarrow> rstr option" where
  "parent_path path =
     (let trimmed = trim_end_matches slash path
      in if trimmed = [] then None
         else case rfind slash trimmed of
                None \<Rightarrow> None
              | Some i \<Rightarrow> if i = 0 then Some [slash] else Some (take i trimmed))"

definition join_path_component :: "rstr \<Rightarrow> rstr \<Rightarrow> rstr" where
  "join_path_component parent name =
     (let name = trim_matches slash name
      in if parent = [] \<or> parent = [slash] then slash # name
         else trim_end_matches slash parent @ slash # name)"

fun local_parent :: "LocalPath \<Rightarrow> LocalPath option" where
  "local_parent (LocalPath s) = map_option LocalPath (parent_path s)"

fun local_join :: "LocalPath \<Rightarrow> rstr \<Rightarrow> LocalPath" where
  "local_join (LocalPath s) name = LocalPath (join_path_component s name)"

fun remote_parent :: "RemotePath \<Rightarrow> RemotePath option" where
  "remote_parent (RemotePath s) = map_option RemotePath (parent_path s)"

fun remote_join :: "RemotePath \<Rightarrow> rstr \<Rightarrow> RemotePath" where
  "remote_join (RemotePath s) name = RemotePath (join_path_component s name)"

definition resolve_link_target :: "RemotePath \<Rightarrow> rstr \<Rightarrow> RemotePath" where
  "resolve_link_target p target =
     (if target \<noteq> [] \<and> hd target = slash then RemotePath (normalize_remote_path target)
      else let parent = (case remote_parent p of None \<Rightarrow> RemotePath [slash] | Some q \<Rightarrow> q)
           in RemotePath (normalize_remote_path
                (trim_end_matches slash (remote_str parent) @ slash # target)))"

section \<open>Targets of file-system operations\<close>

fun fs_scope_tab_id :: "FsScope \<Rightarrow> TabId" where
  "fs_scope_tab_id (FsScope.Local tab) = tab"
| "fs_scope_tab_id (FsScope.Remote tab _) = tab"

fun fs_scope_session_epoch :: "FsScope \<Rightarrow> u64 option" where
  "fs_scope_session_epoch (FsScope.Local _) = None"
| "fs_scope_session_epoch (FsScope.Remote _ epoch) = Some epoch"

fun fs_scope_side :: "FsScope \<Rightarrow> FsSide" where
  "fs_scope_side (FsScope.Local _) = FsSide.Local"
| "fs_scope_side (FsScope.Remote _ _) = FsSide.Remote"

fun fs_path_as_local :: "FsPath \<Rightarrow> LocalPath option" where
  "fs_path_as_local (FsPath.Local p) = Some p"
| "fs_path_as_local (FsPath.Remote _) = None"

fun fs_path_as_remote :: "FsPath \<Rightarrow> RemotePath option" where
  "fs_path_as_remote (FsPath.Local _) = None"
| "fs_path_as_remote (FsPath.Remote p) = Some p"

fun fs_path_as_str :: "FsPath \<Rightarrow> rstr" where
  "fs_path_as_str (FsPath.Local p) = local_str p"
| "fs_path_as_str (FsPath.Remote p) = remote_str p"

fun fs_path_parent :: "FsPath \<Rightarrow> FsPath option" where
  "fs_path_parent (FsPath.Local p) = map_option FsPath.Local (local_parent p)"
| "fs_path_parent (FsPath.Remote p) = map_option FsPath.Remote (remote_parent p)"

fun fs_path_join :: "FsPath \<Rightarrow> rstr \<Rightarrow> FsPath" where
  "fs_path_join (FsPath.Local p) name = FsPath.Local (local_join p name)"
| "fs_path_join (FsPath.Remote p) name = FsPath.Remote (remote_join p name)"

fun fs_path_side :: "FsPath \<Rightarrow> FsSide" where
  "fs_path_side (FsPath.Local _) = FsSide.Local"
| "fs_path_side (FsPath.Remote _) = FsSide.Remote"

fun refresh_path :: "FsOp \<Rightarrow> FsPath option" where
  "refresh_path (Delete entries) =
     (case entries of [] \<Rightarrow> None | e # _ \<Rightarrow> fs_path_parent (fer_path e))"
| "refresh_path (Rename from _) = fs_path_parent from"
| "refresh_path (CreateDirectory parent _) = Some parent"

section \<open>Splitting and joining\<close>

lemma split_on_nonempty [simp]: "split_on c s \<noteq> []"
  by (induction s) (auto split: list.splits)

lemma split_on_no_sep: "w \<in> set (split_on c s) \<Longrightarrow> c \<notin> set w"
proof (induction s arbitrary: w)
  case (Cons x xs)
  then show ?case by (fastforce split: list.splits if_splits)
qed simp

lemma join_split [simp]: "join_with c (split_on c s) = s"
proof (induction s)
  case (Cons x xs)
  show ?case
  proof (cases "split_on c xs")
    case (Cons w ws)
    with Cons.IH show ?thesis by (cases ws) auto
  qed simp
qed simp

lemma split_on_word: "c \<notin> set w \<Longrightarrow> split_on c w = [w]"
  by (induction w) auto

lemma split_on_append: "c \<notin> set w \<Longrightarrow> split_on c (w @ c # s) = w # split_on c s"
  by (induction w) auto

lemma split_on_concat: "split_on c (a @ c # b) = split_on c a @ split_on c b"
proof (induction a)
  case (Cons x xs)
  show ?case
  proof (cases "split_on c xs")
    case Nil
    then show ?thesis using split_on_nonempty[of c xs] by simp
  qed (use Cons in auto)
qed simp

lemma split_join:
  "ws \<noteq> [] \<Longrightarrow> (\<forall>w \<in> set ws. c \<notin> set w) \<Longrightarrow> split_on c (join_with c ws) = ws"
  by (induction c ws rule: join_with.induct) (auto simp: split_on_word split_on_append)

section \<open>Normalization\<close>

definition plain_component :: "rstr \<Rightarrow> bool" where
  "plain_component w \<longleftrightarrow> w \<noteq> [] \<and> w \<noteq> [dot] \<and> w \<noteq> [dot, dot] \<and> slash \<notin> set w"

lemma normalize_step_plain:
  "list_all plain_component cs \<Longrightarrow> slash \<notin> set w \<Longrightarrow> list_all plain_component (normalize_step cs w)"
  by (auto simp: plain_component_def list_all_iff dest: in_set_butlastD)

lemma normalize_fold_plain:
  "list_all plain_component cs \<Longrightarrow> (\<forall>w \<in> set ws. slash \<notin> set w) \<Longrightarrow>
   list_all plain_component (foldl normalize_step cs ws)"
  by (induction ws arbitrary: cs) (auto simp del: normalize_step.simps intro: normalize_step_plain)

lemma normalize_components_plain:
  "list_all plain_component (foldl normalize_step [] (split_on slash p))"
  by (rule normalize_fold_plain) (auto dest: split_on_no_sep)

lemma normalize_fold_id:
  "list_all plain_component ws \<Longrightarrow> foldl normalize_step cs ws = cs @ ws"
  by (induction ws arbitrary: cs) (auto simp: plain_component_def)

lemma normalize_of_plain:
  assumes "list_all plain_component ws"
  shows "normalize_remote_path (slash # join_with slash ws) = slash # join_with slash ws"
proof (cases "ws = []")
  case True
  then show ?thesis by (simp add: normalize_remote_path_def)
next
  case False
  have "split_on slash (join_with slash ws) = ws"
    using assms False by (intro split_join) (auto simp: list_all_iff plain_component_def)
  then show ?thesis
    using normalize_fold_id[OF assms, of "[]"] by (simp add: normalize_remote_path_def)
qed

lemma normalize_remote_path_idem [simp]:
  "normalize_remote_path (normalize_remote_path p) = normalize_remote_path p"
  using normalize_of_plain[OF normalize_components_plain, of p]
  by (simp add: normalize_remote_path_def)

section \<open>Parents\<close>

lemma trim_end_no_sep [simp]: "w \<noteq> [] \<Longrightarrow> last w \<noteq> c \<Longrightarrow> trim_end_matches c w = w"
  by (cases w rule: rev_cases) (auto simp: trim_end_matches_def)

lemma trim_end_append_word:
  "w \<noteq> [] \<Longrightarrow> c \<notin> set w \<Longrightarrow> trim_end_matches c (s @ w) = s @ w"
  by (rule trim_end_no_sep) (auto dest: last_in_set)

lemma trim_end_last: "trim_end_matches c s = [] \<or> last (trim_end_matches c s) \<noteq> c"
proof (cases "dropWhile (\<lambda>x. x = c) (rev s)")
  case (Cons y ys)
  then have "y \<noteq> c" using hd_dropWhile[of "\<lambda>x. x = c" "rev s"] by (metis list.sel(1) list.simps(3))
  with Cons show ?thesis by (simp add: trim_end_matches_def)
qed (simp add: trim_end_matches_def)

lemma trim_matches_word: "c \<notin> set w \<Longrightarrow> trim_matches c w = w"
proof (cases w rule: rev_cases)
  case (snoc ys y)
  assume "c \<notin> set w"
  then have "trim_start_matches c w = w"
    by (cases w) (auto simp: trim_start_matches_def)
  with \<open>c \<notin> set w\<close> snoc show ?thesis by (simp add: trim_matches_def trim_end_matches_def)
qed (simp add: trim_matches_def trim_start_matches_def trim_end_matches_def)

lemma position_append_absent:
  "(\<forall>x \<in> set w. \<not> P x) \<Longrightarrow> P y \<Longrightarrow> position P (w @ y # ys) = Some (length w)"
  by (induction w) auto

lemma rfind_append_word [simp]:
  assumes "c \<notin> set w"
  shows "rfind c (s @ c # w) = Some (length s)"
proof -
  have "position (\<lambda>x. x = c) (rev w @ c # rev s) = Some (length (rev w))"
    using assms by (intro position_append_absent) auto
  then show ?thesis by (simp add: rfind_def)
qed

lemma parent_path_join:
  assumes "slash \<notin> set name" "name \<noteq> []"
  shows "parent_path (s @ slash # name) = Some (if s = [] then [slash] else s)"
  using assms trim_end_append_word[of name slash "s @ [slash]"]
  by (simp add: parent_path_def Let_def)

lemma rfind_SomeD: "rfind c s = Some i \<Longrightarrow> i < length s \<and> s ! i = c"
  using position_Some_nth[of "\<lambda>x. x = c" "rev s"]
  by (auto simp: rfind_def rev_nth)

lemma trim_end_length: "length (trim_end_matches c s) \<le> length s"
  using length_dropWhile_le[of "\<lambda>x. x = c" "rev s"] by (simp add: trim_end_matches_def)

section \<open>Properties\<close>

text \<open>
  link_targets_normal: whatever a server returns as the target of a symbolic link, the resolved path
  is absolute and made of plain components only (no empty one, no dot, no dot-dot), so it cannot climb
  above the root, and resolving it again changes nothing. An absolute target does not depend on where
  the link lies.
\<close>

theorem link_targets_normal:
  "(\<exists>ws. list_all plain_component ws \<and>
         remote_str (resolve_link_target p target) = slash # join_with slash ws) \<and>
   resolve_link_target q (remote_str (resolve_link_target p target)) = resolve_link_target p target \<and>
   resolve_link_target p (slash # rest) = resolve_link_target q (slash # rest)"
proof -
  obtain s where s: "resolve_link_target p target = RemotePath (normalize_remote_path s)"
    unfolding resolve_link_target_def Let_def by (metis (full_types))
  have "resolve_link_target q (normalize_remote_path s) = RemotePath (normalize_remote_path s)"
    unfolding resolve_link_target_def using normalize_remote_path_idem[of s]
    by (simp add: normalize_remote_path_def[of s])
  then show ?thesis
    using s normalize_components_plain[of s]
    by (auto simp: normalize_remote_path_def[of s] resolve_link_target_def[of _ "slash # rest"])
qed

text \<open>
  join_then_parent: the parent of a path joined with an entry name is the path again, up to trailing
  slashes, for every path and every name that is not empty and holds no slash.
\<close>

theorem join_then_parent:
  assumes "name \<noteq> []" and "slash \<notin> set name"
  shows "remote_parent (remote_join (RemotePath p) name) =
    Some (RemotePath (let d = trim_end_matches slash p in if d = [] then [slash] else d))"
proof -
  have "trim_matches slash name = name" using assms(2) by (rule trim_matches_word)
  then show ?thesis
    using parent_path_join[OF assms(2,1), of "[]"] parent_path_join[OF assms(2,1), of "trim_end_matches slash p"]
    by (auto simp: join_path_component_def Let_def trim_end_matches_def)
qed

theorem join_then_parent_witness:
  "remote_parent (remote_join (RemotePath (lit ''/srv/data//'')) (lit ''a.txt'')) = Some (RemotePath (lit ''/srv/data''))"
proof -
  have "trim_end_matches slash (lit ''/srv/data//'') = lit ''/srv/data''" by code_simp
  moreover have "lit ''/srv/data'' \<noteq> []" by code_simp
  moreover have "lit ''a.txt'' \<noteq> []" "slash \<notin> set (lit ''a.txt'')" by code_simp+
  ultimately show ?thesis using join_then_parent[of "lit ''a.txt''" "lit ''/srv/data//''"] by (simp add: Let_def)
qed

text \<open>
  timestamp_roundtrip: a modification time written to disk and read back is the time cut to whole
  seconds, which is what the edit baseline compares, and cutting twice is cutting once.
\<close>

theorem timestamp_roundtrip:
  assumes "representable t"
  shows "deserialize_timestamp (serialize_timestamp t) = truncated_to_secs t \<and>
         from_secs_since_epoch (serialize_timestamp t) = Some (truncated_to_secs t) \<and>
         truncated_to_secs (truncated_to_secs t) = truncated_to_secs t"
  using timestamp_roundtrip_aux[OF assms] from_secs_truncated[OF assms] by (simp add: serialize_timestamp_def)

theorem timestamp_roundtrip_witness:
  "deserialize_timestamp (serialize_timestamp 1700000000123456789) = 1700000000000000000"
proof -
  have r: "representable 1700000000123456789" by (simp add: representable_def nanos_per_sec_def)
  show ?thesis
    using timestamp_roundtrip[OF r] by (simp add: truncated_to_secs_def secs_since_epoch_def nanos_per_sec_def)
qed

end
