(* ===== verification/Protocol.thy ===== *)
theory Protocol
  imports Paths
begin

text \<open>
  The messages between the user interface and the runtime (\<open>AppCommand\<close>, \<open>AppEvent\<close>), the data
  they carry (directory entries, transfer plans and jobs, prompts, edit snapshots), and the one
  classification point \<open>AppEvent::route\<close> that hands every event to its single owner.
\<close>

section \<open>Directory entries\<close>

datatype FileKind = File | Directory | Symlink | Other | Unknown

record RemoteEntry =
  re_name :: rstr
  re_path :: RemotePath
  re_kind :: FileKind
  re_size :: "u64 option"
  re_permissions :: "u32 option"
  re_modified_at :: "Timestamp option"
  re_link_target :: "RemotePath option"

record LocalEntry =
  le_name :: rstr
  le_path :: LocalPath
  le_kind :: FileKind
  le_size :: "u64 option"
  le_permissions :: "u32 option"
  le_modified_at :: "Timestamp option"
  le_link_target :: "LocalPath option"

datatype FileSortField = Name | Kind | Size | ModifiedAt

datatype SortDirection = Ascending | Descending

record FileSort =
  sort_field :: FileSortField
  sort_direction :: SortDirection
  directories_first :: bool

definition file_sort_default :: FileSort where
  "file_sort_default =
     \<lparr>sort_field = FileSortField.Name, sort_direction = Ascending, directories_first = True\<rparr>"

section \<open>Transfers\<close>

datatype TransferDirection = Upload | Download

datatype TransferEndpoint =
    Local LocalPath
  | Remote RemotePath

fun parent_directory :: "TransferEndpoint \<Rightarrow> TransferEndpoint option" where
  "parent_directory (TransferEndpoint.Local p) = map_option TransferEndpoint.Local (local_parent p)"
| "parent_directory (TransferEndpoint.Remote p) = map_option TransferEndpoint.Remote (remote_parent p)"

fun endpoint_as_str :: "TransferEndpoint \<Rightarrow> rstr" where
  "endpoint_as_str (TransferEndpoint.Local p) = local_str p"
| "endpoint_as_str (TransferEndpoint.Remote p) = remote_str p"

record MetadataPolicy =
  preserve_permissions :: bool
  preserve_mtime :: bool
  preserve_symlinks :: bool

definition metadata_policy_default :: MetadataPolicy where
  "metadata_policy_default =
     \<lparr>preserve_permissions = True, preserve_mtime = True, preserve_symlinks = True\<rparr>"

datatype RenameStrategy = AppendCopySuffix | ExplicitName rstr

datatype ConflictPolicy = Ask | OverwriteAll | SkipAll | RenameAll RenameStrategy

datatype ConflictDecision =
    Overwrite bool
  | Skip bool
  | Rename rstr bool
  | CancelJob

datatype TransferPlanState =
    Queued
  | Planning
  | Completed
  | Cancelled
  | Failed UserFacingError

datatype TransferState =
    Queued
  | Planning
  | WaitingForConflictDecision TransferPlanId ConflictRequestId
  | Running u64 "u64 option" Timestamp
  | Cancelling
  | Completed
  | Skipped
  | Failed UserFacingError bool

record TransferWarning =
  tw_transfer_id :: TransferId
  tw_code :: ErrorCode
  tw_message :: rstr
  tw_detail :: "rstr option"

record TransferJob =
  job_id :: TransferId
  job_direction :: TransferDirection
  job_source :: TransferEndpoint
  job_destination :: TransferEndpoint
  job_state :: TransferState
  job_metadata_policy :: MetadataPolicy
  job_conflict_policy :: ConflictPolicy
  job_warnings :: "TransferWarning list"
  job_created_at :: Timestamp

record TransferPlan =
  plan_id :: TransferPlanId
  plan_root_job_id :: TransferId
  plan_source_root :: TransferEndpoint
  plan_destination_root :: TransferEndpoint
  plan_state :: TransferPlanState
  plan_planned_count :: usize
  plan_total_bytes :: "u64 option"
  plan_child_jobs :: "TransferId list"
  plan_conflict_policy :: ConflictPolicy

record ResidualTempRecord =
  rt_connection_key :: rstr
  rt_direction :: TransferDirection
  rt_transfer_id :: TransferId
  rt_path :: rstr
  rt_created_at :: Timestamp

record TransferPlanSnapshot =
  tps_plan :: TransferPlan
  tps_root_job :: TransferJob

record TransferPlanProgress =
  tpp_plan_id :: TransferPlanId
  tpp_child_jobs :: "TransferJob list"
  tpp_planned_count :: usize
  tpp_total_bytes :: "u64 option"

record TransferProgress =
  tp_transfer_id :: TransferId
  tp_bytes_done :: u64
  tp_bytes_total :: "u64 option"

record TransferFailure =
  tf_transfer_id :: TransferId
  tf_error :: UserFacingError

record TransferConflictPrompt =
  tcp_request_id :: ConflictRequestId
  tcp_plan_id :: TransferPlanId
  tcp_transfer_id :: TransferId
  tcp_source :: TransferEndpoint
  tcp_destination :: TransferEndpoint
  tcp_source_size :: "u64 option"
  tcp_source_modified_at :: "Timestamp option"

record ConflictRequest =
  cr_id :: ConflictRequestId
  cr_plan_id :: TransferPlanId
  cr_transfer_id :: TransferId
  cr_source :: TransferEndpoint
  cr_destination :: TransferEndpoint
  cr_source_size :: "u64 option"
  cr_source_modified_at :: "Timestamp option"
  cr_detected_at :: Timestamp

definition conflict_request_new ::
  "ConflictRequestId \<Rightarrow> TransferPlanId \<Rightarrow> TransferId \<Rightarrow> TransferEndpoint \<Rightarrow> TransferEndpoint
   \<Rightarrow> Timestamp \<Rightarrow> ConflictRequest" where
  "conflict_request_new rid pid tid source destination detected_at =
     \<lparr>cr_id = rid, cr_plan_id = pid, cr_transfer_id = tid, cr_source = source,
      cr_destination = destination, cr_source_size = None, cr_source_modified_at = None,
      cr_detected_at = detected_at\<rparr>"

definition with_source_details ::
  "ConflictRequest \<Rightarrow> u64 option \<Rightarrow> Timestamp option \<Rightarrow> ConflictRequest" where
  "with_source_details c sz modified = c\<lparr>cr_source_size := sz, cr_source_modified_at := modified\<rparr>"

definition conflict_prompt :: "ConflictRequest \<Rightarrow> TransferConflictPrompt" where
  "conflict_prompt c =
     \<lparr>tcp_request_id = cr_id c, tcp_plan_id = cr_plan_id c, tcp_transfer_id = cr_transfer_id c,
      tcp_source = cr_source c, tcp_destination = cr_destination c,
      tcp_source_size = cr_source_size c, tcp_source_modified_at = cr_source_modified_at c\<rparr>"

section \<open>Scopes, prompts and session events\<close>

record RemoteEventScope =
  scope_tab_id :: TabId
  scope_session_id :: SessionId
  scope_session_epoch :: u64

datatype 'a RemoteScoped = RemoteScoped (rs_scope: RemoteEventScope) (rs_payload: 'a)

datatype DisconnectReason =
    UserRequested
  | RuntimeShutdown
  | ConnectionLost
  | Error UserFacingError

record HostKeyPrompt =
  hkp_request_id :: TrustRequestId
  hkp_tab_id :: TabId
  hkp_session_id :: SessionId
  hkp_session_epoch :: u64
  hkp_host :: rstr
  hkp_port :: u16
  hkp_algorithm :: rstr
  hkp_fingerprint_sha256 :: rstr

record TrustRequest =
  tr_id :: TrustRequestId
  tr_tab_id :: TabId
  tr_session_id :: SessionId
  tr_session_epoch :: u64
  tr_host :: rstr
  tr_port :: u16
  tr_algorithm :: rstr
  tr_fingerprint_sha256 :: rstr
  tr_expires_at :: Timestamp

definition trust_request_new ::
  "TrustRequestId \<Rightarrow> RemoteEventScope \<Rightarrow> rstr \<Rightarrow> u16 \<Rightarrow> rstr \<Rightarrow> rstr \<Rightarrow> Timestamp \<Rightarrow> TrustRequest" where
  "trust_request_new rid sc host port algorithm fingerprint expires_at =
     \<lparr>tr_id = rid, tr_tab_id = scope_tab_id sc, tr_session_id = scope_session_id sc,
      tr_session_epoch = scope_session_epoch sc, tr_host = host, tr_port = port,
      tr_algorithm = algorithm, tr_fingerprint_sha256 = fingerprint, tr_expires_at = expires_at\<rparr>"

definition trust_request_prompt :: "TrustRequest \<Rightarrow> HostKeyPrompt" where
  "trust_request_prompt r =
     \<lparr>hkp_request_id = tr_id r, hkp_tab_id = tr_tab_id r, hkp_session_id = tr_session_id r,
      hkp_session_epoch = tr_session_epoch r, hkp_host = tr_host r, hkp_port = tr_port r,
      hkp_algorithm = tr_algorithm r, hkp_fingerprint_sha256 = tr_fingerprint_sha256 r\<rparr>"

datatype TrustDecision = TrustAndSave | Reject | RequestExpired

record HostKeyMismatchInfo =
  hkm_scope :: RemoteEventScope
  hkm_host :: rstr
  hkm_port :: u16
  hkm_expected_fingerprint_sha256 :: "rstr option"
  hkm_actual_fingerprint_sha256 :: rstr

record KeyboardInteractivePromptField =
  kif_prompt :: rstr
  kif_echo :: bool

record KeyboardInteractivePrompt =
  kip_request_id :: KeyboardInteractiveRequestId
  kip_scope :: RemoteEventScope
  kip_name :: rstr
  kip_instruction :: rstr
  kip_prompts :: "KeyboardInteractivePromptField list"

record KeyboardInteractiveResponse =
  kir_request_id :: KeyboardInteractiveRequestId
  kir_responses :: "rstr list"

definition take_responses ::
  "KeyboardInteractiveResponse \<Rightarrow> rstr list \<times> KeyboardInteractiveResponse" where
  "take_responses r = (kir_responses r, r\<lparr>kir_responses := []\<rparr>)"

record RemoteDirSnapshot =
  rds_path :: RemotePath
  rds_entries :: "RemoteEntry list"

record RemoteEntryResolution =
  rer_path :: RemotePath
  rer_kind :: FileKind
  rer_target :: "RemotePath option"
  rer_size :: "u64 option"
  rer_modified_at :: "Timestamp option"
  rer_error :: "UserFacingError option"

record RemoteEntryResolveFailure =
  ref_tab_id :: TabId
  ref_session_epoch :: u64
  ref_path :: RemotePath
  ref_error :: UserFacingError

record RemoteOperationFailure =
  rof_operation :: rstr
  rof_path :: "RemotePath option"
  rof_error :: UserFacingError

section \<open>Edit snapshots\<close>

record RemoteSnapshot =
  snap_size :: "u64 option"
  snap_modified_at :: "Timestamp option"

definition snapshot_truncated_to_secs :: "RemoteSnapshot \<Rightarrow> RemoteSnapshot" where
  "snapshot_truncated_to_secs s =
     \<lparr>snap_size = snap_size s, snap_modified_at = map_option truncated_to_secs (snap_modified_at s)\<rparr>"

definition agrees_at_second_granularity :: "RemoteSnapshot \<Rightarrow> RemoteSnapshot \<Rightarrow> bool" where
  "agrees_at_second_granularity a b \<longleftrightarrow>
     snapshot_truncated_to_secs a = snapshot_truncated_to_secs b"

record RemoteEditSnapshotChecked =
  resc_edit_session_id :: EditSessionId
  resc_check_id :: EditCheckId
  resc_path :: RemotePath
  resc_snapshot :: RemoteSnapshot

record RemoteEditSnapshotCheckFailed =
  rescf_edit_session_id :: EditSessionId
  rescf_check_id :: EditCheckId
  rescf_path :: RemotePath
  rescf_error :: UserFacingError

record RemoteEditSnapshotDispatchFailed =
  resdf_tab_id :: TabId
  resdf_session_epoch :: u64
  resdf_edit_session_id :: EditSessionId
  resdf_check_id :: EditCheckId
  resdf_path :: RemotePath
  resdf_error :: UserFacingError

section \<open>Commands\<close>

record ConnectCommand =
  cc_tab_id :: TabId
  cc_session_id :: SessionId
  cc_session_epoch :: u64
  cc_profile_id :: ProfileId
  cc_pool_identity :: ConnectionPoolIdentity
  cc_settings :: ConnectionSettings

record StartTransferCommand =
  stc_tab_id :: TabId
  stc_session_epoch :: u64
  stc_profile_id :: ProfileId
  stc_direction :: TransferDirection
  stc_sources :: "TransferEndpoint list"
  stc_destination :: TransferEndpoint
  stc_metadata_policy :: MetadataPolicy
  stc_conflict_policy :: ConflictPolicy

record CheckRemoteEditSnapshotCommand =
  cre_tab_id :: TabId
  cre_session_epoch :: u64
  cre_edit_session_id :: EditSessionId
  cre_check_id :: EditCheckId
  cre_path :: RemotePath

record ConflictDecisionCommand =
  cdc_plan_id :: TransferPlanId
  cdc_request_id :: ConflictRequestId
  cdc_decision :: ConflictDecision

datatype AppCommand =
    CloseTab TabId
  | CloseTabs "TabId list"
  | ConnectTab ConnectCommand
  | DisconnectTab TabId
  | ReadRemoteDir TabId RemotePath
  | ResolveRemoteEntry TabId u64 RemotePath
  | RemoveRemoteTempFile TabId TransferId RemotePath
  | Fs FsCommand
  | StartTransfer StartTransferCommand
  | CheckRemoteEditSnapshot CheckRemoteEditSnapshotCommand
  | CancelTransfer TransferId "TransferPlanId option"
  | RetryTransfer TransferId
  | ResolveTransferConflict ConflictDecisionCommand
  | AcceptHostKey TrustRequestId
  | RejectHostKey TrustRequestId
  | RespondKeyboardInteractive KeyboardInteractiveResponse
  | CancelKeyboardInteractive KeyboardInteractiveRequestId
  | Shutdown

section \<open>Events\<close>

datatype AppEvent =
    TabConnecting TabId
  | HostKeyUnknown HostKeyPrompt
  | HostKeyMismatch HostKeyMismatchInfo
  | TabConnected "RemotePath RemoteScoped"
  | TabDisconnected "DisconnectReason RemoteScoped"
  | AuthFailed "UserFacingError RemoteScoped"
  | KeyboardInteractivePrompt KeyboardInteractivePrompt
  | RemoteDirLoading "RemotePath RemoteScoped"
  | RemoteDirLoaded "RemoteDirSnapshot RemoteScoped"
  | RemoteOperationFailed "RemoteOperationFailure RemoteScoped"
  | RemoteEntryResolved "RemoteEntryResolution RemoteScoped"
  | RemoteEntryResolveFailed RemoteEntryResolveFailure
  | FsOperationFailed FsScope UserFacingError
  | TransferPlanStarted TransferPlanSnapshot
  | TransferPlanProgress TransferPlanProgress
  | TransferPlanCompleted TransferPlanId
  | TransferPlanCancelled TransferPlanId
  | TransferPlanFailed TransferPlanId UserFacingError
  | TransferConflict TransferConflictPrompt
  | TransferRunning TransferJob
  | TransferProgress TransferProgress
  | TransferWarning TransferWarning
  | TransferCompleted TransferId
  | TransferSkipped TransferId
  | TransferFailed TransferFailure
  | ResidualTempCreated ResidualTempRecord
  | ResidualTempCleared TransferId rstr
  | RemoteEditSnapshotChecked "RemoteEditSnapshotChecked RemoteScoped"
  | RemoteEditSnapshotCheckFailed "RemoteEditSnapshotCheckFailed RemoteScoped"
  | RemoteEditSnapshotDispatchFailed RemoteEditSnapshotDispatchFailed
  | LocalEditModified EditSessionId rstr

datatype TransferEvent =
    PlanStarted TransferPlanSnapshot
  | PlanProgress TransferPlanProgress
  | PlanCompleted TransferPlanId
  | PlanCancelled TransferPlanId
  | PlanFailed TransferPlanId UserFacingError
  | Conflict TransferConflictPrompt
  | Running TransferJob
  | Progress TransferProgress
  | Warning TransferWarning
  | Completed TransferId
  | Skipped TransferId
  | Failed TransferFailure

datatype EditCheckEvent =
    Checked "RemoteEditSnapshotChecked RemoteScoped"
  | CheckFailed "RemoteEditSnapshotCheckFailed RemoteScoped"
  | DispatchFailed RemoteEditSnapshotDispatchFailed

datatype ProcessEvent =
    Transfer TransferEvent
  | EditCheck EditCheckEvent
  | ResidualTempCreated ResidualTempRecord
  | ResidualTempCleared TransferId rstr
  | LocalEditModified EditSessionId rstr

datatype WindowEvent =
    TabConnecting TabId
  | HostKeyUnknown HostKeyPrompt
  | HostKeyMismatch HostKeyMismatchInfo
  | TabConnected "RemotePath RemoteScoped"
  | TabDisconnected "DisconnectReason RemoteScoped"
  | AuthFailed "UserFacingError RemoteScoped"
  | KeyboardInteractivePrompt KeyboardInteractivePrompt
  | RemoteDirLoading "RemotePath RemoteScoped"
  | RemoteDirLoaded "RemoteDirSnapshot RemoteScoped"
  | RemoteOperationFailed "RemoteOperationFailure RemoteScoped"
  | RemoteEntryResolved "RemoteEntryResolution RemoteScoped"
  | RemoteEntryResolveFailed RemoteEntryResolveFailure
  | FsOperationFailed FsScope UserFacingError

datatype RoutedEvent =
    Process ProcessEvent
  | Window WindowEvent

end
