(* ===== verification/Rust_Sort.thy ===== *)
theory Rust_Sort
  imports Prelude "HOL-Library.Sorting_Algorithms"
begin

text \<open>
  \<open>std::cmp::Ordering\<close> and the stable \<open>slice::sort_by\<close>. \<open>Ordering\<close> is the library's
  \<open>comp\<close>; comparison functions that are total quasi-orders are its \<open>comparator\<close>s. The lemmas show
  that the combinators the sources use (\<open>then_with\<close>, \<open>reverse\<close>, comparing by a key) build
  comparators from comparators, and that the sort of the model is the library's stable sort.
\<close>

definition ord_cmp :: "'a::linorder \<Rightarrow> 'a \<Rightarrow> comp" where
  "ord_cmp a b = (if a < b then Less else if b < a then Greater else Equiv)"

fun then_with :: "comp \<Rightarrow> comp \<Rightarrow> comp" where
  "then_with Equiv c = c"
| "then_with Less _ = Less"
| "then_with Greater _ = Greater"

fun reverse_ordering :: "comp \<Rightarrow> comp" where
  "reverse_ordering Less = Greater"
| "reverse_ordering Equiv = Equiv"
| "reverse_ordering Greater = Less"

fun option_cmp :: "('a \<Rightarrow> 'a \<Rightarrow> comp) \<Rightarrow> 'a option \<Rightarrow> 'a option \<Rightarrow> comp" where
  "option_cmp cmp None None = Equiv"
| "option_cmp cmp None (Some _) = Less"
| "option_cmp cmp (Some _) None = Greater"
| "option_cmp cmp (Some a) (Some b) = cmp a b"

fun iter_cmp :: "('a \<Rightarrow> 'a \<Rightarrow> comp) \<Rightarrow> 'a list \<Rightarrow> 'a list \<Rightarrow> comp" where
  "iter_cmp cmp [] [] = Equiv"
| "iter_cmp cmp [] (_ # _) = Less"
| "iter_cmp cmp (_ # _) [] = Greater"
| "iter_cmp cmp (a # as) (b # bs) = then_with (cmp a b) (iter_cmp cmp as bs)"

definition str_cmp :: "rstr \<Rightarrow> rstr \<Rightarrow> comp" where
  "str_cmp a b = iter_cmp ord_cmp a b"

primrec insort_by :: "('a \<Rightarrow> 'a \<Rightarrow> comp) \<Rightarrow> 'a \<Rightarrow> 'a list \<Rightarrow> 'a list" where
  "insort_by cmp y [] = [y]"
| "insort_by cmp y (x # xs) = (if cmp y x \<noteq> Greater then y # x # xs else x # insort_by cmp y xs)"

definition sort_by :: "('a \<Rightarrow> 'a \<Rightarrow> comp) \<Rightarrow> 'a list \<Rightarrow> 'a list" where
  "sort_by cmp xs = foldr (insort_by cmp) xs []"

subsection \<open>Comparators from comparators\<close>

lemma then_with_eq_Equiv [simp]: "then_with c d = Equiv \<longleftrightarrow> c = Equiv \<and> d = Equiv"
  by (cases c) auto

lemma then_with_eq_Less: "then_with c d = Less \<longleftrightarrow> c = Less \<or> c = Equiv \<and> d = Less"
  by (cases c) auto

lemma then_with_eq_Greater: "then_with c d = Greater \<longleftrightarrow> c = Greater \<or> c = Equiv \<and> d = Greater"
  by (cases c) auto

lemma comparator_ord_cmp: "comparator (ord_cmp :: 'a::linorder \<Rightarrow> 'a \<Rightarrow> comp)"
  by unfold_locales (auto simp: ord_cmp_def split: if_splits)

lemma comparator_by_key: "comparator cmp \<Longrightarrow> comparator (\<lambda>a b. cmp (f a) (f b))"
  by (rule comparator.intro)
     (auto dest: comparator.refl comparator.trans_equiv comparator.trans_less
        comparator.greater_iff_sym_less)

lemma comparator_then_with:
  assumes f: "comparator f" and g: "comparator g"
  shows "comparator (\<lambda>a b. then_with (f a b) (g a b))"
proof
  fix a show "then_with (f a a) (g a a) = Equiv"
    by (simp add: comparator.refl[OF f] comparator.refl[OF g])
next
  fix a b c assume "then_with (f a b) (g a b) = Equiv" "then_with (f b c) (g b c) = Equiv"
  then show "then_with (f a c) (g a c) = Equiv"
    using comparator.trans_equiv[OF f] comparator.trans_equiv[OF g] by auto
next
  fix a b c assume "then_with (f a b) (g a b) = Less" "then_with (f b c) (g b c) = Less"
  then show "then_with (f a c) (g a c) = Less"
    using comparator.trans_less[OF f] comparator.trans_less[OF g]
      comparator.trans_less_equiv[OF f] comparator.trans_equiv_less[OF f]
      comparator.trans_equiv[OF f]
    unfolding then_with_eq_Less by metis
next
  fix a b show "then_with (f b a) (g b a) = Greater \<longleftrightarrow> then_with (f a b) (g a b) = Less"
    by (simp add: then_with_eq_Less then_with_eq_Greater comparator.greater_iff_sym_less[OF f]
        comparator.greater_iff_sym_less[OF g] comparator.sym[OF f])
qed

lemma reverse_ordering_eq [simp]:
  "reverse_ordering c = Equiv \<longleftrightarrow> c = Equiv"
  "reverse_ordering c = Less \<longleftrightarrow> c = Greater"
  "reverse_ordering c = Greater \<longleftrightarrow> c = Less"
  by (cases c; simp)+

lemma comparator_reverse:
  assumes "comparator f"
  shows "comparator (\<lambda>a b. reverse_ordering (f a b))"
  by unfold_locales
     (auto simp: comparator.refl[OF assms] comparator.greater_iff_sym_less[OF assms]
       intro: comparator.trans_equiv[OF assms] comparator.trans_less[OF assms])

lemma comparator_option_cmp:
  assumes "comparator cmp"
  shows "comparator (option_cmp cmp)"
proof
  show "option_cmp cmp a a = Equiv" for a
    by (cases a) (simp_all add: comparator.refl[OF assms])
  show "option_cmp cmp a c = Equiv" if "option_cmp cmp a b = Equiv" "option_cmp cmp b c = Equiv" for a b c
    using that by (cases a; cases b; cases c) (auto intro: comparator.trans_equiv[OF assms])
  show "option_cmp cmp a c = Less" if "option_cmp cmp a b = Less" "option_cmp cmp b c = Less" for a b c
    using that by (cases a; cases b; cases c) (auto intro: comparator.trans_less[OF assms])
  show "option_cmp cmp b a = Greater \<longleftrightarrow> option_cmp cmp a b = Less" for a b
    by (cases a; cases b) (auto simp: comparator.greater_iff_sym_less[OF assms])
qed

lemma comparator_iter_cmp:
  assumes "comparator cmp"
  shows "comparator (iter_cmp cmp)"
proof
  show "iter_cmp cmp a a = Equiv" for a
    by (induction a) (simp_all add: comparator.refl[OF assms])
  show "iter_cmp cmp a c = Equiv" if "iter_cmp cmp a b = Equiv" "iter_cmp cmp b c = Equiv" for a b c
    using that
  proof (induction a arbitrary: b c)
    case Nil
    then show ?case by (cases b; cases c) auto
  next
    case (Cons x xs)
    then show ?case by (cases b; cases c) (auto intro: comparator.trans_equiv[OF assms])
  qed
  show "iter_cmp cmp a c = Less" if "iter_cmp cmp a b = Less" "iter_cmp cmp b c = Less" for a b c
    using that
  proof (induction a arbitrary: b c)
    case Nil
    then show ?case by (cases b; cases c) auto
  next
    case (Cons x xs)
    then obtain y ys z zs where [simp]: "b = y # ys" "c = z # zs" by (cases b; cases c) auto
    from Cons.prems Cons.IH[of ys zs] show ?case
      by (auto simp: then_with_eq_Less intro: comparator.trans_less[OF assms]
          comparator.trans_equiv[OF assms] comparator.trans_less_equiv[OF assms]
          comparator.trans_equiv_less[OF assms])
  qed
  show "iter_cmp cmp b a = Greater \<longleftrightarrow> iter_cmp cmp a b = Less" for a b
  proof (induction a arbitrary: b)
    case Nil
    then show ?case by (cases b) auto
  next
    case (Cons x xs)
    then show ?case
      by (cases b) (auto simp: then_with_eq_Less then_with_eq_Greater
          comparator.greater_iff_sym_less[OF assms] comparator.sym[OF assms])
  qed
qed

lemma iter_cmp_Equiv_iff: "iter_cmp ord_cmp a b = Equiv \<longleftrightarrow> a = (b :: 'a::linorder list)"
proof (induction a arbitrary: b)
  case Nil
  then show ?case by (cases b) auto
next
  case (Cons x xs)
  then show ?case by (cases b) (auto simp: ord_cmp_def)
qed

lemma comparator_str_cmp: "comparator str_cmp"
  unfolding str_cmp_def [abs_def] by (rule comparator_iter_cmp [OF comparator_ord_cmp])

lemma str_cmp_Equiv_iff [simp]: "str_cmp a b = Equiv \<longleftrightarrow> a = b"
  by (simp add: str_cmp_def iter_cmp_Equiv_iff)

lemmas comparator_intros = comparator_then_with comparator_reverse comparator_option_cmp
  comparator_iter_cmp comparator_str_cmp comparator_ord_cmp

subsection \<open>The stable sort\<close>

lemma insort_by_eq: "comparator cmp \<Longrightarrow> insort_by cmp x xs = insort (Abs_comparator cmp) x xs"
  by (induction xs) (auto simp: Abs_comparator_inverse)

lemma sort_by_eq: "comparator cmp \<Longrightarrow> sort_by cmp xs = sort (Abs_comparator cmp) xs"
  unfolding sort_by_def by (induction xs) (auto simp: insort_by_eq)

lemma mset_sort_by [simp]: "mset (sort_by cmp xs) = mset xs"
proof -
  have "mset (insort_by cmp x ys) = add_mset x (mset ys)" for x ys
    by (induction ys) auto
  then show ?thesis by (induction xs) (auto simp: sort_by_def)
qed

lemma set_sort_by [simp]: "set (sort_by cmp xs) = set xs"
  by (metis mset_sort_by set_mset_mset)

lemma sorted_wrt_sort_by:
  assumes "comparator cmp"
  shows "sorted_wrt (\<lambda>a b. cmp a b \<noteq> Greater) (sort_by cmp xs)"
proof -
  have "sorted_wrt (\<lambda>a b. cmp a b \<noteq> Greater) ys"
    if "Sorting_Algorithms.sorted (Abs_comparator cmp) ys" for ys
    using that
  proof (induction ys)
    case (Cons y ys)
    then show ?case
      using sorted_Cons_imp_not_less[of "Abs_comparator cmp" y ys] assms
      by (auto simp: Abs_comparator_inverse dest: sorted_Cons_imp_sorted)
  qed simp
  then show ?thesis by (simp add: sort_by_eq[OF assms])
qed

lemma sort_by_stable:
  assumes "comparator cmp"
  shows "filter (\<lambda>y. cmp x y = Equiv) (sort_by cmp xs) = filter (\<lambda>y. cmp x y = Equiv) xs"
  using stable_sort[of "Abs_comparator cmp" x xs] assms
  by (simp add: sort_by_eq Abs_comparator_inverse)

text \<open>Where equivalent elements of the input are equal, the result depends on its multiset only.\<close>

lemma sort_by_canonical:
  assumes "comparator cmp" and "mset xs = mset ys"
    and "\<And>x y. x \<in> set xs \<Longrightarrow> y \<in> set xs \<Longrightarrow> cmp x y = Equiv \<Longrightarrow> x = y"
  shows "sort_by cmp xs = sort_by cmp ys"
proof -
  have sety: "set ys = set xs" using assms(2) by (metis set_mset_mset)
  have "filter (\<lambda>b. cmp a b = Equiv) zs = filter ((=) a) zs"
    if "a \<in> set xs" "set zs = set xs" for a zs
    using that assms(3) comparator.refl[OF assms(1)] by (intro filter_cong) auto
  moreover have "filter ((=) a) xs = filter ((=) a) (sort (Abs_comparator cmp) ys)" for a
    using assms(2) by (simp add: replicate_count_mset_eq_filter_eq [symmetric])
  ultimately have "sort (Abs_comparator cmp) xs = sort (Abs_comparator cmp) ys"
    using assms(1,2) sety by (intro sort_eqI) (auto simp: Abs_comparator_inverse)
  then show ?thesis by (simp add: sort_by_eq[OF assms(1)])
qed

end
