(* ===== verification/File_Sort.thy ===== *)
theory File_Sort
  imports Protocol Rust_Sort
begin

text \<open>
  Sorting of directory listings (\<open>sort_entries\<close>, \<open>compare_entries\<close>, \<open>compare_names\<close>). The trait
  \<open>FileEntryFields\<close> is the record of its accessors, with the instances for local and remote
  entries. \<open>char::to_lowercase\<close> is a table of the standard library and stays a parameter
  \<open>lower\<close>; the one fact used of it is its documented value on ASCII characters.
\<close>

record 'e FileEntryFields =
  entry_name :: "'e \<Rightarrow> rstr"
  entry_kind :: "'e \<Rightarrow> FileKind"
  entry_size :: "'e \<Rightarrow> u64 option"
  entry_modified_at :: "'e \<Rightarrow> Timestamp option"
  entry_path_str :: "'e \<Rightarrow> rstr"

definition local_entry_fields :: "LocalEntry FileEntryFields" where
  "local_entry_fields =
     \<lparr>entry_name = le_name, entry_kind = le_kind, entry_size = le_size,
      entry_modified_at = le_modified_at, entry_path_str = (\<lambda>e. local_str (le_path e))\<rparr>"

definition remote_entry_fields :: "RemoteEntry FileEntryFields" where
  "remote_entry_fields =
     \<lparr>entry_name = re_name, entry_kind = re_kind, entry_size = re_size,
      entry_modified_at = re_modified_at, entry_path_str = (\<lambda>e. remote_str (re_path e))\<rparr>"

definition is_ascii :: "rstr \<Rightarrow> bool" where
  "is_ascii s \<longleftrightarrow> list_all (\<lambda>c. c < 128) s"

definition to_ascii_lowercase :: "rchar \<Rightarrow> rchar" where
  "to_ascii_lowercase c = (if 65 \<le> c \<and> c \<le> 90 then c + 32 else c)"

definition flat_lowercase :: "(rchar \<Rightarrow> rstr) \<Rightarrow> rstr \<Rightarrow> rstr" where
  "flat_lowercase lower s = concat (map lower s)"

definition compare_names :: "(rchar \<Rightarrow> rstr) \<Rightarrow> rstr \<Rightarrow> rstr \<Rightarrow> comp" where
  "compare_names lower a b =
     (if is_ascii a \<and> is_ascii b
      then then_with (iter_cmp ord_cmp (map to_ascii_lowercase a) (map to_ascii_lowercase b))
             (str_cmp a b)
      else then_with (iter_cmp ord_cmp (flat_lowercase lower a) (flat_lowercase lower b))
             (str_cmp a b))"

fun kind_rank :: "FileKind \<Rightarrow> nat" where
  "kind_rank FileKind.Directory = 0"
| "kind_rank FileKind.File = 1"
| "kind_rank FileKind.Symlink = 2"
| "kind_rank FileKind.Other = 3"
| "kind_rank FileKind.Unknown = 4"

fun field_ordering ::
  "(rchar \<Rightarrow> rstr) \<Rightarrow> 'e FileEntryFields \<Rightarrow> FileSortField \<Rightarrow> 'e \<Rightarrow> 'e \<Rightarrow> comp" where
  "field_ordering lower F FileSortField.Name a b =
     compare_names lower (entry_name F a) (entry_name F b)"
| "field_ordering lower F FileSortField.Kind a b =
     then_with (ord_cmp (kind_rank (entry_kind F a)) (kind_rank (entry_kind F b)))
       (compare_names lower (entry_name F a) (entry_name F b))"
| "field_ordering lower F FileSortField.Size a b =
     then_with (option_cmp ord_cmp (entry_size F a) (entry_size F b))
       (compare_names lower (entry_name F a) (entry_name F b))"
| "field_ordering lower F FileSortField.ModifiedAt a b =
     then_with (option_cmp ord_cmp (entry_modified_at F a) (entry_modified_at F b))
       (compare_names lower (entry_name F a) (entry_name F b))"

definition compare_entries ::
  "(rchar \<Rightarrow> rstr) \<Rightarrow> 'e FileEntryFields \<Rightarrow> FileSort \<Rightarrow> 'e \<Rightarrow> 'e \<Rightarrow> comp" where
  "compare_entries lower F srt a b =
     (let a_is_dir = (entry_kind F a = FileKind.Directory);
          b_is_dir = (entry_kind F b = FileKind.Directory);
          field = field_ordering lower F (sort_field srt) a b;
          directed = (case sort_direction srt of
                        Ascending \<Rightarrow> field
                      | Descending \<Rightarrow> reverse_ordering field)
      in if directories_first srt \<and> a_is_dir \<and> \<not> b_is_dir then Less
         else if directories_first srt \<and> \<not> a_is_dir \<and> b_is_dir then Greater
         else then_with directed (str_cmp (entry_path_str F a) (entry_path_str F b)))"

definition sort_entries ::
  "(rchar \<Rightarrow> rstr) \<Rightarrow> 'e FileEntryFields \<Rightarrow> FileSort \<Rightarrow> 'e list \<Rightarrow> 'e list" where
  "sort_entries lower F srt entries = sort_by (compare_entries lower F srt) entries"

text \<open>What the standard library documents of \<open>char::to_lowercase\<close> on ASCII characters.\<close>

definition lower_on_ascii :: "(rchar \<Rightarrow> rstr) \<Rightarrow> bool" where
  "lower_on_ascii lower \<longleftrightarrow> (\<forall>c < 128. lower c = [to_ascii_lowercase c])"

section \<open>The comparison is a total order on paths\<close>

lemma flat_lowercase_ascii:
  "lower_on_ascii lower \<Longrightarrow> is_ascii s \<Longrightarrow> flat_lowercase lower s = map to_ascii_lowercase s"
  by (induction s) (auto simp: lower_on_ascii_def is_ascii_def flat_lowercase_def)

lemma compare_names_slow_path:
  "lower_on_ascii lower \<Longrightarrow>
   compare_names lower a b =
     then_with (iter_cmp ord_cmp (flat_lowercase lower a) (flat_lowercase lower b)) (str_cmp a b)"
  by (simp add: compare_names_def flat_lowercase_ascii)

lemma comparator_compare_names:
  assumes "lower_on_ascii lower"
  shows "comparator (compare_names lower)"
proof -
  have "comparator (\<lambda>a b. then_with
      (iter_cmp ord_cmp (flat_lowercase lower a) (flat_lowercase lower b)) (str_cmp a b))"
    by (intro comparator_then_with comparator_str_cmp
        comparator_by_key[where f = "flat_lowercase lower"] comparator_iter_cmp comparator_ord_cmp)
  then show ?thesis
    by (simp add: compare_names_slow_path[OF assms, abs_def])
qed

lemma comparator_field_ordering:
  assumes "lower_on_ascii lower"
  shows "comparator (field_ordering lower F field)"
proof -
  have n: "comparator (\<lambda>a b. compare_names lower (entry_name F a) (entry_name F b))"
    by (rule comparator_by_key) (rule comparator_compare_names[OF assms])
  note k = comparator_by_key[OF comparator_ord_cmp] comparator_by_key[OF comparator_option_cmp[OF comparator_ord_cmp]]
  have "comparator (\<lambda>a b. field_ordering lower F field a b)"
    by (cases field) (simp_all add: n comparator_then_with[OF k(1) n] comparator_then_with[OF k(2) n])
  then show ?thesis by simp
qed

definition not_dir_key :: "'e FileEntryFields \<Rightarrow> FileSort \<Rightarrow> 'e \<Rightarrow> bool" where
  "not_dir_key F srt e \<longleftrightarrow> directories_first srt \<and> entry_kind F e \<noteq> FileKind.Directory"

lemma compare_entries_layers:
  "compare_entries lower F srt a b =
     then_with (ord_cmp (not_dir_key F srt a) (not_dir_key F srt b))
       (then_with (case sort_direction srt of
            Ascending \<Rightarrow> field_ordering lower F (sort_field srt) a b
          | Descending \<Rightarrow> reverse_ordering (field_ordering lower F (sort_field srt) a b))
         (str_cmp (entry_path_str F a) (entry_path_str F b)))"
  by (auto simp: compare_entries_def Let_def ord_cmp_def not_dir_key_def)

lemma comparator_compare_entries:
  assumes "lower_on_ascii lower"
  shows "comparator (compare_entries lower F srt)"
proof -
  have f: "comparator (\<lambda>a b. case sort_direction srt of
            Ascending \<Rightarrow> field_ordering lower F (sort_field srt) a b
          | Descending \<Rightarrow> reverse_ordering (field_ordering lower F (sort_field srt) a b))"
    using comparator_field_ordering[OF assms, of F "sort_field srt"]
    by (cases "sort_direction srt") (simp_all add: comparator_reverse)
  have "comparator (\<lambda>a b. compare_entries lower F srt a b)"
    unfolding compare_entries_layers
    by (intro comparator_then_with f comparator_by_key[OF comparator_ord_cmp]
        comparator_by_key[OF comparator_str_cmp])
  then show ?thesis by simp
qed

lemma compare_entries_Equiv_path:
  "compare_entries lower F srt a b = Equiv \<Longrightarrow> entry_path_str F a = entry_path_str F b"
  by (simp add: compare_entries_layers)

text \<open>
  sort_entries_canonical: the listing a pane shows depends only on which entries it has. For
  entries with distinct paths, sorting any two arrangements of them gives the same list, in either
  direction and by any field, so a re-sort or a reload never shuffles equal keys. The hypothesis on
  the lower-casing table is its value on ASCII characters.
\<close>

theorem sort_entries_canonical:
  assumes "lower_on_ascii lower" and "mset xs = mset ys"
    and "distinct (map (entry_path_str F) xs)"
  shows "sort_entries lower F srt xs = sort_entries lower F srt ys"
  unfolding sort_entries_def
proof (rule sort_by_canonical)
  show "comparator (compare_entries lower F srt)"
    by (rule comparator_compare_entries) (rule assms(1))
  show "mset xs = mset ys" by (rule assms(2))
  fix x y assume "x \<in> set xs" "y \<in> set xs" "compare_entries lower F srt x y = Equiv"
  then show "x = y"
    using assms(3) by (auto simp: distinct_map inj_on_def dest: compare_entries_Equiv_path)
qed

definition ascii_table :: "rchar \<Rightarrow> rstr" where
  "ascii_table c = [to_ascii_lowercase c]"

definition sample_entry :: "string \<Rightarrow> FileKind \<Rightarrow> RemoteEntry" where
  "sample_entry n k =
     \<lparr>re_name = lit n, re_path = RemotePath (lit (CHR ''/'' # n)), re_kind = k, re_size = None,
      re_permissions = None, re_modified_at = None, re_link_target = None\<rparr>"

lemma ascii_table_lower: "lower_on_ascii ascii_table"
  by (simp add: lower_on_ascii_def ascii_table_def)

theorem sort_entries_canonical_witness:
  "sort_entries ascii_table remote_entry_fields file_sort_default
     [sample_entry ''b'' FileKind.File, sample_entry ''A'' FileKind.File, sample_entry ''z'' FileKind.Directory]
   = sort_entries ascii_table remote_entry_fields file_sort_default
     [sample_entry ''z'' FileKind.Directory, sample_entry ''b'' FileKind.File, sample_entry ''A'' FileKind.File]"
  by (rule sort_entries_canonical[OF ascii_table_lower])
     (simp_all add: sample_entry_def remote_entry_fields_def lit_def)

text \<open>
  sort_entries_ordered: sorting keeps exactly the entries it was given, and whenever
  directories come first, no directory is placed after an entry of another kind.
\<close>

theorem sort_entries_ordered:
  assumes "lower_on_ascii lower"
  shows "mset (sort_entries lower F srt xs) = mset xs \<and>
         sorted_wrt (\<lambda>a b. compare_entries lower F srt a b \<noteq> Greater) (sort_entries lower F srt xs) \<and>
         (directories_first srt \<longrightarrow>
          sorted_wrt (\<lambda>a b. entry_kind F b = FileKind.Directory \<longrightarrow> entry_kind F a = FileKind.Directory)
            (sort_entries lower F srt xs))"
proof -
  have s: "sorted_wrt (\<lambda>a b. compare_entries lower F srt a b \<noteq> Greater) (sort_entries lower F srt xs)"
    unfolding sort_entries_def by (rule sorted_wrt_sort_by[OF comparator_compare_entries[OF assms]])
  moreover have "sorted_wrt (\<lambda>a b. entry_kind F b = FileKind.Directory \<longrightarrow> entry_kind F a = FileKind.Directory)
      (sort_entries lower F srt xs)" if "directories_first srt"
    using s by (rule sorted_wrt_mono_rel[rotated]) (use that in \<open>auto simp: compare_entries_def Let_def split: if_splits\<close>)
  ultimately show ?thesis by (simp add: sort_entries_def)
qed

theorem sort_entries_ordered_witness:
  "mset (sort_entries ascii_table remote_entry_fields file_sort_default
      [sample_entry ''b'' FileKind.File, sample_entry ''z'' FileKind.Directory])
   = mset [sample_entry ''b'' FileKind.File, sample_entry ''z'' FileKind.Directory]"
  using sort_entries_ordered[OF ascii_table_lower] by blast

end
