(* ===== verification/Tab_State.thy ===== *)
theory Tab_State
  imports Protocol
begin

text \<open>
  One connection tab: its connection state machine with the session epoch that makes events of an
  older session stale (\<open>TabState\<close>, \<open>ConnectionState\<close>), the generation guard of local directory
  reads (\<open>LocalPaneState\<close>) and the back and forward stacks of a pane (\<open>PaneNavHistory\<close>).
\<close>

section \<open>Navigation history\<close>

datatype HistoryOp = Push | Replace | Back | Forward

record PaneNavHistory =
  nav_back :: "rstr list"
  nav_forward :: "rstr list"

definition nav_default :: PaneNavHistory where
  "nav_default = \<lparr>nav_back = [], nav_forward = []\<rparr>"

definition NAV_MAX :: nat where
  "NAV_MAX = 50"

definition push_navigating_from :: "PaneNavHistory \<Rightarrow> rstr option \<Rightarrow> rstr \<Rightarrow> PaneNavHistory" where
  "push_navigating_from h from to =
     (case from of
        None \<Rightarrow> h
      | Some f \<Rightarrow>
          if f = to then h
          else let back = nav_back h @ [f]
               in \<lparr>nav_back = (if length back > NAV_MAX then drop (length back - NAV_MAX) back else back),
                   nav_forward = []\<rparr>)"

definition go_back :: "PaneNavHistory \<Rightarrow> rstr \<Rightarrow> PaneNavHistory \<times> rstr option" where
  "go_back h current =
     (if nav_back h = [] then (h, None)
      else (\<lparr>nav_back = butlast (nav_back h), nav_forward = nav_forward h @ [current]\<rparr>,
            Some (last (nav_back h))))"

definition go_forward :: "PaneNavHistory \<Rightarrow> rstr \<Rightarrow> PaneNavHistory \<times> rstr option" where
  "go_forward h current =
     (if nav_forward h = [] then (h, None)
      else (\<lparr>nav_back = nav_back h @ [current], nav_forward = butlast (nav_forward h)\<rparr>,
            Some (last (nav_forward h))))"

definition can_back :: "PaneNavHistory \<Rightarrow> bool" where
  "can_back h \<longleftrightarrow> nav_back h \<noteq> []"

definition can_forward :: "PaneNavHistory \<Rightarrow> bool" where
  "can_forward h \<longleftrightarrow> nav_forward h \<noteq> []"

record TabNavState =
  tabnav_local :: PaneNavHistory
  tabnav_remote :: PaneNavHistory

section \<open>Panes\<close>

record LocalPaneState =
  lp_path :: "LocalPath option"
  lp_entries :: "LocalEntry list"
  lp_error :: "UserFacingError option"
  lp_read_epoch :: u64

abbreviation u64_MAX :: u64 where
  "u64_MAX \<equiv> - 1"

definition saturating_add_one :: "u64 \<Rightarrow> u64" where
  "saturating_add_one x = (if x = u64_MAX then u64_MAX else x + 1)"

definition begin_local_read :: "LocalPaneState \<Rightarrow> LocalPaneState \<times> u64" where
  "begin_local_read p =
     (let epoch = saturating_add_one (lp_read_epoch p) in (p\<lparr>lp_read_epoch := epoch\<rparr>, epoch))"

definition accepts_local_result :: "LocalPaneState \<Rightarrow> u64 \<Rightarrow> LocalPath \<Rightarrow> bool" where
  "accepts_local_result p request_epoch requested_path \<longleftrightarrow>
     lp_read_epoch p = request_epoch \<and> lp_path p = Some requested_path"

record RemotePaneState =
  rp_path :: "RemotePath option"
  rp_entries :: "RemoteEntry list"
  rp_is_refreshing :: bool
  rp_error :: "UserFacingError option"

section \<open>The connection state machine\<close>

datatype ConnectionState =
    Empty
  | Connecting SessionId u64
  | AwaitingHostKey SessionId u64 TrustRequestId
  | Connected SessionId u64 Timestamp
  | Reconnecting SessionId SessionId u64
  | Disconnected DisconnectReason
  | Failed UserFacingError

fun matches_session :: "ConnectionState \<Rightarrow> SessionId \<Rightarrow> u64 \<Rightarrow> bool" where
  "matches_session (ConnectionState.Connected s e _) sid epoch \<longleftrightarrow> s = sid \<and> e = epoch"
| "matches_session (ConnectionState.Connecting s e) sid epoch \<longleftrightarrow> s = sid \<and> e = epoch"
| "matches_session (ConnectionState.AwaitingHostKey s e _) sid epoch \<longleftrightarrow> s = sid \<and> e = epoch"
| "matches_session (ConnectionState.Reconnecting s _ e) sid epoch \<longleftrightarrow> s = sid \<and> e = epoch"
| "matches_session _ sid epoch \<longleftrightarrow> False"

record RestoredTabTarget =
  rtt_host :: rstr
  rtt_port :: u16
  rtt_username :: rstr
  rtt_profile_id :: "ProfileId option"
  rtt_remote_path :: "RemotePath option"

record TabState =
  tab_id :: TabId
  tab_session_epoch :: u64
  tab_title :: rstr
  tab_profile_id :: "ProfileId option"
  tab_local :: LocalPaneState
  tab_remote :: RemotePaneState
  tab_connection :: ConnectionState
  tab_sort :: FileSort
  tab_selection :: "EntryPath list"
  tab_connection_settings :: "ConnectionSettings option"
  tab_connection_key :: "ConnectionKey option"
  tab_nav :: TabNavState
  tab_restored_target :: "RestoredTabTarget option"

definition tab_new :: "TabId \<Rightarrow> rstr \<Rightarrow> TabState" where
  "tab_new tab title =
     \<lparr>tab_id = tab, tab_session_epoch = 0, tab_title = title, tab_profile_id = None,
      tab_local = \<lparr>lp_path = None, lp_entries = [], lp_error = None, lp_read_epoch = 0\<rparr>,
      tab_remote = \<lparr>rp_path = None, rp_entries = [], rp_is_refreshing = False, rp_error = None\<rparr>,
      tab_connection = ConnectionState.Empty, tab_sort = file_sort_default, tab_selection = [],
      tab_connection_settings = None, tab_connection_key = None,
      tab_nav = \<lparr>tabnav_local = nav_default, tabnav_remote = nav_default\<rparr>,
      tab_restored_target = None\<rparr>"

definition tab_accepts_remote_event :: "TabState \<Rightarrow> RemoteEventScope \<Rightarrow> bool" where
  "tab_accepts_remote_event t scope \<longleftrightarrow>
     tab_id t = scope_tab_id scope \<and>
     tab_session_epoch t = scope_session_epoch scope \<and>
     matches_session (tab_connection t) (scope_session_id scope) (scope_session_epoch scope)"

definition begin_connect :: "TabState \<Rightarrow> SessionId \<Rightarrow> TabState" where
  "begin_connect t sid =
     (let epoch = tab_session_epoch t + 1
      in t\<lparr>tab_session_epoch := epoch, tab_connection := ConnectionState.Connecting sid epoch\<rparr>)"

definition await_host_key :: "TabState \<Rightarrow> SessionId \<Rightarrow> TrustRequestId \<Rightarrow> TabState" where
  "await_host_key t sid rid =
     t\<lparr>tab_connection := ConnectionState.AwaitingHostKey sid (tab_session_epoch t) rid\<rparr>"

definition complete_connect :: "TabState \<Rightarrow> SessionId \<Rightarrow> Timestamp \<Rightarrow> TabState" where
  "complete_connect t sid connected_at =
     t\<lparr>tab_connection := ConnectionState.Connected sid (tab_session_epoch t) connected_at\<rparr>"

definition begin_reconnect :: "TabState \<Rightarrow> SessionId \<Rightarrow> TabState" where
  "begin_reconnect t sid =
     (let previous = (case tab_connection t of
                        ConnectionState.Connected s _ _ \<Rightarrow> s
                      | ConnectionState.Disconnected _ \<Rightarrow> SessionId 0
                      | _ \<Rightarrow> SessionId 0);
          epoch = tab_session_epoch t + 1
      in t\<lparr>tab_session_epoch := epoch,
           tab_connection := ConnectionState.Reconnecting sid previous epoch\<rparr>)"

definition disconnect :: "TabState \<Rightarrow> DisconnectReason \<Rightarrow> TabState" where
  "disconnect t reason = t\<lparr>tab_connection := ConnectionState.Disconnected reason\<rparr>"

definition fail :: "TabState \<Rightarrow> UserFacingError \<Rightarrow> TabState" where
  "fail t error = t\<lparr>tab_connection := ConnectionState.Failed error\<rparr>"

lemmas tab_transition_defs [store_defs] =
  begin_connect_def await_host_key_def complete_connect_def begin_reconnect_def
  disconnect_def fail_def

section \<open>The transitions as one step function\<close>

datatype TabTransition =
    BeginConnect SessionId
  | AwaitHostKey SessionId TrustRequestId
  | CompleteConnect SessionId Timestamp
  | BeginReconnect SessionId
  | Disconnect DisconnectReason
  | Fail UserFacingError

fun tab_step :: "TabState \<Rightarrow> TabTransition \<Rightarrow> TabState" where
  "tab_step t (BeginConnect sid) = begin_connect t sid"
| "tab_step t (AwaitHostKey sid rid) = await_host_key t sid rid"
| "tab_step t (CompleteConnect sid at) = complete_connect t sid at"
| "tab_step t (BeginReconnect sid) = begin_reconnect t sid"
| "tab_step t (Disconnect reason) = disconnect t reason"
| "tab_step t (Fail error) = fail t error"

fun starts_session :: "TabTransition \<Rightarrow> bool" where
  "starts_session (BeginConnect _) = True"
| "starts_session (BeginReconnect _) = True"
| "starts_session _ = False"

text \<open>A connection state that names a session names it with the tab's own epoch.\<close>

fun connection_epoch :: "ConnectionState \<Rightarrow> u64 option" where
  "connection_epoch (ConnectionState.Connecting _ e) = Some e"
| "connection_epoch (ConnectionState.AwaitingHostKey _ e _) = Some e"
| "connection_epoch (ConnectionState.Connected _ e _) = Some e"
| "connection_epoch (ConnectionState.Reconnecting _ _ e) = Some e"
| "connection_epoch _ = None"

definition tab_coherent :: "TabState \<Rightarrow> bool" where
  "tab_coherent t \<longleftrightarrow>
     (case connection_epoch (tab_connection t) of None \<Rightarrow> True | Some e \<Rightarrow> e = tab_session_epoch t)"

interpretation tab: state_machine "\<lambda>t. \<exists>i n. t = tab_new i n" tab_step tab_coherent
proof
  fix t assume "\<exists>i n. t = tab_new i n"
  then show "tab_coherent t" by (auto simp: tab_new_def tab_coherent_def)
next
  fix t a assume "tab_coherent t"
  then show "tab_coherent (tab_step t a)"
    by (cases a) (simp_all add: tab_coherent_def tab_transition_defs Let_def)
qed

lemma tab_id_step [simp]: "tab_id (tab_step t a) = tab_id t"
  by (cases a) (simp_all add: tab_transition_defs Let_def)

lemma tab_epoch_step:
  "tab_session_epoch (tab_step t a) = tab_session_epoch t + (if starts_session a then 1 else 0)"
  by (cases a) (simp_all add: tab_transition_defs Let_def)

lemma tab_epoch_run:
  "tab_session_epoch (foldl tab_step t as) =
   tab_session_epoch t + of_nat (length (filter starts_session as))"
  by (induction as arbitrary: t) (simp_all add: tab_epoch_step)

lemma tab_id_run [simp]: "tab_id (foldl tab_step t as) = tab_id t"
  by (induction as arbitrary: t) simp_all

lemma accepts_epoch: "tab_accepts_remote_event t scope \<Longrightarrow> scope_session_epoch scope = tab_session_epoch t"
  by (simp add: tab_accepts_remote_event_def)

lemma of_nat_u64_eq_0: "n < 2 ^ 64 \<Longrightarrow> (of_nat n :: u64) = 0 \<Longrightarrow> n = 0"
  by (auto simp: word_of_nat_eq_0_iff dest: nat_dvd_not_less)

section \<open>Navigation: lemmas\<close>

definition nav_bounded :: "PaneNavHistory \<Rightarrow> bool" where
  "nav_bounded h \<longleftrightarrow> length (nav_back h) + length (nav_forward h) \<le> NAV_MAX"

datatype NavOp = NavPush "rstr option" rstr | NavBack rstr | NavForward rstr

fun nav_step :: "PaneNavHistory \<Rightarrow> NavOp \<Rightarrow> PaneNavHistory" where
  "nav_step h (NavPush from to) = push_navigating_from h from to"
| "nav_step h (NavBack current) = fst (go_back h current)"
| "nav_step h (NavForward current) = fst (go_forward h current)"

interpretation nav: state_machine "\<lambda>h. h = nav_default" nav_step nav_bounded
proof
  fix h assume "h = nav_default"
  then show "nav_bounded h" by (simp add: nav_default_def nav_bounded_def)
next
  fix h a assume "nav_bounded h"
  then show "nav_bounded (nav_step h a)"
    by (cases a)
       (auto simp: nav_bounded_def push_navigating_from_def go_back_def go_forward_def NAV_MAX_def
          Let_def neq_Nil_conv split: option.splits)
qed

section \<open>Properties of a tab\<close>

text \<open>
  C4 (old_session_events_stale): an event of a session that was live at some moment is refused at
  every later moment that lies after at least one connect or reconnect: whatever transitions the
  tab makes in between, and up to the wrap-around of the 64-bit epoch after \<open>2 ^ 64\<close> of them, a
  scope the tab accepted before is never accepted again.
\<close>

theorem old_session_events_stale:
  assumes "tab_accepts_remote_event t scope"
    and "0 < length (filter starts_session steps)"
    and "length (filter starts_session steps) < 2 ^ 64"
  shows "\<not> tab_accepts_remote_event (foldl tab_step t steps) scope"
proof
  assume "tab_accepts_remote_event (foldl tab_step t steps) scope"
  then have "tab_session_epoch (foldl tab_step t steps) = tab_session_epoch t"
    using accepts_epoch assms(1) by metis
  then have "(of_nat (length (filter starts_session steps)) :: u64) = 0"
    by (simp add: tab_epoch_run)
  with assms(2,3) of_nat_u64_eq_0 show False by blast
qed

theorem old_session_events_stale_witness:
  "\<not> tab_accepts_remote_event
      (foldl tab_step (begin_connect (tab_new (TabId 1) []) (SessionId 7))
         [Disconnect UserRequested, BeginConnect (SessionId 8), CompleteConnect (SessionId 7) 0])
      \<lparr>scope_tab_id = TabId 1, scope_session_id = SessionId 7, scope_session_epoch = 1\<rparr>"
  by (rule old_session_events_stale)
     (simp_all add: tab_accepts_remote_event_def begin_connect_def tab_new_def Let_def)

text \<open>
  live_session_accepted: after any history of a tab, exactly one event scope can be live. A
  coherent tab accepts a scope if and only if the scope carries the tab's id and epoch and the
  session its connection state names; a tab that is empty, disconnected or failed accepts none.
\<close>

theorem live_session_accepted:
  "tab_accepts_remote_event (foldl tab_step (tab_new i n) steps) scope \<longleftrightarrow>
     (let t = foldl tab_step (tab_new i n) steps
      in scope_tab_id scope = i \<and> scope_session_epoch scope = tab_session_epoch t \<and>
         (case tab_connection t of
            ConnectionState.Connecting s _ \<Rightarrow> s = scope_session_id scope
          | ConnectionState.AwaitingHostKey s _ _ \<Rightarrow> s = scope_session_id scope
          | ConnectionState.Connected s _ _ \<Rightarrow> s = scope_session_id scope
          | ConnectionState.Reconnecting s _ _ \<Rightarrow> s = scope_session_id scope
          | _ \<Rightarrow> False))"
proof -
  have "tab_coherent (foldl tab_step (tab_new i n) steps)" by (rule tab.reachable_inv) blast
  moreover have "tab_id (foldl tab_step (tab_new i n) steps) = i" by (simp add: tab_new_def)
  ultimately show ?thesis
    by (cases "tab_connection (foldl tab_step (tab_new i n) steps)")
       (auto simp: tab_accepts_remote_event_def tab_coherent_def Let_def)
qed

text \<open>
  nav_history_bounded: from an empty history, any sequence of pushes, backs and forwards keeps
  the two stacks together within the 50 entries of \<open>PaneNavHistory::MAX\<close>, although only the push
  trims.
\<close>

theorem nav_history_bounded:
  "length (nav_back (foldl nav_step nav_default ops)) +
   length (nav_forward (foldl nav_step nav_default ops)) \<le> NAV_MAX"
  using nav.reachable_inv[of nav_default ops] by (simp add: nav_bounded_def)

text \<open>
  nav_back_forward_roundtrip: going back and then forward returns to the path the user left
  and restores the history; the pane is told the path it came from.
\<close>

theorem nav_back_forward_roundtrip:
  assumes "go_back h current = (h', Some target)"
  shows "go_forward h' target = (h, Some current)"
  using assms by (auto simp: go_back_def go_forward_def split: if_splits)

theorem nav_back_forward_roundtrip_witness:
  "go_forward \<lparr>nav_back = [], nav_forward = [lit ''/b'']\<rparr> (lit ''/a'')
   = (\<lparr>nav_back = [lit ''/a''], nav_forward = []\<rparr>, Some (lit ''/b''))"
  by (rule nav_back_forward_roundtrip) (simp add: go_back_def)

text \<open>
  newest_local_read_wins: starting a background read makes the result of every earlier read of
  the pane unacceptable and its own acceptable for the path the pane shows, as long as the
  saturating generation counter has not reached its maximum.
\<close>

theorem newest_local_read_wins:
  assumes "lp_read_epoch p < u64_MAX" and "e \<le> lp_read_epoch p"
  shows "\<not> accepts_local_result (fst (begin_local_read p)) e path \<and>
         (accepts_local_result (fst (begin_local_read p)) (snd (begin_local_read p)) path
            \<longleftrightarrow> lp_path p = Some path)"
proof -
  have "lp_read_epoch p < lp_read_epoch p + 1"
    using assms(1) unatSuc[of "lp_read_epoch p"]
    by (cases "lp_read_epoch p = u64_MAX")
       (auto simp: word_less_nat_alt add.commute add_eq_0_iff)
  with assms show ?thesis
    by (auto simp: begin_local_read_def accepts_local_result_def saturating_add_one_def Let_def)
qed

theorem newest_local_read_wins_witness:
  "\<not> accepts_local_result
      (fst (begin_local_read \<lparr>lp_path = Some (LocalPath (lit ''/tmp'')), lp_entries = [],
              lp_error = None, lp_read_epoch = 4\<rparr>)) 4 (LocalPath (lit ''/tmp''))"
  using newest_local_read_wins[of "\<lparr>lp_path = Some (LocalPath (lit ''/tmp'')), lp_entries = [],
              lp_error = None, lp_read_epoch = 4\<rparr>" 4 "LocalPath (lit ''/tmp'')"]
  by simp

end
