(* ===== verification/Event_Routing.thy ===== *)
theory Event_Routing
  imports Protocol
begin

text \<open>
  \<open>AppEvent::route\<close> and \<open>WindowEvent::remote_scope\<close>: the runtime's flat events are split into those
  the process applies once and those every window sees behind its stale-event guard.
\<close>

fun route :: "AppEvent \<Rightarrow> RoutedEvent" where
  "route (AppEvent.TabConnecting tab) = Window (WindowEvent.TabConnecting tab)"
| "route (AppEvent.HostKeyUnknown prompt) = Window (WindowEvent.HostKeyUnknown prompt)"
| "route (AppEvent.HostKeyMismatch mismatch) = Window (WindowEvent.HostKeyMismatch mismatch)"
| "route (AppEvent.TabConnected scoped) = Window (WindowEvent.TabConnected scoped)"
| "route (AppEvent.TabDisconnected scoped) = Window (WindowEvent.TabDisconnected scoped)"
| "route (AppEvent.AuthFailed scoped) = Window (WindowEvent.AuthFailed scoped)"
| "route (AppEvent.KeyboardInteractivePrompt prompt) =
     Window (WindowEvent.KeyboardInteractivePrompt prompt)"
| "route (AppEvent.RemoteDirLoading scoped) = Window (WindowEvent.RemoteDirLoading scoped)"
| "route (AppEvent.RemoteDirLoaded scoped) = Window (WindowEvent.RemoteDirLoaded scoped)"
| "route (AppEvent.RemoteOperationFailed scoped) = Window (WindowEvent.RemoteOperationFailed scoped)"
| "route (AppEvent.RemoteEntryResolved scoped) = Window (WindowEvent.RemoteEntryResolved scoped)"
| "route (AppEvent.RemoteEntryResolveFailed failure) =
     Window (WindowEvent.RemoteEntryResolveFailed failure)"
| "route (AppEvent.FsOperationFailed scope failure) =
     Window (WindowEvent.FsOperationFailed scope failure)"
| "route (AppEvent.TransferPlanStarted snapshot) =
     Process (Transfer (TransferEvent.PlanStarted snapshot))"
| "route (AppEvent.TransferPlanProgress progress) =
     Process (Transfer (TransferEvent.PlanProgress progress))"
| "route (AppEvent.TransferPlanCompleted pid) = Process (Transfer (TransferEvent.PlanCompleted pid))"
| "route (AppEvent.TransferPlanCancelled pid) = Process (Transfer (TransferEvent.PlanCancelled pid))"
| "route (AppEvent.TransferPlanFailed pid error) =
     Process (Transfer (TransferEvent.PlanFailed pid error))"
| "route (AppEvent.TransferConflict prompt) = Process (Transfer (TransferEvent.Conflict prompt))"
| "route (AppEvent.TransferRunning snapshot) = Process (Transfer (TransferEvent.Running snapshot))"
| "route (AppEvent.TransferProgress progress) = Process (Transfer (TransferEvent.Progress progress))"
| "route (AppEvent.TransferWarning warning) = Process (Transfer (TransferEvent.Warning warning))"
| "route (AppEvent.TransferCompleted tid) = Process (Transfer (TransferEvent.Completed tid))"
| "route (AppEvent.TransferSkipped tid) = Process (Transfer (TransferEvent.Skipped tid))"
| "route (AppEvent.TransferFailed failure) = Process (Transfer (TransferEvent.Failed failure))"
| "route (AppEvent.ResidualTempCreated record) = Process (ProcessEvent.ResidualTempCreated record)"
| "route (AppEvent.ResidualTempCleared tid path) =
     Process (ProcessEvent.ResidualTempCleared tid path)"
| "route (AppEvent.RemoteEditSnapshotChecked scoped) =
     Process (EditCheck (EditCheckEvent.Checked scoped))"
| "route (AppEvent.RemoteEditSnapshotCheckFailed scoped) =
     Process (EditCheck (EditCheckEvent.CheckFailed scoped))"
| "route (AppEvent.RemoteEditSnapshotDispatchFailed payload) =
     Process (EditCheck (EditCheckEvent.DispatchFailed payload))"
| "route (AppEvent.LocalEditModified session temp_path) =
     Process (ProcessEvent.LocalEditModified session temp_path)"

fun remote_scope :: "WindowEvent \<Rightarrow> RemoteEventScope option" where
  "remote_scope (WindowEvent.TabConnected scoped) = Some (rs_scope scoped)"
| "remote_scope (WindowEvent.TabDisconnected scoped) = Some (rs_scope scoped)"
| "remote_scope (WindowEvent.AuthFailed scoped) = Some (rs_scope scoped)"
| "remote_scope (WindowEvent.KeyboardInteractivePrompt prompt) = Some (kip_scope prompt)"
| "remote_scope (WindowEvent.RemoteDirLoading scoped) = Some (rs_scope scoped)"
| "remote_scope (WindowEvent.RemoteDirLoaded scoped) = Some (rs_scope scoped)"
| "remote_scope (WindowEvent.RemoteOperationFailed scoped) = Some (rs_scope scoped)"
| "remote_scope (WindowEvent.RemoteEntryResolved scoped) = Some (rs_scope scoped)"
| "remote_scope (WindowEvent.RemoteEntryResolveFailed _) = None"
| "remote_scope (WindowEvent.HostKeyUnknown prompt) =
     Some \<lparr>scope_tab_id = hkp_tab_id prompt, scope_session_id = hkp_session_id prompt,
           scope_session_epoch = hkp_session_epoch prompt\<rparr>"
| "remote_scope (WindowEvent.HostKeyMismatch mismatch) = Some (hkm_scope mismatch)"
| "remote_scope (WindowEvent.TabConnecting _) = None"
| "remote_scope (WindowEvent.FsOperationFailed _ _) = None"

text \<open>
  The wire event an owner receives determines the event the runtime sent: \<open>unroute\<close> is the
  inverse that the completeness of the classification rests on.
\<close>

fun unroute :: "RoutedEvent \<Rightarrow> AppEvent" where
  "unroute (Window (WindowEvent.TabConnecting tab)) = AppEvent.TabConnecting tab"
| "unroute (Window (WindowEvent.HostKeyUnknown prompt)) = AppEvent.HostKeyUnknown prompt"
| "unroute (Window (WindowEvent.HostKeyMismatch mismatch)) = AppEvent.HostKeyMismatch mismatch"
| "unroute (Window (WindowEvent.TabConnected scoped)) = AppEvent.TabConnected scoped"
| "unroute (Window (WindowEvent.TabDisconnected scoped)) = AppEvent.TabDisconnected scoped"
| "unroute (Window (WindowEvent.AuthFailed scoped)) = AppEvent.AuthFailed scoped"
| "unroute (Window (WindowEvent.KeyboardInteractivePrompt p)) = AppEvent.KeyboardInteractivePrompt p"
| "unroute (Window (WindowEvent.RemoteDirLoading scoped)) = AppEvent.RemoteDirLoading scoped"
| "unroute (Window (WindowEvent.RemoteDirLoaded scoped)) = AppEvent.RemoteDirLoaded scoped"
| "unroute (Window (WindowEvent.RemoteOperationFailed s)) = AppEvent.RemoteOperationFailed s"
| "unroute (Window (WindowEvent.RemoteEntryResolved s)) = AppEvent.RemoteEntryResolved s"
| "unroute (Window (WindowEvent.RemoteEntryResolveFailed f)) = AppEvent.RemoteEntryResolveFailed f"
| "unroute (Window (WindowEvent.FsOperationFailed sc f)) = AppEvent.FsOperationFailed sc f"
| "unroute (Process (Transfer (TransferEvent.PlanStarted x))) = AppEvent.TransferPlanStarted x"
| "unroute (Process (Transfer (TransferEvent.PlanProgress x))) = AppEvent.TransferPlanProgress x"
| "unroute (Process (Transfer (TransferEvent.PlanCompleted x))) = AppEvent.TransferPlanCompleted x"
| "unroute (Process (Transfer (TransferEvent.PlanCancelled x))) = AppEvent.TransferPlanCancelled x"
| "unroute (Process (Transfer (TransferEvent.PlanFailed x e))) = AppEvent.TransferPlanFailed x e"
| "unroute (Process (Transfer (TransferEvent.Conflict x))) = AppEvent.TransferConflict x"
| "unroute (Process (Transfer (TransferEvent.Running x))) = AppEvent.TransferRunning x"
| "unroute (Process (Transfer (TransferEvent.Progress x))) = AppEvent.TransferProgress x"
| "unroute (Process (Transfer (TransferEvent.Warning x))) = AppEvent.TransferWarning x"
| "unroute (Process (Transfer (TransferEvent.Completed x))) = AppEvent.TransferCompleted x"
| "unroute (Process (Transfer (TransferEvent.Skipped x))) = AppEvent.TransferSkipped x"
| "unroute (Process (Transfer (TransferEvent.Failed x))) = AppEvent.TransferFailed x"
| "unroute (Process (ProcessEvent.ResidualTempCreated r)) = AppEvent.ResidualTempCreated r"
| "unroute (Process (ProcessEvent.ResidualTempCleared t p)) = AppEvent.ResidualTempCleared t p"
| "unroute (Process (EditCheck (EditCheckEvent.Checked s))) = AppEvent.RemoteEditSnapshotChecked s"
| "unroute (Process (EditCheck (EditCheckEvent.CheckFailed s))) =
     AppEvent.RemoteEditSnapshotCheckFailed s"
| "unroute (Process (EditCheck (EditCheckEvent.DispatchFailed p))) =
     AppEvent.RemoteEditSnapshotDispatchFailed p"
| "unroute (Process (ProcessEvent.LocalEditModified s p)) = AppEvent.LocalEditModified s p"

lemma unroute_route [simp]: "unroute (route e) = e"
  by (cases e) simp_all

lemma route_unroute [simp]: "route (unroute r) = r"
  by (cases r rule: unroute.cases) simp_all

lemma bij_route: "bij route"
  by (rule o_bij [of unroute]) (simp_all add: fun_eq_iff)

section \<open>Property\<close>

text \<open>
  route_loses_nothing: the classification of the runtime's events is a bijection. Every event the
  process or a window can receive stems from exactly one runtime event, no two runtime events are
  delivered as the same one, and none is dropped.
\<close>

theorem route_loses_nothing: "bij route \<and> (\<exists>!e. route e = r)"
  using bij_route by (metis route_unroute unroute_route)

end
