(* ===== verification/Tab_Store.thy ===== *)
theory Tab_Store
  imports Tab_State Event_Routing
begin

text \<open>
  The tabs and modal requests of one window (\<open>TabStore\<close>, \<open>ModalStore\<close>, \<open>AppState\<close>): creation
  order, active tab and most-recently-used order, the guard every window event passes, and the
  draining of modal requests whose session is gone.
\<close>

section \<open>Modal requests\<close>

datatype ModalRequestId =
    Trust TrustRequestId
  | KeyboardInteractive KeyboardInteractiveRequestId
  | Conflict ConflictRequestId

datatype ModalRequest =
    HostKey HostKeyPrompt
  | KeyboardInteractive KeyboardInteractivePrompt
  | TransferConflict TransferConflictPrompt

fun modal_request_id :: "ModalRequest \<Rightarrow> ModalRequestId option" where
  "modal_request_id (ModalRequest.HostKey p) = Some (ModalRequestId.Trust (hkp_request_id p))"
| "modal_request_id (ModalRequest.KeyboardInteractive p) =
     Some (ModalRequestId.KeyboardInteractive (kip_request_id p))"
| "modal_request_id (ModalRequest.TransferConflict p) =
     Some (ModalRequestId.Conflict (tcp_request_id p))"

record ModalStore =
  modal_active :: "ModalRequest list"

definition find_request :: "ModalStore \<Rightarrow> ModalRequestId \<Rightarrow> ModalRequest option" where
  "find_request m rid = find (\<lambda>r. modal_request_id r = Some rid) (modal_active m)"

section \<open>The tab store\<close>

record TabStore =
  store_tabs :: "TabState list"
  store_active_tab_id :: "TabId option"
  store_recent_tabs :: "TabId list"

definition tab_store_default :: TabStore where
  "tab_store_default = \<lparr>store_tabs = [], store_active_tab_id = None, store_recent_tabs = []\<rparr>"

definition find_tab :: "TabStore \<Rightarrow> TabId \<Rightarrow> TabState option" where
  "find_tab s i = find (\<lambda>t. tab_id t = i) (store_tabs s)"

text \<open>\<open>find_tab_mut\<close> followed by a mutation of the tab found.\<close>

definition with_tab :: "TabStore \<Rightarrow> TabId \<Rightarrow> (TabState \<Rightarrow> TabState) \<Rightarrow> TabStore" where
  "with_tab s i f = s\<lparr>store_tabs := update_first (\<lambda>t. tab_id t = i) f (store_tabs s)\<rparr>"

definition active_tab :: "TabStore \<Rightarrow> TabState option" where
  "active_tab s = Option.bind (store_active_tab_id s) (find_tab s)"

definition store_accepts_remote_event :: "TabStore \<Rightarrow> RemoteEventScope \<Rightarrow> bool" where
  "store_accepts_remote_event s scope =
     (case find_tab s (scope_tab_id scope) of
        Some t \<Rightarrow> tab_accepts_remote_event t scope
      | None \<Rightarrow> False)"

definition touch_recent_tab :: "TabStore \<Rightarrow> TabId \<Rightarrow> TabStore" where
  "touch_recent_tab s i =
     s\<lparr>store_recent_tabs := i # filter (\<lambda>j. j \<noteq> i) (store_recent_tabs s)\<rparr>"

definition open_tab :: "TabStore \<Rightarrow> TabState \<Rightarrow> TabStore" where
  "open_tab s t =
     (let s1 = (if store_active_tab_id s = None then s\<lparr>store_active_tab_id := Some (tab_id t)\<rparr> else s);
          s2 = s1\<lparr>store_tabs := store_tabs s1 @ [t]\<rparr>
      in touch_recent_tab s2 (tab_id t))"

definition activate_tab :: "TabStore \<Rightarrow> TabId \<Rightarrow> TabStore \<times> bool" where
  "activate_tab s i =
     (if find_tab s i = None then (s, False)
      else (touch_recent_tab (s\<lparr>store_active_tab_id := Some i\<rparr>) i, True))"

definition close_tab :: "TabStore \<Rightarrow> TabId \<Rightarrow> TabStore \<times> TabState option" where
  "close_tab s i =
     (case position (\<lambda>t. tab_id t = i) (store_tabs s) of
        None \<Rightarrow> (s, None)
      | Some pos \<Rightarrow>
          let removed = store_tabs s ! pos;
              s1 = s\<lparr>store_tabs := remove_at pos (store_tabs s),
                     store_recent_tabs := filter (\<lambda>j. j \<noteq> i) (store_recent_tabs s)\<rparr>;
              s2 = (if store_active_tab_id s1 = Some i
                    then s1\<lparr>store_active_tab_id :=
                              (case store_tabs s1 of [] \<Rightarrow> None | t # _ \<Rightarrow> Some (tab_id t))\<rparr>
                    else s1);
              s3 = (case store_active_tab_id s2 of
                      None \<Rightarrow> s2
                    | Some active \<Rightarrow> touch_recent_tab s2 active)
          in (s3, Some removed))"

lemmas tab_store_defs [store_defs] =
  find_tab_def with_tab_def touch_recent_tab_def open_tab_def activate_tab_def close_tab_def

section \<open>The window state\<close>

record AppState =
  app_tabs :: TabStore
  app_modals :: ModalStore

definition app_state_default :: AppState where
  "app_state_default = \<lparr>app_tabs = tab_store_default, app_modals = \<lparr>modal_active = []\<rparr>\<rparr>"

definition should_accept_event :: "AppState \<Rightarrow> WindowEvent \<Rightarrow> bool" where
  "should_accept_event a event =
     (case remote_scope event of
        Some scope \<Rightarrow> store_accepts_remote_event (app_tabs a) scope
      | None \<Rightarrow> True)"

fun modal_expired :: "TabStore \<Rightarrow> ModalRequest \<Rightarrow> bool" where
  "modal_expired tabs (ModalRequest.HostKey p) =
     (\<not> store_accepts_remote_event tabs
          \<lparr>scope_tab_id = hkp_tab_id p, scope_session_id = hkp_session_id p,
           scope_session_epoch = hkp_session_epoch p\<rparr>)"
| "modal_expired tabs (ModalRequest.KeyboardInteractive p) =
     (\<not> store_accepts_remote_event tabs (kip_scope p))"
| "modal_expired tabs (ModalRequest.TransferConflict _) = False"

definition drain_expired_modals :: "AppState \<Rightarrow> AppState \<times> ModalRequest list" where
  "drain_expired_modals a =
     (a\<lparr>app_modals := \<lparr>modal_active =
          filter (\<lambda>r. \<not> modal_expired (app_tabs a) r) (modal_active (app_modals a))\<rparr>\<rparr>,
      filter (modal_expired (app_tabs a)) (modal_active (app_modals a)))"

section \<open>Invariant of the store\<close>

definition tab_ids :: "TabStore \<Rightarrow> TabId list" where
  "tab_ids s = map tab_id (store_tabs s)"

definition tab_store_inv :: "TabStore \<Rightarrow> bool" where
  "tab_store_inv s \<longleftrightarrow>
     distinct (tab_ids s) \<and>
     distinct (store_recent_tabs s) \<and> set (store_recent_tabs s) = set (tab_ids s) \<and>
     (case store_active_tab_id s of
        None \<Rightarrow> store_tabs s = []
      | Some i \<Rightarrow> i \<in> set (tab_ids s))"

datatype TabStoreOp =
    Open TabState
  | Activate TabId
  | Close TabId
  | Transition TabId TabTransition

fun tab_store_step :: "TabStore \<Rightarrow> TabStoreOp \<Rightarrow> TabStore" where
  "tab_store_step s (Open t) = open_tab s t"
| "tab_store_step s (Activate i) = fst (activate_tab s i)"
| "tab_store_step s (Close i) = fst (close_tab s i)"
| "tab_store_step s (Transition i a) = with_tab s i (\<lambda>t. tab_step t a)"

text \<open>The window allocates the id of a tab it opens; an open request carries a new one.\<close>

fun tab_store_admissible :: "TabStore \<Rightarrow> TabStoreOp \<Rightarrow> bool" where
  "tab_store_admissible s (Open t) = (tab_id t \<notin> set (tab_ids s))"
| "tab_store_admissible s _ = True"

lemma tab_ids_with_tab [simp]:
  "(\<And>t. tab_id (f t) = tab_id t) \<Longrightarrow> tab_ids (with_tab s i f) = tab_ids s"
  by (simp add: tab_ids_def with_tab_def map_update_first_same)

lemma find_tab_None_iff: "find_tab s i = None \<longleftrightarrow> i \<notin> set (tab_ids s)"
  by (auto simp: find_tab_def tab_ids_def vec_simps)

lemma touch_recent_inv:
  "distinct (store_recent_tabs s) \<Longrightarrow> distinct (store_recent_tabs (touch_recent_tab s i))"
  "set (store_recent_tabs (touch_recent_tab s i)) = insert i (set (store_recent_tabs s))"
  "store_tabs (touch_recent_tab s i) = store_tabs s"
  "store_active_tab_id (touch_recent_tab s i) = store_active_tab_id s"
  by (auto simp: touch_recent_tab_def)

lemma open_tab_inv:
  "tab_store_inv s \<Longrightarrow> tab_id t \<notin> set (tab_ids s) \<Longrightarrow> tab_store_inv (open_tab s t)"
  by (auto simp: tab_store_inv_def open_tab_def tab_ids_def touch_recent_inv Let_def
      split: option.splits)

lemma activate_tab_inv: "tab_store_inv s \<Longrightarrow> tab_store_inv (fst (activate_tab s i))"
  by (cases "find_tab s i = None")
     (auto simp: tab_store_inv_def activate_tab_def find_tab_None_iff touch_recent_inv tab_ids_def)

lemma with_tab_inv:
  "(\<And>t. tab_id (f t) = tab_id t) \<Longrightarrow> tab_store_inv s \<Longrightarrow> tab_store_inv (with_tab s i f)"
  unfolding tab_store_inv_def
  by (auto simp: with_tab_def tab_ids_def map_update_first_same
      simp flip: length_0_conv split: option.splits)

text \<open>The tabs that stay, the next active tab, and the recent order after a close.\<close>

definition rest_tabs :: "TabStore \<Rightarrow> TabId \<Rightarrow> TabState list" where
  "rest_tabs s i = filter (\<lambda>t. tab_id t \<noteq> i) (store_tabs s)"

definition next_active :: "TabStore \<Rightarrow> TabId \<Rightarrow> TabId option" where
  "next_active s i =
     (if store_active_tab_id s = Some i
      then (case rest_tabs s i of [] \<Rightarrow> None | t # _ \<Rightarrow> Some (tab_id t))
      else store_active_tab_id s)"

lemma close_tab_fields:
  assumes "tab_store_inv s" "i \<in> set (tab_ids s)"
  shows "store_tabs (fst (close_tab s i)) = rest_tabs s i"
    and "store_active_tab_id (fst (close_tab s i)) = next_active s i"
    and "store_recent_tabs (fst (close_tab s i)) =
      (let others = filter (\<lambda>j. j \<noteq> i) (store_recent_tabs s)
       in case next_active s i of None \<Rightarrow> others | Some a \<Rightarrow> a # filter (\<lambda>j. j \<noteq> a) others)"
proof -
  obtain t where "t \<in> set (store_tabs s)" "tab_id t = i"
    using assms(2) by (auto simp: tab_ids_def)
  then obtain pos where pos: "position (\<lambda>t. tab_id t = i) (store_tabs s) = Some pos"
    using position_Some_ex[of t "store_tabs s" "\<lambda>t. tab_id t = i"] by blast
  have "distinct (tab_ids s)" using assms(1) by (simp add: tab_store_inv_def)
  then have rest: "remove_at pos (store_tabs s) = rest_tabs s i"
    using pos by (simp add: remove_at_position remove_first_key_filter tab_ids_def rest_tabs_def)
  note eqs = close_tab_def pos rest next_active_def touch_recent_tab_def Let_def
  show "store_tabs (fst (close_tab s i)) = rest_tabs s i"
    by (simp add: eqs split: option.split list.split)
  show "store_active_tab_id (fst (close_tab s i)) = next_active s i"
    by (simp add: eqs split: option.split list.split)
  show "store_recent_tabs (fst (close_tab s i)) =
      (let others = filter (\<lambda>j. j \<noteq> i) (store_recent_tabs s)
       in case next_active s i of None \<Rightarrow> others | Some a \<Rightarrow> a # filter (\<lambda>j. j \<noteq> a) others)"
    by (simp add: eqs split: option.split list.split)
qed

lemma close_tab_absent: "i \<notin> set (tab_ids s) \<Longrightarrow> close_tab s i = (s, None)"
  using position_None_iff[of "\<lambda>t. tab_id t = i" "store_tabs s"]
  by (auto simp: close_tab_def tab_ids_def split: option.splits)

lemma next_active_cases:
  assumes "tab_store_inv s"
  shows "(next_active s i = None \<longrightarrow> rest_tabs s i = []) \<and>
         (\<forall>a. next_active s i = Some a \<longrightarrow> a \<in> tab_id ` set (rest_tabs s i))"
proof (cases "store_active_tab_id s = Some i")
  case True
  then show ?thesis by (auto simp: next_active_def split: list.splits)
next
  case False
  with assms show ?thesis
    by (auto simp: tab_store_inv_def next_active_def rest_tabs_def tab_ids_def split: option.splits)
qed

lemma close_tab_inv:
  assumes inv: "tab_store_inv s"
  shows "tab_store_inv (fst (close_tab s i))"
proof (cases "i \<in> set (tab_ids s)")
  case False
  with inv show ?thesis by (simp add: close_tab_absent)
next
  case True
  have ids: "map tab_id (rest_tabs s i) = filter (\<lambda>j. j \<noteq> i) (tab_ids s)"
    by (simp add: rest_tabs_def tab_ids_def filter_map comp_def)
  have set_ids: "tab_id ` set (rest_tabs s i) = set (tab_ids s) - {i}"
    using arg_cong[OF ids, of set] by auto
  show ?thesis
  proof (cases "next_active s i")
    case None
    then have "rest_tabs s i = []" using next_active_cases[OF inv] by blast
    with None inv set_ids show ?thesis
      by (auto simp: tab_store_inv_def close_tab_fields[OF inv True] tab_ids_def)
  next
    case (Some a)
    then have "a \<in> tab_id ` set (rest_tabs s i)" using next_active_cases[OF inv] by blast
    then show ?thesis
      using Some inv set_ids ids
      by (auto simp: tab_store_inv_def close_tab_fields[OF inv True] tab_ids_def)
  qed
qed

interpretation tab_store: guarded_machine
  "\<lambda>s. s = tab_store_default" tab_store_step tab_store_admissible tab_store_inv
proof
  fix s assume "s = tab_store_default"
  then show "tab_store_inv s" by (simp add: tab_store_default_def tab_store_inv_def tab_ids_def)
next
  fix s a assume "tab_store_inv s" "tab_store_admissible s a"
  then show "tab_store_inv (tab_store_step s a)"
    by (cases a) (simp_all add: open_tab_inv activate_tab_inv close_tab_inv with_tab_inv)
qed

section \<open>Properties of a window's tabs\<close>

text \<open>
  C15 (tab_store_consistent): after any sequence of opens (of new tabs), activations, closes and
  connection transitions, tab ids are unique, the most-recently-used order lists every tab exactly
  once, and there is an active tab, one of the store's, unless no tab is left.
\<close>

theorem tab_store_consistent:
  assumes "tab_store.admissible_run tab_store_default ops"
  shows "tab_store_inv (foldl tab_store_step tab_store_default ops)"
  using assms by (rule tab_store.reachable_inv[OF refl])

theorem tab_store_consistent_witness:
  "tab_store_inv (foldl tab_store_step tab_store_default
     [Open (tab_new (TabId 1) []), Open (tab_new (TabId 2) []), Activate (TabId 2), Close (TabId 2)])"
  by (rule tab_store_consistent)
     (simp add: tab_store_default_def open_tab_def touch_recent_tab_def tab_ids_def tab_new_def
        activate_tab_def find_tab_def Let_def)

text \<open>
  closed_tab_rejects_events: closing a tab makes every remote event for it stale and leaves the
  guard of the other tabs as it was, and the tab the user sees next is the first remaining one when
  the closed tab was active and unchanged otherwise.
\<close>

theorem closed_tab_rejects_events:
  assumes "tab_store_inv s" and "i \<in> set (tab_ids s)"
  shows "(store_accepts_remote_event (fst (close_tab s i)) scope \<longleftrightarrow>
            scope_tab_id scope \<noteq> i \<and> store_accepts_remote_event s scope) \<and>
         store_active_tab_id (fst (close_tab s i)) =
           (if store_active_tab_id s = Some i
            then (case filter (\<lambda>t. tab_id t \<noteq> i) (store_tabs s) of [] \<Rightarrow> None | t # _ \<Rightarrow> Some (tab_id t))
            else store_active_tab_id s)"
  by (simp add: store_accepts_remote_event_def find_tab_def close_tab_fields[OF assms]
      rest_tabs_def next_active_def find_filter_other)

definition two_tabs :: TabStore where
  "two_tabs = open_tab (open_tab tab_store_default (begin_connect (tab_new (TabId 1) []) (SessionId 5)))
     (tab_new (TabId 2) [])"

lemma two_tabs_eq:
  "two_tabs = \<lparr>store_tabs = [begin_connect (tab_new (TabId 1) []) (SessionId 5), tab_new (TabId 2) []],
     store_active_tab_id = Some (TabId 1), store_recent_tabs = [TabId 2, TabId 1]\<rparr>"
  by (simp add: two_tabs_def tab_store_default_def open_tab_def touch_recent_tab_def tab_new_def
      begin_connect_def Let_def)

lemma two_tabs_inv: "tab_store_inv two_tabs"
  by (auto simp: two_tabs_eq tab_store_inv_def tab_ids_def tab_new_def begin_connect_def Let_def)

theorem closed_tab_rejects_events_witness:
  "\<not> store_accepts_remote_event (fst (close_tab two_tabs (TabId 1)))
       \<lparr>scope_tab_id = TabId 1, scope_session_id = SessionId 5, scope_session_epoch = 1\<rparr> \<and>
   store_active_tab_id (fst (close_tab two_tabs (TabId 1))) = Some (TabId 2)"
  using closed_tab_rejects_events[OF two_tabs_inv, of "TabId 1"]
  by (simp add: two_tabs_eq tab_ids_def tab_new_def begin_connect_def Let_def)

text \<open>
  drain_expired_modals_exact: draining keeps the requests whose session is still live and every
  transfer conflict, in their order, and hands back exactly the others, so no prompt of a replaced
  or closed session can still be answered and none is lost.
\<close>

theorem drain_expired_modals_exact:
  "let (a', expired) = drain_expired_modals a
   in app_tabs a' = app_tabs a \<and>
      mset (modal_active (app_modals a')) + mset expired = mset (modal_active (app_modals a)) \<and>
      (\<forall>p. ModalRequest.HostKey p \<in> set (modal_active (app_modals a')) \<longleftrightarrow>
            ModalRequest.HostKey p \<in> set (modal_active (app_modals a)) \<and>
            should_accept_event a (WindowEvent.HostKeyUnknown p)) \<and>
      (\<forall>p. ModalRequest.KeyboardInteractive p \<in> set (modal_active (app_modals a')) \<longleftrightarrow>
            ModalRequest.KeyboardInteractive p \<in> set (modal_active (app_modals a)) \<and>
            should_accept_event a (WindowEvent.KeyboardInteractivePrompt p)) \<and>
      (\<forall>p. ModalRequest.TransferConflict p \<in> set (modal_active (app_modals a')) \<longleftrightarrow>
            ModalRequest.TransferConflict p \<in> set (modal_active (app_modals a)))"
  unfolding drain_expired_modals_def Let_def
  using mset_filter_split[of "modal_expired (app_tabs a)" "modal_active (app_modals a)"]
  by (auto simp: should_accept_event_def)

end
