(* ===== verification/Rust_Search.thy ===== *)
theory Rust_Search
  imports Prelude
begin

text \<open>
  The slice searches of the Rust standard library that the sources call: \<open>binary_search\<close> and
  \<open>binary_search_by_key\<close>. The model is the library's own loop; the locale \<open>slice_search\<close> states
  the contract the clients rely on, and its lemmas are proved from the contract alone.
\<close>

datatype 'a search_result = Ok 'a | Err 'a

subsection \<open>The loop\<close>

function bsearch_loop :: "'k::linorder list \<Rightarrow> 'k \<Rightarrow> nat \<Rightarrow> nat \<Rightarrow> nat" where
  "bsearch_loop ks k base sz =
     (if sz \<le> 1 then base
      else let half = sz div 2; mid = base + half
           in bsearch_loop ks k (if k < ks ! mid then base else mid) (sz - half))"
  by pat_completeness auto
termination
  by (relation "measure (\<lambda>(ks, k, base, sz). sz)") auto

declare bsearch_loop.simps [simp del]

definition binary_search :: "'k::linorder list \<Rightarrow> 'k \<Rightarrow> nat search_result" where
  "binary_search ks k =
     (if ks = [] then Err 0
      else let base = bsearch_loop ks k 0 (length ks)
           in if ks ! base = k then Ok base
              else Err (if ks ! base < k then base + 1 else base))"

definition binary_search_by_key :: "('a \<Rightarrow> 'k::linorder) \<Rightarrow> 'a list \<Rightarrow> 'k \<Rightarrow> nat search_result" where
  "binary_search_by_key key xs k = binary_search (map key xs) k"

subsection \<open>The contract and what clients get from it\<close>

locale slice_search =
  fixes search :: "'k::linorder list \<Rightarrow> 'k \<Rightarrow> nat search_result"
  assumes search_Ok: "search ks k = Ok i \<Longrightarrow> i < length ks \<and> ks ! i = k"
    and search_Err:
      "search ks k = Err i \<Longrightarrow> sorted ks \<Longrightarrow>
       i \<le> length ks \<and> (\<forall>x \<in> set (take i ks). x < k) \<and> (\<forall>x \<in> set (drop i ks). k < x)"
begin

lemma search_is_Ok_iff:
  assumes "sorted ks"
  shows "(\<exists>i. search ks k = Ok i) \<longleftrightarrow> k \<in> set ks"
proof
  assume "\<exists>i. search ks k = Ok i"
  then show "k \<in> set ks" using search_Ok nth_mem by metis
next
  assume k: "k \<in> set ks"
  show "\<exists>i. search ks k = Ok i"
  proof (cases "search ks k")
    case (Err i)
    from search_Err[OF Err assms] k show ?thesis
      by (metis append_take_drop_id order_less_irrefl set_append Un_iff)
  qed blast
qed

lemma search_Ok_member: "search ks k = Ok i \<Longrightarrow> k \<in> set ks"
  using search_Ok nth_mem by metis

lemma insert_at_Err_sorted:
  assumes "search ks k = Err i" and "sorted_wrt (<) ks"
  shows "sorted_wrt (<) (insert_at i k ks)"
proof -
  have srt: "sorted ks" using assms(2) by (simp add: strict_sorted_iff)
  from search_Err[OF assms(1) srt]
  have l: "\<forall>x \<in> set (take i ks). x < k" and r: "\<forall>x \<in> set (drop i ks). k < x" by auto
  have "sorted_wrt (<) (take i ks)" "sorted_wrt (<) (drop i ks)"
    using assms(2) by (auto intro: sorted_wrt_take sorted_wrt_drop)
  then show ?thesis
    using l r by (fastforce simp: insert_at_def sorted_wrt_append)
qed

lemma search_Err_absent: "search ks k = Err i \<Longrightarrow> sorted ks \<Longrightarrow> k \<notin> set ks"
  using search_is_Ok_iff[of ks k] by auto

end

subsection \<open>The library's loop meets the contract\<close>

lemma bsearch_loop_range:
  "0 < sz \<Longrightarrow> base + sz \<le> length ks \<Longrightarrow> bsearch_loop ks k base sz < length ks"
proof (induction ks k base sz rule: bsearch_loop.induct)
  case (1 ks k base sz)
  show ?case
  proof (cases "sz \<le> 1")
    case True
    with "1.prems" show ?thesis by (simp add: bsearch_loop.simps[of ks k base sz])
  next
    case False
    have "bsearch_loop ks k (if k < ks ! (base + sz div 2) then base else base + sz div 2)
            (sz - sz div 2) < length ks"
      using "1.IH"[OF False refl refl] "1.prems" False by (auto split: if_splits)
    with False show ?thesis by (simp add: bsearch_loop.simps[of ks k base sz] Let_def)
  qed
qed

text \<open>
  The loop keeps: every key before \<open>base\<close> is at most \<open>k\<close>, every key at or after
  \<open>base + sz\<close> is greater.
\<close>

lemma bsearch_loop_split:
  assumes "sorted ks" "0 < sz" "base + sz \<le> length ks"
    and "base = 0 \<or> ks ! base \<le> k" "\<forall>j. base + sz \<le> j \<and> j < length ks \<longrightarrow> k < ks ! j"
  shows "(bsearch_loop ks k base sz = 0 \<or> ks ! bsearch_loop ks k base sz \<le> k) \<and>
         (\<forall>j. bsearch_loop ks k base sz < j \<and> j < length ks \<longrightarrow> k < ks ! j)"
  using assms
proof (induction ks k base sz rule: bsearch_loop.induct)
  case (1 ks k base sz)
  show ?case
  proof (cases "sz \<le> 1")
    case True
    with "1.prems" show ?thesis
      by (auto simp: bsearch_loop.simps[of ks k base sz])
  next
    case False
    define half where "half = sz div 2"
    define mid where "mid = base + half"
    define base' where "base' = (if k < ks ! mid then base else mid)"
    have half: "0 < half" "half < sz" "half + half \<le> sz" using False by (auto simp: half_def)
    have mid: "mid < length ks" using half "1.prems" by (simp add: mid_def)
    have eq: "bsearch_loop ks k base sz = bsearch_loop ks k base' (sz - half)"
      using False by (simp add: bsearch_loop.simps[of ks k base sz] Let_def base'_def mid_def half_def)
    have lower: "base' = 0 \<or> ks ! base' \<le> k"
      using "1.prems"(4) by (auto simp: base'_def)
    have upper: "\<forall>j. base' + (sz - half) \<le> j \<and> j < length ks \<longrightarrow> k < ks ! j"
    proof (intro allI impI)
      fix j assume j: "base' + (sz - half) \<le> j \<and> j < length ks"
      show "k < ks ! j"
      proof (cases "k < ks ! mid")
        case True
        then have "mid \<le> j" using j half by (auto simp: base'_def mid_def)
        then have "ks ! mid \<le> ks ! j" using "1.prems"(1) j by (simp add: sorted_iff_nth_mono)
        with True show ?thesis by simp
      next
        case False
        then show ?thesis using j half "1.prems"(5) by (auto simp: base'_def mid_def)
      qed
    qed
    have "0 < sz - half" "base' + (sz - half) \<le> length ks"
      using half "1.prems"(3) by (auto simp: base'_def mid_def half_def)
    note IH = "1.IH"[OF False half_def mid_def, folded base'_def, OF "1.prems"(1) this lower upper]
    show ?thesis unfolding eq by (rule IH)
  qed
qed

interpretation std: slice_search "binary_search :: 'k::linorder list \<Rightarrow> 'k \<Rightarrow> nat search_result"
proof unfold_locales
  fix ks :: "'k list" and k i
  assume "binary_search ks k = Ok i"
  then show "i < length ks \<and> ks ! i = k"
    using bsearch_loop_range[of "length ks" 0 ks k]
    by (auto simp: binary_search_def Let_def split: if_splits)
next
  fix ks :: "'k list" and k i
  assume err: "binary_search ks k = Err i" and srt: "sorted ks"
  show "i \<le> length ks \<and> (\<forall>x \<in> set (take i ks). x < k) \<and> (\<forall>x \<in> set (drop i ks). k < x)"
  proof (cases "ks = []")
    case True
    with err show ?thesis by (simp add: binary_search_def)
  next
    case False
    define b where "b = bsearch_loop ks k 0 (length ks)"
    have b: "b < length ks" using bsearch_loop_range[of "length ks" 0 ks k] False by (simp add: b_def)
    have split: "b = 0 \<or> ks ! b \<le> k" "\<And>j. b < j \<Longrightarrow> j < length ks \<Longrightarrow> k < ks ! j"
      using bsearch_loop_split[OF srt, of "length ks" 0 k] False by (auto simp: b_def dest!: meta_mp)
    have ne: "ks ! b \<noteq> k" and i: "i = (if ks ! b < k then b + 1 else b)"
      using err False by (auto simp: binary_search_def b_def[symmetric] Let_def split: if_splits)
    have less: "ks ! j < k" if "j < i" for j
    proof -
      have lt: "ks ! b < k" and "j \<le> b" using that i split(1) ne by (auto split: if_splits)
      then have "ks ! j \<le> ks ! b" using srt b by (simp add: sorted_iff_nth_mono)
      with lt show ?thesis by simp
    qed
    have greater: "k < ks ! j" if "i \<le> j" "j < length ks" for j
      using that i ne split(2)[of j] by (cases "j = b") (auto split: if_splits)
    have "x < k" if "x \<in> set (take i ks)" for x
      using that less by (auto simp: in_set_conv_nth)
    moreover have "k < x" if "x \<in> set (drop i ks)" for x
      using that greater by (auto simp: in_set_conv_nth)
    moreover have "i \<le> length ks" using b i by simp
    ultimately show ?thesis by blast
  qed
qed

end
