(* ===== verification/Id_Matcher.thy ===== *)
theory Id_Matcher
  imports Protocol Rust_Search
begin

text \<open>
  Membership of a job in a plan: \<open>IdMatcher\<close>, which picks the cheapest of four representations of
  a list of transfer ids, and \<open>plan_has_child\<close>, which tries a binary search first. Both are shown
  to decide plain membership, whatever the order of the list.
\<close>

section \<open>Definitions\<close>

datatype IdMatcher =
    Empty
  | Contiguous u64 u64
  | Sorted "TransferId list"
  | Set "TransferId set"

fun windows2_all :: "('a \<Rightarrow> 'a \<Rightarrow> bool) \<Rightarrow> 'a list \<Rightarrow> bool" where
  "windows2_all P (x # y # zs) = (P x y \<and> windows2_all P (y # zs))"
| "windows2_all P _ = True"

definition id_matcher_new :: "TransferId list \<Rightarrow> IdMatcher" where
  "id_matcher_new ids =
     (if ids = [] then IdMatcher.Empty
      else let first = transfer_raw (hd ids); lst = transfer_raw (last ids); len = length ids
           in if first \<le> lst \<and> unat (lst - first) = len - 1 \<and>
                 (len \<le> 2 \<or> windows2_all (\<lambda>a b. transfer_raw a + 1 = transfer_raw b) ids)
              then Contiguous first lst
              else if windows2_all (\<le>) ids then Sorted ids
              else IdMatcher.Set (set ids))"

fun matcher_contains :: "IdMatcher \<Rightarrow> TransferId \<Rightarrow> bool" where
  "matcher_contains IdMatcher.Empty i = False"
| "matcher_contains (Contiguous first lst) i = (first \<le> transfer_raw i \<and> transfer_raw i \<le> lst)"
| "matcher_contains (Sorted ids) i =
     (case binary_search ids i of Ok _ \<Rightarrow> True | Err _ \<Rightarrow> False)"
| "matcher_contains (IdMatcher.Set S) i = (i \<in> S)"

fun matcher_len :: "IdMatcher \<Rightarrow> usize" where
  "matcher_len IdMatcher.Empty = 0"
| "matcher_len (Contiguous first lst) = unat (lst - first + 1)"
| "matcher_len (Sorted ids) = length ids"
| "matcher_len (IdMatcher.Set S) = card S"

definition matcher_is_empty :: "IdMatcher \<Rightarrow> bool" where
  "matcher_is_empty m \<longleftrightarrow> matcher_len m = 0"

definition plan_has_child :: "TransferPlan \<Rightarrow> TransferId \<Rightarrow> bool" where
  "plan_has_child plan i =
     (if plan_child_jobs plan = [] then False
      else let first = hd (plan_child_jobs plan); lst = last (plan_child_jobs plan)
           in if first \<le> lst \<and> first \<le> i \<and> i \<le> lst \<and>
                 (case binary_search (plan_child_jobs plan) i of Ok _ \<Rightarrow> True | Err _ \<Rightarrow> False)
              then True
              else i \<in> set (plan_child_jobs plan))"

section \<open>The representations decide membership\<close>

lemma windows2_all_sorted: "windows2_all (\<le>) xs \<longleftrightarrow> sorted (xs :: 'a::linorder list)"
  by (induction "(\<le>) :: 'a \<Rightarrow> 'a \<Rightarrow> bool" xs rule: windows2_all.induct)
     (auto intro: order_trans)

lemma windows2_succ_nth:
  "windows2_all (\<lambda>a b. f a + 1 = f b) xs \<Longrightarrow> k < length xs \<Longrightarrow>
   f (xs ! k) = f (hd xs) + (of_nat k :: 'n::len word)"
proof (induction "\<lambda>a b. f a + 1 = f b" xs arbitrary: k rule: windows2_all.induct)
  case (1 x y zs)
  show ?case
  proof (cases k)
    case (Suc k')
    then have "f ((y # zs) ! k') = f y + of_nat k'" using 1 by auto
    moreover have "f y = f x + 1" using "1.prems"(1) by auto
    ultimately show ?thesis using Suc by (simp add: add.assoc)
  qed simp
qed auto

lemma word_interval_of_nat:
  fixes a b x :: "'n::len word"
  assumes "a \<le> b"
  shows "a \<le> x \<and> x \<le> b \<longleftrightarrow> (\<exists>k \<le> unat (b - a). x = a + of_nat k)"
proof
  assume x: "a \<le> x \<and> x \<le> b"
  then have "x = a + of_nat (unat (x - a))" by simp
  moreover have "unat (x - a) \<le> unat (b - a)"
    using x assms by (auto simp: unat_sub word_le_nat_alt)
  ultimately show "\<exists>k \<le> unat (b - a). x = a + of_nat k" by blast
next
  assume "\<exists>k \<le> unat (b - a). x = a + of_nat k"
  then obtain k where k: "k \<le> unat (b - a)" "x = a + of_nat k" by blast
  have s: "unat a + k \<le> unat b" using k(1) assms by (simp add: unat_sub word_le_nat_alt)
  also have "unat b < 2 ^ LENGTH('n)" by (rule unsigned_less)
  finally have "unat a + k < 2 ^ LENGTH('n)" .
  then have "unat x = unat a + k"
    by (simp add: k(2) unat_word_ariths(1) unat_of_nat mod_add_right_eq)
  with s show "a \<le> x \<and> x \<le> b" by (simp add: word_le_nat_alt)
qed

lemma contiguous_nth:
  assumes "ids \<noteq> []" "transfer_raw (hd ids) \<le> transfer_raw (last ids)"
    and "unat (transfer_raw (last ids) - transfer_raw (hd ids)) = length ids - 1"
    and "length ids \<le> 2 \<or> windows2_all (\<lambda>a b. transfer_raw a + 1 = transfer_raw b) ids"
    and "k < length ids"
  shows "transfer_raw (ids ! k) = transfer_raw (hd ids) + of_nat k"
proof (cases "length ids \<le> 2")
  case False
  with assms show ?thesis using windows2_succ_nth[of transfer_raw ids k] by blast
next
  case True
  show ?thesis
  proof (cases "k = 0")
    case True
    with assms(1) show ?thesis by (simp add: hd_conv_nth)
  next
    case False
    with True assms(1,5) have k: "k = 1" "length ids = 2" by auto
    then obtain x y where ids: "ids = [x, y]" by (auto simp: length_Suc_conv numeral_2_eq_2)
    then have "unat (transfer_raw y - transfer_raw x) = unat (1 :: u64)"
      using assms(3) by simp
    then have "transfer_raw y - transfer_raw x = 1" by (rule unsigned_word_eqI)
    then show ?thesis using ids k by (simp add: algebra_simps)
  qed
qed

lemma contiguous_member:
  assumes "ids \<noteq> []" "transfer_raw (hd ids) \<le> transfer_raw (last ids)"
    and "unat (transfer_raw (last ids) - transfer_raw (hd ids)) = length ids - 1"
    and "length ids \<le> 2 \<or> windows2_all (\<lambda>a b. transfer_raw a + 1 = transfer_raw b) ids"
  shows "transfer_raw (hd ids) \<le> transfer_raw i \<and> transfer_raw i \<le> transfer_raw (last ids) \<longleftrightarrow>
         i \<in> set ids"
proof -
  have le: "k \<le> length ids - 1 \<longleftrightarrow> k < length ids" for k using assms(1) by (cases ids) auto
  have "transfer_raw (hd ids) \<le> transfer_raw i \<and> transfer_raw i \<le> transfer_raw (last ids) \<longleftrightarrow>
        (\<exists>k < length ids. transfer_raw i = transfer_raw (hd ids) + of_nat k)"
    unfolding word_interval_of_nat[OF assms(2)] assms(3) le by blast
  also have "\<dots> \<longleftrightarrow> (\<exists>k < length ids. transfer_raw i = transfer_raw (ids ! k))"
    using contiguous_nth[OF assms] by auto
  also have "\<dots> \<longleftrightarrow> i \<in> set ids"
    by (auto simp: in_set_conv_nth TransferId.expand)
  finally show ?thesis .
qed

lemma binary_search_member_iff:
  "sorted ids \<Longrightarrow> (case binary_search ids i of Ok _ \<Rightarrow> True | Err _ \<Rightarrow> False) \<longleftrightarrow> i \<in> set ids"
  using std.search_is_Ok_iff[of ids i] by (auto split: search_result.splits)

lemma matcher_contains_new [simp]: "matcher_contains (id_matcher_new ids) i \<longleftrightarrow> i \<in> set ids"
  by (auto simp: id_matcher_new_def Let_def contiguous_member binary_search_member_iff
      windows2_all_sorted)

lemma plan_has_child_iff [simp]: "plan_has_child plan i \<longleftrightarrow> i \<in> set (plan_child_jobs plan)"
  using std.search_Ok_member[of "plan_child_jobs plan" i]
  by (auto simp: plan_has_child_def Let_def split: search_result.splits)

text \<open>
  C13 (id_matcher_decides_membership): whichever representation \<open>IdMatcher::new\<close> chooses (a closed
  interval of 64-bit ids, the sorted slice, a hash set), \<open>contains\<close> answers plain membership in the
  list the matcher was built from, for every list and id, also at the ends of the 64-bit range. The
  fast path of \<open>plan_has_child\<close> answers the same for a plan's children.
\<close>

theorem id_matcher_decides_membership:
  "(matcher_contains (id_matcher_new ids) i \<longleftrightarrow> i \<in> set ids) \<and>
   (plan_has_child plan j \<longleftrightarrow> j \<in> set (plan_child_jobs plan))"
  by simp

end
