(* ===== verification/Transfer_Store.thy ===== *)
theory Transfer_Store
  imports Id_Matcher
begin

text \<open>
  \<open>TransferStore\<close>, the process-wide record of transfer plans, jobs and pending conflicts, and its
  reducer \<open>apply_event\<close>. Every operation returns the new store and the changed flag of the source.
  Vectors are lists; \<open>iter_mut().find\<close> is \<open>update_first\<close>, an indexed assignment is a list update at
  an index that \<open>find_job_index\<close> returned. The arms of \<open>apply_event\<close> are definitions of their own.
\<close>

section \<open>Definitions\<close>

record TransferStore =
  ts_plans :: "TransferPlan list"
  ts_jobs :: "TransferJob list"
  ts_pending_conflicts :: "ConflictRequest list"
  ts_just_finished_plan :: "TransferPlanId option"

definition transfer_store_default :: TransferStore where
  "transfer_store_default =
     \<lparr>ts_plans = [], ts_jobs = [], ts_pending_conflicts = [], ts_just_finished_plan = None\<rparr>"

fun plan_terminal :: "TransferPlanState \<Rightarrow> bool" where
  "plan_terminal TransferPlanState.Completed = True"
| "plan_terminal TransferPlanState.Cancelled = True"
| "plan_terminal (TransferPlanState.Failed _) = True"
| "plan_terminal _ = False"

fun job_terminal :: "TransferState \<Rightarrow> bool" where
  "job_terminal TransferState.Completed = True"
| "job_terminal TransferState.Skipped = True"
| "job_terminal (TransferState.Failed _ _) = True"
| "job_terminal _ = False"

fun job_failed :: "TransferState \<Rightarrow> bool" where
  "job_failed (TransferState.Failed _ _) = True"
| "job_failed _ = False"

subsection \<open>Lookups\<close>

definition find_plan :: "TransferStore \<Rightarrow> TransferPlanId \<Rightarrow> TransferPlan option" where
  "find_plan s pid = find (\<lambda>p. plan_id p = pid) (ts_plans s)"

definition find_job_index :: "TransferStore \<Rightarrow> TransferId \<Rightarrow> nat option" where
  "find_job_index s tid =
     (case binary_search_by_key job_id (ts_jobs s) tid of
        Ok i \<Rightarrow> Some i
      | Err _ \<Rightarrow> position (\<lambda>j. job_id j = tid) (ts_jobs s))"

definition find_job :: "TransferStore \<Rightarrow> TransferId \<Rightarrow> TransferJob option" where
  "find_job s tid = map_option ((!) (ts_jobs s)) (find_job_index s tid)"

definition plan_id_for_job :: "TransferStore \<Rightarrow> TransferId \<Rightarrow> TransferPlanId option" where
  "plan_id_for_job s tid =
     map_option plan_id
       (find (\<lambda>p. plan_root_job_id p = tid \<or> plan_has_child p tid) (ts_plans s))"

definition find_conflict :: "TransferStore \<Rightarrow> ConflictRequestId \<Rightarrow> ConflictRequest option" where
  "find_conflict s rid = find (\<lambda>c. cr_id c = rid) (ts_pending_conflicts s)"

subsection \<open>Inserts and updates of single records\<close>

definition insert_plan :: "TransferStore \<Rightarrow> TransferPlan \<Rightarrow> TransferStore \<times> bool" where
  "insert_plan s p =
     (if list_ex (\<lambda>q. plan_id q = plan_id p) (ts_plans s) then (s, False)
      else (s\<lparr>ts_plans := ts_plans s @ [p]\<rparr>, True))"

definition insert_job :: "TransferStore \<Rightarrow> TransferJob \<Rightarrow> TransferStore \<times> bool" where
  "insert_job s j =
     (case binary_search_by_key job_id (ts_jobs s) (job_id j) of
        Ok _ \<Rightarrow> (s, False)
      | Err pos \<Rightarrow> (s\<lparr>ts_jobs := insert_at pos j (ts_jobs s)\<rparr>, True))"

definition upsert_job :: "TransferStore \<Rightarrow> TransferJob \<Rightarrow> TransferStore \<times> bool" where
  "upsert_job s j =
     (case binary_search_by_key job_id (ts_jobs s) (job_id j) of
        Ok i \<Rightarrow> if ts_jobs s ! i = j then (s, False)
                else (s\<lparr>ts_jobs := (ts_jobs s)[i := j]\<rparr>, True)
      | Err pos \<Rightarrow> (s\<lparr>ts_jobs := insert_at pos j (ts_jobs s)\<rparr>, True))"

definition upsert_conflict :: "TransferStore \<Rightarrow> ConflictRequest \<Rightarrow> TransferStore \<times> bool" where
  "upsert_conflict s c =
     (case find (\<lambda>e. cr_id e = cr_id c) (ts_pending_conflicts s) of
        Some existing \<Rightarrow>
          if existing = c then (s, False)
          else (s\<lparr>ts_pending_conflicts :=
                    update_first (\<lambda>e. cr_id e = cr_id c) (\<lambda>_. c) (ts_pending_conflicts s)\<rparr>, True)
      | None \<Rightarrow> (s\<lparr>ts_pending_conflicts := ts_pending_conflicts s @ [c]\<rparr>, True))"

definition remove_conflict :: "TransferStore \<Rightarrow> ConflictRequestId \<Rightarrow> TransferStore \<times> bool" where
  "remove_conflict s rid =
     (let kept = filter (\<lambda>c. cr_id c \<noteq> rid) (ts_pending_conflicts s)
      in (s\<lparr>ts_pending_conflicts := kept\<rparr>, length kept \<noteq> length (ts_pending_conflicts s)))"

definition put_job_state :: "TransferStore \<Rightarrow> nat \<Rightarrow> TransferState \<Rightarrow> TransferStore" where
  "put_job_state s i st = s\<lparr>ts_jobs := (ts_jobs s)[i := (ts_jobs s ! i)\<lparr>job_state := st\<rparr>]\<rparr>"

definition set_job_state :: "TransferStore \<Rightarrow> TransferId \<Rightarrow> TransferState \<Rightarrow> TransferStore \<times> bool" where
  "set_job_state s tid st =
     (case find_job_index s tid of
        None \<Rightarrow> (s, False)
      | Some i \<Rightarrow> if job_state (ts_jobs s ! i) = st then (s, False) else (put_job_state s i st, True))"

definition mark_cancelling :: "TransferStore \<Rightarrow> TransferId \<Rightarrow> TransferStore \<times> bool" where
  "mark_cancelling s tid =
     (case find_job_index s tid of
        None \<Rightarrow> (s, False)
      | Some i \<Rightarrow>
          (case job_state (ts_jobs s ! i) of
             TransferState.Queued \<Rightarrow> (put_job_state s i TransferState.Cancelling, True)
           | TransferState.Running _ _ _ \<Rightarrow> (put_job_state s i TransferState.Cancelling, True)
           | _ \<Rightarrow> (s, False)))"

definition cancel_job_if_unfinished :: "TransferStore \<Rightarrow> TransferId \<Rightarrow> TransferStore \<times> bool" where
  "cancel_job_if_unfinished s tid =
     (case find_job_index s tid of
        None \<Rightarrow> (s, False)
      | Some i \<Rightarrow> if job_terminal (job_state (ts_jobs s ! i)) then (s, False)
                  else (put_job_state s i TransferState.Skipped, True))"

definition put_plan_state :: "TransferStore \<Rightarrow> nat \<Rightarrow> TransferPlanState \<Rightarrow> TransferStore" where
  "put_plan_state s i st = s\<lparr>ts_plans := (ts_plans s)[i := (ts_plans s ! i)\<lparr>plan_state := st\<rparr>]\<rparr>"

subsection \<open>All jobs of a plan\<close>

definition child_jobs_slice_range :: "TransferStore \<Rightarrow> nat \<Rightarrow> (nat \<times> nat) option" where
  "child_jobs_slice_range s plan_index =
     (if length (ts_plans s) \<le> plan_index then None
      else let children = plan_child_jobs (ts_plans s ! plan_index)
           in if children = [] then None
              else (case find_job_index s (hd children) of
                      None \<Rightarrow> None
                    | Some first_idx \<Rightarrow>
                        (case find_job_index s (last children) of
                           None \<Rightarrow> None
                         | Some last_idx \<Rightarrow>
                             if first_idx \<le> last_idx \<and> last_idx - first_idx + 1 = length children
                             then Some (first_idx, last_idx) else None)))"

text \<open>The loop \<open>for job in &mut jobs { if sel(job) { job.state = st; changed = true } }\<close>.\<close>

fun rewrite_jobs :: "(TransferJob \<Rightarrow> bool) \<Rightarrow> TransferState \<Rightarrow> TransferJob list \<Rightarrow> TransferJob list \<times> bool" where
  "rewrite_jobs sel st [] = ([], False)"
| "rewrite_jobs sel st (j # js) =
     (let (js', changed) = rewrite_jobs sel st js
      in if sel j then (j\<lparr>job_state := st\<rparr> # js', True) else (j # js', changed))"

definition rewrite_slice ::
  "nat \<times> nat \<Rightarrow> (TransferJob \<Rightarrow> bool) \<Rightarrow> TransferState \<Rightarrow> TransferJob list \<Rightarrow> TransferJob list \<times> bool" where
  "rewrite_slice rng sel st js =
     (let (lo, hi) = rng;
          (mid, changed) = rewrite_jobs sel st (take (hi - lo + 1) (drop lo js))
      in (take lo js @ mid @ drop (hi + 1) js, changed))"

definition fail_plan_jobs :: "TransferStore \<Rightarrow> nat \<Rightarrow> TransferState \<Rightarrow> TransferStore \<times> bool" where
  "fail_plan_jobs s i jst =
     (let root = plan_root_job_id (ts_plans s ! i);
          children = plan_child_jobs (ts_plans s ! i)
      in if children = [] then set_job_state s root jst
         else case child_jobs_slice_range s i of
                Some rng \<Rightarrow>
                  (let (s', c') = set_job_state s root jst;
                       (js, c'') = rewrite_slice rng (\<lambda>j. job_state j \<noteq> jst) jst (ts_jobs s')
                   in (s'\<lparr>ts_jobs := js\<rparr>, c' \<or> c''))
              | None \<Rightarrow>
                  (let matcher = id_matcher_new children;
                       (js, c') = rewrite_jobs
                         (\<lambda>j. (job_id j = root \<or> matcher_contains matcher (job_id j)) \<and>
                              job_state j \<noteq> jst) jst (ts_jobs s)
                   in (s\<lparr>ts_jobs := js\<rparr>, c')))"

definition set_plan_terminal_state ::
  "TransferStore \<Rightarrow> TransferPlanId \<Rightarrow> TransferPlanState \<Rightarrow> TransferState \<Rightarrow> TransferStore \<times> bool" where
  "set_plan_terminal_state s pid pst jst =
     (case position (\<lambda>p. plan_id p = pid) (ts_plans s) of
        None \<Rightarrow> (s, False)
      | Some i \<Rightarrow>
          let (s1, c1) = (if plan_state (ts_plans s ! i) \<noteq> pst then (put_plan_state s i pst, True)
                          else (s, False));
              (s2, c2) = fail_plan_jobs s1 i jst;
              changed = (c1 \<or> c2)
          in (if changed then s2\<lparr>ts_just_finished_plan := Some pid\<rparr> else s2, changed))"

definition cancel_blocked :: "TransferPlanState \<Rightarrow> bool" where
  "cancel_blocked st \<longleftrightarrow>
     (case st of TransferPlanState.Cancelled \<Rightarrow> True | TransferPlanState.Failed _ \<Rightarrow> True | _ \<Rightarrow> False)"

definition cancel_plan_jobs :: "TransferStore \<Rightarrow> nat \<Rightarrow> TransferStore \<times> bool" where
  "cancel_plan_jobs s i =
     (let root = plan_root_job_id (ts_plans s ! i);
          children = plan_child_jobs (ts_plans s ! i)
      in if children = [] then cancel_job_if_unfinished s root
         else case child_jobs_slice_range s i of
                Some rng \<Rightarrow>
                  (let (s', c') = cancel_job_if_unfinished s root;
                       (js, c'') = rewrite_slice rng (\<lambda>j. \<not> job_terminal (job_state j))
                                     TransferState.Skipped (ts_jobs s')
                   in (s'\<lparr>ts_jobs := js\<rparr>, c' \<or> c''))
              | None \<Rightarrow>
                  (let matcher = id_matcher_new children;
                       (js, c') = rewrite_jobs
                         (\<lambda>j. (job_id j = root \<or> matcher_contains matcher (job_id j)) \<and>
                              \<not> job_terminal (job_state j))
                         TransferState.Skipped (ts_jobs s)
                   in (s\<lparr>ts_jobs := js\<rparr>, c')))"

definition set_plan_cancelled :: "TransferStore \<Rightarrow> TransferPlanId \<Rightarrow> TransferStore \<times> bool" where
  "set_plan_cancelled s pid =
     (case position (\<lambda>p. plan_id p = pid) (ts_plans s) of
        None \<Rightarrow> (s, False)
      | Some i \<Rightarrow>
          if cancel_blocked (plan_state (ts_plans s ! i)) then (s, False)
          else let (s1, changed) = cancel_plan_jobs s i
               in if \<not> changed then (s1, False)
                  else if plan_state (ts_plans s1 ! i) \<noteq> TransferPlanState.Cancelled
                  then ((put_plan_state s1 i TransferPlanState.Cancelled)
                          \<lparr>ts_just_finished_plan := Some pid\<rparr>, True)
                  else (s1, changed))"

subsection \<open>The end of a job and of its plan\<close>

text \<open>
  The scan over the children, last job first: \<open>None\<close> is the early \<open>return false\<close> at a job that is
  not finished, \<open>Some (any_failed, finished)\<close> the counters after the loop.
\<close>

fun scan_children ::
  "(TransferJob \<Rightarrow> bool) \<Rightarrow> TransferJob list \<Rightarrow> bool \<Rightarrow> nat \<Rightarrow> (bool \<times> nat) option" where
  "scan_children sel [] any_failed finished = Some (any_failed, finished)"
| "scan_children sel (j # js) any_failed finished =
     (if \<not> sel j then scan_children sel js any_failed finished
      else case job_state j of
             TransferState.Completed \<Rightarrow> scan_children sel js any_failed (finished + 1)
           | TransferState.Skipped \<Rightarrow> scan_children sel js any_failed (finished + 1)
           | TransferState.Failed _ _ \<Rightarrow> scan_children sel js True (finished + 1)
           | _ \<Rightarrow> None)"

definition finished_with_failures :: UserFacingError where
  "finished_with_failures =
     user_facing_error ErrorCode.Unknown (lit ''Transfer finished with failures'')
       (lit ''Some files could not be transferred.'')"

definition scan_plan :: "TransferStore \<Rightarrow> nat \<Rightarrow> (bool \<times> nat) option" where
  "scan_plan s i =
     (case child_jobs_slice_range s i of
        Some (lo, hi) \<Rightarrow> scan_children (\<lambda>_. True) (rev (take (hi - lo + 1) (drop lo (ts_jobs s)))) False 0
      | None \<Rightarrow> (let matcher = id_matcher_new (plan_child_jobs (ts_plans s ! i))
                 in scan_children (\<lambda>j. matcher_contains matcher (job_id j)) (rev (ts_jobs s)) False 0))"

definition finalize_plan_for_job :: "TransferStore \<Rightarrow> TransferId \<Rightarrow> TransferStore \<times> bool" where
  "finalize_plan_for_job s tid =
     (case position (\<lambda>p. plan_has_child p tid) (ts_plans s) of
        None \<Rightarrow>
          (case find (\<lambda>p. plan_root_job_id p = tid \<and> plan_child_jobs p = []) (ts_plans s) of
             Some p \<Rightarrow> (s\<lparr>ts_just_finished_plan := Some (plan_id p)\<rparr>, False)
           | None \<Rightarrow> (s, False))
      | Some i \<Rightarrow>
          if plan_terminal (plan_state (ts_plans s ! i)) then (s, False)
          else case scan_plan s i of
                 None \<Rightarrow> (s, False)
               | Some (any_failed, finished) \<Rightarrow>
                   if finished \<noteq> length (plan_child_jobs (ts_plans s ! i)) then (s, False)
                   else let pid = plan_id (ts_plans s ! i);
                            root = plan_root_job_id (ts_plans s ! i);
                            (pst, rst) =
                              (if any_failed
                               then (TransferPlanState.Failed finished_with_failures,
                                     TransferState.Failed finished_with_failures True)
                               else (TransferPlanState.Completed, TransferState.Completed));
                            s1 = put_plan_state s i pst
                        in (s1\<lparr>ts_jobs := update_first (\<lambda>j. job_id j = root)
                                            (\<lambda>j. j\<lparr>job_state := rst\<rparr>) (ts_jobs s1),
                               ts_just_finished_plan := Some pid\<rparr>, True))"

fun remove_conflicts :: "TransferStore \<Rightarrow> ConflictRequestId list \<Rightarrow> TransferStore \<times> bool" where
  "remove_conflicts s [] = (s, False)"
| "remove_conflicts s (rid # rids) =
     (let (s1, c1) = remove_conflict s rid; (s2, c2) = remove_conflicts s1 rids in (s2, c1 \<or> c2))"

definition set_transfer_terminal ::
  "TransferStore \<Rightarrow> TransferId \<Rightarrow> TransferState \<Rightarrow> TransferStore \<times> bool" where
  "set_transfer_terminal s tid st =
     (let (s1, changed) = set_job_state s tid st;
          conflict_ids = map cr_id (filter (\<lambda>c. cr_transfer_id c = tid) (ts_pending_conflicts s1));
          (s2, conflicts_changed) = remove_conflicts s1 conflict_ids;
          (s3, finalized) = finalize_plan_for_job s2 tid
      in (s3, changed \<or> conflicts_changed \<or> finalized))"

definition clear_terminal :: "TransferStore \<Rightarrow> TransferStore \<times> bool" where
  "clear_terminal s =
     (let jobs = filter (\<lambda>j. \<not> job_terminal (job_state j)) (ts_jobs s);
          remaining_ids = set (map job_id jobs);
          plans = filter (\<lambda>p. plan_root_job_id p \<in> remaining_ids \<or>
                               list_ex (\<lambda>i. i \<in> remaining_ids) (plan_child_jobs p)) (ts_plans s)
      in (s\<lparr>ts_jobs := jobs, ts_plans := plans\<rparr>, length jobs \<noteq> length (ts_jobs s)))"

subsection \<open>The reducer\<close>

definition ascends_after :: "TransferId list \<Rightarrow> TransferId list \<Rightarrow> bool" where
  "ascends_after known new =
     (case new of
        [] \<Rightarrow> False
      | first_new # _ \<Rightarrow> (if known = [] then True else last known < first_new))"

definition extend_plan :: "TransferPlan \<Rightarrow> TransferPlanProgress \<Rightarrow> TransferPlan \<times> bool" where
  "extend_plan p progress =
     (let new_ids = map job_id (tpp_child_jobs progress);
          (p1, c1) = (if plan_planned_count p < tpp_planned_count progress
                      then (p\<lparr>plan_planned_count := tpp_planned_count progress,
                              plan_total_bytes := tpp_total_bytes progress\<rparr>, True)
                      else (p, False))
      in if ascends_after (plan_child_jobs p1) new_ids
         then (p1\<lparr>plan_child_jobs := plan_child_jobs p1 @ new_ids\<rparr>, True)
         else let matcher = id_matcher_new (plan_child_jobs p1);
                  to_add = filter (\<lambda>i. \<not> matcher_contains matcher i) new_ids
              in if to_add \<noteq> []
                 then (p1\<lparr>plan_child_jobs := plan_child_jobs p1 @ to_add\<rparr>, True)
                 else (p1, c1))"

fun insert_jobs :: "TransferStore \<Rightarrow> TransferJob list \<Rightarrow> TransferStore \<times> bool" where
  "insert_jobs s [] = (s, False)"
| "insert_jobs s (j # js) =
     (let (s1, c1) = insert_job s j; (s2, c2) = insert_jobs s1 js in (s2, c1 \<or> c2))"

definition extend_jobs :: "TransferStore \<Rightarrow> TransferJob list \<Rightarrow> TransferStore \<times> bool" where
  "extend_jobs s new =
     (if ascends_after (map job_id (ts_jobs s)) (map job_id new)
      then (if new \<noteq> [] then (s\<lparr>ts_jobs := ts_jobs s @ new\<rparr>, True) else (s, False))
      else insert_jobs s new)"

definition apply_plan_progress :: "TransferStore \<Rightarrow> TransferPlanProgress \<Rightarrow> TransferStore \<times> bool" where
  "apply_plan_progress s progress =
     (case position (\<lambda>p. plan_id p = tpp_plan_id progress) (ts_plans s) of
        None \<Rightarrow> extend_jobs s (tpp_child_jobs progress)
      | Some i \<Rightarrow>
          if plan_terminal (plan_state (ts_plans s ! i)) then (s, False)
          else let (p, c1) = extend_plan (ts_plans s ! i) progress;
                   (s2, c2) = extend_jobs (s\<lparr>ts_plans := (ts_plans s)[i := p]\<rparr>) (tpp_child_jobs progress)
               in (s2, c1 \<or> c2))"

definition apply_plan_completed :: "TransferStore \<Rightarrow> TransferPlanId \<Rightarrow> TransferStore \<times> bool" where
  "apply_plan_completed s pid =
     (case position (\<lambda>p. plan_id p = pid) (ts_plans s) of
        None \<Rightarrow> (s, False)
      | Some i \<Rightarrow>
          let p = ts_plans s ! i
          in if plan_terminal (plan_state p) then (s, False)
             else let empty = (plan_child_jobs p = []);
                      pst = (if empty then TransferPlanState.Completed else TransferPlanState.Queued);
                      rst = (if empty then TransferState.Completed else TransferState.Queued);
                      (s1, c1) = (if plan_state p \<noteq> pst then (put_plan_state s i pst, True) else (s, False));
                      (s2, c2) = set_job_state s1 (plan_root_job_id p) rst
                  in (s2, c1 \<or> c2))"

definition apply_conflict :: "TransferStore \<Rightarrow> TransferConflictPrompt \<Rightarrow> Timestamp \<Rightarrow> TransferStore \<times> bool" where
  "apply_conflict s prompt now =
     (let (s1, waiting) = set_job_state s (tcp_transfer_id prompt)
            (TransferState.WaitingForConflictDecision (tcp_plan_id prompt) (tcp_request_id prompt));
          conflict = with_source_details
            (conflict_request_new (tcp_request_id prompt) (tcp_plan_id prompt) (tcp_transfer_id prompt)
               (tcp_source prompt) (tcp_destination prompt) now)
            (tcp_source_size prompt) (tcp_source_modified_at prompt);
          (s2, upserted) = upsert_conflict s1 conflict
      in (s2, waiting \<or> upserted))"

definition apply_progress :: "TransferStore \<Rightarrow> TransferProgress \<Rightarrow> Timestamp \<Rightarrow> TransferStore \<times> bool" where
  "apply_progress s progress now =
     (case find_job_index s (tp_transfer_id progress) of
        None \<Rightarrow> (s, False)
      | Some i \<Rightarrow>
          let old = job_state (ts_jobs s ! i)
          in if old = TransferState.Cancelling \<or> job_terminal old then (s, False)
             else let started_at = (case old of TransferState.Running _ _ t \<Rightarrow> t | _ \<Rightarrow> now);
                      st = TransferState.Running (tp_bytes_done progress) (tp_bytes_total progress) started_at
                  in if old = st then (s, False) else (put_job_state s i st, True))"

definition apply_warning :: "TransferStore \<Rightarrow> TransferWarning \<Rightarrow> TransferStore \<times> bool" where
  "apply_warning s w =
     (case find_job_index s (tw_transfer_id w) of
        None \<Rightarrow> (s, False)
      | Some i \<Rightarrow>
          let j = ts_jobs s ! i
          in if w \<in> set (job_warnings j) then (s, False)
             else (s\<lparr>ts_jobs := (ts_jobs s)[i := j\<lparr>job_warnings := job_warnings j @ [w]\<rparr>]\<rparr>, True))"

definition apply_plan_started :: "TransferStore \<Rightarrow> TransferPlanSnapshot \<Rightarrow> TransferStore \<times> bool" where
  "apply_plan_started s snapshot =
     (let (s1, c1) = insert_plan s (tps_plan snapshot);
          (s2, c2) = insert_job s1 (tps_root_job snapshot)
      in (s2, c1 \<or> c2))"

fun reduce_event :: "TransferStore \<Rightarrow> TransferEvent \<Rightarrow> Timestamp \<Rightarrow> TransferStore \<times> bool" where
  "reduce_event s (PlanStarted snapshot) now = apply_plan_started s snapshot"
| "reduce_event s (PlanProgress progress) now = apply_plan_progress s progress"
| "reduce_event s (PlanCompleted pid) now = apply_plan_completed s pid"
| "reduce_event s (PlanCancelled pid) now = set_plan_cancelled s pid"
| "reduce_event s (PlanFailed pid error) now =
     set_plan_terminal_state s pid (TransferPlanState.Failed error)
       (TransferState.Failed error (ufe_retryable error))"
| "reduce_event s (TransferEvent.Running job) now = upsert_job s job"
| "reduce_event s (Conflict prompt) now = apply_conflict s prompt now"
| "reduce_event s (Progress progress) now = apply_progress s progress now"
| "reduce_event s (Warning warning) now = apply_warning s warning"
| "reduce_event s (TransferEvent.Completed tid) now = set_transfer_terminal s tid TransferState.Completed"
| "reduce_event s (TransferEvent.Skipped tid) now = set_transfer_terminal s tid TransferState.Skipped"
| "reduce_event s (TransferEvent.Failed failure) now =
     set_transfer_terminal s (tf_transfer_id failure)
       (TransferState.Failed (tf_error failure) (ufe_retryable (tf_error failure)))"

definition apply_event :: "TransferStore \<Rightarrow> TransferEvent \<Rightarrow> Timestamp \<Rightarrow> TransferStore \<times> bool" where
  "apply_event s event now = reduce_event (s\<lparr>ts_just_finished_plan := None\<rparr>) event now"

section \<open>Lookups and single updates\<close>

lemma find_job_index_Some:
  "find_job_index s tid = Some i \<Longrightarrow> i < length (ts_jobs s) \<and> job_id (ts_jobs s ! i) = tid"
  using std.search_Ok[of "map job_id (ts_jobs s)" tid]
  by (auto simp: find_job_index_def binary_search_by_key_def dest: position_Some_nth
      split: search_result.splits)

lemma find_job_index_None: "find_job_index s tid = None \<longleftrightarrow> tid \<notin> job_id ` set (ts_jobs s)"
  using std.search_Ok_member[of "map job_id (ts_jobs s)" tid]
  by (auto simp: find_job_index_def binary_search_by_key_def position_None_iff
      split: search_result.splits)

lemma find_job_index_distinct:
  assumes "distinct (map job_id (ts_jobs s))"
  shows "find_job_index s tid = Some i \<longleftrightarrow> i < length (ts_jobs s) \<and> job_id (ts_jobs s ! i) = tid"
proof
  assume i: "i < length (ts_jobs s) \<and> job_id (ts_jobs s ! i) = tid"
  then have "tid \<in> job_id ` set (ts_jobs s)" using nth_mem by blast
  then obtain k where k: "find_job_index s tid = Some k"
    using find_job_index_None[of s tid] by (cases "find_job_index s tid") auto
  from find_job_index_Some[OF k] i assms have "k = i"
    by (metis length_map nth_eq_iff_index_eq nth_map)
  with k show "find_job_index s tid = Some i" by simp
qed (rule find_job_index_Some)

definition store_data :: "TransferStore \<Rightarrow> TransferPlan list \<times> TransferJob list \<times> ConflictRequest list" where
  "store_data s = (ts_plans s, ts_jobs s, ts_pending_conflicts s)"

lemma put_job_state_simps [simp]:
  "ts_plans (put_job_state s i st) = ts_plans s"
  "ts_pending_conflicts (put_job_state s i st) = ts_pending_conflicts s"
  "ts_just_finished_plan (put_job_state s i st) = ts_just_finished_plan s"
  "ts_jobs (put_job_state s i st) = (ts_jobs s)[i := (ts_jobs s ! i)\<lparr>job_state := st\<rparr>]"
  by (simp_all add: put_job_state_def)

lemma put_plan_state_simps [simp]:
  "ts_jobs (put_plan_state s i st) = ts_jobs s"
  "ts_pending_conflicts (put_plan_state s i st) = ts_pending_conflicts s"
  "ts_just_finished_plan (put_plan_state s i st) = ts_just_finished_plan s"
  "ts_plans (put_plan_state s i st) = (ts_plans s)[i := (ts_plans s ! i)\<lparr>plan_state := st\<rparr>]"
  by (simp_all add: put_plan_state_def)

lemma job_state_update_eq [simp]: "j\<lparr>job_state := st\<rparr> = j \<longleftrightarrow> job_state j = st"
  by (cases j) auto

lemma plan_state_update_eq [simp]: "p\<lparr>plan_state := st\<rparr> = p \<longleftrightarrow> plan_state p = st"
  by (cases p) auto

text \<open>
  A job list advances towards a state when jobs only change by taking that state. Advances compose,
  and a composition changes the list iff one of its parts does.
\<close>

definition advance :: "TransferState \<Rightarrow> TransferJob list \<Rightarrow> TransferJob list \<Rightarrow> bool" where
  "advance st = list_all2 (\<lambda>j j'. j' = j \<or> (job_state j \<noteq> st \<and> j' = j\<lparr>job_state := st\<rparr>))"

lemma advance_refl [simp]: "advance st js js"
  by (simp add: advance_def list_all2_refl)

lemma advance_trans:
  "advance st js js' \<Longrightarrow> advance st js' js'' \<Longrightarrow>
   advance st js js'' \<and> (js'' \<noteq> js \<longleftrightarrow> js' \<noteq> js \<or> js'' \<noteq> js')"
  unfolding advance_def
proof (induction js js' arbitrary: js'' rule: list_all2_induct)
  case (Cons x xs y ys)
  then obtain z zs where js'': "js'' = z # zs" by (cases js'') auto
  with Cons.prems Cons.IH[of zs] Cons.hyps(1) show ?case by auto
qed simp

lemma advance_ids: "advance st js js' \<Longrightarrow> map job_id js' = map job_id js"
  unfolding advance_def by (induction js js' rule: list_all2_induct) auto

lemma advance_update:
  "i < length js \<Longrightarrow> job_state (js ! i) \<noteq> st \<Longrightarrow>
   advance st js (js[i := (js ! i)\<lparr>job_state := st\<rparr>])"
  unfolding advance_def by (auto simp: list_all2_conv_all_nth nth_list_update)

lemma advance_append:
  "advance st as as' \<Longrightarrow> advance st bs bs' \<Longrightarrow> advance st (as @ bs) (as' @ bs')"
  unfolding advance_def by (rule list_all2_appendI)

lemma rewrite_jobs_eq:
  "rewrite_jobs sel st js =
     (map (\<lambda>j. if sel j then j\<lparr>job_state := st\<rparr> else j) js, \<exists>j \<in> set js. sel j)"
  by (induction js) auto

lemma rewrite_jobs_advance:
  assumes "\<And>j. sel j \<Longrightarrow> job_state j \<noteq> st"
  shows "advance st js (fst (rewrite_jobs sel st js)) \<and>
         (snd (rewrite_jobs sel st js) \<longleftrightarrow> fst (rewrite_jobs sel st js) \<noteq> js)"
  using assms unfolding advance_def by (induction js) (auto split: prod.splits)

lemma slice_split:
  "lo \<le> hi \<Longrightarrow> js = take lo js @ take (hi - lo + 1) (drop lo js) @ drop (hi + 1) js"
proof -
  assume "lo \<le> hi"
  then have "drop (hi + 1) js = drop (hi - lo + 1) (drop lo js)" by simp
  then show ?thesis by (simp only: append_take_drop_id)
qed

lemma rewrite_slice_advance:
  assumes "\<And>j. sel j \<Longrightarrow> job_state j \<noteq> st" "lo \<le> hi"
  shows "advance st js (fst (rewrite_slice (lo, hi) sel st js)) \<and>
         (snd (rewrite_slice (lo, hi) sel st js) \<longleftrightarrow> fst (rewrite_slice (lo, hi) sel st js) \<noteq> js)"
proof -
  note js = slice_split[OF assms(2), of js]
  let ?m = "take (hi - lo + 1) (drop lo js)"
  obtain mid c where m: "rewrite_jobs sel st ?m = (mid, c)" by fastforce
  with rewrite_jobs_advance[OF assms(1), of sel ?m]
  have mid: "advance st ?m mid" "c \<longleftrightarrow> mid \<noteq> ?m" by auto
  have eq: "rewrite_slice (lo, hi) sel st js = (take lo js @ mid @ drop (hi + 1) js, c)"
    using m by (simp add: rewrite_slice_def)
  have "advance st js (take lo js @ mid @ drop (hi + 1) js)"
    using advance_append[OF advance_refl advance_append[OF mid(1) advance_refl]] js by metis
  moreover have "take lo js @ mid @ drop (hi + 1) js = js \<longleftrightarrow> mid = ?m"
    using js by (metis append_same_eq same_append_eq)
  ultimately show ?thesis using mid(2) by (simp add: eq)
qed

end
