(* ===== verification/Transfer_Invariant.thy ===== *)
theory Transfer_Invariant
  imports Transfer_Laws
begin

text \<open>
  The invariant of the transfer store: the job table is strictly ascending by id, which is what
  makes its binary searches and slices sound, plans and conflicts have unique ids, and the children
  of a plan ascend and do not include its root job. The runtime hands out ids from one counter and
  publishes a plan's children in batches; \<open>transfer_admissible\<close> says so, replays included.
\<close>

section \<open>Definitions\<close>

definition plan_ok :: "TransferPlan \<Rightarrow> bool" where
  "plan_ok p \<longleftrightarrow> sorted_wrt (<) (plan_child_jobs p) \<and> plan_root_job_id p \<notin> set (plan_child_jobs p)"

definition jobs_ordered :: "TransferJob list \<Rightarrow> bool" where
  "jobs_ordered js \<longleftrightarrow> sorted_wrt (<) (map job_id js)"

definition transfer_inv :: "TransferStore \<Rightarrow> bool" where
  "transfer_inv s \<longleftrightarrow>
     jobs_ordered (ts_jobs s) \<and> distinct (map plan_id (ts_plans s)) \<and>
     distinct (map cr_id (ts_pending_conflicts s)) \<and> list_all plan_ok (ts_plans s)"

definition children_present :: "TransferStore \<Rightarrow> bool" where
  "children_present s \<longleftrightarrow>
     list_all (\<lambda>p. list_all (\<lambda>i. i \<in> job_id ` set (ts_jobs s)) (plan_child_jobs p)) (ts_plans s)"

text \<open>
  A plan is announced with no children. A batch of children ascends, does not contain the plan's
  root job, and either follows all children the plan has or is a replay of some of them.
\<close>

definition batch_ok :: "TransferPlan \<Rightarrow> TransferId list \<Rightarrow> bool" where
  "batch_ok p ids \<longleftrightarrow>
     plan_root_job_id p \<notin> set ids \<and>
     (list_all (\<lambda>i. i \<in> set (plan_child_jobs p)) ids \<or>
      list_all (\<lambda>i. list_all (\<lambda>c. c < i) (plan_child_jobs p)) ids)"

fun event_admissible :: "TransferStore \<Rightarrow> TransferEvent \<Rightarrow> bool" where
  "event_admissible s (PlanStarted snapshot) = (plan_child_jobs (tps_plan snapshot) = [])"
| "event_admissible s (PlanProgress progress) =
     (sorted_wrt (<) (map job_id (tpp_child_jobs progress)) \<and>
      (case find_plan s (tpp_plan_id progress) of
         None \<Rightarrow> True
       | Some p \<Rightarrow> batch_ok p (map job_id (tpp_child_jobs progress))))"
| "event_admissible s _ = True"

fun reducer_admissible :: "TransferStore \<Rightarrow> ReducerOp \<Rightarrow> bool" where
  "reducer_admissible s (ApplyEvent event now) = event_admissible s event"
| "reducer_admissible s _ = True"

fun transfer_admissible :: "TransferStore \<Rightarrow> TransferOp \<Rightarrow> bool" where
  "transfer_admissible s (Reduce a) = reducer_admissible s a"
| "transfer_admissible s ClearTerminal = True"

section \<open>The job table\<close>

lemma map_update_same: "i < length xs \<Longrightarrow> f x = f (xs ! i) \<Longrightarrow> map f (xs[i := x]) = map f xs"
  by (metis list_update_id length_map map_update nth_map)

lemma image_ids: "map job_id js' = map job_id js \<Longrightarrow> job_id ` set js' = job_id ` set js"
  by (metis set_map)

lemma jobs_ordered_distinct: "jobs_ordered js \<Longrightarrow> distinct (map job_id js)"
  by (simp add: jobs_ordered_def strict_sorted_iff)

lemma jobs_ordered_ids: "map job_id js' = map job_id js \<Longrightarrow> jobs_ordered js' \<longleftrightarrow> jobs_ordered js"
  by (simp add: jobs_ordered_def)

lemma insert_at_ordered:
  assumes "binary_search_by_key job_id js (job_id j) = Err pos" "jobs_ordered js"
  shows "jobs_ordered (insert_at pos j js)"
  using std.insert_at_Err_sorted[of "map job_id js" "job_id j" pos] assms
  by (simp add: jobs_ordered_def binary_search_by_key_def map_insert_at)

lemma insert_job_jobs:
  assumes "insert_job s j = (s', c)" "jobs_ordered (ts_jobs s)"
  shows "jobs_ordered (ts_jobs s') \<and> job_id ` set (ts_jobs s') = insert (job_id j) (job_id ` set (ts_jobs s)) \<and>
         (\<not> c \<longleftrightarrow> job_id j \<in> job_id ` set (ts_jobs s))"
proof (cases "binary_search_by_key job_id (ts_jobs s) (job_id j)")
  case (Ok i)
  then have "job_id j \<in> set (map job_id (ts_jobs s))"
    by (metis binary_search_by_key_def std.search_Ok_member)
  with Ok assms show ?thesis by (auto simp: insert_job_def)
next
  case (Err pos)
  then have "job_id j \<notin> set (map job_id (ts_jobs s))"
    using std.search_Err_absent[of "map job_id (ts_jobs s)" "job_id j" pos] assms(2)
    by (simp add: binary_search_by_key_def jobs_ordered_def strict_sorted_iff)
  with Err assms insert_at_ordered[OF Err assms(2)] show ?thesis by (auto simp: insert_job_def)
qed

lemma insert_jobs_jobs:
  "insert_jobs s js = (s', c) \<Longrightarrow> jobs_ordered (ts_jobs s) \<Longrightarrow>
   jobs_ordered (ts_jobs s') \<and> job_id ` set (ts_jobs s') = job_id ` set js \<union> job_id ` set (ts_jobs s) \<and>
   (\<not> c \<longleftrightarrow> job_id ` set js \<subseteq> job_id ` set (ts_jobs s))"
proof (induction js arbitrary: s s' c)
  case (Cons j js)
  obtain s1 c1 where 1: "insert_job s j = (s1, c1)" by fastforce
  obtain s2 c2 where 2: "insert_jobs s1 js = (s2, c2)" by fastforce
  note a = insert_job_jobs[OF 1 Cons.prems(2)]
  note b = Cons.IH[OF 2 conjunct1[OF a]]
  have "s' = s2" "c = (c1 \<or> c2)" using Cons.prems(1) 1 2 by (auto simp: Let_def)
  with a b show ?case by auto
qed simp

lemma extend_jobs_jobs:
  assumes "extend_jobs s js = (s', c)" "jobs_ordered (ts_jobs s)" "sorted_wrt (<) (map job_id js)"
  shows "jobs_ordered (ts_jobs s') \<and> job_id ` set (ts_jobs s') = job_id ` set js \<union> job_id ` set (ts_jobs s) \<and>
         (\<not> c \<longleftrightarrow> job_id ` set js \<subseteq> job_id ` set (ts_jobs s))"
proof (cases "ascends_after (map job_id (ts_jobs s)) (map job_id js)")
  case False
  with assms show ?thesis using insert_jobs_jobs by (simp add: extend_jobs_def)
next
  case True
  then obtain j r where js: "js = j # r" by (cases js) auto
  have above: "\<forall>x \<in> set (map job_id (ts_jobs s)). \<forall>y \<in> set (map job_id js). x < y"
  proof (cases "ts_jobs s" rule: rev_cases)
    case (snoc ys y)
    then have "job_id y < job_id j" using True js by (simp add: ascends_after_def)
    moreover have "\<forall>x \<in> set (map job_id (ts_jobs s)). x \<le> job_id y"
      using assms(2) snoc by (auto simp: jobs_ordered_def sorted_wrt_append)
    moreover have "\<forall>x \<in> set (map job_id js). job_id j \<le> x" using assms(3) js by auto
    ultimately show ?thesis by fastforce
  qed simp
  then have "job_id j \<notin> job_id ` set (ts_jobs s)" using js by force
  with True assms js above show ?thesis
    by (auto simp: extend_jobs_def jobs_ordered_def sorted_wrt_append)
qed

lemma upsert_job_jobs:
  assumes "upsert_job s j = (s', c)" "jobs_ordered (ts_jobs s)"
  shows "jobs_ordered (ts_jobs s') \<and> job_id ` set (ts_jobs s') = insert (job_id j) (job_id ` set (ts_jobs s))"
proof (cases "binary_search_by_key job_id (ts_jobs s) (job_id j)")
  case (Ok i)
  then have i: "i < length (ts_jobs s)" "job_id (ts_jobs s ! i) = job_id j"
    using std.search_Ok[of "map job_id (ts_jobs s)" "job_id j" i] by (auto simp: binary_search_by_key_def)
  have ids: "map job_id ((ts_jobs s)[i := j]) = map job_id (ts_jobs s)"
    using i by (simp add: map_update_same)
  have "job_id j \<in> job_id ` set (ts_jobs s)" using i by (metis image_eqI nth_mem)
  with Ok assms jobs_ordered_ids[OF ids] image_ids[OF ids] show ?thesis
    by (auto simp: upsert_job_def insert_absorb split: if_splits)
next
  case (Err pos)
  with assms insert_at_ordered[OF Err assms(2)] show ?thesis by (auto simp: upsert_job_def)
qed

lemma put_job_state_ids:
  "find_job_index s tid = Some i \<Longrightarrow>
   map job_id ((ts_jobs s)[i := (ts_jobs s ! i)\<lparr>job_state := st\<rparr>]) = map job_id (ts_jobs s)"
  using find_job_index_Some by (simp add: map_update_same)

lemma state_ops_ids:
  "map job_id (ts_jobs (fst (set_job_state s tid st))) = map job_id (ts_jobs s)"
  "map job_id (ts_jobs (fst (apply_progress s progress now))) = map job_id (ts_jobs s)"
  "map job_id (ts_jobs (fst (apply_warning s w))) = map job_id (ts_jobs s)"
  "map job_id (ts_jobs (fst (mark_cancelling s tid))) = map job_id (ts_jobs s)"
  "map job_id (ts_jobs (fst (remove_conflict s rid))) = map job_id (ts_jobs s)"
  subgoal by (simp add: set_job_state_def put_job_state_ids split: option.split)
  subgoal by (simp add: apply_progress_def Let_def put_job_state_ids split: option.split)
  subgoal by (auto simp: apply_warning_def Let_def map_update_same split: option.split dest!: find_job_index_Some)
  subgoal by (simp add: mark_cancelling_def put_job_state_ids split: option.split TransferState.split)
  subgoal by (simp add: remove_conflict_def Let_def)
  done

lemma conflict_ids: "map job_id (ts_jobs (fst (apply_conflict s prompt now))) = map job_id (ts_jobs s)"
  by (auto simp: apply_conflict_def Let_def split: prod.splits
      dest!: set_job_state_advance upsert_conflict_flag dest: advance_ids)

lemma plan_completed_ids: "map job_id (ts_jobs (fst (apply_plan_completed s pid))) = map job_id (ts_jobs s)"
  by (simp add: apply_plan_completed_def Let_def case_prod_beta state_ops_ids split: option.splits)

lemma plan_cancelled_ids: "map job_id (ts_jobs (fst (set_plan_cancelled s pid))) = map job_id (ts_jobs s)"
proof (cases "position (\<lambda>p. plan_id p = pid) (ts_plans s)")
  case (Some i)
  obtain s1 c1 where 1: "cancel_plan_jobs s i = (s1, c1)" by fastforce
  then show ?thesis
    using Some cancel_plan_jobs_advance[OF 1] advance_ids by (auto simp: set_plan_cancelled_def)
qed (simp add: set_plan_cancelled_def)

lemma plan_terminal_state_ids:
  "map job_id (ts_jobs (fst (set_plan_terminal_state s pid pst jst))) = map job_id (ts_jobs s)"
proof (cases "position (\<lambda>p. plan_id p = pid) (ts_plans s)")
  case (Some i)
  have "map job_id (ts_jobs (fst (fail_plan_jobs s1 i jst))) = map job_id (ts_jobs s1)" for s1
    using fail_plan_jobs_advance[of s1 i jst] advance_ids by (cases "fail_plan_jobs s1 i jst") auto
  with Some show ?thesis
    by (auto simp: set_plan_terminal_state_def Let_def case_prod_beta)
qed (simp add: set_plan_terminal_state_def)

lemma map_id_update_first:
  "map job_id (update_first P (\<lambda>j. j\<lparr>job_state := st\<rparr>) js) = map job_id js"
  by (rule map_update_first_same) simp

lemma set_transfer_terminal_fst:
  "fst (set_transfer_terminal s tid st) =
     fst (finalize_plan_for_job
       (fst (remove_conflicts (fst (set_job_state s tid st))
          (map cr_id (filter (\<lambda>c. cr_transfer_id c = tid) (ts_pending_conflicts (fst (set_job_state s tid st))))))) tid)"
  by (simp add: set_transfer_terminal_def Let_def case_prod_beta)

lemma finalize_ids: "map job_id (ts_jobs (fst (finalize_plan_for_job s tid))) = map job_id (ts_jobs s)"
proof (cases "finalize_plan_for_job s tid" rule: prod.exhaust)
  case (Pair s' c)
  from Pair show ?thesis
    by (cases rule: finalize_cases) (simp_all add: Pair store_data_def map_id_update_first)
qed

lemma transfer_terminal_ids:
  "map job_id (ts_jobs (fst (set_transfer_terminal s tid st))) = map job_id (ts_jobs s)"
  by (simp add: set_transfer_terminal_fst finalize_ids remove_conflicts_eq state_ops_ids)

lemmas op_ids = state_ops_ids conflict_ids plan_completed_ids plan_cancelled_ids
  plan_terminal_state_ids transfer_terminal_ids

lemmas op_ordered = op_ids[THEN jobs_ordered_ids]

lemmas op_images = op_ids[THEN image_ids]

section \<open>Plans\<close>

lemma plans_ok_update:
  assumes "distinct (map plan_id ps) \<and> list_all plan_ok ps" "i < length ps"
    "plan_id p = plan_id (ps ! i)" "plan_ok p"
  shows "distinct (map plan_id (ps[i := p])) \<and> list_all plan_ok (ps[i := p])"
  using assms by (auto simp: map_update_same list_all_iff dest!: subsetD[OF set_update_subset_insert])

lemma plan_ok_put_state [simp]: "plan_ok (p\<lparr>plan_state := st\<rparr>) = plan_ok p"
  by (simp add: plan_ok_def)

lemma plans_ok_put_state:
  assumes "distinct (map plan_id ps) \<and> list_all plan_ok ps" "i < length ps"
  shows "distinct (map plan_id (ps[i := (ps ! i)\<lparr>plan_state := st\<rparr>])) \<and>
         list_all plan_ok (ps[i := (ps ! i)\<lparr>plan_state := st\<rparr>])"
  using assms by (intro plans_ok_update) (auto simp: list_all_iff)

lemma added_children_fresh:
  assumes "batch_ok p (map job_id (tpp_child_jobs progress))" "plan_ok p"
  shows "added_children p progress = [] \<or>
         added_children p progress = map job_id (tpp_child_jobs progress) \<and>
         (\<forall>i \<in> set (added_children p progress). \<forall>c \<in> set (plan_child_jobs p). c < i)"
proof -
  let ?ids = "map job_id (tpp_child_jobs progress)"
  consider (known) "set ?ids \<subseteq> set (plan_child_jobs p)"
    | (after) "\<forall>i \<in> set ?ids. \<forall>c \<in> set (plan_child_jobs p). c < i"
    using assms(1) by (auto simp: batch_ok_def list_all_iff)
  then show ?thesis
  proof cases
    case after
    then have "filter (\<lambda>i. i \<notin> set (plan_child_jobs p)) ?ids = ?ids" by (auto simp: filter_id_conv)
    with after show ?thesis by (simp add: added_children_def Let_def)
  next
    case known
    then have f: "filter (\<lambda>i. i \<notin> set (plan_child_jobs p)) ?ids = []" by (auto simp: filter_empty_conv)
    have "\<not> ascends_after (plan_child_jobs p) ?ids"
    proof (cases "tpp_child_jobs progress")
      case (Cons j js)
      then have j: "job_id j \<in> set (plan_child_jobs p)" using known by simp
      then have "job_id j \<le> last (plan_child_jobs p)"
        using assms(2) by (cases "plan_child_jobs p" rule: rev_cases) (auto simp: plan_ok_def sorted_wrt_append)
      with j Cons show ?thesis by (auto simp: ascends_after_def)
    qed simp
    with f show ?thesis by (simp add: added_children_def Let_def)
  qed
qed

lemma extend_plan_ok:
  assumes "plan_ok p" "sorted_wrt (<) (map job_id (tpp_child_jobs progress))"
    "batch_ok p (map job_id (tpp_child_jobs progress))" "extend_plan p progress = (p', c)"
  shows "plan_ok p'"
  using added_children_fresh[OF assms(3,1)] assms(1-3)
  unfolding plan_ok_def extend_plan_fields(2,4)[OF assms(4)]
  by (auto simp: sorted_wrt_append batch_ok_def)

lemma find_plan_position:
  "position (\<lambda>p. plan_id p = pid) (ts_plans s) = Some i \<Longrightarrow> find_plan s pid = Some (ts_plans s ! i)"
  by (simp add: find_plan_def find_position)

lemma plan_progress_ok:
  assumes "distinct (map plan_id (ts_plans s)) \<and> list_all plan_ok (ts_plans s)"
    "event_admissible s (PlanProgress progress)"
  shows "distinct (map plan_id (ts_plans (fst (apply_plan_progress s progress)))) \<and>
         list_all plan_ok (ts_plans (fst (apply_plan_progress s progress)))"
proof (cases "position (\<lambda>p. plan_id p = tpp_plan_id progress) (ts_plans s)")
  case (Some i)
  note i = position_Some_nth[OF Some]
  obtain p c where p: "extend_plan (ts_plans s ! i) progress = (p, c)" by fastforce
  have "plan_ok p"
    using extend_plan_ok[OF _ _ _ p] i assms find_plan_position[OF Some] by (auto simp: list_all_iff)
  then have "distinct (map plan_id ((ts_plans s)[i := p])) \<and> list_all plan_ok ((ts_plans s)[i := p])"
    using plans_ok_update[OF assms(1), of i p] i extend_plan_fields(1)[OF p] by simp
  with Some p assms(1) show ?thesis by (simp add: plan_progress_plans)
qed (use assms in \<open>simp add: plan_progress_plans\<close>)

lemma transfer_terminal_ok:
  assumes "distinct (map plan_id (ts_plans s)) \<and> list_all plan_ok (ts_plans s)"
  shows "distinct (map plan_id (ts_plans (fst (set_transfer_terminal s tid st)))) \<and>
         list_all plan_ok (ts_plans (fst (set_transfer_terminal s tid st)))"
proof (cases rule: transfer_terminal_plans[of s tid st])
  case (2 i p)
  then show ?thesis using plans_ok_put_state[OF assms 2(1), of "plan_state p"] by metis
qed (use assms in simp)

lemma insert_plan_ok:
  assumes "distinct (map plan_id (ts_plans s)) \<and> list_all plan_ok (ts_plans s)" "plan_child_jobs p = []"
  shows "distinct (map plan_id (ts_plans (fst (insert_plan s p)))) \<and>
         list_all plan_ok (ts_plans (fst (insert_plan s p)))"
  using assms by (auto simp: insert_plan_def plan_ok_def list_ex_iff)

lemma reduce_event_plans_ok:
  assumes "distinct (map plan_id (ts_plans s)) \<and> list_all plan_ok (ts_plans s)" "event_admissible s event"
  shows "distinct (map plan_id (ts_plans (fst (reduce_event s event now)))) \<and>
         list_all plan_ok (ts_plans (fst (reduce_event s event now)))"
proof (cases event)
  case (PlanStarted snapshot)
  then show ?thesis using insert_plan_ok[OF assms(1)] assms(2) by (simp add: plan_started_plans)
next
  case (PlanProgress progress)
  then show ?thesis using plan_progress_ok[OF assms(1)] assms(2) by simp
next
  case (PlanCompleted q)
  then show ?thesis using assms(1) plans_ok_put_state[OF assms(1)]
    by (auto simp only: reduce_event.simps plan_completed_plans split: option.splits if_splits
        dest!: position_Some_nth)
next
  case (PlanCancelled q)
  then show ?thesis using assms(1) plans_ok_put_state[OF assms(1)]
    by (auto simp only: reduce_event.simps plan_cancelled_plans split: option.splits if_splits
        dest!: position_Some_nth)
next
  case (PlanFailed q error)
  then show ?thesis using assms(1) plans_ok_put_state[OF assms(1)]
    by (auto simp only: reduce_event.simps plan_terminal_state_plans split: option.splits if_splits
        dest!: position_Some_nth)
qed (use assms in \<open>simp_all add: job_ops_plans conflict_plans transfer_terminal_ok\<close>)

section \<open>Conflicts\<close>

lemma upsert_conflict_distinct:
  "distinct (map cr_id (ts_pending_conflicts s)) \<Longrightarrow>
   distinct (map cr_id (ts_pending_conflicts (fst (upsert_conflict s c))))"
proof -
  have "map cr_id (update_first (\<lambda>e. cr_id e = cr_id c) (\<lambda>_. c) cs) = map cr_id cs" for cs
    by (rule map_update_first_same) simp
  then show "distinct (map cr_id (ts_pending_conflicts s)) \<Longrightarrow>
   distinct (map cr_id (ts_pending_conflicts (fst (upsert_conflict s c))))"
    by (auto simp: upsert_conflict_def find_None_mem split: option.splits)
qed

lemma set_job_state_conflicts: "ts_pending_conflicts (fst (set_job_state s tid st)) = ts_pending_conflicts s"
  using set_job_state_advance[of s tid st] by (cases "set_job_state s tid st") simp

lemma apply_conflict_conflicts:
  "distinct (map cr_id (ts_pending_conflicts s)) \<Longrightarrow>
   distinct (map cr_id (ts_pending_conflicts (fst (apply_conflict s prompt now))))"
  by (simp add: apply_conflict_def Let_def case_prod_beta upsert_conflict_distinct set_job_state_conflicts)

lemma transfer_terminal_conflicts:
  "ts_pending_conflicts (fst (set_transfer_terminal s tid st)) =
     filter (\<lambda>c. cr_id c \<notin> cr_id ` {c \<in> set (ts_pending_conflicts s). cr_transfer_id c = tid})
       (ts_pending_conflicts s)"
proof -
  have 2: "ts_pending_conflicts (fst (finalize_plan_for_job s2 tid)) = ts_pending_conflicts s2" for s2
    using finalize_flag[of s2 tid] by (cases "finalize_plan_for_job s2 tid") simp
  show ?thesis by (simp add: set_transfer_terminal_fst set_job_state_conflicts 2 remove_conflicts_eq)
qed

lemma reduce_event_conflicts:
  assumes "distinct (map cr_id (ts_pending_conflicts s))"
  shows "distinct (map cr_id (ts_pending_conflicts (fst (reduce_event s event now))))"
proof -
  have same: "ts_pending_conflicts (fst (apply_plan_started s snapshot)) = ts_pending_conflicts s"
    "ts_pending_conflicts (fst (upsert_job s j)) = ts_pending_conflicts s"
    "ts_pending_conflicts (fst (apply_progress s progress now)) = ts_pending_conflicts s"
    "ts_pending_conflicts (fst (apply_warning s w)) = ts_pending_conflicts s" for snapshot j progress w
    by (auto simp: apply_plan_started_def insert_plan_def insert_job_def upsert_job_def
        apply_progress_def apply_warning_def Let_def split: search_result.split option.split)
  have "ts_pending_conflicts (fst (apply_plan_progress s progress)) = ts_pending_conflicts s"
    "ts_pending_conflicts (fst (apply_plan_completed s pid)) = ts_pending_conflicts s"
    "ts_pending_conflicts (fst (set_plan_cancelled s pid)) = ts_pending_conflicts s"
    "ts_pending_conflicts (fst (set_plan_terminal_state s pid pst jst)) = ts_pending_conflicts s"
    for progress pid pst jst
    by (metis prod.collapse apply_plan_progress_flag, metis prod.collapse apply_plan_completed_flag,
        metis prod.collapse set_plan_cancelled_flag, metis prod.collapse set_plan_terminal_state_flag)
  with same assms show ?thesis
    by (cases event) (simp_all add: apply_conflict_conflicts transfer_terminal_conflicts distinct_map_filter)
qed

section \<open>Jobs under the reducer\<close>

text \<open>The ids in the job table after an event: those before it and those the event brings.\<close>

fun event_jobs :: "TransferStore \<Rightarrow> TransferEvent \<Rightarrow> TransferId set" where
  "event_jobs s (PlanStarted snapshot) = {job_id (tps_root_job snapshot)}"
| "event_jobs s (PlanProgress progress) =
     (case find_plan s (tpp_plan_id progress) of
        Some p \<Rightarrow> if plan_terminal (plan_state p) then {} else job_id ` set (tpp_child_jobs progress)
      | None \<Rightarrow> job_id ` set (tpp_child_jobs progress))"
| "event_jobs s (TransferEvent.Running job) = {job_id job}"
| "event_jobs s _ = {}"

lemma insert_plan_jobs: "ts_jobs (fst (insert_plan s p)) = ts_jobs s"
  by (simp add: insert_plan_def)

lemma plan_progress_jobs:
  assumes "jobs_ordered (ts_jobs s)" "sorted_wrt (<) (map job_id (tpp_child_jobs progress))"
  shows "jobs_ordered (ts_jobs (fst (apply_plan_progress s progress))) \<and>
         job_id ` set (ts_jobs (fst (apply_plan_progress s progress))) =
           event_jobs s (PlanProgress progress) \<union> job_id ` set (ts_jobs s)"
proof (cases "position (\<lambda>p. plan_id p = tpp_plan_id progress) (ts_plans s)")
  case None
  then have "find_plan s (tpp_plan_id progress) = None" by (simp add: find_plan_def find_position)
  with None assms extend_jobs_jobs[OF _ assms] show ?thesis
    by (cases "extend_jobs s (tpp_child_jobs progress)") (simp add: apply_plan_progress_def)
next
  case (Some i)
  note f = find_plan_position[OF Some]
  show ?thesis
  proof (cases "plan_terminal (plan_state (ts_plans s ! i))")
    case True
    with Some f assms show ?thesis by (simp add: apply_plan_progress_def)
  next
    case False
    define s1 where "s1 = s\<lparr>ts_plans := (ts_plans s)[i := fst (extend_plan (ts_plans s ! i) progress)]\<rparr>"
    obtain s2 c where 2: "extend_jobs s1 (tpp_child_jobs progress) = (s2, c)" by fastforce
    have "ts_jobs s1 = ts_jobs s" by (simp add: s1_def)
    with extend_jobs_jobs[OF 2] assms have "jobs_ordered (ts_jobs s2)"
      "job_id ` set (ts_jobs s2) = job_id ` set (tpp_child_jobs progress) \<union> job_id ` set (ts_jobs s)" by auto
    with 2 False Some f show ?thesis
      by (simp add: apply_plan_progress_def s1_def Let_def case_prod_beta)
  qed
qed

lemma reduce_event_jobs:
  assumes "jobs_ordered (ts_jobs s)" "event_admissible s event"
  shows "jobs_ordered (ts_jobs (fst (reduce_event s event now))) \<and>
         job_id ` set (ts_jobs (fst (reduce_event s event now))) = event_jobs s event \<union> job_id ` set (ts_jobs s)"
proof (cases event)
  case (PlanStarted snapshot)
  then show ?thesis
    using insert_job_jobs[of "fst (insert_plan s (tps_plan snapshot))" "tps_root_job snapshot"] assms(1)
    by (cases "insert_job (fst (insert_plan s (tps_plan snapshot))) (tps_root_job snapshot)")
       (simp add: apply_plan_started_def Let_def case_prod_beta insert_plan_jobs)
next
  case (PlanProgress progress)
  then show ?thesis using plan_progress_jobs[OF assms(1)] assms(2) by simp
next
  case (Running job)
  then show ?thesis using upsert_job_jobs[of s job] assms(1) by (cases "upsert_job s job") simp
qed (use assms(1) in \<open>simp_all add: op_ordered op_images\<close>)

lemma clear_terminal_inv: "transfer_inv s \<Longrightarrow> transfer_inv (fst (clear_terminal s))"
  by (auto simp: transfer_inv_def clear_terminal_def Let_def jobs_ordered_def list_all_iff distinct_map_filter
      sorted_wrt_map intro: sorted_wrt_filter)

lemma transfer_inv_clear_flag [simp]:
  "transfer_inv (s\<lparr>ts_just_finished_plan := x\<rparr>) = transfer_inv s"
  "event_admissible (s\<lparr>ts_just_finished_plan := x\<rparr>) event = event_admissible s event"
  by (simp add: transfer_inv_def) (cases event; simp add: find_plan_def)

lemma reduce_event_inv: "transfer_inv s \<Longrightarrow> event_admissible s event \<Longrightarrow> transfer_inv (fst (reduce_event s event now))"
  using reduce_event_jobs[of s event now] reduce_event_plans_ok[of s event now] reduce_event_conflicts[of s event now]
  by (simp add: transfer_inv_def)

lemma reducer_step_inv:
  assumes "transfer_inv s" "reducer_admissible s a"
  shows "transfer_inv (reducer_step s a)"
proof (cases a)
  case (ApplyEvent event now)
  then show ?thesis using assms by (simp add: apply_event_def reduce_event_inv)
next
  case (MarkCancelling tid)
  have "ts_pending_conflicts (fst (mark_cancelling s tid)) = ts_pending_conflicts s"
    by (simp add: mark_cancelling_def split: option.split TransferState.split)
  with MarkCancelling assms show ?thesis
    by (simp add: transfer_inv_def job_ops_plans jobs_ordered_ids[OF state_ops_ids(4)])
next
  case (RemoveConflict rid)
  with assms show ?thesis
    by (simp add: transfer_inv_def remove_conflict_def Let_def distinct_map_filter)
qed

interpretation transfers: guarded_machine
  "\<lambda>s. s = transfer_store_default" transfer_step transfer_admissible transfer_inv
proof
  fix s a assume "transfer_inv s" "transfer_admissible s a"
  then show "transfer_inv (transfer_step s a)"
    by (cases a) (simp_all add: reducer_step_inv clear_terminal_inv)
qed (simp add: transfer_store_default_def transfer_inv_def jobs_ordered_def)

section \<open>No child is missing until the finished jobs are cleared\<close>

definition ids_present :: "TransferId set \<Rightarrow> TransferPlan list \<Rightarrow> bool" where
  "ids_present ids ps \<longleftrightarrow> (\<forall>p \<in> set ps. set (plan_child_jobs p) \<subseteq> ids)"

lemma children_present_iff: "children_present s \<longleftrightarrow> ids_present (job_id ` set (ts_jobs s)) (ts_plans s)"
  by (auto simp: children_present_def ids_present_def list_all_iff)

lemma ids_present_mono: "ids_present A ps \<Longrightarrow> A \<subseteq> B \<Longrightarrow> ids_present B ps"
  by (auto simp: ids_present_def)

lemma ids_present_update:
  "ids_present A ps \<Longrightarrow> set (plan_child_jobs p) \<subseteq> A \<Longrightarrow> ids_present A (ps[i := p])"
  by (auto simp: ids_present_def dest!: subsetD[OF set_update_subset_insert])

lemma ids_present_put_state:
  "ids_present A ps \<Longrightarrow> i < length ps \<Longrightarrow> ids_present A (ps[i := (ps ! i)\<lparr>plan_state := st\<rparr>])"
  by (rule ids_present_update) (auto simp: ids_present_def)

lemma added_children_subset: "set (added_children p progress) \<subseteq> job_id ` set (tpp_child_jobs progress)"
  by (auto simp: added_children_def Let_def)

lemma transfer_terminal_present:
  "ids_present A (ts_plans s) \<Longrightarrow> ids_present A (ts_plans (fst (set_transfer_terminal s tid st)))"
proof (cases rule: transfer_terminal_plans[of s tid st])
  case (2 i p)
  then show "ids_present A (ts_plans s) \<Longrightarrow> ?thesis" by (metis ids_present_put_state)
qed simp

lemma reduce_event_plans_present:
  assumes "ids_present A (ts_plans s)" "event_jobs s event \<subseteq> A" "event_admissible s event"
  shows "ids_present A (ts_plans (fst (reduce_event s event now)))"
proof (cases event)
  case (PlanStarted snapshot)
  with assms show ?thesis by (auto simp: plan_started_plans insert_plan_def ids_present_def)
next
  case (PlanProgress progress)
  show ?thesis
  proof (cases "position (\<lambda>p. plan_id p = tpp_plan_id progress) (ts_plans s)")
    case (Some i)
    obtain p c where p: "extend_plan (ts_plans s ! i) progress = (p, c)" by fastforce
    show ?thesis
    proof (cases "plan_terminal (plan_state (ts_plans s ! i))")
      case False
      have "set (plan_child_jobs p) \<subseteq> A"
        using assms(1,2) position_Some_nth[OF Some] find_plan_position[OF Some] False PlanProgress
          added_children_subset[of "ts_plans s ! i" progress] extend_plan_fields(4)[OF p]
        by (auto simp: ids_present_def)
      with Some False p PlanProgress assms(1) show ?thesis
        by (simp add: plan_progress_plans ids_present_update)
    qed (use Some PlanProgress assms(1) in \<open>simp add: plan_progress_plans\<close>)
  qed (use PlanProgress assms(1) in \<open>simp add: plan_progress_plans\<close>)
next
  case (PlanCompleted q)
  then show ?thesis using assms(1) ids_present_put_state[OF assms(1)]
    by (auto simp only: reduce_event.simps plan_completed_plans split: option.splits if_splits
        dest!: position_Some_nth)
next
  case (PlanCancelled q)
  then show ?thesis using assms(1) ids_present_put_state[OF assms(1)]
    by (auto simp only: reduce_event.simps plan_cancelled_plans split: option.splits if_splits
        dest!: position_Some_nth)
next
  case (PlanFailed q error)
  then show ?thesis using assms(1) ids_present_put_state[OF assms(1)]
    by (auto simp only: reduce_event.simps plan_terminal_state_plans split: option.splits if_splits
        dest!: position_Some_nth)
next
  case (Completed tid)
  then show ?thesis using assms(1) transfer_terminal_present[OF assms(1)] by simp
next
  case (Skipped tid)
  then show ?thesis using assms(1) transfer_terminal_present[OF assms(1)] by simp
next
  case (Failed f)
  then show ?thesis using assms(1) transfer_terminal_present[OF assms(1)] by simp
qed (use assms in \<open>simp_all add: job_ops_plans conflict_plans\<close>)

lemma reducer_step_present:
  assumes "transfer_inv s" "children_present s" "reducer_admissible s a"
  shows "children_present (reducer_step s a)"
proof (cases a)
  case (ApplyEvent event now)
  let ?s = "s\<lparr>ts_just_finished_plan := None\<rparr>"
  have adm: "event_admissible ?s event" using assms(3) ApplyEvent by simp
  have jobs: "job_id ` set (ts_jobs (fst (reduce_event ?s event now))) = event_jobs ?s event \<union> job_id ` set (ts_jobs s)"
    using reduce_event_jobs[OF _ adm] assms(1) by (simp add: transfer_inv_def)
  have "ids_present (event_jobs ?s event \<union> job_id ` set (ts_jobs s)) (ts_plans ?s)"
    using assms(2) ids_present_mono by (fastforce simp: children_present_iff)
  from reduce_event_plans_present[OF this _ adm] show ?thesis
    using ApplyEvent jobs by (simp add: children_present_iff apply_event_def)
qed (use assms(2) in \<open>simp_all add: children_present_iff job_ops_plans image_ids[OF state_ops_ids(4)]
      image_ids[OF state_ops_ids(5)]\<close>)

interpretation uncleared: guarded_machine
  "\<lambda>s. s = transfer_store_default" reducer_step reducer_admissible
  "\<lambda>s. transfer_inv s \<and> children_present s"
proof
  fix s a assume "transfer_inv s \<and> children_present s" "reducer_admissible s a"
  then show "transfer_inv (reducer_step s a) \<and> children_present (reducer_step s a)"
    by (simp add: reducer_step_inv reducer_step_present)
qed (simp add: transfers.inv_init children_present_def transfer_store_default_def)

end
