(* ===== verification/Transfer_Plans.thy ===== *)
theory Transfer_Plans
  imports Transfer_Invariant
begin

text \<open>
  What the plan-wide operations do to the job table: cancelling, failing and finishing a plan. The
  code reaches a plan's children through one index range of the table when the range has as many
  jobs as the plan has children, and through an id matcher otherwise; the two agree as long as no
  child was cleared from the table.
\<close>

section \<open>The slice of a plan's children\<close>

lemma jobs_ordered_nth_le:
  assumes "jobs_ordered js" "k < length js" "l < length js"
  shows "job_id (js ! k) \<le> job_id (js ! l) \<longleftrightarrow> k \<le> l"
  using assms
  by (metis (mono_tags, lifting) jobs_ordered_def length_map linorder_not_le nle_le nth_map
      order_le_less sorted_wrt_iff_nth_less)

lemma slice_is_children:
  assumes inv: "jobs_ordered (ts_jobs s)" and ok: "plan_ok (ts_plans s ! i)"
    and present: "set (plan_child_jobs (ts_plans s ! i)) \<subseteq> job_id ` set (ts_jobs s)"
    and range: "child_jobs_slice_range s i = Some (lo, hi)"
  shows "lo \<le> hi \<and> hi < length (ts_jobs s) \<and>
         (\<forall>k < length (ts_jobs s). lo \<le> k \<and> k \<le> hi \<longleftrightarrow> job_id (ts_jobs s ! k) \<in> set (plan_child_jobs (ts_plans s ! i)))"
proof -
  let ?js = "ts_jobs s" and ?cs = "plan_child_jobs (ts_plans s ! i)"
  note r = child_jobs_slice_range_Some[OF range]
  have lo: "lo < length ?js" "job_id (?js ! lo) = hd ?cs" and hi: "hi < length ?js" "job_id (?js ! hi) = last ?cs"
    using r find_job_index_Some by blast+
  let ?f = "\<lambda>k. job_id (?js ! k)"
  have inj: "inj_on ?f {..<length ?js}"
    using jobs_ordered_distinct[OF inv] by (auto simp: inj_on_def nth_eq_iff_index_eq distinct_conv_nth)
  have sub: "set ?cs \<subseteq> ?f ` {lo..hi}"
  proof
    fix c assume c: "c \<in> set ?cs"
    then obtain k where k: "k < length ?js" "c = ?f k" using present by (force simp: in_set_conv_nth)
    have srt: "sorted ?cs" using ok by (simp add: plan_ok_def strict_sorted_iff)
    have "hd ?cs \<le> c" using srt c by (cases ?cs) auto
    moreover have "c \<le> last ?cs" using srt c by (cases ?cs rule: rev_cases) (auto simp: sorted_append)
    ultimately have "lo \<le> k" "k \<le> hi"
      using k lo hi jobs_ordered_nth_le[OF inv lo(1) k(1)] jobs_ordered_nth_le[OF inv k(1) hi(1)] by simp_all
    with k show "c \<in> ?f ` {lo..hi}" by simp
  qed
  have "card (set ?cs) = length ?cs" using ok by (simp add: plan_ok_def distinct_card strict_sorted_iff)
  also have "\<dots> = card (?f ` {lo..hi})"
    using r hi by (subst card_image[OF inj_on_subset[OF inj]]) auto
  finally have eq: "set ?cs = ?f ` {lo..hi}" using sub by (intro card_subset_eq) auto
  have "lo \<le> k \<and> k \<le> hi \<longleftrightarrow> ?f k \<in> set ?cs" if "k < length ?js" for k
    unfolding eq using that hi(1) inj_onD[OF inj, of k] by auto
  with r hi show ?thesis by blast
qed

lemma slice_parts:
  assumes "lo \<le> hi" "hi < length js" "\<forall>k < length js. lo \<le> k \<and> k \<le> hi \<longleftrightarrow> P (js ! k)"
  shows "\<forall>j \<in> set (take lo js). \<not> P j" "\<forall>j \<in> set (take (hi - lo + 1) (drop lo js)). P j"
    "\<forall>j \<in> set (drop (hi + 1) js). \<not> P j"
proof -
  have P: "k < length js \<Longrightarrow> P (js ! k) \<longleftrightarrow> lo \<le> k \<and> k \<le> hi" for k using assms(3) by blast
  show "\<forall>j \<in> set (take lo js). \<not> P j" "\<forall>j \<in> set (take (hi - lo + 1) (drop lo js)). P j"
    "\<forall>j \<in> set (drop (hi + 1) js). \<not> P j"
    using assms(1,2) by (auto simp: in_set_conv_nth P)
qed

lemma slice_filter:
  assumes "lo \<le> hi" "hi < length js" "\<forall>k < length js. lo \<le> k \<and> k \<le> hi \<longleftrightarrow> P (js ! k)"
  shows "take (hi - lo + 1) (drop lo js) = filter P js"
proof -
  note a = slice_parts(1)[OF assms] and m = slice_parts(2)[OF assms] and z = slice_parts(3)[OF assms]
  have "filter P js = filter P (take lo js) @ filter P (take (hi - lo + 1) (drop lo js)) @ filter P (drop (hi + 1) js)"
    by (subst slice_split[OF assms(1)]) (simp only: filter_append)
  also have "filter P (take lo js) = []" using a by (simp add: filter_empty_conv)
  also have "filter P (drop (hi + 1) js) = []" using z by (simp add: filter_empty_conv)
  also have "filter P (take (hi - lo + 1) (drop lo js)) = take (hi - lo + 1) (drop lo js)"
    using m by (simp add: filter_id_conv)
  finally show ?thesis by simp
qed

text \<open>Rewriting the slice is rewriting the jobs that satisfy the predicate it stands for.\<close>

lemma rewrite_slice_map:
  assumes "lo \<le> hi" "hi < length js" "\<forall>k < length js. lo \<le> k \<and> k \<le> hi \<longleftrightarrow> P (js ! k)"
  shows "fst (rewrite_slice (lo, hi) sel st js) =
         map (\<lambda>j. if P j \<and> sel j then j\<lparr>job_state := st\<rparr> else j) js"
proof -
  let ?F = "\<lambda>j. if P j \<and> sel j then j\<lparr>job_state := st\<rparr> else j"
  note a = slice_parts(1)[OF assms] and m = slice_parts(2)[OF assms] and z = slice_parts(3)[OF assms]
  have "map ?F js = map ?F (take lo js) @ map ?F (take (hi - lo + 1) (drop lo js)) @ map ?F (drop (hi + 1) js)"
    by (subst slice_split[OF assms(1)]) (simp only: map_append)
  also have "map ?F (take lo js) = take lo js" using a by (simp add: map_idI)
  also have "map ?F (drop (hi + 1) js) = drop (hi + 1) js" using z by (intro map_idI) auto
  also have "map ?F (take (hi - lo + 1) (drop lo js)) =
      map (\<lambda>j. if sel j then j\<lparr>job_state := st\<rparr> else j) (take (hi - lo + 1) (drop lo js))"
    using m by (intro map_cong) auto
  finally show ?thesis by (simp add: rewrite_slice_def rewrite_jobs_eq)
qed

section \<open>Failing and cancelling a plan\<close>

definition plan_member :: "TransferPlan \<Rightarrow> TransferJob \<Rightarrow> bool" where
  "plan_member p j \<longleftrightarrow> job_id j = plan_root_job_id p \<or> job_id j \<in> set (plan_child_jobs p)"

lemma update_job_map:
  assumes "jobs_ordered (ts_jobs s)"
  shows "(case find_job_index s tid of
            None \<Rightarrow> ts_jobs s
          | Some i \<Rightarrow> if sel (ts_jobs s ! i) then (ts_jobs s)[i := f (ts_jobs s ! i)] else ts_jobs s) =
         map (\<lambda>j. if job_id j = tid \<and> sel j then f j else j) (ts_jobs s)"
proof (cases "find_job_index s tid")
  case None
  then have "map (\<lambda>j. if job_id j = tid \<and> sel j then f j else j) (ts_jobs s) = ts_jobs s"
    by (intro map_idI) (auto simp: find_job_index_None)
  with None show ?thesis by simp
next
  case (Some i)
  note i = find_job_index_Some[OF Some]
  have "job_id (ts_jobs s ! k) = tid \<longleftrightarrow> k = i" if "k < length (ts_jobs s)" for k
    using i that jobs_ordered_distinct[OF assms] by (auto simp: distinct_conv_nth)
  with i Some show ?thesis by (auto intro!: nth_equalityI simp: nth_list_update)
qed

lemma set_job_state_map:
  assumes "jobs_ordered (ts_jobs s)"
  shows "ts_jobs (fst (set_job_state s tid st)) =
         map (\<lambda>j. if job_id j = tid \<and> job_state j \<noteq> st then j\<lparr>job_state := st\<rparr> else j) (ts_jobs s)"
  unfolding update_job_map[OF assms, where tid = tid and sel = "\<lambda>j. job_state j \<noteq> st", symmetric]
  by (simp add: set_job_state_def split: option.split)

lemma cancel_job_map:
  assumes "jobs_ordered (ts_jobs s)"
  shows "ts_jobs (fst (cancel_job_if_unfinished s tid)) =
         map (\<lambda>j. if job_id j = tid \<and> \<not> job_terminal (job_state j)
                  then j\<lparr>job_state := TransferState.Skipped\<rparr> else j) (ts_jobs s)"
  unfolding update_job_map[OF assms, where tid = tid and sel = "\<lambda>j. \<not> job_terminal (job_state j)", symmetric]
  by (simp add: cancel_job_if_unfinished_def split: option.split)

lemma slice_after_ids:
  assumes "jobs_ordered (ts_jobs s)" "plan_ok (ts_plans s ! i)"
    "set (plan_child_jobs (ts_plans s ! i)) \<subseteq> job_id ` set (ts_jobs s)"
    "child_jobs_slice_range s i = Some (lo, hi)" "map job_id js' = map job_id (ts_jobs s)"
  shows "fst (rewrite_slice (lo, hi) sel st js') =
         map (\<lambda>j. if job_id j \<in> set (plan_child_jobs (ts_plans s ! i)) \<and> sel j
                  then j\<lparr>job_state := st\<rparr> else j) js'"
proof -
  have len: "length js' = length (ts_jobs s)" using arg_cong[OF assms(5), of length] by simp
  have nth: "k < length js' \<Longrightarrow> job_id (js' ! k) = job_id (ts_jobs s ! k)" for k
    using assms(5) len by (metis nth_map)
  from slice_is_children[OF assms(1-4)] show ?thesis
    by (intro rewrite_slice_map) (auto simp: len nth)
qed

lemma advance_ids_fst:
  "map job_id (ts_jobs (fst (set_job_state s tid st))) = map job_id (ts_jobs s)"
  "map job_id (ts_jobs (fst (cancel_job_if_unfinished s tid))) = map job_id (ts_jobs s)"
  using cancel_job_advance[of s tid]
  by (simp_all add: state_ops_ids) (metis prod.collapse advance_ids)

lemma two_map_member:
  assumes "\<And>j. sel j \<Longrightarrow> \<not> sel (j\<lparr>job_state := st\<rparr>)"
  shows "map (\<lambda>j. if job_id j \<in> set (plan_child_jobs p) \<and> sel j then j\<lparr>job_state := st\<rparr> else j)
           (map (\<lambda>j. if job_id j = plan_root_job_id p \<and> sel j then j\<lparr>job_state := st\<rparr> else j) js) =
         map (\<lambda>j. if plan_member p j \<and> sel j then j\<lparr>job_state := st\<rparr> else j) js"
  using assms by (auto simp: plan_member_def)

lemma fail_plan_jobs_map:
  assumes "jobs_ordered (ts_jobs s)" "plan_ok (ts_plans s ! i)"
    "set (plan_child_jobs (ts_plans s ! i)) \<subseteq> job_id ` set (ts_jobs s)"
  shows "ts_jobs (fst (fail_plan_jobs s i jst)) =
         map (\<lambda>j. if plan_member (ts_plans s ! i) j \<and> job_state j \<noteq> jst then j\<lparr>job_state := jst\<rparr> else j) (ts_jobs s)"
proof (cases "plan_child_jobs (ts_plans s ! i) = []")
  case True
  then show ?thesis
    by (simp add: fail_plan_jobs_def set_job_state_map[OF assms(1)] plan_member_def cong: if_cong)
next
  case False
  show ?thesis
  proof (cases "child_jobs_slice_range s i")
    case None
    with False show ?thesis
      by (simp add: fail_plan_jobs_def Let_def rewrite_jobs_eq plan_member_def cong: if_cong)
  next
    case (Some rng)
    then obtain lo hi where rng: "child_jobs_slice_range s i = Some (lo, hi)" by (cases rng) auto
    have "ts_jobs (fst (fail_plan_jobs s i jst)) =
        fst (rewrite_slice (lo, hi) (\<lambda>j. job_state j \<noteq> jst) jst
          (ts_jobs (fst (set_job_state s (plan_root_job_id (ts_plans s ! i)) jst))))"
      using False rng by (simp add: fail_plan_jobs_def Let_def case_prod_beta)
    also have "\<dots> = map (\<lambda>j. if plan_member (ts_plans s ! i) j \<and> job_state j \<noteq> jst
                              then j\<lparr>job_state := jst\<rparr> else j) (ts_jobs s)"
      unfolding slice_after_ids[OF assms rng advance_ids_fst(1)]
      unfolding set_job_state_map[OF assms(1)]
      by (rule two_map_member) simp
    finally show ?thesis .
  qed
qed

lemma cancel_plan_jobs_map:
  assumes "jobs_ordered (ts_jobs s)" "plan_ok (ts_plans s ! i)"
    "set (plan_child_jobs (ts_plans s ! i)) \<subseteq> job_id ` set (ts_jobs s)"
  shows "ts_jobs (fst (cancel_plan_jobs s i)) =
         map (\<lambda>j. if plan_member (ts_plans s ! i) j \<and> \<not> job_terminal (job_state j)
                  then j\<lparr>job_state := TransferState.Skipped\<rparr> else j) (ts_jobs s)"
proof (cases "plan_child_jobs (ts_plans s ! i) = []")
  case True
  then show ?thesis
    by (simp add: cancel_plan_jobs_def cancel_job_map[OF assms(1)] plan_member_def cong: if_cong)
next
  case False
  show ?thesis
  proof (cases "child_jobs_slice_range s i")
    case None
    with False show ?thesis
      by (simp add: cancel_plan_jobs_def Let_def rewrite_jobs_eq plan_member_def cong: if_cong)
  next
    case (Some rng)
    then obtain lo hi where rng: "child_jobs_slice_range s i = Some (lo, hi)" by (cases rng) auto
    have "ts_jobs (fst (cancel_plan_jobs s i)) =
        fst (rewrite_slice (lo, hi) (\<lambda>j. \<not> job_terminal (job_state j)) TransferState.Skipped
          (ts_jobs (fst (cancel_job_if_unfinished s (plan_root_job_id (ts_plans s ! i))))))"
      using False rng by (simp add: cancel_plan_jobs_def Let_def case_prod_beta)
    also have "\<dots> = map (\<lambda>j. if plan_member (ts_plans s ! i) j \<and> \<not> job_terminal (job_state j)
                              then j\<lparr>job_state := TransferState.Skipped\<rparr> else j) (ts_jobs s)"
      unfolding slice_after_ids[OF assms rng advance_ids_fst(2)]
      unfolding cancel_job_map[OF assms(1)]
      by (rule two_map_member) simp
    finally show ?thesis .
  qed
qed

section \<open>Finishing a plan\<close>

lemma scan_children_eq:
  "scan_children sel js any_failed finished =
     (if \<exists>j \<in> set js. sel j \<and> \<not> job_terminal (job_state j) then None
      else Some (any_failed \<or> (\<exists>j \<in> set js. sel j \<and> job_failed (job_state j)),
                 finished + length (filter sel js)))"
proof (induction js arbitrary: any_failed finished)
  case (Cons j js)
  then show ?case by (cases "job_state j") auto
qed simp

definition plan_children :: "TransferStore \<Rightarrow> TransferPlan \<Rightarrow> TransferJob list" where
  "plan_children s p = filter (\<lambda>j. job_id j \<in> set (plan_child_jobs p)) (ts_jobs s)"

lemma scan_plan_eq:
  assumes "jobs_ordered (ts_jobs s)" "plan_ok (ts_plans s ! i)"
    "set (plan_child_jobs (ts_plans s ! i)) \<subseteq> job_id ` set (ts_jobs s)"
  shows "scan_plan s i =
     (let kids = plan_children s (ts_plans s ! i)
      in if \<exists>j \<in> set kids. \<not> job_terminal (job_state j) then None
         else Some (\<exists>j \<in> set kids. job_failed (job_state j), length kids))"
proof (cases "child_jobs_slice_range s i")
  case None
  then show ?thesis
    by (auto simp: scan_plan_def Let_def scan_children_eq plan_children_def rev_filter[symmetric])
next
  case (Some rng)
  then obtain lo hi where rng: "child_jobs_slice_range s i = Some (lo, hi)" by (cases rng) auto
  from slice_is_children[OF assms rng]
  have "take (hi - lo + 1) (drop lo (ts_jobs s)) = plan_children s (ts_plans s ! i)"
    unfolding plan_children_def by (intro slice_filter) auto
  then show ?thesis using rng by (simp add: scan_plan_def scan_children_eq Let_def)
qed

lemma length_plan_children:
  assumes "jobs_ordered (ts_jobs s)" "plan_ok p" "set (plan_child_jobs p) \<subseteq> job_id ` set (ts_jobs s)"
  shows "length (plan_children s p) = length (plan_child_jobs p)"
proof -
  have "set (map job_id (plan_children s p)) = set (plan_child_jobs p)"
    using assms(3) by (auto simp: plan_children_def)
  moreover have "distinct (map job_id (plan_children s p))"
    using jobs_ordered_distinct[OF assms(1)] by (simp add: plan_children_def distinct_map_filter)
  moreover have "distinct (plan_child_jobs p)" using assms(2) by (simp add: plan_ok_def strict_sorted_iff)
  ultimately show ?thesis by (metis distinct_card length_map)
qed

lemma position_own_key:
  assumes "distinct (map key xs)" "i < length xs"
  shows "position (\<lambda>x. key x = key (xs ! i)) xs = Some i"
proof -
  obtain k where k: "position (\<lambda>x. key x = key (xs ! i)) xs = Some k"
    using position_Some_ex[of "xs ! i" xs "\<lambda>x. key x = key (xs ! i)"] assms(2) by auto
  from position_Some_nth[OF this] assms have "k = i"
    by (metis length_map nth_eq_iff_index_eq nth_map)
  with k show ?thesis by simp
qed

lemma filter_update_first_other:
  "(\<And>x. P x \<Longrightarrow> \<not> Q x \<and> \<not> Q (f x)) \<Longrightarrow> filter Q (update_first P f xs) = filter Q xs"
  by (induction xs) auto

lemma finalize_exact:
  assumes inv: "transfer_inv s" and present: "children_present s"
    and p: "find (\<lambda>p. plan_has_child p tid) (ts_plans s) = Some p" "\<not> plan_terminal (plan_state p)"
    and s': "s' = fst (finalize_plan_for_job s tid)"
    and fin: "fin \<longleftrightarrow> (\<forall>j \<in> set (plan_children s p). job_terminal (job_state j))"
  shows "find_plan s' (plan_id p) = Some (p\<lparr>plan_state :=
           if fin then (if \<exists>j \<in> set (plan_children s p). job_failed (job_state j)
                         then TransferPlanState.Failed finished_with_failures
                         else TransferPlanState.Completed) else plan_state p\<rparr>) \<and>
         plan_children s' p = plan_children s p \<and>
         ts_just_finished_plan s' = (if fin then Some (plan_id p) else ts_just_finished_plan s)"
proof -
  obtain i where i: "position (\<lambda>p. plan_has_child p tid) (ts_plans s) = Some i" and pi: "ts_plans s ! i = p"
    using p(1) by (auto simp: find_position)
  note i' = position_Some_nth[OF i]
  have ok: "jobs_ordered (ts_jobs s)" "plan_ok p" "set (plan_child_jobs p) \<subseteq> job_id ` set (ts_jobs s)"
    using inv present i' pi by (auto simp: transfer_inv_def list_all_iff children_present_iff ids_present_def)
  have own: "position (\<lambda>q. plan_id q = plan_id p) (ts_plans s) = Some i"
    using position_own_key[of plan_id "ts_plans s" i] inv i' pi by (simp add: transfer_inv_def)
  have find: "find_plan t (plan_id p) = Some q"
    if "ts_plans t = (ts_plans s)[i := q]" "plan_id q = plan_id p" for t q
    using that i' pi own find_list_update_key[of i "ts_plans s" plan_id q "plan_id p"] by (simp add: find_plan_def)
  have len: "length (plan_children s p) = length (plan_child_jobs p)" using length_plan_children[OF ok] .
  have kids: "filter (\<lambda>j. job_id j \<in> set (plan_child_jobs p))
      (update_first (\<lambda>j. job_id j = plan_root_job_id p) (\<lambda>j. j\<lparr>job_state := st\<rparr>) (ts_jobs s)) = plan_children s p" for st
    unfolding plan_children_def using ok(2) by (intro filter_update_first_other) (auto simp: plan_ok_def)
  note scan = scan_plan_eq[of s i, unfolded pi, OF ok]
  show ?thesis
  proof (cases "fin")
    case True
    define bad where "bad \<longleftrightarrow> (\<exists>j \<in> set (plan_children s p). job_failed (job_state j))"
    define pst where "pst = (if bad then TransferPlanState.Failed finished_with_failures
                             else TransferPlanState.Completed)"
    define rst where "rst = (if bad then TransferState.Failed finished_with_failures True
                             else TransferState.Completed)"
    have "scan_plan s i = Some (bad, length (plan_child_jobs p))"
      using True scan len unfolding fin bad_def by (simp add: Let_def)
    then have "s' = (put_plan_state s i pst)\<lparr>ts_jobs := update_first (\<lambda>j. job_id j = plan_root_job_id p)
              (\<lambda>j. j\<lparr>job_state := rst\<rparr>) (ts_jobs s), ts_just_finished_plan := Some (plan_id p)\<rparr>"
      using i pi p(2) s' by (simp add: finalize_plan_for_job_def pst_def rst_def)
    moreover from this have "find_plan s' (plan_id p) = Some (p\<lparr>plan_state := pst\<rparr>)"
      using pi by (intro find) simp_all
    moreover from calculation(1) have "plan_children s' p = plan_children s p"
      using kids[of rst] by (simp add: plan_children_def)
    ultimately show ?thesis using True by (simp add: pst_def bad_def)
  next
    case False
    then have "finalize_plan_for_job s tid = (s, False)"
      using i pi p(2) scan unfolding fin by (simp add: finalize_plan_for_job_def Let_def)
    moreover have "ts_plans s = (ts_plans s)[i := p]" using pi by auto
    ultimately show ?thesis using False s' find[of s p] by simp
  qed
qed

end
