(* ===== verification/Transfer_Replay.thy ===== *)
theory Transfer_Replay
  imports Transfer_Plans
begin

text \<open>
  The documented contract of \<open>apply_event\<close>: replaying an event changes nothing. Because the changed
  flag is exact, it is enough that the second application returns \<open>false\<close>; each arm of the reducer
  has a lemma saying so.
\<close>

section \<open>Lookups only depend on the ids\<close>

lemma position_map: "position P (map f xs) = position (\<lambda>x. P (f x)) xs"
  by (induction xs) auto

lemma find_job_index_ids:
  assumes "map job_id (ts_jobs t) = map job_id (ts_jobs s)"
  shows "find_job_index t tid = find_job_index s tid"
proof -
  have "position (\<lambda>j. job_id j = tid) (ts_jobs t) = position (\<lambda>j. job_id j = tid) (ts_jobs s)"
    using position_map[of "\<lambda>i. i = tid" job_id] assms by metis
  with assms show ?thesis
    by (simp add: find_job_index_def binary_search_by_key_def cong: search_result.case_cong)
qed

lemma slice_range_ids:
  assumes "map job_id (ts_jobs t) = map job_id (ts_jobs s)" "ts_plans t = ts_plans s"
  shows "child_jobs_slice_range t i = child_jobs_slice_range s i"
proof -
  have "find_job_index t = find_job_index s" using find_job_index_ids[OF assms(1)] by blast
  then show ?thesis unfolding child_jobs_slice_range_def assms(2) by (simp only:)
qed

lemma position_ids:
  "map plan_id ps = map plan_id qs \<Longrightarrow>
   position (\<lambda>p. plan_id p = pid) ps = position (\<lambda>p. plan_id p = pid) qs"
  using position_map[of "\<lambda>i. i = pid" plan_id] by metis

section \<open>Setting a state twice\<close>

lemma set_job_state_settled:
  "\<not> snd (set_job_state t tid st) \<longleftrightarrow>
   (\<forall>i. find_job_index t tid = Some i \<longrightarrow> job_state (ts_jobs t ! i) = st)"
  by (auto simp: set_job_state_def split: option.split)

lemma set_job_state_nth:
  assumes "find_job_index s tid = Some i"
  shows "job_state (ts_jobs (fst (set_job_state s tid st)) ! i) = st"
  using assms find_job_index_Some[OF assms] by (simp add: set_job_state_def)

lemma set_job_state_twice:
  assumes "ts_jobs t = ts_jobs (fst (set_job_state s tid st))"
  shows "\<not> snd (set_job_state t tid st)"
  unfolding set_job_state_settled using find_job_index_ids[of t s tid] assms set_job_state_nth[of s tid]
  by (simp add: state_ops_ids)

lemma rewrite_jobs_settled: "\<not> snd (rewrite_jobs sel st js) \<longleftrightarrow> (\<forall>j \<in> set js. \<not> sel j)"
  by (simp add: rewrite_jobs_eq)

lemma rewrite_slice_twice:
  assumes "lo \<le> hi" "hi < length js"
  shows "\<not> snd (rewrite_slice (lo, hi) (\<lambda>j. job_state j \<noteq> st) st
           (fst (rewrite_slice (lo, hi) (\<lambda>j. job_state j \<noteq> st) st js)))"
proof -
  define n where "n = hi - lo + 1"
  define mid where "mid = fst (rewrite_jobs (\<lambda>j. job_state j \<noteq> st) st (take n (drop lo js)))"
  have "length mid = n" using assms by (simp add: mid_def n_def rewrite_jobs_eq)
  then have mid: "take n (drop lo (take lo js @ mid @ drop (hi + 1) js)) = mid" using assms by simp
  have "\<forall>j \<in> set mid. job_state j = st" by (auto simp: mid_def rewrite_jobs_eq)
  then show ?thesis
    unfolding rewrite_slice_def n_def[symmetric] Let_def case_prod_beta fst_conv snd_conv mid_def[symmetric] mid
    by (simp add: rewrite_jobs_settled)
qed

lemma rewrite_slice_keeps:
  assumes "lo \<le> hi" "k < length js" "job_state (js ! k) = st"
  shows "job_state (fst (rewrite_slice (lo, hi) (\<lambda>j. job_state j \<noteq> st) st js) ! k) = st"
proof -
  have "advance st js (fst (rewrite_slice (lo, hi) (\<lambda>j. job_state j \<noteq> st) st js))"
    using rewrite_slice_advance[OF _ assms(1), of "\<lambda>j. job_state j \<noteq> st" st js] by blast
  with assms(2,3) show ?thesis by (auto simp: advance_def list_all2_conv_all_nth)
qed

lemma fail_plan_jobs_twice:
  assumes jobs: "ts_jobs t = ts_jobs (fst (fail_plan_jobs s i jst))" and plans: "ts_plans t = ts_plans s"
  shows "\<not> snd (fail_plan_jobs t i jst)"
proof -
  let ?root = "plan_root_job_id (ts_plans s ! i)" and ?cs = "plan_child_jobs (ts_plans s ! i)"
  have ids: "map job_id (ts_jobs t) = map job_id (ts_jobs s)"
    using fail_plan_jobs_advance[of s i jst] jobs by (metis prod.collapse advance_ids)
  consider (empty) "?cs = []" | (slice) lo hi where "?cs \<noteq> []" "child_jobs_slice_range s i = Some (lo, hi)"
    | (matcher) "?cs \<noteq> []" "child_jobs_slice_range s i = None" by fastforce
  then show ?thesis
  proof cases
    case empty
    then show ?thesis using set_job_state_twice[of t s ?root jst] jobs plans by (simp add: fail_plan_jobs_def)
  next
    case matcher
    then have "ts_jobs t = map (\<lambda>j. if (job_id j = ?root \<or> job_id j \<in> set ?cs) \<and> job_state j \<noteq> jst
        then j\<lparr>job_state := jst\<rparr> else j) (ts_jobs s)"
      using jobs by (simp add: fail_plan_jobs_def Let_def rewrite_jobs_eq)
    then show ?thesis
      using matcher plans slice_range_ids[OF ids plans]
      by (auto simp: fail_plan_jobs_def Let_def rewrite_jobs_eq)
  next
    case (slice lo hi)
    note r = child_jobs_slice_range_Some[OF slice(2)]
    let ?s1 = "fst (set_job_state s ?root jst)"
    have len: "length (ts_jobs ?s1) = length (ts_jobs s)"
      using arg_cong[OF state_ops_ids(1)[of s ?root jst], of length] by simp
    have tj: "ts_jobs t = fst (rewrite_slice (lo, hi) (\<lambda>j. job_state j \<noteq> jst) jst (ts_jobs ?s1))"
      using jobs slice by (simp add: fail_plan_jobs_def Let_def case_prod_beta)
    have root: "\<not> snd (set_job_state t ?root jst)"
      unfolding set_job_state_settled
    proof (intro allI impI)
      fix k assume "find_job_index t ?root = Some k"
      then have k: "find_job_index s ?root = Some k" by (simp add: find_job_index_ids[OF ids])
      show "job_state (ts_jobs t ! k) = jst"
        unfolding tj using r find_job_index_Some[OF k] set_job_state_nth[OF k, of jst] len
        by (intro rewrite_slice_keeps) auto
    qed
    then have same: "fst (set_job_state t ?root jst) = t"
      by (auto simp: set_job_state_def split: option.splits if_splits)
    have "hi < length (ts_jobs ?s1)" using r find_job_index_Some len by metis
    with r have "\<not> snd (rewrite_slice (lo, hi) (\<lambda>j. job_state j \<noteq> jst) jst (ts_jobs t))"
      unfolding tj by (intro rewrite_slice_twice) auto
    with root same slice plans slice_range_ids[OF ids plans] show ?thesis
      by (simp add: fail_plan_jobs_def Let_def case_prod_beta)
  qed
qed

section \<open>Replaying each event\<close>

lemma insert_plan_twice:
  "ts_plans t = ts_plans (fst (insert_plan s p)) \<Longrightarrow> \<not> snd (insert_plan t p)"
  by (cases "list_ex (\<lambda>q. plan_id q = plan_id p) (ts_plans s)") (simp_all add: insert_plan_def)

lemma plan_started_twice:
  assumes "jobs_ordered (ts_jobs s)" "store_data t = store_data (fst (apply_plan_started s snapshot))"
  shows "\<not> snd (apply_plan_started t snapshot)"
proof -
  let ?j = "tps_root_job snapshot" and ?p = "tps_plan snapshot"
  obtain s1 c1 where 1: "insert_plan s ?p = (s1, c1)" by fastforce
  obtain s2 c2 where 2: "insert_job s1 ?j = (s2, c2)" by fastforce
  have "ts_jobs s1 = ts_jobs s" using insert_plan_jobs[of s ?p] 1 by simp
  with insert_job_jobs[OF 2] assms(1) have s2: "jobs_ordered (ts_jobs s2)" "job_id ?j \<in> job_id ` set (ts_jobs s2)"
    by auto
  have t: "ts_jobs t = ts_jobs s2" "ts_plans t = ts_plans s1"
    using assms(2) 1 2 insert_job_flag[OF 2] by (auto simp: apply_plan_started_def store_data_def)
  have p: "\<not> snd (insert_plan t ?p)" using insert_plan_twice[of t s ?p] t 1 by simp
  then have "fst (insert_plan t ?p) = t" by (simp add: insert_plan_def split: if_splits)
  moreover have "\<not> snd (insert_job t ?j)"
    using insert_job_jobs[of t ?j] s2 t by (metis prod.collapse)
  ultimately show ?thesis using p by (simp add: apply_plan_started_def Let_def case_prod_beta)
qed

lemma added_children_known:
  assumes "plan_ok p" "job_id ` set (tpp_child_jobs progress) \<subseteq> set (plan_child_jobs p)"
    "plan_root_job_id p \<notin> job_id ` set (tpp_child_jobs progress)"
  shows "added_children p progress = []"
proof -
  have "batch_ok p (map job_id (tpp_child_jobs progress))"
    using assms(2,3) by (auto simp: batch_ok_def list_all_iff)
  from added_children_fresh[OF this assms(1)] show ?thesis
    using assms(2) by (cases "tpp_child_jobs progress") force+
qed

lemma extend_plan_twice:
  assumes "plan_ok p" "sorted_wrt (<) (map job_id (tpp_child_jobs progress))"
    "batch_ok p (map job_id (tpp_child_jobs progress))"
  shows "\<not> snd (extend_plan (fst (extend_plan p progress)) progress)"
proof -
  obtain p' c where p': "extend_plan p progress = (p', c)" by fastforce
  note f = extend_plan_fields[OF p']
  have "job_id ` set (tpp_child_jobs progress) \<subseteq> set (plan_child_jobs p')"
    unfolding f(4) by (auto simp: added_children_def Let_def)
  moreover have "plan_root_job_id p' \<notin> job_id ` set (tpp_child_jobs progress)"
    using assms(3) by (auto simp: f(2) batch_ok_def)
  ultimately have "added_children p' progress = []"
    using added_children_known extend_plan_ok[OF assms p'] by blast
  with f(5) extend_plan_fields(6)[of p' progress] show ?thesis
    by (cases "extend_plan p' progress") (simp add: p')
qed

lemma extend_jobs_twice:
  assumes "jobs_ordered (ts_jobs s)" "sorted_wrt (<) (map job_id js)" "ts_jobs t = ts_jobs (fst (extend_jobs s js))"
  shows "\<not> snd (extend_jobs t js)"
proof -
  obtain s' c where s': "extend_jobs s js = (s', c)" by fastforce
  obtain t' d where t': "extend_jobs t js = (t', d)" by fastforce
  from extend_jobs_jobs[OF s' assms(1,2)] assms(3) s'
  have "jobs_ordered (ts_jobs t)" "job_id ` set js \<subseteq> job_id ` set (ts_jobs t)" by auto
  with extend_jobs_jobs[OF t' _ assms(2)] t' show ?thesis by simp
qed

lemma plan_progress_twice:
  assumes inv: "transfer_inv s" and adm: "event_admissible s (PlanProgress progress)"
    and t: "store_data t = store_data (fst (apply_plan_progress s progress))"
  shows "\<not> snd (apply_plan_progress t progress)"
proof (cases "position (\<lambda>p. plan_id p = tpp_plan_id progress) (ts_plans s)")
  case None
  have "ts_plans t = ts_plans s" using None t by (simp add: store_data_def plan_progress_plans)
  with None t inv adm extend_jobs_twice[of s "tpp_child_jobs progress" t] show ?thesis
    by (simp add: apply_plan_progress_def store_data_def transfer_inv_def)
next
  case (Some i)
  note i = position_Some_nth[OF Some]
  show ?thesis
  proof (cases "plan_terminal (plan_state (ts_plans s ! i))")
    case True
    then have "ts_plans t = ts_plans s" using Some t by (simp add: store_data_def plan_progress_plans)
    with True Some show ?thesis by (simp add: apply_plan_progress_def)
  next
    case False
    obtain p c where p: "extend_plan (ts_plans s ! i) progress = (p, c)" by fastforce
    let ?s1 = "s\<lparr>ts_plans := (ts_plans s)[i := p]\<rparr>"
    have plans: "ts_plans t = (ts_plans s)[i := p]"
      using Some False t p by (simp add: store_data_def plan_progress_plans)
    have jobs: "ts_jobs t = ts_jobs (fst (extend_jobs ?s1 (tpp_child_jobs progress)))"
      using Some False t p by (simp add: store_data_def apply_plan_progress_def case_prod_beta)
    have srt: "sorted_wrt (<) (map job_id (tpp_child_jobs progress))" using adm by simp
    have pos: "position (\<lambda>p. plan_id p = tpp_plan_id progress) (ts_plans t) = Some i"
      using position_ids[of "ts_plans t" "ts_plans s"] Some i extend_plan_fields(1)[OF p]
      by (simp add: plans map_update_same)
    have "plan_ok (ts_plans s ! i)" using inv i by (simp add: transfer_inv_def list_all_iff)
    from extend_plan_twice[OF this srt] adm find_plan_position[OF Some] p
    have np: "\<not> snd (extend_plan p progress)" by simp
    then have same: "fst (extend_plan p progress) = p"
      using extend_plan_unchanged[of p progress] by (metis prod.collapse)
    have t_eq: "t\<lparr>ts_plans := (ts_plans s)[i := p]\<rparr> = t" by (simp flip: plans)
    have "\<not> snd (extend_jobs t (tpp_child_jobs progress))"
      using extend_jobs_twice[of ?s1 "tpp_child_jobs progress" t] inv srt jobs by (simp add: transfer_inv_def)
    with np same pos i extend_plan_fields(3)[OF p] False show ?thesis
      by (simp add: apply_plan_progress_def plans case_prod_beta t_eq)
  qed
qed

lemma plan_completed_twice:
  assumes t: "store_data t = store_data (fst (apply_plan_completed s pid))"
  shows "\<not> snd (apply_plan_completed t pid)"
proof (cases "position (\<lambda>p. plan_id p = pid) (ts_plans s)")
  case None
  with t show ?thesis by (simp add: apply_plan_completed_def store_data_def)
next
  case (Some i)
  note i = position_Some_nth[OF Some]
  show ?thesis
  proof (cases "plan_terminal (plan_state (ts_plans s ! i))")
    case True
    with Some t show ?thesis by (simp add: apply_plan_completed_def store_data_def Let_def)
  next
    case False
    define e where "e \<longleftrightarrow> plan_child_jobs (ts_plans s ! i) = []"
    define pst where "pst = (if e then TransferPlanState.Completed else TransferPlanState.Queued)"
    define rst where "rst = (if e then TransferState.Completed else TransferState.Queued)"
    let ?root = "plan_root_job_id (ts_plans s ! i)"
    have plans: "ts_plans t = (ts_plans s)[i := (ts_plans s ! i)\<lparr>plan_state := pst\<rparr>]"
      using t Some False by (simp add: store_data_def plan_completed_plans pst_def e_def)
    have "ts_jobs t = ts_jobs (fst (set_job_state
        (if plan_state (ts_plans s ! i) \<noteq> pst then put_plan_state s i pst else s) ?root rst))"
      using t Some False
      by (simp add: store_data_def apply_plan_completed_def Let_def case_prod_beta pst_def rst_def e_def)
    then have root: "\<not> snd (set_job_state t ?root rst)" by (rule set_job_state_twice)
    have pos: "position (\<lambda>p. plan_id p = pid) (ts_plans t) = Some i"
      using position_ids[of "ts_plans t" "ts_plans s"] Some i by (simp add: plans map_update_same)
    have p: "ts_plans t ! i = (ts_plans s ! i)\<lparr>plan_state := pst\<rparr>" using i by (simp add: plans)
    show ?thesis
      using pos root by (simp add: apply_plan_completed_def p Let_def case_prod_beta pst_def rst_def e_def)
  qed
qed

lemma plan_terminal_state_twice:
  assumes t: "store_data t = store_data (fst (set_plan_terminal_state s pid pst jst))"
  shows "\<not> snd (set_plan_terminal_state t pid pst jst)"
proof (cases "position (\<lambda>p. plan_id p = pid) (ts_plans s)")
  case None
  with t show ?thesis by (simp add: set_plan_terminal_state_def store_data_def)
next
  case (Some i)
  note i = position_Some_nth[OF Some]
  define s1 where "s1 = (if plan_state (ts_plans s ! i) \<noteq> pst then put_plan_state s i pst else s)"
  have plans: "ts_plans t = (ts_plans s)[i := (ts_plans s ! i)\<lparr>plan_state := pst\<rparr>]"
    using t Some by (simp add: store_data_def plan_terminal_state_plans)
  have "ts_plans s1 = ts_plans t" using i by (simp add: s1_def plans put_same_plan)
  moreover have "ts_jobs t = ts_jobs (fst (fail_plan_jobs s1 i jst))"
    using t Some by (auto simp: store_data_def set_plan_terminal_state_def Let_def case_prod_beta s1_def)
  ultimately have nf: "\<not> snd (fail_plan_jobs t i jst)" by (simp add: fail_plan_jobs_twice)
  have pos: "position (\<lambda>p. plan_id p = pid) (ts_plans t) = Some i"
    using position_ids[of "ts_plans t" "ts_plans s"] Some i by (simp add: plans map_update_same)
  have "plan_state (ts_plans t ! i) = pst" using i by (simp add: plans)
  with pos nf show ?thesis by (simp add: set_plan_terminal_state_def Let_def case_prod_beta)
qed

lemma plan_cancelled_twice:
  assumes "snd (set_plan_cancelled s pid)" and t: "store_data t = store_data (fst (set_plan_cancelled s pid))"
  shows "\<not> snd (set_plan_cancelled t pid)"
proof -
  from assms(1) obtain i where i: "position (\<lambda>p. plan_id p = pid) (ts_plans s) = Some i"
    "\<not> cancel_blocked (plan_state (ts_plans s ! i))" "snd (cancel_plan_jobs s i)"
    by (auto simp: set_plan_cancelled_def case_prod_beta split: option.splits if_splits)
  have plans: "ts_plans t = (ts_plans s)[i := (ts_plans s ! i)\<lparr>plan_state := TransferPlanState.Cancelled\<rparr>]"
    using t i by (simp add: store_data_def plan_cancelled_plans)
  have "position (\<lambda>p. plan_id p = pid) (ts_plans t) = Some i"
    using position_ids[of "ts_plans t" "ts_plans s"] position_Some_nth[OF i(1)] i(1)
    by (simp add: plans map_update_same)
  then show ?thesis
    using position_Some_nth[OF i(1)] by (simp add: set_plan_cancelled_def plans cancel_blocked_def)
qed

lemma upsert_job_twice:
  assumes "jobs_ordered (ts_jobs s)" "ts_jobs t = ts_jobs (fst (upsert_job s j))"
  shows "\<not> snd (upsert_job t j)"
proof -
  obtain s' c where s': "upsert_job s j = (s', c)" by fastforce
  from upsert_job_jobs[OF s' assms(1)] s' assms(2)
  have ord: "jobs_ordered (ts_jobs t)" "job_id j \<in> job_id ` set (ts_jobs t)" by auto
  have mem: "j \<in> set (ts_jobs t)"
    using s' assms(2) std.search_Ok[of "map job_id (ts_jobs s)" "job_id j"]
    by (auto simp: upsert_job_def binary_search_by_key_def
        split: search_result.splits if_splits intro!: set_update_memI)
  obtain k where k: "binary_search_by_key job_id (ts_jobs t) (job_id j) = Ok k"
    using std.search_is_Ok_iff[of "map job_id (ts_jobs t)" "job_id j"] ord
    by (auto simp: binary_search_by_key_def jobs_ordered_def strict_sorted_iff)
  then have "k < length (ts_jobs t)" "job_id (ts_jobs t ! k) = job_id j"
    using std.search_Ok[of "map job_id (ts_jobs t)" "job_id j" k] by (auto simp: binary_search_by_key_def)
  then have "ts_jobs t ! k = j"
    using mem jobs_ordered_distinct[OF ord(1)] by (metis distinct_map inj_onD nth_mem)
  with k show ?thesis by (simp add: upsert_job_def)
qed

lemma find_update_first_const:
  "find P xs = Some x \<Longrightarrow> P y \<Longrightarrow> find P (update_first P (\<lambda>_. y) xs) = Some y"
  by (induction xs) (auto split: if_splits)

lemma find_append_new: "find P xs = None \<Longrightarrow> P y \<Longrightarrow> find P (xs @ [y]) = Some y"
  by (induction xs) (auto split: if_splits)

lemma upsert_conflict_twice:
  assumes "ts_pending_conflicts t = ts_pending_conflicts (fst (upsert_conflict s c))"
  shows "\<not> snd (upsert_conflict t c)"
proof -
  have "find (\<lambda>e. cr_id e = cr_id c) (ts_pending_conflicts t) = Some c"
    using assms
    by (auto simp: upsert_conflict_def find_update_first_const find_append_new split: option.splits if_splits)
  then show ?thesis by (simp add: upsert_conflict_def)
qed

lemma conflict_twice:
  assumes t: "store_data t = store_data (fst (apply_conflict s prompt now))"
  shows "\<not> snd (apply_conflict t prompt now)"
proof -
  let ?w = "TransferState.WaitingForConflictDecision (tcp_plan_id prompt) (tcp_request_id prompt)"
  let ?c = "with_source_details (conflict_request_new (tcp_request_id prompt) (tcp_plan_id prompt)
     (tcp_transfer_id prompt) (tcp_source prompt) (tcp_destination prompt) now)
     (tcp_source_size prompt) (tcp_source_modified_at prompt)"
  let ?s1 = "fst (set_job_state s (tcp_transfer_id prompt) ?w)"
  have eq: "fst (apply_conflict s prompt now) = fst (upsert_conflict ?s1 ?c)"
    by (simp add: apply_conflict_def Let_def case_prod_beta)
  have f: "ts_jobs (fst (upsert_conflict ?s1 ?c)) = ts_jobs ?s1"
    using upsert_conflict_flag[of ?s1 ?c] by (metis prod.collapse)
  have 1: "ts_jobs t = ts_jobs ?s1" "ts_pending_conflicts t = ts_pending_conflicts (fst (upsert_conflict ?s1 ?c))"
    using t f by (simp_all add: store_data_def eq)
  have ns: "\<not> snd (set_job_state t (tcp_transfer_id prompt) ?w)" using set_job_state_twice 1(1) by blast
  then have "fst (set_job_state t (tcp_transfer_id prompt) ?w) = t"
    by (auto simp: set_job_state_def split: option.splits if_splits)
  with ns upsert_conflict_twice[OF 1(2)] show ?thesis
    by (simp add: apply_conflict_def Let_def case_prod_beta)
qed

lemma progress_twice:
  assumes t: "store_data t = store_data (fst (apply_progress s progress now))"
    and ch: "snd (apply_progress s progress now)"
  shows "\<not> snd (apply_progress t progress now)"
proof -
  from ch obtain i st where i: "find_job_index s (tp_transfer_id progress) = Some i"
    "fst (apply_progress s progress now) =
       put_job_state s i (TransferState.Running (tp_bytes_done progress) (tp_bytes_total progress) st)"
    by (auto simp: apply_progress_def Let_def split: option.splits if_splits)
  have "map job_id (ts_jobs t) = map job_id (ts_jobs s)"
    using t state_ops_ids(2)[of s progress now] by (simp add: store_data_def)
  then have "find_job_index t (tp_transfer_id progress) = Some i"
    using i find_job_index_ids[of t s] by simp
  moreover have "job_state (ts_jobs t ! i) = TransferState.Running (tp_bytes_done progress) (tp_bytes_total progress) st"
    using t i find_job_index_Some[OF i(1)] by (simp add: store_data_def)
  ultimately show ?thesis by (simp add: apply_progress_def)
qed

lemma warning_twice:
  assumes t: "store_data t = store_data (fst (apply_warning s w))" and ch: "snd (apply_warning s w)"
  shows "\<not> snd (apply_warning t w)"
proof -
  from ch obtain i where i: "find_job_index s (tw_transfer_id w) = Some i" "w \<notin> set (job_warnings (ts_jobs s ! i))"
    by (auto simp: apply_warning_def Let_def split: option.splits if_splits)
  have "map job_id (ts_jobs t) = map job_id (ts_jobs s)"
    using t state_ops_ids(3)[of s w] by (simp add: store_data_def)
  then have "find_job_index t (tw_transfer_id w) = Some i"
    using i find_job_index_ids[of t s] by simp
  moreover have "w \<in> set (job_warnings (ts_jobs t ! i))"
    using t i find_job_index_Some[OF i(1)] by (simp add: store_data_def apply_warning_def Let_def)
  ultimately show ?thesis by (simp add: apply_warning_def)
qed

subsection \<open>The end of a job\<close>

lemma nth_update_first_other: "k < length xs \<Longrightarrow> \<not> P (xs ! k) \<Longrightarrow> update_first P f xs ! k = xs ! k"
  by (induction xs arbitrary: k) (auto simp: nth_Cons split: nat.splits)

lemma position_children:
  "map plan_child_jobs ps = map plan_child_jobs qs \<Longrightarrow>
   position (\<lambda>p. plan_has_child p tid) ps = position (\<lambda>p. plan_has_child p tid) qs"
  unfolding plan_has_child_iff using position_map[of "\<lambda>cs. tid \<in> set cs" plan_child_jobs] by metis

lemma finalize_data:
  assumes "store_data t = store_data s"
  shows "snd (finalize_plan_for_job t tid) = snd (finalize_plan_for_job s tid)"
proof -
  have t: "ts_plans t = ts_plans s" "ts_jobs t = ts_jobs s" using assms by (simp_all add: store_data_def)
  have "find_job_index t = find_job_index s" 
    by (rule ext) (simp only: find_job_index_def t)
  then have "child_jobs_slice_range t i = child_jobs_slice_range s i" for i
    unfolding child_jobs_slice_range_def t by (simp only:)
  then have "scan_plan t = scan_plan s" unfolding scan_plan_def t by (simp only:)
  then show ?thesis
    by (auto simp: finalize_plan_for_job_def t Let_def case_prod_beta split: option.split)
qed

lemma finalize_twice:
  assumes "store_data t = store_data (fst (finalize_plan_for_job s tid))"
  shows "\<not> snd (finalize_plan_for_job t tid)"
proof (cases "finalize_plan_for_job s tid" rule: prod.exhaust)
  case (Pair s' c)
  from Pair show ?thesis
  proof (cases rule: finalize_cases)
    case 1
    then show ?thesis using assms Pair finalize_data[of t s tid] by simp
  next
    case (2 i any_failed)
    have plans: "ts_plans t = (ts_plans s)[i := (ts_plans s ! i)\<lparr>plan_state :=
       if any_failed then TransferPlanState.Failed finished_with_failures else TransferPlanState.Completed\<rparr>]"
      using assms Pair 2(5) by (simp add: store_data_def)
    note i = position_Some_nth[OF 2(2)]
    have "position (\<lambda>p. plan_has_child p tid) (ts_plans t) = Some i"
      using position_children[of "ts_plans t" "ts_plans s" tid] 2(2) i by (simp add: plans map_update_same)
    moreover have "plan_terminal (plan_state (ts_plans t ! i))" using i by (simp add: plans)
    ultimately show ?thesis by (simp add: finalize_plan_for_job_def)
  qed
qed

lemma finalize_keeps_job:
  assumes "list_all plan_ok (ts_plans s)" "k < length (ts_jobs s)" "job_id (ts_jobs s ! k) = tid"
  shows "ts_jobs (fst (finalize_plan_for_job s tid)) ! k = ts_jobs s ! k"
proof (cases "finalize_plan_for_job s tid" rule: prod.exhaust)
  case (Pair s' c)
  from Pair show ?thesis
  proof (cases rule: finalize_cases)
    case 1
    then show ?thesis using Pair by (simp add: store_data_def)
  next
    case (2 i any_failed)
    note i = position_Some_nth[OF 2(2)]
    have "plan_root_job_id (ts_plans s ! i) \<noteq> tid"
      using i assms(1) by (auto simp: list_all_iff plan_ok_def)
    with assms(2,3) show ?thesis by (simp add: Pair 2(6) nth_update_first_other)
  qed
qed

lemma transfer_terminal_twice:
  assumes inv: "transfer_inv s" and t: "store_data t = store_data (fst (set_transfer_terminal s tid st))"
  shows "\<not> snd (set_transfer_terminal t tid st)"
proof -
  let ?s1 = "fst (set_job_state s tid st)"
  define s2 where "s2 = fst (remove_conflicts ?s1 (map cr_id (filter (\<lambda>c. cr_transfer_id c = tid) (ts_pending_conflicts ?s1))))"
  have t2: "store_data t = store_data (fst (finalize_plan_for_job s2 tid))"
    using t by (simp only: set_transfer_terminal_fst s2_def)
  have s2: "ts_jobs s2 = ts_jobs ?s1" "ts_plans s2 = ts_plans s"
    by (simp_all add: s2_def remove_conflicts_eq set_job_state_plans)
  have ids: "map job_id (ts_jobs t) = map job_id (ts_jobs s)"
    using t transfer_terminal_ids[of s tid st] by (simp add: store_data_def)
  have nj: "\<not> snd (set_job_state t tid st)"
    unfolding set_job_state_settled
  proof (intro allI impI)
    fix k assume "find_job_index t tid = Some k"
    then have k: "find_job_index s tid = Some k" by (simp only: find_job_index_ids[OF ids])
    have "k < length (ts_jobs s2)" "job_id (ts_jobs s2 ! k) = tid"
      using find_job_index_Some[OF k] state_ops_ids(1)[of s tid st] s2(1) by (metis length_map nth_map)+
    moreover have "list_all plan_ok (ts_plans s2)" using inv s2 by (simp add: transfer_inv_def)
    ultimately have "ts_jobs t ! k = ts_jobs ?s1 ! k"
      using t2 finalize_keeps_job[of s2 k tid] s2(1) by (simp add: store_data_def)
    then show "job_state (ts_jobs t ! k) = st" using set_job_state_nth[OF k, of st] by simp
  qed
  then have tt: "fst (set_job_state t tid st) = t"
    by (auto simp: set_job_state_def split: option.splits if_splits)
  have conf: "filter (\<lambda>c. cr_transfer_id c = tid) (ts_pending_conflicts t) = []"
    using t by (auto simp: store_data_def transfer_terminal_conflicts filter_empty_conv)
  show ?thesis
    using nj tt finalize_twice[OF t2] by (simp add: set_transfer_terminal_def Let_def case_prod_beta conf)
qed

lemma reduce_event_twice:
  assumes "transfer_inv s" "event_admissible s event" "snd (reduce_event s event now)"
    and t: "store_data t = store_data (fst (reduce_event s event now))"
  shows "\<not> snd (reduce_event t event now)"
proof -
  have ord: "jobs_ordered (ts_jobs s)" using assms(1) by (simp add: transfer_inv_def)
  show ?thesis
  proof (cases event)
    case (PlanStarted snapshot)
    then show ?thesis using plan_started_twice[OF ord] t by simp
  next
    case (PlanProgress progress)
    then show ?thesis using plan_progress_twice[OF assms(1)] assms(2) t by simp
  next
    case (PlanCompleted pid)
    then show ?thesis using plan_completed_twice t by simp
  next
    case (PlanCancelled pid)
    then show ?thesis using plan_cancelled_twice assms(3) t by simp
  next
    case (PlanFailed pid error)
    then show ?thesis using plan_terminal_state_twice t by simp
  next
    case (Conflict prompt)
    then show ?thesis using conflict_twice t by simp
  next
    case (Running job)
    then show ?thesis using upsert_job_twice[OF ord] t by (simp add: store_data_def)
  next
    case (Progress progress)
    then show ?thesis using progress_twice assms(3) t by simp
  next
    case (Warning w)
    then show ?thesis using warning_twice assms(3) t by simp
  qed (use t transfer_terminal_twice[OF assms(1)] in simp_all)
qed

lemma apply_event_twice:
  assumes "transfer_inv s" "event_admissible s event"
  shows "\<not> snd (apply_event (fst (apply_event s event now)) event now)"
proof (cases "snd (apply_event s event now)")
  case True
  then show ?thesis
    using reduce_event_twice[of "s\<lparr>ts_just_finished_plan := None\<rparr>" event now
        "(fst (apply_event s event now))\<lparr>ts_just_finished_plan := None\<rparr>"] assms
    by (simp add: apply_event_def store_data_def)
next
  case False
  let ?s0 = "s\<lparr>ts_just_finished_plan := None\<rparr>" and ?s' = "fst (apply_event s event now)"
  have "store_data ?s' = store_data ?s0"
    using reduce_event_flag[of ?s0 event now] False by (metis apply_event_def prod.collapse)
  then have "?s'\<lparr>ts_just_finished_plan := None\<rparr> = ?s0"
    by (simp add: store_data_def)
  with False show ?thesis by (simp add: apply_event_def)
qed

end
