(* ===== verification/Transfer_Properties.thy ===== *)
theory Transfer_Properties
  imports Transfer_Replay
begin

text \<open>
  The properties of the transfer store, each with a concrete instance, and the run on which the slice
  of a plan's children reaches a job of another plan.
\<close>

section \<open>A concrete history\<close>

definition demo_job :: "u64 \<Rightarrow> TransferJob" where
  "demo_job n = \<lparr>job_id = TransferId n, job_direction = Upload,
     job_source = TransferEndpoint.Local (LocalPath []), job_destination = TransferEndpoint.Remote (RemotePath []),
     job_state = TransferState.Queued, job_metadata_policy = metadata_policy_default,
     job_conflict_policy = Ask, job_warnings = [], job_created_at = 0\<rparr>"

definition demo_plan :: "u64 \<Rightarrow> u64 \<Rightarrow> TransferPlan" where
  "demo_plan n root = \<lparr>plan_id = TransferPlanId n, plan_root_job_id = TransferId root,
     plan_source_root = TransferEndpoint.Local (LocalPath []),
     plan_destination_root = TransferEndpoint.Remote (RemotePath []), plan_state = TransferPlanState.Planning,
     plan_planned_count = 0, plan_total_bytes = None, plan_child_jobs = [], plan_conflict_policy = Ask\<rparr>"

definition demo_started :: "u64 \<Rightarrow> u64 \<Rightarrow> TransferOp" where
  "demo_started n root = Reduce (ApplyEvent (PlanStarted
     \<lparr>tps_plan = demo_plan n root, tps_root_job = demo_job root\<rparr>) 0)"

definition demo_progress :: "u64 \<Rightarrow> u64 list \<Rightarrow> nat \<Rightarrow> TransferOp" where
  "demo_progress n ids planned = Reduce (ApplyEvent (PlanProgress
     \<lparr>tpp_plan_id = TransferPlanId n, tpp_child_jobs = map demo_job ids, tpp_planned_count = planned,
      tpp_total_bytes = None\<rparr>) 0)"

text \<open>Two plans whose children were published in turns, one child of the first one finished.\<close>

definition demo_ops :: "TransferOp list" where
  "demo_ops = [demo_started 1 1, demo_started 2 2, demo_progress 1 [3] 1, demo_progress 2 [4] 1,
     demo_progress 1 [5, 7] 3, Reduce (ApplyEvent (TransferEvent.Completed (TransferId 5)) 0)]"

definition demo_store :: TransferStore where
  "demo_store = foldl transfer_step transfer_store_default demo_ops"

lemma demo_admissible: "transfers.admissible_run transfer_store_default demo_ops"
  unfolding transfers.admissible_run_eq by code_simp



lemma demo_inv: "transfer_inv demo_store"
  unfolding demo_store_def using demo_admissible by (rule transfers.reachable_inv[OF refl])

section \<open>Properties\<close>

text \<open>
  transfer_flag_exact: the flag \<open>apply_event\<close> returns is exact. It is true precisely when the event
  changed the plans, the jobs or the pending conflicts, for every store and every event.
\<close>

theorem transfer_flag_exact:
  "snd (apply_event s event now) \<longleftrightarrow> store_data (fst (apply_event s event now)) \<noteq> store_data s"
  using reduce_event_flag[of "s\<lparr>ts_just_finished_plan := None\<rparr>" event now]
  by (cases "apply_event s event now") (simp add: apply_event_def store_data_def)



text \<open>
  C7 (transfer_replay_idempotent): replaying an event is without effect. The second application reports
  no change and leaves plans, jobs, warnings and conflicts as the first one made them.
\<close>

theorem transfer_replay_idempotent:
  assumes "transfer_inv s" and "event_admissible s event"
  shows "store_data (fst (apply_event (fst (apply_event s event now)) event now)) =
           store_data (fst (apply_event s event now)) \<and>
         \<not> snd (apply_event (fst (apply_event s event now)) event now)"
proof -
  let ?s' = "fst (apply_event s event now)"
  have "\<not> snd (apply_event ?s' event now)" using assms by (rule apply_event_twice)
  moreover have "store_data (fst (apply_event ?s' event now)) = store_data ?s'"
    using calculation reduce_event_flag[of "?s'\<lparr>ts_just_finished_plan := None\<rparr>" event now]
    by (cases "apply_event ?s' event now") (simp add: apply_event_def store_data_def)
  ultimately show ?thesis by blast
qed

theorem transfer_replay_idempotent_witness:
  "snd (apply_event demo_store (PlanCancelled (TransferPlanId 1)) 9) \<and>
   \<not> snd (apply_event (fst (apply_event demo_store (PlanCancelled (TransferPlanId 1)) 9))
       (PlanCancelled (TransferPlanId 1)) 9)"
proof
  show "snd (apply_event demo_store (PlanCancelled (TransferPlanId 1)) 9)" by code_simp
  show "\<not> snd (apply_event (fst (apply_event demo_store (PlanCancelled (TransferPlanId 1)) 9))
       (PlanCancelled (TransferPlanId 1)) 9)"
    using transfer_replay_idempotent[OF demo_inv, of "PlanCancelled (TransferPlanId 1)" 9] by simp
qed

text \<open>
  C2 (terminal_plan_sealed): a plan that is completed, cancelled or failed is never resurrected or
  extended: through any later events, cancel requests and conflict removals it stays terminal, with the
  children and the planned count it had.
\<close>

theorem terminal_plan_sealed:
  assumes "plan_sealed pid children planned s"
  shows "plan_sealed pid children planned (foldl reducer_step s ops)"
  using assms by (rule sealed.closed_run)

theorem terminal_plan_sealed_witness:
  "plan_sealed (TransferPlanId 1) (map TransferId [3, 5, 7]) 3
     (foldl reducer_step (transfer_step demo_store (Reduce (ApplyEvent (PlanCancelled (TransferPlanId 1)) 1)))
        [ApplyEvent (PlanProgress \<lparr>tpp_plan_id = TransferPlanId 1, tpp_child_jobs = [demo_job 9],
           tpp_planned_count = 4, tpp_total_bytes = None\<rparr>) 2])"
proof (rule terminal_plan_sealed)
  have "find_plan (transfer_step demo_store (Reduce (ApplyEvent (PlanCancelled (TransferPlanId 1)) 1))) (TransferPlanId 1)
    = Some ((demo_plan 1 1)\<lparr>plan_state := TransferPlanState.Cancelled, plan_planned_count := 3,
        plan_child_jobs := map TransferId [3, 5, 7]\<rparr>)" by code_simp
  then show "plan_sealed (TransferPlanId 1) (map TransferId [3, 5, 7]) 3
     (transfer_step demo_store (Reduce (ApplyEvent (PlanCancelled (TransferPlanId 1)) 1)))"
    by (simp add: plan_sealed_def)
qed






text \<open>
  slice_reaches_foreign_job: after the finished jobs are cleared, the index range that stands for a
  plan's children can have the right length and hold a job of another plan. On this history, all of whose
  steps are admissible, cancelling plan 1 skips job 4, a queued child of plan 2 that nobody cancelled.
\<close>

theorem slice_reaches_foreign_job:
  "transfers.admissible_run transfer_store_default (demo_ops @ [ClearTerminal]) \<and>
   (let s = foldl transfer_step transfer_store_default (demo_ops @ [ClearTerminal]);
        s' = transfer_step s (Reduce (ApplyEvent (PlanCancelled (TransferPlanId 1)) 9))
    in plan_id_for_job s (TransferId 4) = Some (TransferPlanId 2) \<and>
       map_option job_state (find_job s (TransferId 4)) = Some TransferState.Queued \<and>
       map_option job_state (find_job s' (TransferId 4)) = Some TransferState.Skipped)"
proof
  show "transfers.admissible_run transfer_store_default (demo_ops @ [ClearTerminal])"
    unfolding transfers.admissible_run_eq by code_simp
qed code_simp

end
