(* ===== verification/Editor_Rules.thy ===== *)
theory Editor_Rules
  imports Rust_Sort
begin

text \<open>
  External editor rules: the wildcard matcher \<open>match_glob\<close>, the suffix length of a pattern, the sort of
  the rules and the choice of the editor for a file name. The lower-casing of a character is the
  parameter \<open>lower\<close>, the Unicode table behind \<open>char::to_lowercase\<close>; the matcher relies on one fact
  about it, that nothing but the slash lower-cases like the slash.
\<close>

section \<open>Definitions\<close>

abbreviation star :: rchar where
  "star \<equiv> 42"

abbreviation question :: rchar where
  "question \<equiv> 63"

record EditorRule =
  rule_pattern :: rstr
  rule_app_name :: rstr

definition chars_eq_ci :: "(rchar \<Rightarrow> rstr) \<Rightarrow> rchar \<Rightarrow> rchar \<Rightarrow> bool" where
  "chars_eq_ci lower a b \<longleftrightarrow> lower a = lower b"

text \<open>
  The loop over the text. \<open>Some None\<close> is the early \<open>return false\<close>, \<open>Some (Some i)\<close> the end of the loop
  at pattern index \<open>i\<close>; a loop that does not end would be \<open>None\<close>.
\<close>

partial_function (option) glob_loop ::
  "(rchar \<Rightarrow> rstr) \<Rightarrow> rchar list \<Rightarrow> rchar list \<Rightarrow> nat \<Rightarrow> nat \<Rightarrow> nat option \<Rightarrow> nat \<Rightarrow> nat option option" where
  "glob_loop lower pattern text pattern_index text_index star_pattern star_text =
     (if text_index < length text then
        (if pattern_index < length pattern \<and> pattern ! pattern_index = star then
           glob_loop lower pattern text (pattern_index + 1) text_index (Some pattern_index) text_index
         else if pattern_index < length pattern \<and> pattern ! pattern_index = question \<and> text ! text_index \<noteq> slash then
           glob_loop lower pattern text (pattern_index + 1) (text_index + 1) star_pattern star_text
         else if pattern_index < length pattern \<and> pattern ! pattern_index \<noteq> star \<and>
                 pattern ! pattern_index \<noteq> question \<and>
                 chars_eq_ci lower (pattern ! pattern_index) (text ! text_index) then
           glob_loop lower pattern text (pattern_index + 1) (text_index + 1) star_pattern star_text
         else (case star_pattern of
                 None \<Rightarrow> Some None
               | Some s \<Rightarrow>
                   if text ! star_text = slash then Some None
                   else glob_loop lower pattern text (s + 1) (star_text + 1) star_pattern (star_text + 1)))
      else Some (Some pattern_index))"

declare glob_loop.simps [code]

definition match_glob :: "(rchar \<Rightarrow> rstr) \<Rightarrow> rchar list \<Rightarrow> rchar list \<Rightarrow> bool option" where
  "match_glob lower pattern text =
     (case glob_loop lower pattern text 0 0 None 0 of
        None \<Rightarrow> None
      | Some None \<Rightarrow> Some False
      | Some (Some i) \<Rightarrow> Some (dropWhile (\<lambda>c. c = star) (drop i pattern) = []))"

definition rule_matches :: "(rchar \<Rightarrow> rstr) \<Rightarrow> EditorRule \<Rightarrow> rstr \<Rightarrow> bool" where
  "rule_matches lower r file_name \<longleftrightarrow> match_glob lower (rule_pattern r) file_name = Some True"

definition pattern_suffix_len :: "rstr \<Rightarrow> usize" where
  "pattern_suffix_len pattern = utf8_len (rev (takeWhile (\<lambda>c. c \<noteq> star) (rev pattern)))"

definition sort_editor_rules :: "EditorRule list \<Rightarrow> EditorRule list" where
  "sort_editor_rules rules =
     sort_by (\<lambda>a b. reverse_ordering (ord_cmp (pattern_suffix_len (rule_pattern a)) (pattern_suffix_len (rule_pattern b)))) rules"

fun resolve_loop ::
  "(rchar \<Rightarrow> rstr) \<Rightarrow> rstr \<Rightarrow> EditorRule list \<Rightarrow> EditorRule option \<Rightarrow> nat \<Rightarrow> EditorRule option" where
  "resolve_loop lower file_name [] best best_len = best"
| "resolve_loop lower file_name (rule # rules) best best_len =
     (if rule_matches lower rule file_name then
        let len = pattern_suffix_len (rule_pattern rule)
        in (case best of
              None \<Rightarrow> resolve_loop lower file_name rules (Some rule) len
            | Some _ \<Rightarrow> if best_len < len then resolve_loop lower file_name rules (Some rule) len
                        else resolve_loop lower file_name rules best best_len)
      else resolve_loop lower file_name rules best best_len)"

definition resolve_editor_app ::
  "(rchar \<Rightarrow> rstr) \<Rightarrow> rstr \<Rightarrow> EditorRule list \<Rightarrow> rstr option \<Rightarrow> rstr option" where
  "resolve_editor_app lower file_name rules fallback =
     (case resolve_loop lower file_name rules None 0 of
        Some rule \<Rightarrow> Some (rule_app_name rule)
      | None \<Rightarrow> fallback)"

section \<open>What a pattern means\<close>

definition single :: "(rchar \<Rightarrow> rstr) \<Rightarrow> rchar \<Rightarrow> rchar \<Rightarrow> bool" where
  "single lower c x \<longleftrightarrow> c \<noteq> star \<and> (if c = question then x \<noteq> slash else chars_eq_ci lower c x)"

fun glob :: "(rchar \<Rightarrow> rstr) \<Rightarrow> rchar list \<Rightarrow> rchar list \<Rightarrow> bool" where
  "glob lower [] t = (t = [])"
| "glob lower (c # p) t =
     (if c = star then (\<exists>k \<le> length t. slash \<notin> set (take k t) \<and> glob lower p (drop k t))
      else (case t of [] \<Rightarrow> False | x # t' \<Rightarrow> single lower c x \<and> glob lower p t'))"

definition slash_own_case :: "(rchar \<Rightarrow> rstr) \<Rightarrow> bool" where
  "slash_own_case lower \<longleftrightarrow> (\<forall>c. lower c = lower slash \<longrightarrow> c = slash)"

lemma glob_star_unfold:
  "glob lower (star # p) t \<longleftrightarrow>
   glob lower p t \<or> (\<exists>x t'. t = x # t' \<and> x \<noteq> slash \<and> glob lower (star # p) t')"
proof
  assume "glob lower (star # p) t"
  then obtain k where k: "k \<le> length t" "slash \<notin> set (take k t)" "glob lower p (drop k t)" by auto
  then show "glob lower p t \<or> (\<exists>x t'. t = x # t' \<and> x \<noteq> slash \<and> glob lower (star # p) t')"
    by (cases k; cases t) auto
next
  assume "glob lower p t \<or> (\<exists>x t'. t = x # t' \<and> x \<noteq> slash \<and> glob lower (star # p) t')"
  then show "glob lower (star # p) t"
  proof
    assume "\<exists>x t'. t = x # t' \<and> x \<noteq> slash \<and> glob lower (star # p) t'"
    then obtain x t' k where "t = x # t'" "x \<noteq> slash" "k \<le> length t'" "slash \<notin> set (take k t')"
      "glob lower p (drop k t')" by auto
    then show ?thesis by (auto intro!: exI[of _ "Suc k"])
  qed (auto intro!: exI[of _ 0])
qed

lemma glob_Nil: "glob lower p [] \<longleftrightarrow> dropWhile (\<lambda>c. c = star) p = []"
  by (induction p) auto

section \<open>A run of single characters\<close>

definition run_matches :: "(rchar \<Rightarrow> rstr) \<Rightarrow> rchar list \<Rightarrow> nat \<Rightarrow> rchar list \<Rightarrow> nat \<Rightarrow> nat \<Rightarrow> bool" where
  "run_matches lower P a T b n \<longleftrightarrow>
     a + n \<le> length P \<and> b + n \<le> length T \<and> (\<forall>d < n. single lower (P ! (a + d)) (T ! (b + d)))"

lemma run_matches_0: "a \<le> length P \<Longrightarrow> b \<le> length T \<Longrightarrow> run_matches lower P a T b 0"
  by (simp add: run_matches_def)

lemma run_matches_Suc:
  "run_matches lower P a T b (Suc n) \<longleftrightarrow>
   run_matches lower P a T b n \<and> a + n < length P \<and> b + n < length T \<and> single lower (P ! (a + n)) (T ! (b + n))"
  by (auto simp: run_matches_def less_Suc_eq)

lemma glob_single:
  assumes "a < length P" "P ! a \<noteq> star"
  shows "glob lower (drop a P) (drop b T) \<longleftrightarrow>
         b < length T \<and> single lower (P ! a) (T ! b) \<and> glob lower (drop (Suc a) P) (drop (Suc b) T)"
proof (cases "b < length T")
  case True
  with assms show ?thesis by (simp add: Cons_nth_drop_Suc[symmetric])
next
  case False
  then have "drop b T = []" by simp
  with assms show ?thesis by (simp add: Cons_nth_drop_Suc[symmetric])
qed

lemma run_glob:
  "run_matches lower P a T b n \<Longrightarrow>
   glob lower (drop a P) (drop b T) \<longleftrightarrow> glob lower (drop (a + n) P) (drop (b + n) T)"
proof (induction n)
  case (Suc n)
  then have m: "run_matches lower P a T b n" "a + n < length P" "b + n < length T"
    "single lower (P ! (a + n)) (T ! (b + n))" by (auto simp: run_matches_Suc)
  then have "P ! (a + n) \<noteq> star" by (auto simp: single_def)
  with Suc.IH[OF m(1)] m glob_single[of "a + n" P lower "b + n" T] show ?case by simp
qed simp

text \<open>A match that starts with a run of single characters contains a match of the run.\<close>

lemma glob_run:
  assumes "run_matches lower P a T b n" "glob lower (drop a P) (drop b' T)" "b' \<le> length T"
  shows "run_matches lower P a T b' n \<and> glob lower (drop (a + n) P) (drop (b' + n) T)"
  using assms(1)
proof (induction n)
  case 0
  with assms show ?case by (simp add: run_matches_def)
next
  case (Suc n)
  then have m: "run_matches lower P a T b n" "a + n < length P" "single lower (P ! (a + n)) (T ! (b + n))"
    by (auto simp: run_matches_Suc)
  from Suc.IH[OF m(1)] have IH: "run_matches lower P a T b' n" "glob lower (drop (a + n) P) (drop (b' + n) T)"
    by auto
  have "P ! (a + n) \<noteq> star" using m by (auto simp: single_def)
  with IH m glob_single[of "a + n" P lower "b' + n" T] show ?case by (simp add: run_matches_Suc)
qed

text \<open>
  If a run matches at \<open>b\<close> and again \<open>k\<close> later, and the \<open>k\<close> characters from \<open>b\<close> on hold no slash, then
  no character up to the end of the later match is a slash.
\<close>

lemma run_shift_no_slash:
  assumes case_ok: "slash_own_case lower"
    and first: "run_matches lower P a T b n" and later: "run_matches lower P a T (b + k) n"
    and gap: "\<forall>i < k. T ! (b + i) \<noteq> slash" "0 < k"
  shows "i < n + k \<Longrightarrow> T ! (b + i) \<noteq> slash"
proof (induction i rule: less_induct)
  case (less i)
  show ?case
  proof (cases "i < k")
    case False
    then obtain d where d: "i = k + d" "d < n" using less.prems by (metis add.commute le_Suc_ex not_le nat_add_left_cancel_less)
    show ?thesis
    proof
      assume slash: "T ! (b + i) = slash"
      have "single lower (P ! (a + d)) (T ! (b + i))"
        using later d by (simp add: run_matches_def add.assoc)
      then have "P ! (a + d) \<noteq> question" "P ! (a + d) = slash"
        using slash case_ok by (auto simp: single_def chars_eq_ci_def slash_own_case_def split: if_splits)
      moreover have "single lower (P ! (a + d)) (T ! (b + d))" using first d by (simp add: run_matches_def)
      ultimately have "T ! (b + d) = slash"
        using case_ok by (auto simp: single_def chars_eq_ci_def slash_own_case_def)
      with less.IH[of d] d gap(2) less.prems show False by simp
    qed
  qed (use gap in simp)
qed

section \<open>The loop decides the meaning\<close>

definition loop_inv ::
  "(rchar \<Rightarrow> rstr) \<Rightarrow> rchar list \<Rightarrow> rchar list \<Rightarrow> nat \<Rightarrow> nat \<Rightarrow> nat option \<Rightarrow> nat \<Rightarrow> bool" where
  "loop_inv lower P T pi ti sp st \<longleftrightarrow>
     (case sp of
        None \<Rightarrow> st = 0 \<and> pi = ti \<and> run_matches lower P 0 T 0 pi
      | Some s \<Rightarrow> P ! s = star \<and> s < pi \<and> pi \<le> length P \<and> st \<le> ti \<and> pi = Suc s + (ti - st) \<and>
                  run_matches lower P (Suc s) T st (ti - st) \<and>
                  (glob lower P T \<longleftrightarrow> glob lower (drop s P) (drop st T)))"

lemma loop_inv_Some:
  assumes "loop_inv lower P T pi ti (Some s) st"
  shows "s < length P" "drop s P = star # drop (Suc s) P" "st \<le> ti" "ti \<le> length T" "pi = Suc s + (ti - st)"
    "run_matches lower P (Suc s) T st (ti - st)" "glob lower P T \<longleftrightarrow> glob lower (drop s P) (drop st T)"
    "glob lower (drop (Suc s) P) (drop st T) \<longleftrightarrow> glob lower (drop pi P) (drop ti T)"
proof -
  note inv = assms[unfolded loop_inv_def option.case]
  show "s < length P" using inv by simp
  then show "drop s P = star # drop (Suc s) P" using inv by (simp add: Cons_nth_drop_Suc[symmetric])
  show "st \<le> ti" "pi = Suc s + (ti - st)" "run_matches lower P (Suc s) T st (ti - st)"
    "glob lower P T \<longleftrightarrow> glob lower (drop s P) (drop st T)" using inv by auto
  show "ti \<le> length T" using inv by (auto simp: run_matches_def)
  show "glob lower (drop (Suc s) P) (drop st T) \<longleftrightarrow> glob lower (drop pi P) (drop ti T)"
    using run_glob[of lower P "Suc s" T st "ti - st"] inv by simp
qed

lemma take_drop_no_slash:
  assumes "b + k \<le> length T"
  shows "slash \<notin> set (take k (drop b T)) \<longleftrightarrow> (\<forall>i < k. T ! (b + i) \<noteq> slash)"
  using assms by (auto simp: in_set_conv_nth)

lemma glob_star_index:
  assumes "st \<le> length T"
  shows "glob lower (star # p) (drop st T) \<longleftrightarrow>
    (\<exists>k. st + k \<le> length T \<and> (\<forall>i < k. T ! (st + i) \<noteq> slash) \<and> glob lower p (drop (st + k) T))"
proof -
  have "k \<le> length (drop st T) \<longleftrightarrow> st + k \<le> length T" for k using assms by auto
  then show ?thesis using take_drop_no_slash[of st _ T] by (auto simp: add.commute)
qed

text \<open>A new star makes the older one obsolete.\<close>

lemma star_forgets:
  assumes ok: "slash_own_case lower" and inv: "loop_inv lower P T pi ti (Some s) st"
    and star: "pi < length P" "P ! pi = star"
  shows "glob lower (drop s P) (drop st T) \<longleftrightarrow> glob lower (drop pi P) (drop ti T)"
proof
  note i = loop_inv_Some[OF inv]
  have pi: "drop pi P = star # drop (Suc pi) P" using star by (simp add: Cons_nth_drop_Suc[symmetric])
  assume "glob lower (drop s P) (drop st T)"
  then obtain k where k: "st + k \<le> length T" "\<forall>j < k. T ! (st + j) \<noteq> slash"
    "glob lower (drop (Suc s) P) (drop (st + k) T)"
    unfolding i(2) using i(3,4) glob_star_index[of st T] by auto
  show "glob lower (drop pi P) (drop ti T)"
  proof (cases "k = 0")
    case True
    with k i(8) show ?thesis by simp
  next
    case False
    have later: "run_matches lower P (Suc s) T (st + k) (ti - st)" "glob lower (drop pi P) (drop (ti + k) T)"
      using glob_run[OF i(6) k(3,1)] i(3,5) by (auto simp: ac_simps)
    have len: "ti + k \<le> length T" using later(1) i(3) by (simp add: run_matches_def)
    have gap: "T ! (ti + j) \<noteq> slash" if "j < k" for j
      using run_shift_no_slash[OF ok i(6) later(1) k(2), of "ti - st + j"] that i(3) by simp
    obtain m where m: "ti + k + m \<le> length T" "\<forall>j < m. T ! (ti + k + j) \<noteq> slash"
      "glob lower (drop (Suc pi) P) (drop (ti + k + m) T)"
      using later(2) len unfolding pi glob_star_index[OF len] by blast
    have "T ! (ti + j) \<noteq> slash" if "j < k + m" for j
      using gap[of j] m(2)[rule_format, of "j - k"] that by (cases "j < k") auto
    then show ?thesis
      unfolding pi glob_star_index[OF i(4)] using m by (intro exI[of _ "k + m"]) (simp add: add.assoc)
  qed
next
  note i = loop_inv_Some[OF inv]
  assume "glob lower (drop pi P) (drop ti T)"
  then have "glob lower (drop (Suc s) P) (drop st T)" using i(8) by simp
  then show "glob lower (drop s P) (drop st T)"
    using glob_star_unfold[of lower "drop (Suc s) P" "drop st T"] unfolding i(2) by blast
qed

lemma loop_inv_current:
  assumes "loop_inv lower P T pi ti None st"
  shows "glob lower P T \<longleftrightarrow> glob lower (drop pi P) (drop ti T)"
  using assms run_glob[of lower P 0 T 0 pi] by (auto simp: loop_inv_def)

lemma loop_inv_star:
  assumes "slash_own_case lower" "loop_inv lower P T pi ti sp st" "pi < length P" "P ! pi = star" "ti < length T"
  shows "loop_inv lower P T (Suc pi) ti (Some pi) ti"
proof -
  have "glob lower P T \<longleftrightarrow> glob lower (drop pi P) (drop ti T)"
  proof (cases sp)
    case None
    with assms(2) loop_inv_current show ?thesis by blast
  next
    case (Some s)
    with assms star_forgets[OF assms(1)] loop_inv_Some(7) show ?thesis by blast
  qed
  with assms(3-5) show ?thesis by (simp add: loop_inv_def run_matches_0)
qed

lemma loop_inv_single:
  assumes "loop_inv lower P T pi ti sp st" "pi < length P" "ti < length T" "single lower (P ! pi) (T ! ti)"
  shows "loop_inv lower P T (Suc pi) (Suc ti) sp st"
proof (cases sp)
  case None
  with assms show ?thesis by (auto simp: loop_inv_def run_matches_Suc)
next
  case (Some s)
  note i = loop_inv_Some[OF assms(1)[unfolded Some]]
  have "Suc ti - st = Suc (ti - st)" using i(3) by simp
  with assms i Some show ?thesis by (simp add: loop_inv_def run_matches_Suc)
qed

text \<open>When the current character cannot match, the last star has to take one more.\<close>

lemma loop_inv_backtrack:
  assumes inv: "loop_inv lower P T pi ti (Some s) st" and ti: "ti < length T"
    and fails: "\<not> glob lower (drop pi P) (drop ti T)"
  shows "if T ! st = slash then \<not> glob lower P T
         else loop_inv lower P T (Suc s) (Suc st) (Some s) (Suc st)"
proof -
  note i = loop_inv_Some[OF inv]
  have st: "drop st T = T ! st # drop (Suc st) T" using i(3) ti by (simp add: Cons_nth_drop_Suc)
  have "glob lower (drop s P) (drop st T) \<longleftrightarrow> T ! st \<noteq> slash \<and> glob lower (drop s P) (drop (Suc st) T)"
    using fails i(8) glob_star_unfold[of lower "drop (Suc s) P" "drop st T"] unfolding i(2) by (simp only: st) blast
  moreover have "run_matches lower P (Suc s) T (Suc st) 0" using i ti by (intro run_matches_0) auto
  ultimately show ?thesis using inv i by (simp add: loop_inv_def)
qed

lemma mismatch_fails:
  assumes "ti < length T" "pi \<le> length P" "\<not> (pi < length P \<and> P ! pi = star)"
    "\<not> (pi < length P \<and> single lower (P ! pi) (T ! ti))"
  shows "\<not> glob lower (drop pi P) (drop ti T)"
  using assms glob_single[of pi P lower ti T] by (cases "pi < length P") auto

text \<open>At the end of the text only stars may be left of the pattern.\<close>

lemma loop_inv_end:
  assumes inv: "loop_inv lower P T pi ti sp st" and ti: "\<not> ti < length T"
  shows "glob lower P T \<longleftrightarrow> dropWhile (\<lambda>c. c = star) (drop pi P) = []"
proof (cases sp)
  case None
  with inv ti loop_inv_current[of lower P T pi ti st] show ?thesis by (simp add: glob_Nil)
next
  case (Some s)
  note i = loop_inv_Some[OF inv[unfolded Some]]
  have tiT: "ti = length T" using i(4) ti by simp
  have "\<not> glob lower (drop (Suc s) P) (drop (st + k) T)" if "0 < k" "st + k \<le> length T" for k
    using glob_run[OF i(6), of "st + k"] that tiT i(3) by (auto simp: run_matches_def)
  then have "glob lower (drop s P) (drop st T) \<longleftrightarrow> glob lower (drop (Suc s) P) (drop st T)"
    unfolding i(2) using i(3,4) glob_star_index[of st T lower "drop (Suc s) P"]
    by (metis add.right_neutral bot_nat_0.not_eq_extremum less_nat_zero_code order_trans)
  with i(7,8) tiT show ?thesis by (simp add: glob_Nil)
qed

lemma glob_loop_correct:
  assumes "slash_own_case lower"
  shows "loop_inv lower P T pi ti sp st \<Longrightarrow> pi \<le> length P \<Longrightarrow>
    \<exists>r. glob_loop lower P T pi ti sp st = Some r \<and>
        ((case r of None \<Rightarrow> False | Some j \<Rightarrow> dropWhile (\<lambda>c. c = star) (drop j P) = []) \<longleftrightarrow> glob lower P T)"
proof (induction "(length P - (case sp of None \<Rightarrow> 0 | Some s \<Rightarrow> Suc s), length T - st, length T - ti)"
    arbitrary: pi ti sp st rule: wf_induct_rule[OF wf_lex_prod[OF wf_less_than wf_lex_prod[OF wf_less_than wf_less_than]]])
  case (1 ti sp st pi)
  note IH = "1.hyps"
  show ?case
  proof (cases "ti < length T")
    case False
    then show ?thesis using loop_inv_end[OF "1.prems"(1) False] by (simp add: glob_loop.simps)
  next
    case ti: True
    consider (star) "pi < length P" "P ! pi = star"
      | (single) "pi < length P" "single lower (P ! pi) (T ! ti)"
      | (fail) "\<not> (pi < length P \<and> P ! pi = star)" "\<not> (pi < length P \<and> single lower (P ! pi) (T ! ti))"
      by blast
    then show ?thesis
    proof cases
      case star
      have "glob_loop lower P T pi ti sp st = glob_loop lower P T (Suc pi) ti (Some pi) ti"
        using ti star by (simp add: glob_loop.simps[of _ _ _ pi])
      moreover have "length P - Suc pi < length P - (case sp of None \<Rightarrow> 0 | Some s \<Rightarrow> Suc s)"
        using "1.prems"(1) star by (cases sp) (auto simp: loop_inv_def)
      ultimately show ?thesis
        using IH[where pi = "Suc pi" and sp = "Some pi" and ti = ti and st = ti] loop_inv_star[OF assms "1.prems"(1) star ti] star
        by simp
    next
      case single
      have "glob_loop lower P T pi ti sp st = glob_loop lower P T (Suc pi) (Suc ti) sp st"
        using ti single by (auto simp: glob_loop.simps[of _ _ _ pi] single_def)
      then show ?thesis
        using IH[where pi = "Suc pi" and sp = sp and ti = "Suc ti" and st = st] loop_inv_single[OF "1.prems"(1) single(1) ti single(2)] single ti
        by auto
    next
      case fail
      have loop: "glob_loop lower P T pi ti sp st = (case sp of None \<Rightarrow> Some None
          | Some s \<Rightarrow> if T ! st = slash then Some None
                      else glob_loop lower P T (Suc s) (Suc st) sp (Suc st))"
        using ti fail by (auto simp: glob_loop.simps[of _ _ _ pi] single_def split: option.splits)
      have no: "\<not> glob lower (drop pi P) (drop ti T)" using mismatch_fails[OF ti "1.prems"(2) fail] .
      show ?thesis
      proof (cases sp)
        case None
        then show ?thesis using loop no loop_inv_current[of lower P T pi ti st] "1.prems"(1) by simp
      next
        case (Some s)
        note step = loop_inv_backtrack[OF "1.prems"(1)[unfolded Some] ti no]
        note i = loop_inv_Some[OF "1.prems"(1)[unfolded Some]]
        show ?thesis
        proof (cases "T ! st = slash")
          case True
          with step loop Some show ?thesis by simp
        next
          case False
          then have inv': "loop_inv lower P T (Suc s) (Suc st) (Some s) (Suc st)" using step by simp
          have "length T - Suc st < length T - st" using i(3) ti by simp
          then show ?thesis
            using loop Some False inv' i(1) IH[where pi = "Suc s" and sp = "Some s" and ti = "Suc st" and st = "Suc st"] by simp
        qed
      qed
    qed
  qed
qed

lemma match_glob_correct:
  assumes "slash_own_case lower"
  shows "match_glob lower pattern text = Some (glob lower pattern text)"
proof -
  have "loop_inv lower pattern text 0 0 None 0" by (simp add: loop_inv_def run_matches_def)
  from glob_loop_correct[OF assms this] obtain r where
    "glob_loop lower pattern text 0 0 None 0 = Some r"
    "(case r of None \<Rightarrow> False | Some j \<Rightarrow> dropWhile (\<lambda>c. c = star) (drop j pattern) = []) \<longleftrightarrow> glob lower pattern text"
    by auto
  then show ?thesis by (cases r) (auto simp: match_glob_def)
qed

section \<open>The choice of an editor\<close>

text \<open>The rule that wins: a match with the longest suffix, the first one among equals.\<close>

fun best_rule :: "(rchar \<Rightarrow> rstr) \<Rightarrow> rstr \<Rightarrow> EditorRule list \<Rightarrow> EditorRule option" where
  "best_rule lower f [] = None"
| "best_rule lower f (r # rs) =
     (if rule_matches lower r f
      then (case best_rule lower f rs of
              Some q \<Rightarrow> if pattern_suffix_len (rule_pattern r) < pattern_suffix_len (rule_pattern q) then Some q else Some r
            | None \<Rightarrow> Some r)
      else best_rule lower f rs)"

lemma resolve_loop_best:
  "resolve_loop lower f rs (Some b) (pattern_suffix_len (rule_pattern b)) =
     (case best_rule lower f rs of
        Some q \<Rightarrow> if pattern_suffix_len (rule_pattern b) < pattern_suffix_len (rule_pattern q) then Some q else Some b
      | None \<Rightarrow> Some b)"
  by (induction rs arbitrary: b) (auto simp: Let_def split: option.splits)

lemma resolve_loop_None: "resolve_loop lower f rs None n = best_rule lower f rs"
  by (induction rs) (auto simp: Let_def resolve_loop_best split: option.splits)

lemma best_rule_matches: "best_rule lower f rs = Some r \<Longrightarrow> r \<in> set rs \<and> rule_matches lower r f"
  by (induction rs) (auto split: if_splits option.splits)

abbreviation longer_first :: "EditorRule \<Rightarrow> EditorRule \<Rightarrow> comp" where
  "longer_first a b \<equiv> reverse_ordering (ord_cmp (pattern_suffix_len (rule_pattern a)) (pattern_suffix_len (rule_pattern b)))"

lemma find_insort_rules:
  assumes "sorted_wrt (\<lambda>a b. pattern_suffix_len (rule_pattern b) \<le> pattern_suffix_len (rule_pattern a)) rs"
  shows "find P (insort_by longer_first r rs) =
     (if P r then (case find P rs of
                     Some q \<Rightarrow> if pattern_suffix_len (rule_pattern r) < pattern_suffix_len (rule_pattern q) then Some q else Some r
                   | None \<Rightarrow> Some r)
      else find P rs)"
  using assms
proof (induction rs)
  case (Cons x xs)
  show ?case
  proof (cases "pattern_suffix_len (rule_pattern r) < pattern_suffix_len (rule_pattern x)")
    case True
    then have "longer_first r x = Greater" by (simp add: ord_cmp_def)
    with Cons True show ?thesis by simp
  next
    case False
    then have ng: "longer_first r x \<noteq> Greater" by (simp add: ord_cmp_def)
    have "\<not> pattern_suffix_len (rule_pattern r) < pattern_suffix_len (rule_pattern q)" if "find P (x # xs) = Some q" for q
      using False Cons.prems find_Some_mem[OF that] by fastforce
    with ng show ?thesis by (auto split: option.split)
  qed
qed simp

lemma longer_first_sorted:
  "sorted_wrt (\<lambda>a b. pattern_suffix_len (rule_pattern b) \<le> pattern_suffix_len (rule_pattern a)) (sort_editor_rules rs)"
proof -
  have cmp: "comparator longer_first"
    using comparator_reverse[OF comparator_by_key[OF comparator_ord_cmp, of "\<lambda>r. pattern_suffix_len (rule_pattern r)"]] .
  have "pattern_suffix_len (rule_pattern b) \<le> pattern_suffix_len (rule_pattern a)" if "longer_first a b \<noteq> Greater" for a b
    using that by (auto simp: ord_cmp_def split: if_splits)
  with sorted_wrt_sort_by[OF cmp, of rs] show ?thesis
    unfolding sort_editor_rules_def by (rule sorted_wrt_mono_rel[rotated]) blast
qed

lemma find_sorted_rules:
  "find (\<lambda>r. rule_matches lower r f) (sort_editor_rules rs) = best_rule lower f rs"
proof (induction rs)
  case Nil
  then show ?case by (simp add: sort_editor_rules_def sort_by_def)
next
  case (Cons r rs)
  have "sort_editor_rules (r # rs) = insort_by longer_first r (sort_editor_rules rs)"
    by (simp add: sort_editor_rules_def sort_by_def)
  then show ?case using find_insort_rules[OF longer_first_sorted, of _ r rs] Cons by simp
qed

section \<open>Properties\<close>

text \<open>
  C14 (match_glob_decides): the iterative matcher with its single backtrack point always ends and decides
  exactly what a pattern means: a star stands for any characters but slashes, a question mark for one
  character but a slash, any other character for itself up to case.
\<close>

theorem match_glob_decides:
  assumes "slash_own_case lower"
  shows "match_glob lower pattern text = Some (glob lower pattern text)"
  using assms by (rule match_glob_correct)

definition ascii_lower :: "rchar \<Rightarrow> rstr" where
  "ascii_lower c = [if 65 \<le> c \<and> c \<le> 90 then c + 32 else c]"

lemma ascii_lower_slash: "slash_own_case ascii_lower"
  by (simp add: slash_own_case_def ascii_lower_def)

theorem match_glob_decides_witness:
  "match_glob ascii_lower (lit ''*a?/*.TXT'') (lit ''bab/c.d.txt'') = Some True \<and>
   glob ascii_lower (lit ''*a?/*.TXT'') (lit ''bab/c.d.txt'') \<and>
   \<not> glob ascii_lower (lit ''*b*c'') (lit ''ab/bc'')"
proof -
  have "match_glob ascii_lower (lit ''*a?/*.TXT'') (lit ''bab/c.d.txt'') = Some True"
    "match_glob ascii_lower (lit ''*b*c'') (lit ''ab/bc'') = Some False" by code_simp+
  then show ?thesis by (simp add: match_glob_decides[OF ascii_lower_slash])
qed

text \<open>
  editor_choice: the editor chosen for a file is that of the first matching rule of the sorted rule
  list, which holds the same rules with the longest suffixes first, and the fallback only when no rule
  matches.
\<close>

theorem editor_choice:
  "resolve_editor_app lower f rules fallback =
     (case find (\<lambda>r. rule_matches lower r f) (sort_editor_rules rules) of
        Some r \<Rightarrow> Some (rule_app_name r) | None \<Rightarrow> fallback) \<and>
   mset (sort_editor_rules rules) = mset rules \<and>
   sorted_wrt (\<lambda>a b. pattern_suffix_len (rule_pattern b) \<le> pattern_suffix_len (rule_pattern a)) (sort_editor_rules rules)"
  unfolding find_sorted_rules resolve_editor_app_def resolve_loop_None
  using longer_first_sorted[of rules] by (simp add: sort_editor_rules_def)

end
