(* ===== verification/Edit_Session.thy ===== *)
theory Edit_Session
  imports Protocol
begin

text \<open>
  The records of remote-edit sessions and \<open>EditSessionStore\<close>, the list of live sessions with its two id
  counters. Session and check ids are 64-bit counters that wrap; uniqueness of ids holds until they do.
\<close>

section \<open>Definitions\<close>

datatype EditPhase = Downloading | Editing | CheckingRemote | UploadingBack | RemoteConflict

record LocalBaseline =
  lb_size :: u64
  lb_mtime :: SystemTime

record EditSession =
  ed_id :: EditSessionId
  ed_remote_path :: RemotePath
  ed_io_path :: RemotePath
  ed_tab_id :: TabId
  ed_session_epoch :: u64
  ed_profile_id :: ProfileId
  ed_connection_key :: ConnectionKey
  ed_local_temp_path :: LocalPath
  ed_phase :: EditPhase
  ed_remote_snapshot :: RemoteSnapshot
  ed_pending_check_id :: "EditCheckId option"
  ed_checking_local_mtime :: "Timestamp option"
  ed_local_modified :: bool
  ed_local_baseline :: "LocalBaseline option"

record EditSessionStore =
  es_sessions :: "EditSession list"
  es_next_id :: u64
  es_next_check_id :: u64

definition edit_store_new :: EditSessionStore where
  "edit_store_new = \<lparr>es_sessions = [], es_next_id = 1, es_next_check_id = 1\<rparr>"

definition next_id :: "EditSessionStore \<Rightarrow> EditSessionStore \<times> EditSessionId" where
  "next_id s = (s\<lparr>es_next_id := es_next_id s + 1\<rparr>, EditSessionId (es_next_id s))"

definition next_check_id :: "EditSessionStore \<Rightarrow> EditSessionStore \<times> EditCheckId" where
  "next_check_id s = (s\<lparr>es_next_check_id := es_next_check_id s + 1\<rparr>, EditCheckId (es_next_check_id s))"

definition register :: "EditSessionStore \<Rightarrow> EditSession \<Rightarrow> EditSessionStore \<times> EditSessionId" where
  "register s session = (s\<lparr>es_sessions := es_sessions s @ [session]\<rparr>, ed_id session)"

definition get :: "EditSessionStore \<Rightarrow> EditSessionId \<Rightarrow> EditSession option" where
  "get s i = find (\<lambda>e. ed_id e = i) (es_sessions s)"

text \<open>\<open>if let Some(session) = store.get_mut(id) { ... }\<close>.\<close>

definition modify :: "EditSessionStore \<Rightarrow> EditSessionId \<Rightarrow> (EditSession \<Rightarrow> EditSession) \<Rightarrow> EditSessionStore" where
  "modify s i f = s\<lparr>es_sessions := update_first (\<lambda>e. ed_id e = i) f (es_sessions s)\<rparr>"

definition find_by_temp_path :: "EditSessionStore \<Rightarrow> LocalPath \<Rightarrow> EditSession option" where
  "find_by_temp_path s path = find (\<lambda>e. ed_local_temp_path e = path) (es_sessions s)"

definition find_for_tab_path :: "EditSessionStore \<Rightarrow> TabId \<Rightarrow> RemotePath \<Rightarrow> EditSession option" where
  "find_for_tab_path s tab path =
     (let mine = filter (\<lambda>e. ed_tab_id e = tab) (rev (es_sessions s))
      in case find (\<lambda>e. ed_io_path e = path) mine of
           Some e \<Rightarrow> Some e
         | None \<Rightarrow> find (\<lambda>e. ed_remote_path e = path) mine)"

definition find_active_for_remote_path ::
  "EditSessionStore \<Rightarrow> ConnectionKey \<Rightarrow> RemotePath \<Rightarrow> EditSession option" where
  "find_active_for_remote_path s key path =
     find (\<lambda>e. ed_connection_key e = key \<and> ed_remote_path e = path) (rev (es_sessions s))"

definition find_active :: "EditSessionStore \<Rightarrow> ConnectionKey \<Rightarrow> RemotePath \<Rightarrow> EditSession option" where
  "find_active s key io_path = find (\<lambda>e. ed_connection_key e = key \<and> ed_io_path e = io_path) (es_sessions s)"

definition remove_session :: "EditSessionStore \<Rightarrow> EditSessionId \<Rightarrow> EditSessionStore \<times> EditSession option" where
  "remove_session s i =
     (case position (\<lambda>e. ed_id e = i) (es_sessions s) of
        None \<Rightarrow> (s, None)
      | Some k \<Rightarrow> (s\<lparr>es_sessions := remove_at k (es_sessions s)\<rparr>, Some (es_sessions s ! k)))"

text \<open>The loop of \<open>remove_for_tab\<close>: the remaining sessions and the removed ones.\<close>

function drain_tab :: "TabId \<Rightarrow> nat \<Rightarrow> EditSession list \<Rightarrow> EditSession list \<Rightarrow> EditSession list \<times> EditSession list" where
  "drain_tab tab index sessions removed =
     (if index < length sessions then
        (if ed_tab_id (sessions ! index) = tab
         then drain_tab tab index (remove_at index sessions) (removed @ [sessions ! index])
         else drain_tab tab (index + 1) sessions removed)
      else (sessions, removed))"
  by pat_completeness auto
termination
  by (relation "measure (\<lambda>(tab, index, sessions, removed). length sessions - index)") (auto simp: remove_at_def)

declare drain_tab.simps [simp del]

definition remove_for_tab :: "EditSessionStore \<Rightarrow> TabId \<Rightarrow> EditSessionStore \<times> EditSession list" where
  "remove_for_tab s tab =
     (let (sessions, removed) = drain_tab tab 0 (es_sessions s) [] in (s\<lparr>es_sessions := sessions\<rparr>, removed))"

definition refresh_epoch :: "u64 \<Rightarrow> EditSession \<Rightarrow> EditSession" where
  "refresh_epoch epoch e =
     (if ed_phase e = CheckingRemote
      then e\<lparr>ed_phase := Editing, ed_pending_check_id := None, ed_checking_local_mtime := None,
             ed_session_epoch := epoch\<rparr>
      else e\<lparr>ed_session_epoch := epoch\<rparr>)"

definition store_update_epoch_for_tab :: "EditSessionStore \<Rightarrow> TabId \<Rightarrow> u64 \<Rightarrow> EditSessionStore" where
  "store_update_epoch_for_tab s tab epoch =
     s\<lparr>es_sessions := map (\<lambda>e. if ed_tab_id e = tab then refresh_epoch epoch e else e) (es_sessions s)\<rparr>"

definition editing_sessions_for_tab :: "EditSessionStore \<Rightarrow> TabId \<Rightarrow> EditSession list" where
  "editing_sessions_for_tab s tab = filter (\<lambda>e. ed_phase e = Editing \<and> ed_tab_id e = tab) (es_sessions s)"

definition conflict_sessions :: "EditSessionStore \<Rightarrow> EditSession list" where
  "conflict_sessions s = filter (\<lambda>e. ed_phase e = RemoteConflict) (es_sessions s)"

fun distinct_tabs :: "EditSession list \<Rightarrow> TabId list \<Rightarrow> TabId list" where
  "distinct_tabs [] ids = ids"
| "distinct_tabs (e # es) ids =
     (if ed_tab_id e \<in> set ids then distinct_tabs es ids else distinct_tabs es (ids @ [ed_tab_id e]))"

definition session_tab_ids :: "EditSessionStore \<Rightarrow> TabId list" where
  "session_tab_ids s = distinct_tabs (es_sessions s) []"

section \<open>Lemmas\<close>

lemma drain_tab_eq:
  "index \<le> length sessions \<Longrightarrow> drain_tab tab index sessions removed =
     (take index sessions @ filter (\<lambda>e. ed_tab_id e \<noteq> tab) (drop index sessions),
      removed @ filter (\<lambda>e. ed_tab_id e = tab) (drop index sessions))"
proof (induction tab index sessions removed rule: drain_tab.induct)
  case (1 tab index sessions removed)
  show ?case
  proof (cases "index < length sessions")
    case False
    with "1.prems" show ?thesis by (simp add: drain_tab.simps[of tab _ sessions removed])
  next
    case True
    then have d: "drop index sessions = sessions ! index # drop (Suc index) sessions"
      by (simp add: Cons_nth_drop_Suc)
    show ?thesis
    proof (cases "ed_tab_id (sessions ! index) = tab")
      case t: True
      have "take index (remove_at index sessions) = take index sessions"
        "drop index (remove_at index sessions) = drop (Suc index) sessions"
        using True by (simp_all add: remove_at_def)
      then show ?thesis
        using "1.IH"(1)[OF True t] True t d
        by (simp add: drain_tab.simps[of tab index sessions removed] remove_at_def)
    next
      case f: False
      have "take (Suc index) sessions = take index sessions @ [sessions ! index]"
        using True by (simp add: take_Suc_conv_app_nth)
      with "1.IH"(2)[OF True f] True f d show ?thesis
        by (simp add: drain_tab.simps[of tab index sessions removed])
    qed
  qed
qed

lemma remove_for_tab_eq:
  "remove_for_tab s tab =
     (s\<lparr>es_sessions := filter (\<lambda>e. ed_tab_id e \<noteq> tab) (es_sessions s)\<rparr>,
      filter (\<lambda>e. ed_tab_id e = tab) (es_sessions s))"
  by (simp add: remove_for_tab_def drain_tab_eq)

lemma remove_session_eq:
  "es_sessions (fst (remove_session s i)) = remove_first (\<lambda>e. ed_id e = i) (es_sessions s)"
proof (cases "position (\<lambda>e. ed_id e = i) (es_sessions s)")
  case None
  have "remove_first P xs = xs" if "\<forall>x \<in> set xs. \<not> P x" for P and xs :: "EditSession list"
    using that by (induction xs) auto
  then have "remove_first (\<lambda>e. ed_id e = i) (es_sessions s) = es_sessions s"
    using None by (simp add: position_None_iff)
  with None show ?thesis by (simp add: remove_session_def)
next
  case (Some k)
  then show ?thesis by (simp add: remove_session_def remove_at_position)
qed

lemma remove_session_counters [simp]:
  "es_next_id (fst (remove_session s i)) = es_next_id s"
  "es_next_check_id (fst (remove_session s i)) = es_next_check_id s"
  by (simp_all add: remove_session_def split: option.split)

lemma modify_simps [simp]:
  "es_sessions (modify s i f) = update_first (\<lambda>e. ed_id e = i) f (es_sessions s)"
  "es_next_id (modify s i f) = es_next_id s" "es_next_check_id (modify s i f) = es_next_check_id s"
  by (simp_all add: modify_def)

lemma get_modify:
  assumes "\<And>e. ed_id (f e) = ed_id e"
  shows "get (modify s i f) j = (if j = i then map_option f (get s i) else get s j)"
  using find_update_first_same[of ed_id f i "es_sessions s"] find_update_first_other[of ed_id f j i "es_sessions s"] assms
  by (simp add: get_def)

lemma distinct_tabs_eq: "set (distinct_tabs es ids) = set ids \<union> ed_tab_id ` set es \<and> (distinct ids \<longrightarrow> distinct (distinct_tabs es ids))"
  by (induction es arbitrary: ids) auto

end
