(* ===== verification/Rust_Format.thy ===== *)
theory Rust_Format
  imports Prelude
begin

text \<open>How the standard library prints numbers, and how such digits are read back.\<close>

text \<open>The decimal digits that \<open>format!\<close> prints for a number.\<close>

fun decimal :: "nat \<Rightarrow> rstr" where
  "decimal n = (if n < 10 then [48 + n] else decimal (n div 10) @ [48 + n mod 10])"

declare decimal.simps [simp del]

definition parse_decimal :: "rstr \<Rightarrow> nat" where
  "parse_decimal s = foldl (\<lambda>a c. 10 * a + (c - 48)) 0 s"

lemma parse_decimal_decimal: "parse_decimal (decimal n) = n"
proof (induction n rule: decimal.induct)
  case (1 n)
  then show ?case
    by (cases "n < 10") (simp_all add: decimal.simps[of n] parse_decimal_def)
qed

lemma decimal_no_slash: "slash \<notin> set (decimal n)"
proof (induction n rule: decimal.induct)
  case (1 n)
  then show ?case by (cases "n < 10") (auto simp: decimal.simps[of n])
qed

lemma decimal_inject: "decimal m = decimal n \<longleftrightarrow> m = n"
  using parse_decimal_decimal by metis

lemma decimal_not_empty [simp]: "decimal n \<noteq> []"
  by (subst decimal.simps) simp

end
