(* ===== verification/Remote_Edit.thy ===== *)
theory Remote_Edit
  imports Edit_Session Rust_Format
begin

text \<open>
  \<open>RemoteEditLifecycle\<close> of \<open>crates/core/src/remote_edit.rs\<close>: every transition of a remote-edit session
  and the effects it asks the application to execute. An operation returns the new lifecycle and its
  result; reading a file or a clock is the caller's, so file facts and times are arguments.
\<close>

section \<open>Requests, results and effects\<close>

record PendingEdit =
  pe_remote_path :: RemotePath
  pe_io_path :: RemotePath
  pe_size :: "u64 option"
  pe_modified_at :: "Timestamp option"
  pe_session_epoch :: u64
  pe_connection_key :: ConnectionKey
  pe_tab_id :: TabId
  pe_profile_id :: ProfileId

datatype ConflictChoice = Overwrite | DiscardLocal | Later

datatype EditNotice =
    StillDownloading
  | CheckingServerFile
  | ReviewConflictBeforeReopen
  | LinkRepointed bool
  | PhaseBlocked EditPhase
  | WrongConnection
  | CopyUnreadable
  | LocalChangedDuringCheck
  | ServerCheckFailed
  | UploadStartFailed
  | DownloadFailed rstr
  | CopyOpen
  | CopyOpenFailed
  | Uploaded
  | UploadFailed
  | UnsafeFileName

datatype DispatchRollback = RevertCheck | RestoreConflict | AbortDownload

datatype EditEffect =
    Dispatch TabId EditSessionId AppCommand DispatchRollback
  | OpenEditor TabId LocalPath
  | DeleteTempDir LocalPath
  | RebaseListing TabId RemotePath RemoteSnapshot
  | Notice TabId EditNotice

datatype BeginEdit =
    Start PendingEdit "EditEffect list"
  | Handled "EditEffect list"

record StartedEdit =
  se_session_id :: EditSessionId
  se_temp_path :: LocalPath
  se_command :: AppCommand

datatype UploadRequest =
    Check CheckRemoteEditSnapshotCommand
  | Rejected EditNotice

datatype EditCheckOutcome = Matched RemoteSnapshot | Failed

record EditCheckResult =
  ecr_tab_id :: TabId
  ecr_session_epoch :: u64
  ecr_session_id :: EditSessionId
  ecr_check_id :: EditCheckId
  ecr_path :: RemotePath
  ecr_outcome :: EditCheckOutcome

record EditTransferFinished =
  etf_direction :: TransferDirection
  etf_source :: TransferEndpoint
  etf_destination :: TransferEndpoint
  etf_succeeded :: bool

record LocalFileFacts =
  lff_size :: u64
  lff_mtime :: SystemTime

record RemoteEditLifecycle =
  rel_store :: EditSessionStore
  rel_edits_dir :: LocalPath
  rel_run_id :: rstr

definition lifecycle_new :: "LocalPath \<Rightarrow> rstr \<Rightarrow> RemoteEditLifecycle" where
  "lifecycle_new edits_dir run_id = \<lparr>rel_store = edit_store_new, rel_edits_dir = edits_dir, rel_run_id = run_id\<rparr>"

section \<open>Names and commands\<close>

fun edit_session_raw :: "EditSessionId \<Rightarrow> u64" where
  "edit_session_raw (EditSessionId n) = n"

definition edit_temp_path :: "LocalPath \<Rightarrow> rstr \<Rightarrow> EditSessionId \<Rightarrow> rstr \<Rightarrow> LocalPath" where
  "edit_temp_path edits_dir run_id i file_name =
     LocalPath (local_str edits_dir @ slash # run_id @ slash # decimal (unat (edit_session_raw i)) @ slash # file_name)"

definition safe_file_name :: "RemotePath \<Rightarrow> rstr option" where
  "safe_file_name path =
     (case path_file_name (remote_str path) of
        None \<Rightarrow> None
      | Some name \<Rightarrow> if name \<noteq> [] \<and> \<not> list_ex is_bidi_or_control name then Some name else None)"

definition file_name_of :: "rstr \<Rightarrow> rstr" where
  "file_name_of path = (case path_file_name path of Some name \<Rightarrow> name | None \<Rightarrow> [])"

definition conflict_remote_path :: "LocalPath \<Rightarrow> LocalPath" where
  "conflict_remote_path p =
     (let path = local_str p;
          parent = (case path_parent path of Some d \<Rightarrow> d | None \<Rightarrow> path);
          file_name = (case path_extension path of
                         Some e \<Rightarrow> if e \<noteq> [] \<and> \<not> list_ex is_bidi_or_control e
                                   then lit ''conflict-remote.'' @ e else lit ''conflict-remote''
                       | None \<Rightarrow> lit ''conflict-remote'')
      in LocalPath (path_join (path_join parent (lit ''compare'')) file_name))"

definition build_edit_upload_command ::
  "LocalPath \<Rightarrow> RemotePath \<Rightarrow> u64 \<Rightarrow> ProfileId \<Rightarrow> TabId \<Rightarrow> AppCommand" where
  "build_edit_upload_command temp remote_path epoch profile tab =
     StartTransfer \<lparr>stc_tab_id = tab, stc_session_epoch = epoch, stc_profile_id = profile,
       stc_direction = Upload, stc_sources = [TransferEndpoint.Local temp],
       stc_destination = TransferEndpoint.Remote remote_path,
       stc_metadata_policy = metadata_policy_default, stc_conflict_policy = OverwriteAll\<rparr>"

definition download_command ::
  "TabId \<Rightarrow> u64 \<Rightarrow> ProfileId \<Rightarrow> RemotePath \<Rightarrow> LocalPath \<Rightarrow> AppCommand" where
  "download_command tab epoch profile source temp =
     StartTransfer \<lparr>stc_tab_id = tab, stc_session_epoch = epoch, stc_profile_id = profile,
       stc_direction = Download, stc_sources = [TransferEndpoint.Remote source],
       stc_destination = TransferEndpoint.Local temp,
       stc_metadata_policy = metadata_policy_default, stc_conflict_policy = OverwriteAll\<rparr>"

section \<open>Operations\<close>

definition with_store :: "RemoteEditLifecycle \<Rightarrow> EditSessionStore \<Rightarrow> RemoteEditLifecycle" where
  "with_store l s = l\<lparr>rel_store := s\<rparr>"

definition lifecycle_remove_for_tab :: "RemoteEditLifecycle \<Rightarrow> TabId \<Rightarrow> RemoteEditLifecycle \<times> EditSession list" where
  "lifecycle_remove_for_tab l tab =
     (let (s, removed) = remove_for_tab (rel_store l) tab in (with_store l s, removed))"

definition reap_tab :: "RemoteEditLifecycle \<Rightarrow> TabId \<Rightarrow> RemoteEditLifecycle \<times> EditEffect list" where
  "reap_tab l tab =
     (let (s, removed) = remove_for_tab (rel_store l) tab
      in (with_store l s, map (\<lambda>e. DeleteTempDir (ed_local_temp_path e)) removed))"

text \<open>The second half of \<open>begin\<close>: the deduplication on the write-through path.\<close>

definition begin_dedup ::
  "RemoteEditLifecycle \<Rightarrow> PendingEdit \<Rightarrow> (TabId \<Rightarrow> bool) \<Rightarrow> EditEffect list \<Rightarrow> RemoteEditLifecycle \<times> BeginEdit" where
  "begin_dedup l pending is_tab_live reaped =
     (case find_active (rel_store l) (pe_connection_key pending) (pe_io_path pending) of
        None \<Rightarrow> (l, Start pending reaped)
      | Some e \<Rightarrow>
          if is_tab_live (ed_tab_id e)
          then (l, Handled (case ed_phase e of
                      Editing \<Rightarrow> [OpenEditor (ed_tab_id e) (ed_local_temp_path e)]
                    | UploadingBack \<Rightarrow> [OpenEditor (ed_tab_id e) (ed_local_temp_path e)]
                    | Downloading \<Rightarrow> [Notice (pe_tab_id pending) StillDownloading]
                    | CheckingRemote \<Rightarrow> [Notice (pe_tab_id pending) CheckingServerFile]
                    | RemoteConflict \<Rightarrow> [Notice (pe_tab_id pending) ReviewConflictBeforeReopen]))
          else let (l', effects) = reap_tab l (ed_tab_id e)
               in (l', Start pending (reaped @ effects)))"

definition begin_edit :: "RemoteEditLifecycle \<Rightarrow> PendingEdit \<Rightarrow> (TabId \<Rightarrow> bool) \<Rightarrow> RemoteEditLifecycle \<times> BeginEdit" where
  "begin_edit l pending is_tab_live =
     (case find_active_for_remote_path (rel_store l) (pe_connection_key pending) (pe_remote_path pending) of
        None \<Rightarrow> begin_dedup l pending is_tab_live []
      | Some e \<Rightarrow>
          if ed_io_path e \<noteq> pe_io_path pending
          then (if is_tab_live (ed_tab_id e)
                then (l, Handled [Notice (pe_tab_id pending) (LinkRepointed (ed_phase e = RemoteConflict))])
                else let (l', effects) = reap_tab l (ed_tab_id e)
                     in begin_dedup l' pending is_tab_live effects)
          else begin_dedup l pending is_tab_live [])"

definition downloading_session :: "PendingEdit \<Rightarrow> EditSessionId \<Rightarrow> LocalPath \<Rightarrow> EditSession" where
  "downloading_session pending i temp =
     \<lparr>ed_id = i, ed_remote_path = pe_remote_path pending, ed_io_path = pe_io_path pending,
      ed_tab_id = pe_tab_id pending, ed_session_epoch = pe_session_epoch pending,
      ed_profile_id = pe_profile_id pending, ed_connection_key = pe_connection_key pending,
      ed_local_temp_path = temp, ed_phase = Downloading,
      ed_remote_snapshot = \<lparr>snap_size = pe_size pending, snap_modified_at = pe_modified_at pending\<rparr>,
      ed_pending_check_id = None, ed_checking_local_mtime = None,
      ed_local_modified = False, ed_local_baseline = None\<rparr>"

definition start_download :: "RemoteEditLifecycle \<Rightarrow> PendingEdit \<Rightarrow> RemoteEditLifecycle \<times> (EditNotice + StartedEdit)" where
  "start_download l pending =
     (case safe_file_name (pe_remote_path pending) of
        None \<Rightarrow> (l, Inl UnsafeFileName)
      | Some file_name \<Rightarrow>
          let (s1, i) = next_id (rel_store l);
              temp = edit_temp_path (rel_edits_dir l) (rel_run_id l) i file_name;
              (s2, _) = register s1 (downloading_session pending i temp)
          in (with_store l s2,
              Inr \<lparr>se_session_id = i, se_temp_path = temp,
                   se_command = download_command (pe_tab_id pending) (pe_session_epoch pending)
                     (pe_profile_id pending) (pe_io_path pending) temp\<rparr>))"

definition abort_download :: "RemoteEditLifecycle \<Rightarrow> EditSessionId \<Rightarrow> RemoteEditLifecycle \<times> EditEffect list" where
  "abort_download l i =
     (case get (rel_store l) i of
        None \<Rightarrow> (l, [])
      | Some e \<Rightarrow>
          if ed_phase e \<noteq> Downloading then (l, [])
          else (with_store l (fst (remove_session (rel_store l) i)), [DeleteTempDir (ed_local_temp_path e)]))"

definition request_upload ::
  "RemoteEditLifecycle \<Rightarrow> EditSessionId \<Rightarrow> u64 \<Rightarrow> ConnectionKey \<Rightarrow> Timestamp \<Rightarrow> RemoteEditLifecycle \<times> UploadRequest" where
  "request_upload l i epoch key mtime =
     (let (s, check_id) = next_check_id (rel_store l)
      in case get s i of
           None \<Rightarrow> (with_store l s, Rejected ServerCheckFailed)
         | Some e \<Rightarrow>
             if ed_phase e \<noteq> Editing then (with_store l s, Rejected (PhaseBlocked (ed_phase e)))
             else if ed_connection_key e \<noteq> key then (with_store l s, Rejected WrongConnection)
             else (with_store l (modify s i (\<lambda>e. e\<lparr>ed_phase := CheckingRemote, ed_session_epoch := epoch,
                      ed_pending_check_id := Some check_id, ed_checking_local_mtime := Some mtime\<rparr>)),
                   Check \<lparr>cre_tab_id = ed_tab_id e, cre_session_epoch = epoch, cre_edit_session_id = i,
                          cre_check_id = check_id, cre_path = ed_io_path e\<rparr>))"

definition leave_check :: "EditPhase \<Rightarrow> EditSession \<Rightarrow> EditSession" where
  "leave_check phase e = e\<lparr>ed_phase := phase, ed_pending_check_id := None, ed_checking_local_mtime := None\<rparr>"

definition revert_check :: "RemoteEditLifecycle \<Rightarrow> EditSessionId \<Rightarrow> RemoteEditLifecycle" where
  "revert_check l i = with_store l (modify (rel_store l) i (leave_check Editing))"

definition check_applicable :: "EditSession \<Rightarrow> EditCheckResult \<Rightarrow> bool" where
  "check_applicable e result \<longleftrightarrow>
     ed_phase e = CheckingRemote \<and> ed_pending_check_id e = Some (ecr_check_id result) \<and>
     ed_checking_local_mtime e \<noteq> None \<and> ed_io_path e = ecr_path result \<and>
     ecr_tab_id result = ed_tab_id e \<and> ecr_session_epoch result = ed_session_epoch e"

definition upload_of :: "EditSession \<Rightarrow> AppCommand" where
  "upload_of e = build_edit_upload_command (ed_local_temp_path e) (ed_io_path e) (ed_session_epoch e)
     (ed_profile_id e) (ed_tab_id e)"

definition on_check_result ::
  "RemoteEditLifecycle \<Rightarrow> EditCheckResult \<Rightarrow> Timestamp option \<Rightarrow> RemoteEditLifecycle \<times> EditEffect list" where
  "on_check_result l result current_local_mtime =
     (case get (rel_store l) (ecr_session_id result) of
        None \<Rightarrow> (l, [])
      | Some e \<Rightarrow>
          if \<not> check_applicable e result then (l, [])
          else if current_local_mtime \<noteq> ed_checking_local_mtime e
          then (revert_check l (ecr_session_id result), [Notice (ed_tab_id e) LocalChangedDuringCheck])
          else (case ecr_outcome result of
                  Matched snapshot \<Rightarrow>
                    if snapshot = ed_remote_snapshot e
                    then (with_store l (modify (rel_store l) (ecr_session_id result) (leave_check UploadingBack)),
                          [Dispatch (ed_tab_id e) (ecr_session_id result) (upload_of e) RevertCheck])
                    else (with_store l (modify (rel_store l) (ecr_session_id result) (leave_check RemoteConflict)), [])
                | EditCheckOutcome.Failed \<Rightarrow>
                    (revert_check l (ecr_session_id result), [Notice (ed_tab_id e) ServerCheckFailed])))"

definition facts_baseline :: "LocalFileFacts option \<Rightarrow> LocalBaseline option" where
  "facts_baseline facts = map_option (\<lambda>f. \<lparr>lb_size = lff_size f, lb_mtime = lff_mtime f\<rparr>) facts"

definition facts_snapshot :: "LocalFileFacts \<Rightarrow> RemoteSnapshot" where
  "facts_snapshot f = snapshot_truncated_to_secs
     \<lparr>snap_size = Some (lff_size f), snap_modified_at = Some (from_system_time (lff_mtime f))\<rparr>"

definition finished_temp_path :: "EditTransferFinished \<Rightarrow> LocalPath option" where
  "finished_temp_path finished =
     (case etf_destination finished of
        TransferEndpoint.Local path \<Rightarrow> Some path
      | _ \<Rightarrow> (case etf_source finished of TransferEndpoint.Local path \<Rightarrow> Some path | _ \<Rightarrow> None))"

definition transfer_matches_phase :: "EditSession \<Rightarrow> EditTransferFinished \<Rightarrow> bool" where
  "transfer_matches_phase e finished \<longleftrightarrow>
     (case ed_phase e of
        Downloading \<Rightarrow> etf_direction finished = Download \<and> etf_source finished = TransferEndpoint.Remote (ed_io_path e)
      | UploadingBack \<Rightarrow> etf_direction finished = Upload \<and> etf_destination finished = TransferEndpoint.Remote (ed_io_path e)
      | _ \<Rightarrow> False)"

definition download_finished ::
  "RemoteEditLifecycle \<Rightarrow> EditSession \<Rightarrow> LocalPath \<Rightarrow> bool \<Rightarrow> LocalFileFacts option \<Rightarrow> RemoteEditLifecycle \<times> EditEffect list" where
  "download_finished l e temp succeeded facts =
     (if \<not> succeeded
      then (with_store l (fst (remove_session (rel_store l) (ed_id e))),
            [DeleteTempDir temp, Notice (ed_tab_id e) (DownloadFailed (file_name_of (remote_str (ed_remote_path e))))])
      else (with_store l (modify (rel_store l) (ed_id e) (\<lambda>e. e\<lparr>ed_phase := Editing, ed_local_modified := False,
                ed_local_baseline := facts_baseline facts\<rparr>)),
            [OpenEditor (ed_tab_id e) temp]))"

definition upload_finished ::
  "RemoteEditLifecycle \<Rightarrow> EditSession \<Rightarrow> bool \<Rightarrow> LocalFileFacts option \<Rightarrow> RemoteEditLifecycle \<times> EditEffect list" where
  "upload_finished l e succeeded facts =
     (let refreshed = (if succeeded then map_option facts_snapshot facts else None)
      in (with_store l (modify (rel_store l) (ed_id e) (\<lambda>e.
             let e1 = e\<lparr>ed_phase := Editing\<rparr>;
                 e2 = (if succeeded
                       then e1\<lparr>ed_local_modified := False, ed_local_baseline := facts_baseline facts\<rparr> else e1)
             in (case refreshed of Some snapshot \<Rightarrow> e2\<lparr>ed_remote_snapshot := snapshot\<rparr> | None \<Rightarrow> e2))),
          (case refreshed of
             Some snapshot \<Rightarrow> [RebaseListing (ed_tab_id e) (ed_io_path e) snapshot] | None \<Rightarrow> []) @
          [Notice (ed_tab_id e) (if succeeded then Uploaded else UploadFailed)]))"

definition on_transfer_finished ::
  "RemoteEditLifecycle \<Rightarrow> EditTransferFinished \<Rightarrow> LocalFileFacts option \<Rightarrow> RemoteEditLifecycle \<times> EditEffect list" where
  "on_transfer_finished l finished facts =
     (case finished_temp_path finished of
        None \<Rightarrow> (l, [])
      | Some temp \<Rightarrow>
          (case find_by_temp_path (rel_store l) temp of
             None \<Rightarrow> (l, [])
           | Some e \<Rightarrow>
               if \<not> transfer_matches_phase e finished then (l, [])
               else (case ed_phase e of
                       Downloading \<Rightarrow> download_finished l e temp (etf_succeeded finished) facts
                     | UploadingBack \<Rightarrow> upload_finished l e (etf_succeeded finished) facts
                     | _ \<Rightarrow> (l, []))))"

definition set_phase :: "EditPhase \<Rightarrow> EditSession \<Rightarrow> EditSession" where
  "set_phase phase e = e\<lparr>ed_phase := phase\<rparr>"

definition pending_of :: "EditSession \<Rightarrow> PendingEdit" where
  "pending_of e =
     \<lparr>pe_remote_path = ed_remote_path e, pe_io_path = ed_io_path e, pe_size = snap_size (ed_remote_snapshot e),
      pe_modified_at = snap_modified_at (ed_remote_snapshot e), pe_session_epoch = ed_session_epoch e,
      pe_connection_key = ed_connection_key e, pe_tab_id = ed_tab_id e, pe_profile_id = ed_profile_id e\<rparr>"

definition resolve_conflict ::
  "RemoteEditLifecycle \<Rightarrow> EditSessionId \<Rightarrow> ConflictChoice \<Rightarrow> RemoteEditLifecycle \<times> EditEffect list" where
  "resolve_conflict l i choice =
     (case get (rel_store l) i of
        None \<Rightarrow> (l, [])
      | Some e \<Rightarrow>
          if ed_phase e \<noteq> RemoteConflict then (l, [])
          else (case choice of
                  Overwrite \<Rightarrow>
                    (with_store l (modify (rel_store l) i (set_phase UploadingBack)),
                     [Dispatch (ed_tab_id e) i (upload_of e) RestoreConflict])
                | DiscardLocal \<Rightarrow>
                    (let l1 = with_store l (fst (remove_session (rel_store l) i));
                         (l2, started) = start_download l1 (pending_of e)
                     in (l2, DeleteTempDir (ed_local_temp_path e) #
                            (case started of
                               Inr st \<Rightarrow> [Dispatch (ed_tab_id e) (se_session_id st) (se_command st) AbortDownload]
                             | Inl notice \<Rightarrow> [Notice (ed_tab_id e) notice])))
                | Later \<Rightarrow> (with_store l (modify (rel_store l) i (set_phase Editing)), [])))"

definition plan_conflict_compare :: "RemoteEditLifecycle \<Rightarrow> EditSessionId \<Rightarrow> ProfileId \<Rightarrow> AppCommand option" where
  "plan_conflict_compare l i profile =
     (case get (rel_store l) i of
        None \<Rightarrow> None
      | Some e \<Rightarrow>
          if ed_phase e \<noteq> RemoteConflict then None
          else Some (download_command (ed_tab_id e) (ed_session_epoch e) profile (ed_io_path e)
                       (conflict_remote_path (ed_local_temp_path e))))"

definition dispatch_failed ::
  "RemoteEditLifecycle \<Rightarrow> EditSessionId \<Rightarrow> DispatchRollback \<Rightarrow> RemoteEditLifecycle \<times> EditEffect list" where
  "dispatch_failed l i rollback =
     (case rollback of
        RevertCheck \<Rightarrow> (revert_check l i, [])
      | RestoreConflict \<Rightarrow>
          (with_store l (modify (rel_store l) i
             (\<lambda>e. if ed_phase e = UploadingBack then set_phase RemoteConflict e else e)), [])
      | AbortDownload \<Rightarrow> abort_download l i)"

definition unchanged_since_baseline :: "EditSession \<Rightarrow> LocalFileFacts option \<Rightarrow> bool" where
  "unchanged_since_baseline e facts \<longleftrightarrow>
     (case (facts, ed_local_baseline e) of
        (Some f, Some b) \<Rightarrow> lb_size b = lff_size f \<and> lb_mtime b = lff_mtime f
      | _ \<Rightarrow> False)"

definition record_local_modified ::
  "RemoteEditLifecycle \<Rightarrow> EditSessionId \<Rightarrow> LocalPath \<Rightarrow> LocalFileFacts option \<Rightarrow> RemoteEditLifecycle \<times> bool" where
  "record_local_modified l i temp facts =
     (case get (rel_store l) i of
        None \<Rightarrow> (l, False)
      | Some e \<Rightarrow>
          if ed_phase e \<noteq> Editing \<or> ed_local_temp_path e \<noteq> temp then (l, False)
          else if unchanged_since_baseline e facts then (l, False)
          else (with_store l (modify (rel_store l) i (\<lambda>e. e\<lparr>ed_local_modified := True\<rparr>)), True))"

definition adoption :: "(RemotePath \<times> RemoteSnapshot) list \<Rightarrow> EditSession \<Rightarrow> (EditSessionId \<times> RemoteSnapshot) option" where
  "adoption listing e =
     (if ed_io_path e \<noteq> ed_remote_path e then None
      else case find (\<lambda>(path, _). path = ed_remote_path e) listing of
             None \<Rightarrow> None
           | Some (_, listed) \<Rightarrow>
               if agrees_at_second_granularity (ed_remote_snapshot e) listed then Some (ed_id e, listed) else None)"

definition adopt_listing_baselines ::
  "RemoteEditLifecycle \<Rightarrow> TabId \<Rightarrow> (RemotePath \<times> RemoteSnapshot) list \<Rightarrow> RemoteEditLifecycle" where
  "adopt_listing_baselines l tab listing =
     (let adoptions = List.map_filter (adoption listing) (editing_sessions_for_tab (rel_store l) tab)
      in with_store l (foldl (\<lambda>s (i, snapshot). modify s i (\<lambda>e. e\<lparr>ed_remote_snapshot := snapshot\<rparr>))
           (rel_store l) adoptions))"

definition update_epoch_for_tab :: "RemoteEditLifecycle \<Rightarrow> TabId \<Rightarrow> u64 \<Rightarrow> RemoteEditLifecycle" where
  "update_epoch_for_tab l tab epoch = with_store l (store_update_epoch_for_tab (rel_store l) tab epoch)"

lemma with_store_simps [simp]:
  "rel_store (with_store l s) = s" "rel_edits_dir (with_store l s) = rel_edits_dir l"
  "rel_run_id (with_store l s) = rel_run_id l" "with_store l (rel_store l) = l"
  by (simp_all add: with_store_def)

end
