(* ===== verification/Remote_Edit_Laws.thy ===== *)
theory Remote_Edit_Laws
  imports Remote_Edit
begin

text \<open>
  The invariant of the remote-edit lifecycle and the transitions of one session: unique ids and temp
  paths, at most one live session per file of a connection, and a pending check exactly in the checking
  phase.
\<close>

section \<open>Names\<close>

lemma take_until_slash: "slash \<notin> set d \<Longrightarrow> takeWhile (\<lambda>c. c \<noteq> slash) (d @ slash # f) = d"
  by (induction d) auto

lemma edit_session_raw_inject: "edit_session_raw i = edit_session_raw j \<longleftrightarrow> i = j"
  by (cases i; cases j) auto

text \<open>The temp path of a session determines its id, whatever the file is called.\<close>

lemma edit_temp_path_id:
  assumes "edit_temp_path dir run i f = edit_temp_path dir run j g"
  shows "i = j"
proof -
  have eq: "decimal (unat (edit_session_raw i)) @ slash # f = decimal (unat (edit_session_raw j)) @ slash # g"
    using assms by (simp add: edit_temp_path_def)
  have "decimal (unat (edit_session_raw i)) = decimal (unat (edit_session_raw j))"
    using arg_cong[OF eq, of "takeWhile (\<lambda>c. c \<noteq> slash)"] by (simp add: take_until_slash decimal_no_slash)
  then have "unat (edit_session_raw i) = unat (edit_session_raw j)"
    using parse_decimal_decimal by metis
  then have "edit_session_raw i = edit_session_raw j" by (rule unsigned_word_eqI)
  then show ?thesis by (simp add: edit_session_raw_inject)
qed

section \<open>The invariant\<close>

definition phase_ok :: "EditSession \<Rightarrow> bool" where
  "phase_ok e \<longleftrightarrow> (ed_phase e = CheckingRemote \<longleftrightarrow> ed_pending_check_id e \<noteq> None) \<and>
     (ed_pending_check_id e \<noteq> None \<longleftrightarrow> ed_checking_local_mtime e \<noteq> None)"

fun check_raw :: "EditCheckId \<Rightarrow> u64" where
  "check_raw (EditCheckId n) = n"

definition session_ok :: "RemoteEditLifecycle \<Rightarrow> EditSession \<Rightarrow> bool" where
  "session_ok l e \<longleftrightarrow>
     edit_session_raw (ed_id e) < es_next_id (rel_store l) \<and> phase_ok e \<and>
     (\<forall>c. ed_pending_check_id e = Some c \<longrightarrow> check_raw c < es_next_check_id (rel_store l)) \<and>
     (\<exists>name. ed_local_temp_path e = edit_temp_path (rel_edits_dir l) (rel_run_id l) (ed_id e) name)"

definition session_target :: "EditSession \<Rightarrow> ConnectionKey \<times> RemotePath" where
  "session_target e = (ed_connection_key e, ed_io_path e)"

definition edit_inv :: "RemoteEditLifecycle \<Rightarrow> bool" where
  "edit_inv l \<longleftrightarrow>
     (\<forall>e \<in> set (es_sessions (rel_store l)). session_ok l e) \<and>
     distinct (map ed_id (es_sessions (rel_store l))) \<and>
     distinct (map session_target (es_sessions (rel_store l)))"

datatype EditOp =
    Begin PendingEdit "TabId \<Rightarrow> bool"
  | StartDownload PendingEdit
  | Abort EditSessionId
  | RequestUpload EditSessionId u64 ConnectionKey Timestamp
  | Revert EditSessionId
  | CheckResult EditCheckResult "Timestamp option"
  | TransferFinished EditTransferFinished "LocalFileFacts option"
  | Resolve EditSessionId ConflictChoice
  | DispatchFailure EditSessionId DispatchRollback
  | LocalModified EditSessionId LocalPath "LocalFileFacts option"
  | AdoptListing TabId "(RemotePath \<times> RemoteSnapshot) list"
  | UpdateEpoch TabId u64
  | RemoveTab TabId

fun edit_step :: "RemoteEditLifecycle \<Rightarrow> EditOp \<Rightarrow> RemoteEditLifecycle" where
  "edit_step l (Begin pending live) = fst (begin_edit l pending live)"
| "edit_step l (StartDownload pending) = fst (start_download l pending)"
| "edit_step l (Abort i) = fst (abort_download l i)"
| "edit_step l (RequestUpload i epoch key mtime) = fst (request_upload l i epoch key mtime)"
| "edit_step l (Revert i) = revert_check l i"
| "edit_step l (CheckResult result mtime) = fst (on_check_result l result mtime)"
| "edit_step l (TransferFinished finished facts) = fst (on_transfer_finished l finished facts)"
| "edit_step l (Resolve i choice) = fst (resolve_conflict l i choice)"
| "edit_step l (DispatchFailure i rollback) = fst (dispatch_failed l i rollback)"
| "edit_step l (LocalModified i temp facts) = fst (record_local_modified l i temp facts)"
| "edit_step l (AdoptListing tab listing) = adopt_listing_baselines l tab listing"
| "edit_step l (UpdateEpoch tab epoch) = update_epoch_for_tab l tab epoch"
| "edit_step l (RemoveTab tab) = fst (lifecycle_remove_for_tab l tab)"

text \<open>
  What the application owes the lifecycle: a download is only started for a file without a live session,
  which is what \<open>begin\<close> established, and the 64-bit counters have not run out.
\<close>

fun edit_admissible :: "RemoteEditLifecycle \<Rightarrow> EditOp \<Rightarrow> bool" where
  "edit_admissible l (StartDownload pending) =
     (find_active (rel_store l) (pe_connection_key pending) (pe_io_path pending) = None \<and>
      es_next_id (rel_store l) + 1 \<noteq> 0)"
| "edit_admissible l (RequestUpload _ _ _ _) = (es_next_check_id (rel_store l) + 1 \<noteq> 0)"
| "edit_admissible l (Resolve _ _) = (es_next_id (rel_store l) + 1 \<noteq> 0)"
| "edit_admissible l _ = True"

section \<open>Changing one session\<close>

lemma get_mem: "get s i = Some e \<Longrightarrow> e \<in> set (es_sessions s) \<and> ed_id e = i"
  unfolding get_def by (rule find_Some_mem)

lemma edit_inv_get: "edit_inv l \<Longrightarrow> get (rel_store l) i = Some e \<Longrightarrow> session_ok l e"
  using get_mem by (auto simp: edit_inv_def)

lemma get_unique:
  "edit_inv l \<Longrightarrow> x \<in> set (es_sessions (rel_store l)) \<Longrightarrow> get (rel_store l) (ed_id x) = Some x"
  unfolding get_def edit_inv_def using find_key_Some_iff[of ed_id] by blast

text \<open>What a transition must keep of a session, besides its phase discipline.\<close>

definition same_identity :: "EditSession \<Rightarrow> EditSession \<Rightarrow> bool" where
  "same_identity e e' \<longleftrightarrow> ed_id e' = ed_id e \<and> session_target e' = session_target e \<and>
     ed_local_temp_path e' = ed_local_temp_path e"

lemma edit_inv_modify:
  assumes inv: "edit_inv l" and same: "\<And>e. same_identity e (f e)"
    and ok: "\<And>e. get (rel_store l) i = Some e \<Longrightarrow> phase_ok e \<Longrightarrow> phase_ok (f e)"
    and check: "\<And>e c. get (rel_store l) i = Some e \<Longrightarrow> ed_pending_check_id (f e) = Some c \<Longrightarrow>
      ed_pending_check_id e = Some c"
  shows "edit_inv (with_store l (modify (rel_store l) i f))"
proof -
  let ?l = "with_store l (modify (rel_store l) i f)"
  have "session_ok ?l x" if x: "x \<in> set (update_first (\<lambda>e. ed_id e = i) f (es_sessions (rel_store l)))" for x
    using x
  proof (rule mem_update_firstE)
    assume "x \<in> set (es_sessions (rel_store l))"
    then show ?thesis using inv by (auto simp: edit_inv_def session_ok_def)
  next
    fix e assume e: "e \<in> set (es_sessions (rel_store l))" "ed_id e = i" "x = f e"
    then have g: "get (rel_store l) i = Some e" using get_unique[OF inv] by blast
    have "session_ok l e" using edit_inv_get[OF inv g] .
    then show ?thesis
      using ok[OF g] check[OF g] same[of e] e
      by (auto simp: session_ok_def same_identity_def split: option.splits)
  qed
  moreover have "map ed_id (update_first (\<lambda>e. ed_id e = i) f (es_sessions (rel_store l))) = map ed_id (es_sessions (rel_store l))"
    "map session_target (update_first (\<lambda>e. ed_id e = i) f (es_sessions (rel_store l))) = map session_target (es_sessions (rel_store l))"
    by (intro map_update_first_same; use same in \<open>simp add: same_identity_def\<close>)+
  ultimately show ?thesis using inv by (simp add: edit_inv_def)
qed

lemma edit_inv_filter:
  assumes "edit_inv l"
  shows "edit_inv (with_store l ((rel_store l)\<lparr>es_sessions := filter P (es_sessions (rel_store l))\<rparr>))"
  using assms by (auto simp: edit_inv_def session_ok_def distinct_map_filter)

lemma edit_inv_remove:
  assumes "edit_inv l"
  shows "edit_inv (with_store l (fst (remove_session (rel_store l) i)))"
  using assms set_remove_first_subset[of "\<lambda>e. ed_id e = i" "es_sessions (rel_store l)"]
  by (auto simp: edit_inv_def session_ok_def remove_session_eq distinct_map_remove_first)

section \<open>Every operation keeps the invariant\<close>

lemma reap_tab_eq:
  "reap_tab l tab =
     (with_store l ((rel_store l)\<lparr>es_sessions := filter (\<lambda>e. ed_tab_id e \<noteq> tab) (es_sessions (rel_store l))\<rparr>),
      map (\<lambda>e. DeleteTempDir (ed_local_temp_path e)) (filter (\<lambda>e. ed_tab_id e = tab) (es_sessions (rel_store l))))"
  by (simp add: reap_tab_def remove_for_tab_eq)

lemma begin_dedup_inv: "edit_inv l \<Longrightarrow> edit_inv (fst (begin_dedup l pending live reaped))"
  by (auto simp: begin_dedup_def reap_tab_eq edit_inv_filter split: option.split)

lemma begin_edit_inv: "edit_inv l \<Longrightarrow> edit_inv (fst (begin_edit l pending live))"
  by (auto simp: begin_edit_def reap_tab_eq edit_inv_filter begin_dedup_inv split: option.split)

lemma start_download_inv:
  assumes inv: "edit_inv l" and free: "find_active (rel_store l) (pe_connection_key pending) (pe_io_path pending) = None"
    and ctr: "es_next_id (rel_store l) + 1 \<noteq> 0"
  shows "edit_inv (fst (start_download l pending))"
proof (cases "safe_file_name (pe_remote_path pending)")
  case None
  with inv show ?thesis by (simp add: start_download_def)
next
  case (Some name)
  let ?i = "EditSessionId (es_next_id (rel_store l))"
  let ?e = "downloading_session pending ?i (edit_temp_path (rel_edits_dir l) (rel_run_id l) ?i name)"
  let ?l = "fst (start_download l pending)"
  have sessions: "es_sessions (rel_store ?l) = es_sessions (rel_store l) @ [?e]"
    and ctrs: "es_next_id (rel_store ?l) = es_next_id (rel_store l) + 1"
      "es_next_check_id (rel_store ?l) = es_next_check_id (rel_store l)"
    and dirs: "rel_edits_dir ?l = rel_edits_dir l" "rel_run_id ?l = rel_run_id l"
    using Some by (simp_all add: start_download_def next_id_def register_def Let_def)
  have up: "n < es_next_id (rel_store l) + 1" if "n \<le> es_next_id (rel_store l)" for n
    using that unatSuc[of "es_next_id (rel_store l)"] ctr by (simp add: word_less_nat_alt word_le_nat_alt add.commute)
  have old: "session_ok ?l e" "ed_id e \<noteq> ?i" "session_target e \<noteq> session_target ?e"
    if "e \<in> set (es_sessions (rel_store l))" for e
  proof -
    have e: "session_ok l e" using inv that by (simp add: edit_inv_def)
    then show "session_ok ?l e" using up[of "edit_session_raw (ed_id e)"] by (auto simp: session_ok_def ctrs dirs)
    show "ed_id e \<noteq> ?i" using e by (auto simp: session_ok_def)
    show "session_target e \<noteq> session_target ?e"
      using free that by (auto simp: find_active_def find_None_mem session_target_def downloading_session_def)
  qed
  have "session_ok ?l ?e"
    using up[of "es_next_id (rel_store l)"] by (auto simp: session_ok_def ctrs dirs downloading_session_def phase_ok_def)
  moreover have "ed_id ?e \<notin> ed_id ` set (es_sessions (rel_store l))"
    using old(2) by (force simp: downloading_session_def)
  moreover have "session_target ?e \<notin> session_target ` set (es_sessions (rel_store l))"
    using old(3) by fastforce
  ultimately show ?thesis using old(1) inv unfolding edit_inv_def sessions by simp
qed

lemma abort_download_inv: "edit_inv l \<Longrightarrow> edit_inv (fst (abort_download l i))"
  by (auto simp: abort_download_def edit_inv_remove split: option.split)

lemma leave_check_identity: "same_identity e (leave_check phase e)"
  by (simp add: same_identity_def leave_check_def session_target_def)

lemma leave_check_inv:
  assumes "edit_inv l" "phase \<noteq> CheckingRemote"
  shows "edit_inv (with_store l (modify (rel_store l) i (leave_check phase)))"
  using assms by (intro edit_inv_modify leave_check_identity) (simp_all add: leave_check_def phase_ok_def)

lemma revert_check_inv: "edit_inv l \<Longrightarrow> edit_inv (revert_check l i)"
  by (simp add: revert_check_def leave_check_inv)

lemma request_upload_inv:
  assumes inv: "edit_inv l" and ctr: "es_next_check_id (rel_store l) + 1 \<noteq> 0"
  shows "edit_inv (fst (request_upload l i epoch key mtime))"
proof -
  let ?c = "es_next_check_id (rel_store l)"
  let ?s = "(rel_store l)\<lparr>es_next_check_id := ?c + 1\<rparr>"
  let ?f = "\<lambda>e. e\<lparr>ed_phase := CheckingRemote, ed_session_epoch := epoch,
    ed_pending_check_id := Some (EditCheckId ?c), ed_checking_local_mtime := Some mtime\<rparr>"
  have up: "n < ?c + 1" if "n \<le> ?c" for n
    using that unatSuc[of ?c] ctr by (simp add: word_less_nat_alt word_le_nat_alt add.commute)
  have old: "session_ok (with_store l ?s) e" if "e \<in> set (es_sessions (rel_store l))" for e
    using inv that up by (auto simp: edit_inv_def session_ok_def intro: less_imp_le)
  have base: "edit_inv (with_store l ?s)" using inv old by (simp add: edit_inv_def)
  have "edit_inv (with_store l (modify ?s i ?f))"
  proof -
    have "session_ok (with_store l (modify ?s i ?f)) x"
      if "x \<in> set (update_first (\<lambda>e. ed_id e = i) ?f (es_sessions (rel_store l)))" for x
      using that
    proof (rule mem_update_firstE)
      assume "x \<in> set (es_sessions (rel_store l))"
      from old[OF this] show ?thesis by (simp add: session_ok_def)
    next
      fix e assume e: "e \<in> set (es_sessions (rel_store l))" "ed_id e = i" "x = ?f e"
      from old[OF e(1)] show ?thesis using up[of ?c] by (auto simp: e(3) session_ok_def phase_ok_def)
    qed
    moreover have "map ed_id (update_first (\<lambda>e. ed_id e = i) ?f (es_sessions (rel_store l))) = map ed_id (es_sessions (rel_store l))"
      "map session_target (update_first (\<lambda>e. ed_id e = i) ?f (es_sessions (rel_store l))) = map session_target (es_sessions (rel_store l))"
      by (intro map_update_first_same; simp add: session_target_def)+
    ultimately show ?thesis using inv by (simp add: edit_inv_def)
  qed
  with base show ?thesis
    by (auto simp: request_upload_def next_check_id_def split: option.split)
qed

lemma on_check_result_inv: "edit_inv l \<Longrightarrow> edit_inv (fst (on_check_result l result mtime))"
  by (auto simp: on_check_result_def revert_check_inv leave_check_inv split: option.split EditCheckOutcome.split)

lemma download_finished_inv:
  assumes "edit_inv l" "get (rel_store l) (ed_id e) = Some e" "ed_phase e = Downloading"
  shows "edit_inv (fst (download_finished l e temp succeeded facts))"
proof -
  have "edit_inv (with_store l (modify (rel_store l) (ed_id e) (\<lambda>e. e\<lparr>ed_phase := Editing,
      ed_local_modified := False, ed_local_baseline := facts_baseline facts\<rparr>)))"
    using assms by (intro edit_inv_modify) (auto simp: same_identity_def session_target_def phase_ok_def)
  with assms(1) show ?thesis by (simp add: download_finished_def edit_inv_remove)
qed

lemma upload_finished_inv:
  assumes "edit_inv l" "get (rel_store l) (ed_id e) = Some e" "ed_phase e = UploadingBack"
  shows "edit_inv (fst (upload_finished l e succeeded facts))"
  unfolding upload_finished_def Let_def fst_conv using assms
  by (intro edit_inv_modify) (auto simp: same_identity_def session_target_def phase_ok_def split: option.splits if_splits)

lemma find_by_temp_path_get:
  "edit_inv l \<Longrightarrow> find_by_temp_path (rel_store l) temp = Some e \<Longrightarrow> get (rel_store l) (ed_id e) = Some e"
  using get_unique find_Some_mem unfolding find_by_temp_path_def by fastforce

lemma on_transfer_finished_inv: "edit_inv l \<Longrightarrow> edit_inv (fst (on_transfer_finished l finished facts))"
  by (auto simp: on_transfer_finished_def download_finished_inv upload_finished_inv find_by_temp_path_get
      split: option.split EditPhase.split)

lemma set_phase_inv:
  assumes "edit_inv l" "get (rel_store l) i = Some e" "ed_phase e \<noteq> CheckingRemote" "phase \<noteq> CheckingRemote"
  shows "edit_inv (with_store l (modify (rel_store l) i (set_phase phase)))"
  using assms by (intro edit_inv_modify)
    (auto simp: same_identity_def session_target_def set_phase_def phase_ok_def)

lemma find_active_None:
  "find_active s key io = None \<longleftrightarrow> (key, io) \<notin> session_target ` set (es_sessions s)"
  by (auto simp: find_active_def find_None_mem session_target_def)

lemma resolve_conflict_inv:
  assumes inv: "edit_inv l" and ctr: "es_next_id (rel_store l) + 1 \<noteq> 0"
  shows "edit_inv (fst (resolve_conflict l i choice))"
proof (cases "get (rel_store l) i")
  case None
  with inv show ?thesis by (simp add: resolve_conflict_def)
next
  case (Some e)
  show ?thesis
  proof (cases "ed_phase e = RemoteConflict")
    case False
    with inv Some show ?thesis by (simp add: resolve_conflict_def)
  next
    case True
    let ?l1 = "with_store l (fst (remove_session (rel_store l) i))"
    have "session_target e \<notin> session_target ` set (remove_first (\<lambda>e. ed_id e = i) (es_sessions (rel_store l)))"
    proof -
      have d: "distinct (map ed_id (es_sessions (rel_store l)))" "distinct (map session_target (es_sessions (rel_store l)))"
        using inv by (auto simp: edit_inv_def)
      have "remove_first (\<lambda>e. ed_id e = i) (es_sessions (rel_store l)) = filter (\<lambda>e. ed_id e \<noteq> i) (es_sessions (rel_store l))"
        using remove_first_key_filter[OF d(1)] .
      then show ?thesis using d(2) get_mem[OF Some] by (auto simp: distinct_map inj_on_def)
    qed
    then have "edit_inv (fst (start_download ?l1 (pending_of e)))"
      using ctr edit_inv_remove[OF inv, of i]
      by (intro start_download_inv)
         (simp_all add: find_active_None remove_session_eq pending_of_def session_target_def)
    with True Some inv show ?thesis
      by (auto simp: resolve_conflict_def set_phase_inv[OF inv Some] Let_def case_prod_beta split: ConflictChoice.split)
  qed
qed

lemma dispatch_failed_inv:
  assumes "edit_inv l"
  shows "edit_inv (fst (dispatch_failed l i rollback))"
proof -
  have "edit_inv (with_store l (modify (rel_store l) i
      (\<lambda>e. if ed_phase e = UploadingBack then set_phase RemoteConflict e else e)))"
    using assms by (intro edit_inv_modify)
      (auto simp: same_identity_def session_target_def set_phase_def phase_ok_def split: if_splits)
  with assms show ?thesis
    by (cases rollback) (simp_all add: dispatch_failed_def revert_check_inv abort_download_inv)
qed

lemma record_local_modified_inv: "edit_inv l \<Longrightarrow> edit_inv (fst (record_local_modified l i temp facts))"
proof -
  assume "edit_inv l"
  then have "edit_inv (with_store l (modify (rel_store l) i (\<lambda>e. e\<lparr>ed_local_modified := True\<rparr>)))"
    by (intro edit_inv_modify) (auto simp: same_identity_def session_target_def phase_ok_def)
  with \<open>edit_inv l\<close> show ?thesis by (simp add: record_local_modified_def split: option.split)
qed

lemma adopt_fold_inv:
  "edit_inv (with_store l s) \<Longrightarrow>
   edit_inv (with_store l (foldl (\<lambda>s (i, snapshot). modify s i (\<lambda>e. e\<lparr>ed_remote_snapshot := snapshot\<rparr>)) s as))"
proof (induction as arbitrary: s)
  case (Cons a as)
  obtain i snapshot where a: "a = (i, snapshot)" by fastforce
  have "edit_inv (with_store (with_store l s) (modify (rel_store (with_store l s)) i (\<lambda>e. e\<lparr>ed_remote_snapshot := snapshot\<rparr>)))"
    using Cons.prems by (intro edit_inv_modify) (auto simp: same_identity_def session_target_def phase_ok_def)
  then show ?case using Cons.IH by (simp add: a with_store_def)
qed simp

lemma adopt_listing_inv: "edit_inv l \<Longrightarrow> edit_inv (adopt_listing_baselines l tab listing)"
  using adopt_fold_inv[of l "rel_store l"] by (simp add: adopt_listing_baselines_def Let_def)

lemma update_epoch_inv:
  assumes "edit_inv l"
  shows "edit_inv (update_epoch_for_tab l tab epoch)"
proof -
  define f where "f e = (if ed_tab_id e = tab then refresh_epoch epoch e else e)" for e :: EditSession
  let ?l = "update_epoch_for_tab l tab epoch"
  have sessions: "es_sessions (rel_store ?l) = map f (es_sessions (rel_store l))"
    by (simp add: update_epoch_for_tab_def store_update_epoch_for_tab_def f_def)
  have keep: "ed_id \<circ> f = ed_id" "session_target \<circ> f = session_target"
    by (auto simp: f_def refresh_epoch_def session_target_def)
  have "session_ok ?l (f e)" if "session_ok l e" for e
    using that by (auto simp: f_def refresh_epoch_def session_ok_def phase_ok_def update_epoch_for_tab_def
        store_update_epoch_for_tab_def)
  with assms show ?thesis unfolding edit_inv_def sessions by (auto simp: keep)
qed

lemma remove_tab_inv: "edit_inv l \<Longrightarrow> edit_inv (fst (lifecycle_remove_for_tab l tab))"
  by (simp add: lifecycle_remove_for_tab_def remove_for_tab_eq edit_inv_filter)

interpretation edits: guarded_machine
  "\<lambda>l. \<exists>dir run. l = lifecycle_new dir run" edit_step edit_admissible edit_inv
proof
  fix l assume "\<exists>dir run. l = lifecycle_new dir run"
  then show "edit_inv l" by (auto simp: lifecycle_new_def edit_store_new_def edit_inv_def)
next
  fix l a assume "edit_inv l" "edit_admissible l a"
  then show "edit_inv (edit_step l a)"
    by (cases a) (simp_all add: begin_edit_inv start_download_inv abort_download_inv request_upload_inv
        revert_check_inv on_check_result_inv on_transfer_finished_inv resolve_conflict_inv dispatch_failed_inv
        record_local_modified_inv adopt_listing_inv update_epoch_inv remove_tab_inv)
qed

end
