(* ===== verification/Remote_Edit_Properties.thy ===== *)
theory Remote_Edit_Properties
  imports Remote_Edit_Laws
begin

text \<open>
  The properties of the remote-edit lifecycle: what a check result may start, which requests open a new
  session, that stale answers and double clicks are without effect, and the run in which two large-file
  confirmations open two sessions on one file.
\<close>

section \<open>Temp paths\<close>

lemma distinct_temp_paths:
  assumes "edit_inv l"
  shows "distinct (map ed_local_temp_path (es_sessions (rel_store l)))"
proof -
  have "inj_on ed_local_temp_path (set (es_sessions (rel_store l)))"
  proof (rule inj_onI)
    fix e e' assume e: "e \<in> set (es_sessions (rel_store l))" "e' \<in> set (es_sessions (rel_store l))"
      "ed_local_temp_path e = ed_local_temp_path e'"
    then obtain n n' where "ed_local_temp_path e = edit_temp_path (rel_edits_dir l) (rel_run_id l) (ed_id e) n"
      "ed_local_temp_path e' = edit_temp_path (rel_edits_dir l) (rel_run_id l) (ed_id e') n'"
      using assms unfolding edit_inv_def session_ok_def by meson
    with e(3) have "ed_id e = ed_id e'" using edit_temp_path_id by metis
    then show "e = e'" using assms e(1,2) by (metis get_unique option.inject)
  qed
  then show ?thesis using assms by (simp add: edit_inv_def distinct_map)
qed

section \<open>Beginning an edit\<close>

lemma begin_dedup_Start:
  assumes inv: "edit_inv l" and b: "begin_dedup l pending live reaped = (l', Start p effects)"
  shows "p = pending \<and> find_active (rel_store l') (pe_connection_key pending) (pe_io_path pending) = None \<and>
    (\<exists>gone. (\<forall>t \<in> gone. \<not> live t) \<and>
       es_sessions (rel_store l') = filter (\<lambda>e. ed_tab_id e \<notin> gone) (es_sessions (rel_store l)) \<and>
       set effects = set reaped \<union> (\<lambda>e. DeleteTempDir (ed_local_temp_path e)) `
         {e \<in> set (es_sessions (rel_store l)). ed_tab_id e \<in> gone})"
proof (cases "find_active (rel_store l) (pe_connection_key pending) (pe_io_path pending)")
  case None
  with b show ?thesis by (auto simp: begin_dedup_def intro!: exI[of _ "{}"])
next
  case (Some e)
  then have e: "e \<in> set (es_sessions (rel_store l))" "session_target e = (pe_connection_key pending, pe_io_path pending)"
    unfolding find_active_def session_target_def by (auto dest: find_Some_mem)
  have dead: "\<not> live (ed_tab_id e)" and l': "l' = fst (reap_tab l (ed_tab_id e))"
    and p: "p = pending" "effects = reaped @ snd (reap_tab l (ed_tab_id e))"
    using b Some by (auto simp: begin_dedup_def case_prod_beta split: if_splits)
  have "(pe_connection_key pending, pe_io_path pending) \<notin>
      session_target ` set (filter (\<lambda>x. ed_tab_id x \<noteq> ed_tab_id e) (es_sessions (rel_store l)))"
    using inv e unfolding edit_inv_def by (auto simp: distinct_map inj_on_def)
  then have "find_active (rel_store l') (pe_connection_key pending) (pe_io_path pending) = None"
    by (simp add: find_active_None l' reap_tab_eq)
  with dead p show ?thesis
    by (intro conjI exI[of _ "{ed_tab_id e}"]) (auto simp: l' reap_tab_eq)
qed

lemma begin_edit_Start:
  assumes inv: "edit_inv l" and b: "begin_edit l pending live = (l', Start p effects)"
  shows "p = pending \<and> find_active (rel_store l') (pe_connection_key pending) (pe_io_path pending) = None \<and>
    (\<exists>gone. (\<forall>t \<in> gone. \<not> live t) \<and>
       es_sessions (rel_store l') = filter (\<lambda>e. ed_tab_id e \<notin> gone) (es_sessions (rel_store l)) \<and>
       set effects = (\<lambda>e. DeleteTempDir (ed_local_temp_path e)) `
         {e \<in> set (es_sessions (rel_store l)). ed_tab_id e \<in> gone})"
proof (cases "begin_edit l pending live = begin_dedup l pending live []")
  case True
  with begin_dedup_Start[OF inv, of pending live "[]" l' p effects] b show ?thesis by simp
next
  case False
  then obtain e where e: "find_active_for_remote_path (rel_store l) (pe_connection_key pending) (pe_remote_path pending) = Some e"
    "ed_io_path e \<noteq> pe_io_path pending"
    by (auto simp: begin_edit_def split: option.splits if_splits)
  with b have dead: "\<not> live (ed_tab_id e)"
    and d: "begin_dedup (fst (reap_tab l (ed_tab_id e))) pending live (snd (reap_tab l (ed_tab_id e))) = (l', Start p effects)"
    by (auto simp: begin_edit_def case_prod_beta split: if_splits)
  have "edit_inv (fst (reap_tab l (ed_tab_id e)))" using edit_inv_filter[OF inv] by (simp add: reap_tab_eq)
  from begin_dedup_Start[OF this d] obtain gone where g: "p = pending"
    "find_active (rel_store l') (pe_connection_key pending) (pe_io_path pending) = None" "\<forall>t \<in> gone. \<not> live t"
    "es_sessions (rel_store l') = filter (\<lambda>x. ed_tab_id x \<notin> gone) (filter (\<lambda>x. ed_tab_id x \<noteq> ed_tab_id e) (es_sessions (rel_store l)))"
    "set effects = (\<lambda>e. DeleteTempDir (ed_local_temp_path e)) ` {x \<in> set (es_sessions (rel_store l)). ed_tab_id x = ed_tab_id e} \<union>
       (\<lambda>e. DeleteTempDir (ed_local_temp_path e)) ` {x \<in> set (es_sessions (rel_store l)). ed_tab_id x \<noteq> ed_tab_id e \<and> ed_tab_id x \<in> gone}"
    by (auto simp: reap_tab_eq)
  then show ?thesis
    using dead by (intro conjI exI[of _ "insert (ed_tab_id e) gone"]) (auto intro!: filter_cong)
qed

section \<open>Resolving a conflict\<close>

lemma get_removed:
  assumes "edit_inv l"
  shows "get (fst (remove_session (rel_store l) i)) i = None"
  using assms remove_first_key_filter[of ed_id "es_sessions (rel_store l)" i]
  by (auto simp: get_def remove_session_eq find_None_mem edit_inv_def)

lemma start_download_get:
  "i \<noteq> EditSessionId (es_next_id (rel_store l)) \<Longrightarrow>
   get (rel_store l) i = None \<Longrightarrow> get (rel_store (fst (start_download l pending))) i = None"
  by (auto simp: start_download_def next_id_def register_def Let_def get_def find_None_mem
      downloading_session_def split: option.split)

lemma resolve_twice:
  assumes inv: "edit_inv l"
  shows "resolve_conflict (fst (resolve_conflict l i choice)) i again = (fst (resolve_conflict l i choice), [])"
proof (cases "get (rel_store l) i")
  case None
  then show ?thesis by (simp add: resolve_conflict_def)
next
  case (Some e)
  show ?thesis
  proof (cases "ed_phase e = RemoteConflict")
    case False
    with Some show ?thesis by (simp add: resolve_conflict_def)
  next
    case True
    let ?l1 = "with_store l (fst (remove_session (rel_store l) i))"
    have "i \<noteq> EditSessionId (es_next_id (rel_store l))"
      using edit_inv_get[OF inv Some] get_mem[OF Some] by (auto simp: session_ok_def)
    then have gone: "get (rel_store (fst (start_download ?l1 (pending_of e)))) i = None"
      using start_download_get[of i ?l1] get_removed[OF inv] by simp
    have set: "get (modify (rel_store l) i (set_phase phase)) i = Some (set_phase phase e)" for phase
      using get_modify[of "set_phase phase" "rel_store l" i i] Some by (simp add: set_phase_def)
    show ?thesis
      using Some True gone set
      by (cases choice) (simp_all add: resolve_conflict_def Let_def case_prod_beta set_phase_def)
  qed
qed

section \<open>A concrete lifecycle\<close>

definition demo_key :: ConnectionKey where
  "demo_key = \<lparr>ck_host = lit ''host'', ck_port = 22, ck_username = lit ''u'', ck_identity = Ephemeral (SessionId 1)\<rparr>"

definition demo_pending :: "TabId \<Rightarrow> PendingEdit" where
  "demo_pending tab = \<lparr>pe_remote_path = RemotePath (lit ''/big''), pe_io_path = RemotePath (lit ''/big''),
     pe_size = Some 5, pe_modified_at = Some 0, pe_session_epoch = 1, pe_connection_key = demo_key,
     pe_tab_id = tab, pe_profile_id = ProfileId 1\<rparr>"

definition demo_lifecycle :: RemoteEditLifecycle where
  "demo_lifecycle = lifecycle_new (LocalPath (lit ''/tmp'')) (lit ''run'')"

definition demo_facts :: LocalFileFacts where
  "demo_facts = \<lparr>lff_size = 5, lff_mtime = 1500000000\<rparr>"

definition demo_temp :: LocalPath where
  "demo_temp = LocalPath (lit ''/tmp/run/1/big'')"

text \<open>One file opened and downloaded, and its upload check requested.\<close>

definition demo_checking_ops :: "EditOp list" where
  "demo_checking_ops = [StartDownload (demo_pending (TabId 1)),
     TransferFinished \<lparr>etf_direction = Download, etf_source = TransferEndpoint.Remote (RemotePath (lit ''/big'')),
       etf_destination = TransferEndpoint.Local demo_temp, etf_succeeded = True\<rparr> (Some demo_facts),
     RequestUpload (EditSessionId 1) 1 demo_key 7]"

definition demo_checking :: RemoteEditLifecycle where
  "demo_checking = foldl edit_step demo_lifecycle demo_checking_ops"

lemma demo_checking_admissible: "edits.admissible_run demo_lifecycle demo_checking_ops"
  unfolding edits.admissible_run_eq by code_simp

lemma demo_checking_inv: "edit_inv demo_checking"
  unfolding demo_checking_def
  by (rule edits.reachable_inv[OF _ demo_checking_admissible]) (auto simp: demo_lifecycle_def)

text \<open>The answer to that check, and what the concrete instances read off the state, evaluated together.\<close>

definition demo_answer :: EditOp where
  "demo_answer = CheckResult
     \<lparr>ecr_tab_id = TabId 1, ecr_session_epoch = 1, ecr_session_id = EditSessionId 1, ecr_check_id = EditCheckId 1,
      ecr_path = RemotePath (lit ''/big''), ecr_outcome = Matched \<lparr>snap_size = Some 5, snap_modified_at = Some 0\<rparr>\<rparr> (Some 7)"

definition observe_edit ::
  "RemoteEditLifecycle \<Rightarrow> TabId option \<times> BeginEdit \<times> EditPhase option" where
  "observe_edit l =
     (map_option ed_tab_id (get (rel_store l) (EditSessionId 1)),
      snd (begin_edit l (demo_pending (TabId 2)) (\<lambda>t. t = TabId 2)),
      map_option ed_phase (get (rel_store (edit_step l demo_answer)) (EditSessionId 1)))"

lemma demo_checking_observed:
  "observe_edit demo_checking =
     (Some (TabId 1), Start (demo_pending (TabId 2)) [DeleteTempDir demo_temp], Some UploadingBack)"
  by code_simp

section \<open>Properties\<close>



text \<open>
  C3 (upload_needs_exact_check): a check result starts an upload if and only if the session is still
  waiting for exactly this check (same session, tab, connection epoch, check id and write-through path),
  the temp file still has the time captured when the check was sent, and the server's metadata equals
  the baseline. The upload is then the only effect, it sends the session's own temp file to its
  write-through path, and the session leaves the checking phase.
\<close>

theorem upload_needs_exact_check:
  "(\<exists>tab i command rollback. Dispatch tab i command rollback \<in> set (snd (on_check_result l result mtime))) \<longleftrightarrow>
   (\<exists>e captured. get (rel_store l) (ecr_session_id result) = Some e \<and>
        ed_phase e = CheckingRemote \<and> ed_pending_check_id e = Some (ecr_check_id result) \<and>
        ed_io_path e = ecr_path result \<and> ed_tab_id e = ecr_tab_id result \<and>
        ed_session_epoch e = ecr_session_epoch result \<and>
        ed_checking_local_mtime e = Some captured \<and> mtime = Some captured \<and>
        ecr_outcome result = Matched (ed_remote_snapshot e) \<and>
        on_check_result l result mtime =
          (with_store l (modify (rel_store l) (ecr_session_id result)
             (\<lambda>e. e\<lparr>ed_phase := UploadingBack, ed_pending_check_id := None, ed_checking_local_mtime := None\<rparr>)),
           [Dispatch (ed_tab_id e) (ecr_session_id result)
              (build_edit_upload_command (ed_local_temp_path e) (ed_io_path e) (ed_session_epoch e)
                 (ed_profile_id e) (ed_tab_id e)) RevertCheck]))"
  by (auto simp: on_check_result_def check_applicable_def leave_check_def[abs_def] upload_of_def
      split: option.splits if_splits EditCheckOutcome.splits)

text \<open>
  C9 (late_check_ignored): once a new check is requested for a session, no answer to any other check can
  touch the session, and after a reconnect of its tab no answer at all can: the state stays the same and
  nothing is dispatched.
\<close>

theorem late_check_ignored:
  assumes "get (rel_store l) i = Some e" and "ecr_session_id result = i"
  shows "(case snd (request_upload l i epoch key now) of
            Rejected _ \<Rightarrow> True
          | Check command \<Rightarrow> ecr_check_id result = cre_check_id command \<or>
              on_check_result (fst (request_upload l i epoch key now)) result mtime =
                (fst (request_upload l i epoch key now), [])) \<and>
         on_check_result (update_epoch_for_tab l (ed_tab_id e) epoch) result mtime =
           (update_epoch_for_tab l (ed_tab_id e) epoch, [])"
proof
  let ?c = "EditCheckId (es_next_check_id (rel_store l))"
  let ?f = "\<lambda>e. e\<lparr>ed_phase := CheckingRemote, ed_session_epoch := epoch, ed_pending_check_id := Some ?c,
    ed_checking_local_mtime := Some now\<rparr>"
  have g: "get (modify ((rel_store l)\<lparr>es_next_check_id := n\<rparr>) i ?f) i = Some (?f e)" for n
    using assms(1) get_modify[of ?f "(rel_store l)\<lparr>es_next_check_id := n\<rparr>" i i] by (simp add: get_def)
  show "case snd (request_upload l i epoch key now) of
            Rejected _ \<Rightarrow> True
          | Check command \<Rightarrow> ecr_check_id result = cre_check_id command \<or>
              on_check_result (fst (request_upload l i epoch key now)) result mtime =
                (fst (request_upload l i epoch key now), [])"
    using assms by (auto simp: request_upload_def next_check_id_def on_check_result_def g check_applicable_def
        get_def[of "(rel_store l)\<lparr>es_next_check_id := n\<rparr>" for n] split: option.splits)
  have "find (\<lambda>e. ed_id e = i) (map (\<lambda>e. if ed_tab_id e = t then refresh_epoch epoch e else e) es) =
      map_option (\<lambda>e. if ed_tab_id e = t then refresh_epoch epoch e else e) (find (\<lambda>e. ed_id e = i) es)" for t es
    by (induction es) (auto simp: refresh_epoch_def)
  then have "get (rel_store (update_epoch_for_tab l (ed_tab_id e) epoch)) i = Some (refresh_epoch epoch e)"
    using assms(1) by (simp add: update_epoch_for_tab_def store_update_epoch_for_tab_def get_def)
  then show "on_check_result (update_epoch_for_tab l (ed_tab_id e) epoch) result mtime =
           (update_epoch_for_tab l (ed_tab_id e) epoch, [])"
    using assms(2) by (simp add: on_check_result_def check_applicable_def refresh_epoch_def)
qed

theorem late_check_ignored_witness:
  "on_check_result (update_epoch_for_tab demo_checking (TabId 1) 2)
     \<lparr>ecr_tab_id = TabId 1, ecr_session_epoch = 1, ecr_session_id = EditSessionId 1, ecr_check_id = EditCheckId 1,
      ecr_path = RemotePath (lit ''/big''), ecr_outcome = Matched \<lparr>snap_size = Some 5, snap_modified_at = Some 0\<rparr>\<rparr> (Some 7) =
     (update_epoch_for_tab demo_checking (TabId 1) 2, [])"
proof -
  obtain e where e: "get (rel_store demo_checking) (EditSessionId 1) = Some e" "ed_tab_id e = TabId 1"
  proof -
    have "map_option ed_tab_id (get (rel_store demo_checking) (EditSessionId 1)) = Some (TabId 1)"
      using demo_checking_observed by (simp add: observe_edit_def)
    then show ?thesis using that by auto
  qed
  show ?thesis using late_check_ignored[OF e(1), of _ 2 demo_key 0] e(2) by simp
qed

text \<open>
  new_edit_is_exclusive: when \<open>begin\<close> lets an edit start, no live session for the same file of the
  same connection is left, every session it dropped belonged to a tab that is gone, every dropped session's
  temp directory and nothing else is deleted, and all other sessions are untouched.
\<close>

theorem new_edit_is_exclusive:
  assumes "edit_inv l" and "begin_edit l pending live = (l', Start p effects)"
  shows "p = pending \<and> find_active (rel_store l') (pe_connection_key pending) (pe_io_path pending) = None \<and>
    (\<exists>gone. (\<forall>t \<in> gone. \<not> live t) \<and>
       es_sessions (rel_store l') = filter (\<lambda>e. ed_tab_id e \<notin> gone) (es_sessions (rel_store l)) \<and>
       set effects = (\<lambda>e. DeleteTempDir (ed_local_temp_path e)) `
         {e \<in> set (es_sessions (rel_store l)). ed_tab_id e \<in> gone})"
  using assms by (rule begin_edit_Start)

theorem new_edit_is_exclusive_witness:
  "find_active (rel_store (fst (begin_edit demo_checking (demo_pending (TabId 2)) (\<lambda>t. t = TabId 2)))) demo_key
     (RemotePath (lit ''/big'')) = None"
proof -
  have b: "begin_edit demo_checking (demo_pending (TabId 2)) (\<lambda>t. t = TabId 2) =
      (fst (begin_edit demo_checking (demo_pending (TabId 2)) (\<lambda>t. t = TabId 2)),
       Start (demo_pending (TabId 2)) [DeleteTempDir demo_temp])"
  proof (rule prod_eqI)
    show "snd (begin_edit demo_checking (demo_pending (TabId 2)) (\<lambda>t. t = TabId 2)) =
      snd (fst (begin_edit demo_checking (demo_pending (TabId 2)) (\<lambda>t. t = TabId 2)),
       Start (demo_pending (TabId 2)) [DeleteTempDir demo_temp])"
      using demo_checking_observed by (simp add: observe_edit_def)
  qed simp
  show ?thesis using new_edit_is_exclusive[OF demo_checking_inv b] by (simp add: demo_pending_def)
qed

text \<open>
  conflict_resolved_once: resolving a conflict is done once. Whatever the user chose, a second click,
  with the same or another choice, changes nothing and has no effects.
\<close>

theorem conflict_resolved_once:
  assumes "edit_inv l"
  shows "resolve_conflict (fst (resolve_conflict l i choice)) i again = (fst (resolve_conflict l i choice), [])"
  by (rule resolve_twice[OF assms])


theorem conflict_resolved_once_witness:
  "resolve_conflict (fst (resolve_conflict demo_checking (EditSessionId 1) Overwrite)) (EditSessionId 1) DiscardLocal =
     (fst (resolve_conflict demo_checking (EditSessionId 1) Overwrite), [])"
  by (rule conflict_resolved_once[OF demo_checking_inv])

text \<open>
  own_upload_is_clean: after a successful upload the session is editing again, not dirty, its baseline
  on the server is the uploaded file at whole seconds, and the watcher event that the upload's own write
  causes does not mark it dirty.
\<close>

theorem own_upload_is_clean:
  assumes "edit_inv l" and "get (rel_store l) i = Some e" and "ed_phase e = UploadingBack"
  shows "let l' = fst (on_transfer_finished l
              \<lparr>etf_direction = Upload, etf_source = TransferEndpoint.Local (ed_local_temp_path e),
               etf_destination = TransferEndpoint.Remote (ed_io_path e), etf_succeeded = True\<rparr> (Some facts))
         in (\<exists>e'. get (rel_store l') i = Some e' \<and> ed_phase e' = Editing \<and> \<not> ed_local_modified e' \<and>
                 ed_remote_snapshot e' = facts_snapshot facts) \<and>
            record_local_modified l' i (ed_local_temp_path e) (Some facts) = (l', False)"
proof -
  let ?fin = "\<lparr>etf_direction = Upload, etf_source = TransferEndpoint.Local (ed_local_temp_path e),
    etf_destination = TransferEndpoint.Remote (ed_io_path e), etf_succeeded = True\<rparr>"
  let ?f = "\<lambda>e. e\<lparr>ed_phase := Editing, ed_local_modified := False, ed_local_baseline := facts_baseline (Some facts),
    ed_remote_snapshot := facts_snapshot facts\<rparr>"
  have i: "ed_id e = i" "e \<in> set (es_sessions (rel_store l))" using get_mem[OF assms(2)] by auto
  have "find_by_temp_path (rel_store l) (ed_local_temp_path e) = Some e"
    using find_key_Some_iff[OF distinct_temp_paths[OF assms(1)]] i(2) by (simp add: find_by_temp_path_def)
  then have l': "fst (on_transfer_finished l ?fin (Some facts)) = with_store l (modify (rel_store l) i ?f)"
    using assms(3) i(1) by (simp add: on_transfer_finished_def finished_temp_path_def transfer_matches_phase_def
        upload_finished_def)
  have g: "get (modify (rel_store l) i ?f) i = Some (?f e)" using get_modify[of ?f "rel_store l" i i] assms(2) by simp
  show ?thesis
    unfolding Let_def l' using g
    by (simp add: record_local_modified_def unchanged_since_baseline_def facts_baseline_def)
qed

definition demo_uploading :: RemoteEditLifecycle where
  "demo_uploading = edit_step demo_checking demo_answer"

theorem own_upload_is_clean_witness:
  "\<exists>e. get (rel_store demo_uploading) (EditSessionId 1) = Some e \<and>
     (let l' = fst (on_transfer_finished demo_uploading
              \<lparr>etf_direction = Upload, etf_source = TransferEndpoint.Local (ed_local_temp_path e),
               etf_destination = TransferEndpoint.Remote (ed_io_path e), etf_succeeded = True\<rparr> (Some demo_facts))
      in record_local_modified l' (EditSessionId 1) (ed_local_temp_path e) (Some demo_facts) = (l', False))"
proof -
  have "map_option ed_phase (get (rel_store demo_uploading) (EditSessionId 1)) = Some UploadingBack"
    using demo_checking_observed by (simp add: observe_edit_def demo_uploading_def)
  then obtain e where e: "get (rel_store demo_uploading) (EditSessionId 1) = Some e" "ed_phase e = UploadingBack" by auto
  have "edit_inv demo_uploading" unfolding demo_uploading_def
    by (intro edits.inv_step demo_checking_inv) (simp add: demo_answer_def)
  from own_upload_is_clean[OF this e, of demo_facts] e(1) show ?thesis by (auto simp: Let_def)
qed

text \<open>
  confirm_skips_dedup: starting a download does not repeat the deduplication of \<open>begin\<close>. Two windows on
  one connection that both got past \<open>begin\<close> for the same large file before either confirmed the warning end
  up with two live sessions that write to the same remote file.
\<close>

theorem confirm_skips_dedup:
  "let p1 = demo_pending (TabId 1); p2 = demo_pending (TabId 2);
       (l1, r1) = begin_edit demo_lifecycle p1 (\<lambda>_. True);
       (l2, r2) = begin_edit l1 p2 (\<lambda>_. True);
       l3 = fst (start_download l2 p1);
       l4 = fst (start_download l3 p2)
   in r1 = Start p1 [] \<and> r2 = Start p2 [] \<and>
      map session_target (es_sessions (rel_store l4)) =
        [(demo_key, RemotePath (lit ''/big'')), (demo_key, RemotePath (lit ''/big''))]"
  by code_simp

end
