(* ===== verification/Prompt_Registry.thy ===== *)
theory Prompt_Registry
  imports Protocol
begin

text \<open>
  The registries of prompts a handshake is waiting on: \<open>TrustRegistry\<close> (\<open>crates/sftp/src/trust.rs\<close>) and
  \<open>KeyboardInteractiveRegistry\<close> (\<open>crates/sftp/src/keyboard_interactive.rs\<close>). A waiting handshake is
  known by its oneshot channel; an operation returns the registry and the messages it sent, in order.
  A hash map is an association list, whose order stands for the unspecified iteration order.

  What both promise is stated once, in the locale \<open>answering\<close>: no operation loses a channel, so each
  one is either still waiting or was answered exactly once.
\<close>

section \<open>The contract\<close>

locale answering =
  fixes init :: "'s \<Rightarrow> bool"
    and step :: "'s \<Rightarrow> 'op \<Rightarrow> 's \<times> ('chan \<times> 'm) list"
    and admissible :: "'s \<Rightarrow> 'op \<Rightarrow> bool"
    and inv :: "'s \<Rightarrow> bool"
    and waiting :: "'s \<Rightarrow> 'chan multiset"
    and opens :: "'op \<Rightarrow> 'chan list"
  assumes inv_start: "init s \<Longrightarrow> inv s"
    and nothing_waiting: "init s \<Longrightarrow> waiting s = {#}"
    and inv_kept: "inv s \<Longrightarrow> admissible s a \<Longrightarrow> inv (fst (step s a))"
    and conserves: "inv s \<Longrightarrow> admissible s a \<Longrightarrow>
      waiting (fst (step s a)) + mset (map fst (snd (step s a))) = waiting s + mset (opens a)"

sublocale answering \<subseteq> guarded_machine init "\<lambda>s a. fst (step s a)" admissible inv
  by unfold_locales (auto intro: inv_start inv_kept)

context answering
begin

primrec answers :: "'s \<Rightarrow> 'op list \<Rightarrow> ('chan \<times> 'm) list" where
  "answers s [] = []"
| "answers s (a # ops) = snd (step s a) @ answers (fst (step s a)) ops"

lemma run_conserves:
  assumes "inv s" and "admissible_run s ops"
  shows "waiting (foldl (\<lambda>s a. fst (step s a)) s ops) + mset (map fst (answers s ops)) =
    waiting s + mset (concat (map opens ops))"
  using assms
proof (induction ops arbitrary: s)
  case (Cons a ops)
  from Cons.prems have adm: "admissible s a" and rest: "admissible_run (fst (step s a)) ops" by auto
  from Cons.IH[OF inv_kept[OF Cons.prems(1) adm] rest] conserves[OF Cons.prems(1) adm]
  show ?case by (simp add: ac_simps)
qed simp

lemma answered_once:
  assumes "init s" and "admissible_run s ops" and "distinct (concat (map opens ops))"
    and "mset pending = waiting (foldl (\<lambda>s a. fst (step s a)) s ops)"
  shows "mset (map fst (answers s ops) @ pending) = mset (concat (map opens ops)) \<and>
    distinct (map fst (answers s ops) @ pending) \<and>
    set (map fst (answers s ops) @ pending) = set (concat (map opens ops))"
proof -
  have eq: "mset (map fst (answers s ops) @ pending) = mset (concat (map opens ops))"
    using run_conserves[OF inv_start[OF assms(1)] assms(2)] nothing_waiting[OF assms(1)] assms(4)
    by (simp add: ac_simps)
  from mset_eq_imp_distinct_iff[OF this] mset_eq_setD[OF this] assms(3) eq show ?thesis by blast
qed

end

section \<open>Answering several requests\<close>

text \<open>
  The loop shared by the rejecting operations: remove each of the collected ids and send the message to
  the channel of the entry that was removed.
\<close>

fun answer_ids ::
  "('e \<Rightarrow> 'chan) \<Rightarrow> 'm \<Rightarrow> 'i list \<Rightarrow> ('i \<times> 'e) list \<Rightarrow> ('i \<times> 'e) list \<times> ('chan \<times> 'm) list" where
  "answer_ids chan m [] requests = (requests, [])"
| "answer_ids chan m (i # ids) requests =
     (case map_of requests i of
        None \<Rightarrow> answer_ids chan m ids requests
      | Some e \<Rightarrow>
          let (rest, sent) = answer_ids chan m ids (AList.delete i requests)
          in (rest, (chan e, m) # sent))"

definition matching_ids :: "('e \<Rightarrow> bool) \<Rightarrow> ('i \<times> 'e) list \<Rightarrow> 'i list" where
  "matching_ids P requests = map fst (filter (\<lambda>(_, e). P e) requests)"

definition channels :: "('e \<Rightarrow> 'chan) \<Rightarrow> ('i \<times> 'e) list \<Rightarrow> 'chan multiset" where
  "channels chan requests = mset (map (\<lambda>(_, e). chan e) requests)"

lemma channels_Nil [simp]: "channels chan [] = {#}"
  by (simp add: channels_def)

lemma channels_answered [simp]:
  "mset (map fst (map (\<lambda>(_, e). (chan e, m)) requests)) = channels chan requests"
  by (induction requests) (auto simp: channels_def)

lemma channels_update_fresh:
  "i \<notin> fst ` set requests \<Longrightarrow> channels chan (AList.update i e requests) = add_mset (chan e) (channels chan requests)"
  by (induction requests) (auto simp: channels_def)

lemma channels_delete:
  "distinct (map fst requests) \<Longrightarrow> map_of requests i = Some e \<Longrightarrow>
   add_mset (chan e) (channels chan (AList.delete i requests)) = channels chan requests"
  by (induction requests) (auto simp: channels_def split: if_splits)

lemma answer_ids_conserves:
  "distinct (map fst requests) \<Longrightarrow>
   channels chan (fst (answer_ids chan m ids requests)) + mset (map fst (snd (answer_ids chan m ids requests))) =
   channels chan requests"
proof (induction ids arbitrary: requests)
  case (Cons i ids)
  show ?case
  proof (cases "map_of requests i")
    case (Some e)
    then show ?thesis
      using Cons.IH[of "AList.delete i requests"] Cons.prems channels_delete[OF Cons.prems Some, of chan]
      by (auto simp: distinct_delete split: prod.splits)
  qed (use Cons in auto)
qed simp

lemma answer_ids_rest: "fst (answer_ids chan m ids requests) = filter (\<lambda>(i, _). i \<notin> set ids) requests"
proof (induction ids arbitrary: requests)
  case (Cons i ids)
  have out: "filter (\<lambda>(j, _). j \<notin> set ids) requests = filter (\<lambda>(j, _). j \<notin> set (i # ids)) requests"
    if "map_of requests i = None"
    using that by (auto simp: map_of_eq_None_iff image_iff intro!: filter_cong)
  show ?case
    using Cons.IH out
    by (auto simp: AList.delete_eq split_def intro!: filter_cong split: option.splits)
qed simp

lemma answer_ids_keys: "distinct (map fst requests) \<Longrightarrow> distinct (map fst (fst (answer_ids chan m ids requests)))"
  by (simp add: answer_ids_rest distinct_map_filter)

lemma matching_rest:
  assumes "distinct (map fst requests)"
  shows "fst (answer_ids chan m (matching_ids P requests) requests) = filter (\<lambda>(_, e). \<not> P e) requests"
proof -
  have "i \<notin> set (matching_ids P requests) \<longleftrightarrow> \<not> P e" if "(i, e) \<in> set requests" for i e
    using that assms by (auto simp: matching_ids_def image_iff dest: eq_key_imp_eq_value)
  then show ?thesis by (auto simp: answer_ids_rest intro!: filter_cong)
qed

lemma answer_ids_message: "(c, x) \<in> set (snd (answer_ids chan m ids requests)) \<Longrightarrow> x = m"
  by (induction ids arbitrary: requests) (auto simp: split_def Let_def split: option.splits)

section \<open>Host-key trust requests\<close>

type_synonym responder = nat

record TrustRegistryEntry =
  tre_tab_id :: TabId
  tre_session_epoch :: u64
  tre_responder :: responder

record TrustRegistry =
  trg_requests :: "(TrustRequestId \<times> TrustRegistryEntry) list"

definition trust_registry_new :: TrustRegistry where
  "trust_registry_new = \<lparr>trg_requests = []\<rparr>"

definition trust_register :: "TrustRegistry \<Rightarrow> TrustRequestId \<Rightarrow> TrustRegistryEntry \<Rightarrow> TrustRegistry" where
  "trust_register r i e = r\<lparr>trg_requests := AList.update i e (trg_requests r)\<rparr>"

definition trust_resolve ::
  "TrustRegistry \<Rightarrow> TrustRequestId \<Rightarrow> TrustDecision \<Rightarrow> TrustRegistry \<times> (responder \<times> TrustDecision) list \<times> bool" where
  "trust_resolve r i decision =
     (case map_of (trg_requests r) i of
        Some e \<Rightarrow> (r\<lparr>trg_requests := AList.delete i (trg_requests r)\<rparr>, [(tre_responder e, decision)], True)
      | None \<Rightarrow> (r, [], False))"

definition trust_reject_stale ::
  "TrustRegistry \<Rightarrow> TabId \<Rightarrow> u64 \<Rightarrow> TrustRegistry \<times> (responder \<times> TrustDecision) list \<times> nat" where
  "trust_reject_stale r tab epoch =
     (let stale_ids = matching_ids (\<lambda>e. tre_tab_id e = tab \<and> tre_session_epoch e \<noteq> epoch) (trg_requests r);
          (rest, sent) = answer_ids tre_responder RequestExpired stale_ids (trg_requests r)
      in (r\<lparr>trg_requests := rest\<rparr>, sent, length stale_ids))"

definition trust_reject_all_for_tab ::
  "TrustRegistry \<Rightarrow> TabId \<Rightarrow> TrustRegistry \<times> (responder \<times> TrustDecision) list \<times> nat" where
  "trust_reject_all_for_tab r tab =
     (let tab_ids = matching_ids (\<lambda>e. tre_tab_id e = tab) (trg_requests r);
          (rest, sent) = answer_ids tre_responder RequestExpired tab_ids (trg_requests r)
      in (r\<lparr>trg_requests := rest\<rparr>, sent, length tab_ids))"

definition trust_reject_all :: "TrustRegistry \<Rightarrow> TrustRegistry \<times> (responder \<times> TrustDecision) list" where
  "trust_reject_all r =
     (r\<lparr>trg_requests := []\<rparr>, map (\<lambda>(_, e). (tre_responder e, RequestExpired)) (trg_requests r))"

definition trust_pending_count :: "TrustRegistry \<Rightarrow> nat" where
  "trust_pending_count r = length (trg_requests r)"

section \<open>Keyboard-interactive requests\<close>

record KeyboardInteractiveRegistryEntry =
  kie_tab_id :: TabId
  kie_session_epoch :: u64
  kie_responder :: responder

record KeyboardInteractiveRegistry =
  kig_requests :: "(KeyboardInteractiveRequestId \<times> KeyboardInteractiveRegistryEntry) list"

definition ki_registry_new :: KeyboardInteractiveRegistry where
  "ki_registry_new = \<lparr>kig_requests = []\<rparr>"

definition ki_register ::
  "KeyboardInteractiveRegistry \<Rightarrow> KeyboardInteractiveRequestId \<Rightarrow> KeyboardInteractiveRegistryEntry \<Rightarrow>
   KeyboardInteractiveRegistry" where
  "ki_register r i e = r\<lparr>kig_requests := AList.update i e (kig_requests r)\<rparr>"

definition ki_resolve ::
  "KeyboardInteractiveRegistry \<Rightarrow> KeyboardInteractiveResponse \<Rightarrow>
   KeyboardInteractiveRegistry \<times> (responder \<times> KeyboardInteractiveResponse option) list \<times> bool" where
  "ki_resolve r response =
     (case map_of (kig_requests r) (kir_request_id response) of
        Some e \<Rightarrow> (r\<lparr>kig_requests := AList.delete (kir_request_id response) (kig_requests r)\<rparr>,
                   [(kie_responder e, Some response)], True)
      | None \<Rightarrow> (r, [], False))"

definition ki_cancel ::
  "KeyboardInteractiveRegistry \<Rightarrow> KeyboardInteractiveRequestId \<Rightarrow>
   KeyboardInteractiveRegistry \<times> (responder \<times> KeyboardInteractiveResponse option) list \<times> bool" where
  "ki_cancel r i =
     (case map_of (kig_requests r) i of
        Some e \<Rightarrow> (r\<lparr>kig_requests := AList.delete i (kig_requests r)\<rparr>, [(kie_responder e, None)], True)
      | None \<Rightarrow> (r, [], False))"

definition ki_reject_where ::
  "(KeyboardInteractiveRegistryEntry \<Rightarrow> bool) \<Rightarrow> KeyboardInteractiveRegistry \<Rightarrow>
   KeyboardInteractiveRegistry \<times> (responder \<times> KeyboardInteractiveResponse option) list \<times> nat" where
  "ki_reject_where P r =
     (let ids = matching_ids P (kig_requests r);
          (rest, sent) = answer_ids kie_responder None ids (kig_requests r)
      in (r\<lparr>kig_requests := rest\<rparr>, sent, length ids))"

definition ki_reject_stale ::
  "KeyboardInteractiveRegistry \<Rightarrow> TabId \<Rightarrow> u64 \<Rightarrow>
   KeyboardInteractiveRegistry \<times> (responder \<times> KeyboardInteractiveResponse option) list \<times> nat" where
  "ki_reject_stale r tab epoch = ki_reject_where (\<lambda>e. kie_tab_id e = tab \<and> kie_session_epoch e \<noteq> epoch) r"

definition ki_reject_all_for_tab ::
  "KeyboardInteractiveRegistry \<Rightarrow> TabId \<Rightarrow>
   KeyboardInteractiveRegistry \<times> (responder \<times> KeyboardInteractiveResponse option) list \<times> nat" where
  "ki_reject_all_for_tab r tab = ki_reject_where (\<lambda>e. kie_tab_id e = tab) r"

definition ki_reject_all ::
  "KeyboardInteractiveRegistry \<Rightarrow>
   KeyboardInteractiveRegistry \<times> (responder \<times> KeyboardInteractiveResponse option) list" where
  "ki_reject_all r = (let (r', sent, _) = ki_reject_where (\<lambda>_. True) r in (r', sent))"

definition ki_pending_count :: "KeyboardInteractiveRegistry \<Rightarrow> nat" where
  "ki_pending_count r = length (kig_requests r)"

section \<open>Both keep the contract\<close>

text \<open>
  The request ids come from process-wide counters, so a registration is never for an id that is
  already pending.
\<close>

datatype TrustOp =
    TrustRegister TrustRequestId TrustRegistryEntry
  | TrustResolve TrustRequestId TrustDecision
  | TrustRejectStale TabId u64
  | TrustRejectTab TabId
  | TrustRejectAll

fun trust_step :: "TrustRegistry \<Rightarrow> TrustOp \<Rightarrow> TrustRegistry \<times> (responder \<times> TrustDecision) list" where
  "trust_step r (TrustRegister i e) = (trust_register r i e, [])"
| "trust_step r (TrustResolve i d) = (let (r', sent, _) = trust_resolve r i d in (r', sent))"
| "trust_step r (TrustRejectStale t e) = (let (r', sent, _) = trust_reject_stale r t e in (r', sent))"
| "trust_step r (TrustRejectTab t) = (let (r', sent, _) = trust_reject_all_for_tab r t in (r', sent))"
| "trust_step r TrustRejectAll = trust_reject_all r"

fun trust_admissible :: "TrustRegistry \<Rightarrow> TrustOp \<Rightarrow> bool" where
  "trust_admissible r (TrustRegister i e) \<longleftrightarrow> i \<notin> fst ` set (trg_requests r)"
| "trust_admissible r _ \<longleftrightarrow> True"

fun trust_opens :: "TrustOp \<Rightarrow> responder list" where
  "trust_opens (TrustRegister i e) = [tre_responder e]"
| "trust_opens _ = []"

datatype KiOp =
    KiRegister KeyboardInteractiveRequestId KeyboardInteractiveRegistryEntry
  | KiResolve KeyboardInteractiveResponse
  | KiCancel KeyboardInteractiveRequestId
  | KiRejectStale TabId u64
  | KiRejectTab TabId
  | KiRejectAll

fun ki_step ::
  "KeyboardInteractiveRegistry \<Rightarrow> KiOp \<Rightarrow>
   KeyboardInteractiveRegistry \<times> (responder \<times> KeyboardInteractiveResponse option) list" where
  "ki_step r (KiRegister i e) = (ki_register r i e, [])"
| "ki_step r (KiResolve response) = (let (r', sent, _) = ki_resolve r response in (r', sent))"
| "ki_step r (KiCancel i) = (let (r', sent, _) = ki_cancel r i in (r', sent))"
| "ki_step r (KiRejectStale t e) = (let (r', sent, _) = ki_reject_stale r t e in (r', sent))"
| "ki_step r (KiRejectTab t) = (let (r', sent, _) = ki_reject_all_for_tab r t in (r', sent))"
| "ki_step r KiRejectAll = ki_reject_all r"

fun ki_admissible :: "KeyboardInteractiveRegistry \<Rightarrow> KiOp \<Rightarrow> bool" where
  "ki_admissible r (KiRegister i e) \<longleftrightarrow> i \<notin> fst ` set (kig_requests r)"
| "ki_admissible r _ \<longleftrightarrow> True"

fun ki_opens :: "KiOp \<Rightarrow> responder list" where
  "ki_opens (KiRegister i e) = [kie_responder e]"
| "ki_opens _ = []"

lemmas trust_defs = trust_register_def trust_resolve_def trust_reject_stale_def trust_reject_all_for_tab_def
  trust_reject_all_def
lemmas ki_defs = ki_register_def ki_resolve_def ki_cancel_def ki_reject_stale_def ki_reject_all_for_tab_def
  ki_reject_all_def ki_reject_where_def

interpretation trust: answering "\<lambda>r. r = trust_registry_new" trust_step trust_admissible
  "\<lambda>r. distinct (map fst (trg_requests r))" "\<lambda>r. channels tre_responder (trg_requests r)" trust_opens
proof
  fix r a assume inv: "distinct (map fst (trg_requests r))" and adm: "trust_admissible r a"
  show "distinct (map fst (trg_requests (fst (trust_step r a))))"
    using inv answer_ids_keys[OF inv]
    by (cases a) (auto simp: trust_defs distinct_update distinct_delete split_def Let_def split: option.splits)
  show "channels tre_responder (trg_requests (fst (trust_step r a))) + mset (map fst (snd (trust_step r a))) =
      channels tre_responder (trg_requests r) + mset (trust_opens a)"
    using inv adm answer_ids_conserves[OF inv] channels_delete[OF inv] channels_answered
    by (cases a) (auto simp: trust_defs channels_update_fresh split_def Let_def simp del: mset_map
        split: option.splits)
qed (auto simp: trust_registry_new_def channels_def)

interpretation ki: answering "\<lambda>r. r = ki_registry_new" ki_step ki_admissible
  "\<lambda>r. distinct (map fst (kig_requests r))" "\<lambda>r. channels kie_responder (kig_requests r)" ki_opens
proof
  fix r a assume inv: "distinct (map fst (kig_requests r))" and adm: "ki_admissible r a"
  show "distinct (map fst (kig_requests (fst (ki_step r a))))"
    using inv answer_ids_keys[OF inv]
    by (cases a) (auto simp: ki_defs distinct_update distinct_delete split_def Let_def split: option.splits)
  show "channels kie_responder (kig_requests (fst (ki_step r a))) + mset (map fst (snd (ki_step r a))) =
      channels kie_responder (kig_requests r) + mset (ki_opens a)"
    using inv adm answer_ids_conserves[OF inv] channels_delete[OF inv]
    by (cases a) (auto simp: ki_defs channels_update_fresh split_def Let_def split: option.splits)
qed (auto simp: ki_registry_new_def channels_def)

definition trust_pending :: "TrustRegistry \<Rightarrow> responder list" where
  "trust_pending r = map (\<lambda>(_, e). tre_responder e) (trg_requests r)"

definition ki_pending :: "KeyboardInteractiveRegistry \<Rightarrow> responder list" where
  "ki_pending r = map (\<lambda>(_, e). kie_responder e) (kig_requests r)"

lemma trust_pending_channels: "mset (trust_pending r) = channels tre_responder (trg_requests r)"
  by (simp add: trust_pending_def channels_def)

lemma ki_pending_channels: "mset (ki_pending r) = channels kie_responder (kig_requests r)"
  by (simp add: ki_pending_def channels_def)

lemma trust_reject_all_answers: "mset (map fst (snd (trust_reject_all r))) = mset (trust_pending r)"
  by (simp only: trust_reject_all_def snd_conv channels_answered trust_pending_channels)

lemma ki_reject_all_answers:
  assumes "distinct (map fst (kig_requests r))"
  shows "mset (map fst (snd (ki_reject_all r))) = mset (ki_pending r)"
  using matching_rest[OF assms, of kie_responder "None :: KeyboardInteractiveResponse option" "\<lambda>_. True"]
    answer_ids_conserves[OF assms, of kie_responder "None :: KeyboardInteractiveResponse option" "matching_ids (\<lambda>_. True) (kig_requests r)"]
  by (simp add: ki_defs split_def Let_def ki_pending_channels)

section \<open>Properties\<close>

definition demo_trust_ops :: "TrustOp list" where
  "demo_trust_ops =
     [TrustRegister (TrustRequestId 1) \<lparr>tre_tab_id = TabId 1, tre_session_epoch = 1, tre_responder = 10\<rparr>,
      TrustRegister (TrustRequestId 2) \<lparr>tre_tab_id = TabId 1, tre_session_epoch = 2, tre_responder = 11\<rparr>,
      TrustRejectStale (TabId 1) 2, TrustResolve (TrustRequestId 1) TrustAndSave,
      TrustResolve (TrustRequestId 2) TrustAndSave]"

definition demo_ki_ops :: "KiOp list" where
  "demo_ki_ops =
     [KiRegister (KeyboardInteractiveRequestId 1) \<lparr>kie_tab_id = TabId 1, kie_session_epoch = 1, kie_responder = 20\<rparr>,
      KiCancel (KeyboardInteractiveRequestId 1), KiCancel (KeyboardInteractiveRequestId 1)]"

text \<open>
  C16 (prompts_answered_once): whatever order prompts are registered, answered, cancelled, expired by a
  reconnect or dropped with their tab, no waiting handshake is answered twice or lost: it is either still
  pending or was sent exactly one answer, and after the rejection of everything at shutdown each one has
  its answer. Both registries, from empty, for fresh request ids and one channel per registration.
\<close>

theorem prompts_answered_once:
  assumes "trust.admissible_run trust_registry_new trust_ops"
    and "distinct (concat (map trust_opens trust_ops))"
    and "ki.admissible_run ki_registry_new ki_ops"
    and "distinct (concat (map ki_opens ki_ops))"
  shows "(let r = foldl (\<lambda>r a. fst (trust_step r a)) trust_registry_new trust_ops;
              answered = map fst (trust.answers trust_registry_new trust_ops);
              pending = trust_pending r
          in distinct (answered @ pending) \<and>
             set (answered @ pending) = set (concat (map trust_opens trust_ops)) \<and>
             mset (answered @ map fst (snd (trust_reject_all r))) = mset (concat (map trust_opens trust_ops))) \<and>
         (let r = foldl (\<lambda>r a. fst (ki_step r a)) ki_registry_new ki_ops;
              answered = map fst (ki.answers ki_registry_new ki_ops);
              pending = ki_pending r
          in distinct (answered @ pending) \<and>
             set (answered @ pending) = set (concat (map ki_opens ki_ops)) \<and>
             mset (answered @ map fst (snd (ki_reject_all r))) = mset (concat (map ki_opens ki_ops)))"
proof -
  note t = trust.answered_once[OF refl assms(1,2) trust_pending_channels]
  note k = ki.answered_once[OF refl assms(3,4) ki_pending_channels]
  note kinv = ki.reachable_inv[OF refl assms(3)]
  show ?thesis
    using t k ki_reject_all_answers[OF kinv]
    by (simp only: Let_def trust_reject_all_answers mset_append)
qed

theorem prompts_answered_once_witness:
  "map fst (trust.answers trust_registry_new demo_trust_ops) = [10, 11] \<and>
   trust_pending (foldl (\<lambda>r a. fst (trust_step r a)) trust_registry_new demo_trust_ops) = [] \<and>
   distinct (map fst (ki.answers ki_registry_new demo_ki_ops))"
proof -
  have t: "trust.admissible_run trust_registry_new demo_trust_ops"
    unfolding trust.admissible_run_eq by code_simp
  have k: "ki.admissible_run ki_registry_new demo_ki_ops"
    unfolding ki.admissible_run_eq by code_simp
  have o: "distinct (concat (map trust_opens demo_trust_ops))" "distinct (concat (map ki_opens demo_ki_ops))"
    by code_simp+
  have "map fst (trust.answers trust_registry_new demo_trust_ops) = [10, 11]"
    unfolding demo_trust_ops_def trust.answers.simps by code_simp
  moreover have "distinct (map fst (ki.answers ki_registry_new demo_ki_ops))"
    using prompts_answered_once[OF t o(1) k o(2)] by (simp add: Let_def)
  moreover have "trust_pending (foldl (\<lambda>r a. fst (trust_step r a)) trust_registry_new demo_trust_ops) = []"
    by code_simp
  ultimately show ?thesis by blast
qed

end
