(* ===== verification/Pool.thy ===== *)
theory Pool
  imports Protocol
begin

text \<open>
  The connection pool of \<open>crates/sftp/src/pool.rs\<close>: \<open>ConnectionManager\<close> with its entries, the start and
  the end of a connection attempt, the reapers, and \<open>AttemptDeadline\<close> of \<open>physical_connection.rs\<close>.

  An \<open>Arc<SharedConnection>\<close> is a name of type \<open>ConnId\<close>, so that \<open>Arc::ptr_eq\<close> is equality of names; the
  shared objects are a function from names to records, passed to the operations that read them. Every
  operation holds the pool's lock from start to end and is one step here; the tasks it spawns are the
  later steps \<open>finish_attempt\<close>, \<open>reap_stale_attempt\<close> and \<open>watch_connection\<close>. Times are counted in
  nanoseconds and an operation reads the clock once, as its argument \<open>now\<close>.
\<close>

section \<open>State\<close>

datatype ConnId = ConnId nat

type_synonym Instant = int
type_synonym Duration = int

record SharedConnection =
  sc_connection_key :: ConnectionKey
  sc_remote_root :: rstr
  sc_host_port_string :: rstr
  sc_active_channels :: usize
  sc_last_used :: Instant
  sc_connection_lost :: bool

datatype PoolEntry =
    Connecting (pe_started_at: Instant) (pe_deadline: Instant) (pe_attempt: u64)
  | Connected ConnId

record ConnectionManager =
  cm_pool :: "(ConnectionKey \<times> PoolEntry) list"
  cm_idle_timeout :: Duration
  cm_next_trust_id :: u64
  cm_next_attempt :: u64

definition one_second :: Duration where
  "one_second = 1000000000"

definition connection_manager_new :: ConnectionManager where
  "connection_manager_new = \<lparr>cm_pool = [], cm_idle_timeout = 30 * one_second, cm_next_trust_id = 1, cm_next_attempt = 1\<rparr>"

section \<open>Deadlines\<close>

fun auth_peer_phases :: "AuthCredential \<Rightarrow> int" where
  "auth_peer_phases (AuthCredential.Password _) = 3"
| "auth_peer_phases (AuthCredential.PrivateKey _ _) = 4"
| "auth_peer_phases AuthCredential.KeyboardInteractive = 4"
| "auth_peer_phases (AuthCredential.SshAgent _) = 11"

definition compute_attempt_peer_budget :: "ConnectionSettings \<Rightarrow> Duration \<Rightarrow> Duration" where
  "compute_attempt_peer_budget settings handshake_timeout =
     (let route_phases =
            (case cs_route settings of
               ResolvedConnectionRoute.Direct \<Rightarrow> 1 + 1 + auth_peer_phases (cs_auth settings)
             | ResolvedConnectionRoute.ProxyCommand _ \<Rightarrow> 1 + auth_peer_phases (cs_auth settings)
             | ResolvedConnectionRoute.JumpHost jump \<Rightarrow>
                 1 + 1 + auth_peer_phases (cs_auth jump) + 1 + 1 + auth_peer_phases (cs_auth settings))
      in handshake_timeout * (route_phases + 4))"

fun extend_entry :: "u64 \<Rightarrow> Duration \<Rightarrow> PoolEntry \<Rightarrow> PoolEntry" where
  "extend_entry attempt d (Connecting started deadline a) =
     Connecting started (if a = attempt then deadline + d else deadline) a"
| "extend_entry attempt d (Connected c) = Connected c"

definition extend_deadline :: "ConnectionManager \<Rightarrow> u64 \<Rightarrow> Duration \<Rightarrow> ConnectionManager" where
  "extend_deadline m attempt d =
     m\<lparr>cm_pool := map (\<lambda>(k, entry). (k, extend_entry attempt d entry)) (cm_pool m)\<rparr>"

section \<open>Operations\<close>

definition is_current_attempt :: "(ConnectionKey \<times> PoolEntry) list \<Rightarrow> ConnectionKey \<Rightarrow> u64 \<Rightarrow> bool" where
  "is_current_attempt pool key attempt =
     (case map_of pool key of Some (Connecting _ _ current) \<Rightarrow> current = attempt | _ \<Rightarrow> False)"

text \<open>
  What the caller of \<open>get_or_connect\<close> subscribes to: the attempt under way, the connection at hand, or a
  new attempt, with the ids of the trust prompts it may show for the host and the jump host.
\<close>

datatype Subscription =
    Waits u64
  | Ready ConnId
  | Started u64 TrustRequestId TrustRequestId

definition start_attempt ::
  "ConnectionManager \<Rightarrow> (ConnectionKey \<times> PoolEntry) list \<Rightarrow> ConnectionKey \<Rightarrow> Instant \<Rightarrow> Duration \<Rightarrow>
   ConnectionManager \<times> Subscription" where
  "start_attempt m pool key now budget =
     (let attempt = cm_next_attempt m; trust = cm_next_trust_id m
      in (m\<lparr>cm_pool := AList.update key (Connecting now (now + budget) attempt) (AList.delete key pool),
            cm_next_attempt := attempt + 1, cm_next_trust_id := trust + 2\<rparr>,
          Started attempt (TrustRequestId trust) (TrustRequestId (trust + 1))))"

definition get_or_connect ::
  "(ConnId \<Rightarrow> SharedConnection) \<Rightarrow> ConnectionManager \<Rightarrow> ConnectionSettings \<Rightarrow> ConnectionPoolIdentity \<Rightarrow>
   Duration \<Rightarrow> Instant \<Rightarrow> ConnectionManager \<times> Subscription" where
  "get_or_connect conns m settings identity handshake_timeout now =
     (let key = connection_key_new settings identity;
          budget = compute_attempt_peer_budget settings handshake_timeout;
          pool = (case map_of (cm_pool m) key of
                    Some (Connected c) \<Rightarrow>
                      if sc_connection_lost (conns c) then AList.delete key (cm_pool m) else cm_pool m
                  | _ \<Rightarrow> cm_pool m)
      in case map_of pool key of
           Some (Connecting _ deadline attempt) \<Rightarrow>
             if deadline \<le> now then start_attempt m (AList.delete key pool) key now budget
             else (m\<lparr>cm_pool := pool\<rparr>, Waits attempt)
         | Some (Connected c) \<Rightarrow> (m\<lparr>cm_pool := pool\<rparr>, Ready c)
         | None \<Rightarrow> start_attempt m pool key now budget)"

definition mark_connected :: "ConnectionManager \<Rightarrow> ConnectionKey \<Rightarrow> u64 \<Rightarrow> ConnId \<Rightarrow> ConnectionManager \<times> bool" where
  "mark_connected m key attempt shared =
     (if \<not> is_current_attempt (cm_pool m) key attempt then (m, False)
      else (m\<lparr>cm_pool := AList.update key (Connected shared) (cm_pool m)\<rparr>, True))"

definition abandon_attempt :: "ConnectionManager \<Rightarrow> ConnectionKey \<Rightarrow> u64 \<Rightarrow> ConnectionManager" where
  "abandon_attempt m key attempt =
     (if is_current_attempt (cm_pool m) key attempt then m\<lparr>cm_pool := AList.delete key (cm_pool m)\<rparr> else m)"

text \<open>
  The end of the attempt's task, with the connection it made or \<open>None\<close> when it failed, was aborted or
  panicked: the guard abandons the attempt unless its connection was installed.
\<close>

definition finish_attempt :: "ConnectionManager \<Rightarrow> ConnectionKey \<Rightarrow> u64 \<Rightarrow> ConnId option \<Rightarrow> ConnectionManager" where
  "finish_attempt m key attempt result =
     (case result of
        Some shared \<Rightarrow>
          let (m', completed) = mark_connected m key attempt shared
          in if completed then m' else abandon_attempt m' key attempt
      | None \<Rightarrow> abandon_attempt m key attempt)"

definition reap_stale_attempt :: "ConnectionManager \<Rightarrow> ConnectionKey \<Rightarrow> u64 \<Rightarrow> ConnectionManager" where
  "reap_stale_attempt m key attempt =
     (if is_current_attempt (cm_pool m) key attempt then m\<lparr>cm_pool := AList.delete key (cm_pool m)\<rparr> else m)"

fun entry_kept :: "(ConnId \<Rightarrow> SharedConnection) \<Rightarrow> Instant \<Rightarrow> PoolEntry \<Rightarrow> bool" where
  "entry_kept conns now (Connecting _ deadline _) = (\<not> deadline \<le> now)"
| "entry_kept conns now (Connected c) = (\<not> sc_connection_lost (conns c))"

definition reap_stale :: "(ConnId \<Rightarrow> SharedConnection) \<Rightarrow> ConnectionManager \<Rightarrow> Instant \<Rightarrow> ConnectionManager" where
  "reap_stale conns m now = m\<lparr>cm_pool := filter (\<lambda>(_, entry). entry_kept conns now entry) (cm_pool m)\<rparr>"

definition pool_remove :: "ConnectionManager \<Rightarrow> ConnectionKey \<Rightarrow> ConnectionManager" where
  "pool_remove m key = m\<lparr>cm_pool := AList.delete key (cm_pool m)\<rparr>"

definition connected :: "(ConnId \<Rightarrow> SharedConnection) \<Rightarrow> ConnectionManager \<Rightarrow> ConnectionKey \<Rightarrow> ConnId option" where
  "connected conns m key =
     (case map_of (cm_pool m) key of
        Some (Connected c) \<Rightarrow> if \<not> sc_connection_lost (conns c) then Some c else None
      | _ \<Rightarrow> None)"

definition remove_if_same :: "ConnectionManager \<Rightarrow> ConnectionKey \<Rightarrow> ConnId \<Rightarrow> ConnectionManager" where
  "remove_if_same m key shared =
     (if map_of (cm_pool m) key = Some (Connected shared)
      then m\<lparr>cm_pool := AList.delete key (cm_pool m)\<rparr> else m)"

text \<open>
  One wake-up of the task that \<open>mark_connected\<close> leaves behind, with the number of strong references it
  sees. The task ends when it gives the connection up.
\<close>

definition watch_connection ::
  "(ConnId \<Rightarrow> SharedConnection) \<Rightarrow> ConnectionManager \<Rightarrow> ConnectionKey \<Rightarrow> ConnId \<Rightarrow> Instant \<Rightarrow> nat \<Rightarrow>
   ConnectionManager \<times> bool" where
  "watch_connection conns m key shared now strong_count =
     (let c = conns shared
      in if sc_connection_lost c then (remove_if_same m key shared, True)
         else if cm_idle_timeout m \<le> now - sc_last_used c \<and> sc_active_channels c = 0 \<and> strong_count = 2
         then (remove_if_same m key shared, True)
         else (m, False))"

section \<open>The pool as a state machine\<close>

datatype PoolOp =
    GetOrConnect ConnectionSettings ConnectionPoolIdentity Duration Instant
  | FinishAttempt ConnectionKey u64 "ConnId option"
  | ReapAttempt ConnectionKey u64
  | ReapStale Instant
  | PoolRemove ConnectionKey
  | Watch ConnectionKey ConnId Instant nat
  | ExtendDeadline u64 Duration

text \<open>A step sees the shared connections as they are at its time.\<close>

fun pool_step :: "ConnectionManager \<Rightarrow> (ConnId \<Rightarrow> SharedConnection) \<times> PoolOp \<Rightarrow> ConnectionManager" where
  "pool_step m (conns, GetOrConnect settings identity timeout now) =
     fst (get_or_connect conns m settings identity timeout now)"
| "pool_step m (conns, FinishAttempt key attempt result) = finish_attempt m key attempt result"
| "pool_step m (conns, ReapAttempt key attempt) = reap_stale_attempt m key attempt"
| "pool_step m (conns, ReapStale now) = reap_stale conns m now"
| "pool_step m (conns, PoolRemove key) = pool_remove m key"
| "pool_step m (conns, Watch key shared now strong) = fst (watch_connection conns m key shared now strong)"
| "pool_step m (conns, ExtendDeadline attempt d) = extend_deadline m attempt d"

text \<open>
  A task that finishes with a connection made it for its own key, which never changes afterwards, and
  fewer than \<open>2 ^ 64 - 1\<close> attempts are ever started.
\<close>

fun pool_admissible ::
  "(ConnId \<Rightarrow> ConnectionKey) \<Rightarrow> ConnectionManager \<Rightarrow> (ConnId \<Rightarrow> SharedConnection) \<times> PoolOp \<Rightarrow> bool" where
  "pool_admissible key_of m (conns, GetOrConnect settings identity timeout now) \<longleftrightarrow> cm_next_attempt m \<noteq> - 1"
| "pool_admissible key_of m (conns, FinishAttempt key attempt (Some shared)) \<longleftrightarrow> key_of shared = key"
| "pool_admissible key_of m _ \<longleftrightarrow> True"

section \<open>The invariant\<close>

fun entry_attempt :: "PoolEntry \<Rightarrow> u64 list" where
  "entry_attempt (Connecting _ _ a) = [a]"
| "entry_attempt (Connected _) = []"

definition attempts :: "(ConnectionKey \<times> PoolEntry) list \<Rightarrow> u64 list" where
  "attempts pool = concat (map (\<lambda>p. entry_attempt (snd p)) pool)"

definition pool_inv :: "(ConnId \<Rightarrow> ConnectionKey) \<Rightarrow> ConnectionManager \<Rightarrow> bool" where
  "pool_inv key_of m \<longleftrightarrow>
     distinct (map fst (cm_pool m)) \<and> distinct (attempts (cm_pool m)) \<and>
     (\<forall>a \<in> set (attempts (cm_pool m)). a < cm_next_attempt m) \<and>
     (\<forall>k c. (k, Connected c) \<in> set (cm_pool m) \<longrightarrow> key_of c = k)"

lemma attempts_simps [simp]:
  "attempts [] = []"
  "attempts (p # pool) = entry_attempt (snd p) @ attempts pool"
  "attempts (xs @ ys) = attempts xs @ attempts ys"
  by (simp_all add: attempts_def)

lemma entry_attempt_iff [simp]: "a \<in> set (entry_attempt e) \<longleftrightarrow> (\<exists>started deadline. e = Connecting started deadline a)"
  by (cases e) auto

lemma set_attempts: "set (attempts pool) = {a. \<exists>k started deadline. (k, Connecting started deadline a) \<in> set pool}"
  by (auto simp: attempts_def) force

lemma attempts_filter: "distinct (attempts pool) \<Longrightarrow> distinct (attempts (filter P pool))"
  by (induction pool) (auto simp: set_attempts)

lemma attempts_extend: "attempts (map (\<lambda>(k, entry). (k, extend_entry a d entry)) pool) = attempts pool"
proof -
  have "entry_attempt (extend_entry a d entry) = entry_attempt entry" for entry
    by (cases entry) auto
  then show ?thesis by (induction pool) auto
qed

lemma update_absent: "k \<notin> fst ` set al \<Longrightarrow> AList.update k v al = al @ [(k, v)]"
  by (induction al) auto

lemma delete_as_filter: "AList.delete k al = filter (\<lambda>p. fst p \<noteq> k) al"
  by (induction al) auto

lemma update_in_place:
  "distinct (map fst al) \<Longrightarrow> map_of al k = Some v0 \<Longrightarrow>
   AList.update k v al = map (\<lambda>p. if fst p = k then (k, v) else p) al"
proof (induction al)
  case (Cons p al)
  show ?case
  proof (cases "fst p = k")
    case True
    then have "\<forall>q \<in> set al. fst q \<noteq> k" using Cons.prems(1) by (auto simp: image_iff)
    then have "map (\<lambda>p. if fst p = k then (k, v) else p) al = al" by (intro map_idI) auto
    with True show ?thesis by simp
  qed (use Cons in \<open>auto split: if_splits\<close>)
qed simp

lemma attempts_install:
  "attempts (map (\<lambda>p. if fst p = k then (k, Connected c) else p) pool) = attempts (filter (\<lambda>p. fst p \<noteq> k) pool)"
  by (induction pool) auto

lemma pool_inv_filter: "pool_inv key_of m \<Longrightarrow> pool_inv key_of (m\<lparr>cm_pool := filter P (cm_pool m)\<rparr>)"
  by (auto simp: pool_inv_def distinct_map_filter attempts_filter set_attempts)

lemma pool_inv_delete: "pool_inv key_of m \<Longrightarrow> pool_inv key_of (m\<lparr>cm_pool := AList.delete k (cm_pool m)\<rparr>)"
  by (simp add: delete_as_filter pool_inv_filter)

lemma pool_inv_start:
  assumes "pool_inv key_of (m\<lparr>cm_pool := pool\<rparr>)" and "cm_next_attempt m \<noteq> - 1"
  shows "pool_inv key_of (fst (start_attempt m pool key now budget))"
proof -
  have lt: "cm_next_attempt m < cm_next_attempt m + 1"
    using assms(2) inc_less_eq_triv_imp[of "cm_next_attempt m"] by (meson not_less)
  have pool: "AList.update key e (AList.delete key pool) = filter (\<lambda>p. fst p \<noteq> key) pool @ [(key, e)]" for e
    by (simp add: update_absent delete_as_filter image_iff)
  show ?thesis
    using pool_inv_filter[OF assms(1), of "\<lambda>p. fst p \<noteq> key"] lt
    by (auto simp: start_attempt_def Let_def pool pool_inv_def dest: less_trans)
qed

lemma pool_inv_install:
  assumes "pool_inv key_of m" and "is_current_attempt (cm_pool m) k attempt" and "key_of c = k"
  shows "pool_inv key_of (m\<lparr>cm_pool := AList.update k (Connected c) (cm_pool m)\<rparr>)"
proof -
  obtain e where e: "map_of (cm_pool m) k = Some e"
    using assms(2) by (auto simp: is_current_attempt_def split: option.splits)
  let ?pool = "AList.update k (Connected c) (cm_pool m)"
  have "distinct (map fst ?pool)" using assms(1) by (simp add: pool_inv_def distinct_update)
  moreover have "?pool = map (\<lambda>p. if fst p = k then (k, Connected c) else p) (cm_pool m)"
    using assms(1) e by (intro update_in_place) (auto simp: pool_inv_def)
  ultimately show ?thesis
    using assms pool_inv_filter[OF assms(1), of "\<lambda>p. fst p \<noteq> k"]
    by (auto simp: pool_inv_def attempts_install split: if_splits)
qed

lemma pool_inv_get_or_connect:
  assumes "pool_inv key_of m" and "cm_next_attempt m \<noteq> - 1"
  shows "pool_inv key_of (fst (get_or_connect conns m settings identity timeout now))"
  using assms pool_inv_delete[OF assms(1)] pool_inv_delete[OF pool_inv_delete[OF assms(1)]]
  by (auto simp: get_or_connect_def Let_def intro!: pool_inv_start split: option.splits PoolEntry.splits)

lemma pool_inv_step:
  assumes "pool_inv key_of m" and "pool_admissible key_of m a"
  shows "pool_inv key_of (pool_step m a)"
proof -
  obtain conns b where a: "a = (conns, b)" by (cases a)
  show ?thesis
  proof (cases b)
    case (GetOrConnect settings identity timeout now)
    then show ?thesis using a assms pool_inv_get_or_connect by auto
  next
    case (FinishAttempt key attempt result)
    then show ?thesis
      using a assms pool_inv_install[OF assms(1)] pool_inv_delete[OF assms(1)]
      by (cases result) (auto simp: finish_attempt_def mark_connected_def abandon_attempt_def)
  next
    case (ExtendDeadline attempt d)
    have "map fst (map (\<lambda>(k, entry). (k, extend_entry attempt d entry)) (cm_pool m)) = map fst (cm_pool m)" by auto
    moreover have "Connected c = extend_entry attempt d e \<longleftrightarrow> e = Connected c" for c e by (cases e) auto
    ultimately show ?thesis
      using a ExtendDeadline assms by (auto simp: extend_deadline_def pool_inv_def attempts_extend simp del: map_map)
  qed (use a assms pool_inv_delete pool_inv_filter in
    \<open>auto simp: reap_stale_attempt_def reap_stale_def pool_remove_def watch_connection_def remove_if_same_def Let_def\<close>)
qed

lemma pool_inv_new: "pool_inv key_of connection_manager_new"
  by (simp add: connection_manager_new_def pool_inv_def)

interpretation pool: guarded_machine "\<lambda>m. m = connection_manager_new" pool_step "pool_admissible key_of" "pool_inv key_of"
  for key_of
  by unfold_locales (blast intro: pool_inv_new pool_inv_step)+

section \<open>Attempts that were replaced\<close>

definition attempt_gone :: "u64 \<Rightarrow> ConnectionManager \<Rightarrow> bool" where
  "attempt_gone a m \<longleftrightarrow> a < cm_next_attempt m \<and> a \<notin> set (attempts (cm_pool m))"

lemma current_attempt_mem: "is_current_attempt pool key a \<Longrightarrow> a \<in> set (attempts pool)"
  by (auto simp: is_current_attempt_def set_attempts dest!: map_of_SomeD split: option.splits PoolEntry.splits)

lemma attempts_update: "set (attempts (AList.update k e pool)) \<subseteq> set (entry_attempt e) \<union> set (attempts pool)"
  by (induction pool) auto

lemma attempts_delete: "set (attempts (AList.delete k pool)) \<subseteq> set (attempts pool)"
  by (auto simp: set_attempts delete_as_filter)

lemma gone_inert:
  assumes "attempt_gone a m"
  shows "finish_attempt m key a result = m" "reap_stale_attempt m key a = m" "extend_deadline m a d = m"
proof -
  have not: "\<not> is_current_attempt (cm_pool m) key a" for key
    using assms current_attempt_mem by (auto simp: attempt_gone_def)
  show "finish_attempt m key a result = m" "reap_stale_attempt m key a = m"
    by (auto simp: finish_attempt_def mark_connected_def abandon_attempt_def reap_stale_attempt_def not split: option.splits)
  have "extend_entry a d entry = entry" if "(k, entry) \<in> set (cm_pool m)" for k entry
    using that assms by (cases entry) (auto simp: attempt_gone_def set_attempts)
  then have "map (\<lambda>(k, entry). (k, extend_entry a d entry)) (cm_pool m) = cm_pool m"
    by (intro map_idI) auto
  then show "extend_deadline m a d = m" by (simp add: extend_deadline_def)
qed

lemma gone_smaller:
  "attempt_gone a m \<Longrightarrow> set (attempts pool) \<subseteq> set (attempts (cm_pool m)) \<Longrightarrow> attempt_gone a (m\<lparr>cm_pool := pool\<rparr>)"
  by (auto simp: attempt_gone_def)

lemma gone_start:
  assumes "attempt_gone a (m\<lparr>cm_pool := pool\<rparr>)" and "cm_next_attempt m \<noteq> - 1"
  shows "attempt_gone a (fst (start_attempt m pool key now budget))"
proof -
  have "cm_next_attempt m < cm_next_attempt m + 1"
    using assms(2) inc_less_eq_triv_imp[of "cm_next_attempt m"] by (meson not_less)
  then show ?thesis
    using assms(1) attempts_update[of key "Connecting now (now + budget) (cm_next_attempt m)" "AList.delete key pool"]
      attempts_delete[of key pool]
    by (auto simp: attempt_gone_def start_attempt_def Let_def)
qed

lemma gone_step:
  assumes "attempt_gone a m" and "pool_admissible key_of m b"
  shows "attempt_gone a (pool_step m b)"
proof -
  obtain conns c where b: "b = (conns, c)" by (cases b)
  note del = gone_smaller[OF assms(1) attempts_delete]
  show ?thesis
  proof (cases c)
    case (GetOrConnect settings identity timeout now)
    with b assms have room: "cm_next_attempt m \<noteq> - 1" by simp
    have "attempt_gone a (m\<lparr>cm_pool := AList.delete k (AList.delete k (cm_pool m))\<rparr>)" for k
      using del[of k] by (simp add: delete_idem)
    then show ?thesis
      using b GetOrConnect del assms(1) gone_start[OF _ room]
      by (auto simp: get_or_connect_def Let_def split: option.splits PoolEntry.splits)
  next
    case (FinishAttempt key attempt result)
    have "attempt_gone a (m\<lparr>cm_pool := AList.update key (Connected shared) (cm_pool m)\<rparr>)" for shared
      using assms(1) attempts_update[of key "Connected shared" "cm_pool m"] by (auto simp: attempt_gone_def)
    then show ?thesis
      using b FinishAttempt del assms(1)
      by (auto simp: finish_attempt_def mark_connected_def abandon_attempt_def split: option.splits)
  next
    case (ReapStale now)
    then show ?thesis
      using b assms(1) by (auto simp: reap_stale_def attempt_gone_def set_attempts)
  next
    case (ExtendDeadline attempt d)
    then show ?thesis
      using b assms(1) by (simp add: extend_deadline_def attempt_gone_def attempts_extend)
  qed (use b assms(1) del in
    \<open>auto simp: reap_stale_attempt_def pool_remove_def watch_connection_def remove_if_same_def Let_def\<close>)
qed

interpretation gone: guarded_machine "attempt_gone a" pool_step "pool_admissible key_of" "attempt_gone a"
  for a key_of
  by unfold_locales (auto intro: gone_step)

lemma replaced_gone:
  assumes "pool_inv key_of m"
    and "map_of (cm_pool m) (connection_key_new settings identity) = Some (Connecting started deadline old)"
    and "get_or_connect conns m settings identity timeout now = (m', Started new t1 t2)"
    and "cm_next_attempt m \<noteq> - 1"
  shows "attempt_gone old m'"
proof -
  let ?key = "connection_key_new settings identity"
  have m': "m' = fst (start_attempt m (AList.delete ?key (cm_pool m)) ?key now (compute_attempt_peer_budget settings timeout))"
    using assms(2,3) by (auto simp: get_or_connect_def Let_def split: if_splits)
  have lt: "old < cm_next_attempt m"
    using assms(1,2) by (auto simp: pool_inv_def set_attempts dest!: map_of_SomeD)
  have "old \<notin> set (attempts (filter (\<lambda>p. fst p \<noteq> k) pool))"
    if "distinct (attempts pool)" "map_of pool k = Some (Connecting started deadline old)" for pool k
    using that by (induction pool) (auto simp: set_attempts split: if_splits dest: map_of_SomeD)
  with assms(1,2) have "attempt_gone old (m\<lparr>cm_pool := AList.delete ?key (cm_pool m)\<rparr>)"
    using lt by (auto simp: attempt_gone_def pool_inv_def delete_as_filter)
  then show ?thesis using m' gone_start assms(4) by simp
qed

section \<open>What the pool promises its clients\<close>

text \<open>
  A client that kept a weak reference to a connection falls back to the pool when the connection is gone
  or lost. What it gets is usable and belongs to the key it asked for.
\<close>

locale connection_source =
  fixes lookup :: "'pool \<Rightarrow> 'key \<Rightarrow> 'conn option"
    and inv :: "'pool \<Rightarrow> bool"
    and key_of :: "'conn \<Rightarrow> 'key"
    and usable :: "'conn \<Rightarrow> bool"
  assumes lookup_key: "inv p \<Longrightarrow> lookup p k = Some c \<Longrightarrow> key_of c = k"
    and lookup_usable: "lookup p k = Some c \<Longrightarrow> usable c"
begin

lemma fallback_sound:
  assumes "inv p" and "\<And>c. weak = Some c \<Longrightarrow> key_of c = k"
    and "(case weak of Some c \<Rightarrow> if usable c then Some c else lookup p k | None \<Rightarrow> lookup p k) = Some c"
  shows "key_of c = k \<and> usable c"
  using assms lookup_key lookup_usable by (auto split: option.splits if_splits)

end

interpretation source: connection_source "connected conns" "pool_inv key_of" key_of "\<lambda>c. \<not> sc_connection_lost (conns c)"
  for conns key_of
  by unfold_locales
     (auto simp: connected_def pool_inv_def dest!: map_of_SomeD split: option.splits PoolEntry.splits if_splits)

section \<open>Properties\<close>

definition demo_settings :: ConnectionSettings where
  "demo_settings = ConnectionSettings (lit ''host'') 22 (lit ''me'') AuthCredential.KeyboardInteractive
     ResolvedConnectionRoute.Direct"

definition demo_identity :: ConnectionPoolIdentity where
  "demo_identity = Saved (fingerprint_keyboard_interactive 1)"

definition demo_pool_key :: ConnectionKey where
  "demo_pool_key = connection_key_new demo_settings demo_identity"

definition demo_conns :: "ConnId \<Rightarrow> SharedConnection" where
  "demo_conns = (\<lambda>_. \<lparr>sc_connection_key = demo_pool_key, sc_remote_root = [], sc_host_port_string = [],
     sc_active_channels = 0, sc_last_used = 0, sc_connection_lost = False\<rparr>)"

definition demo_pool_ops :: "((ConnId \<Rightarrow> SharedConnection) \<times> PoolOp) list" where
  "demo_pool_ops = [(demo_conns, GetOrConnect demo_settings demo_identity 10 0),
     (demo_conns, GetOrConnect demo_settings demo_identity 10 500),
     (demo_conns, FinishAttempt demo_pool_key 1 (Some (ConnId 7))),
     (demo_conns, FinishAttempt demo_pool_key 2 (Some (ConnId 8)))]"

text \<open>
  C17 (pooled_connection_matches): whatever attempts were started, replaced, finished late, expired or
  reaped before, the pool holds one entry per key, no attempt under two keys, and every connection it hands
  out, to a tab or to a retried transfer, was made for exactly the key asked for and is not lost.
\<close>

theorem pooled_connection_matches:
  assumes "pool.admissible_run key_of connection_manager_new ops"
  shows "let m = foldl pool_step connection_manager_new ops
         in distinct (map fst (cm_pool m)) \<and> distinct (attempts (cm_pool m)) \<and>
            (\<forall>key c. connected conns m key = Some c \<longrightarrow> key_of c = key \<and> \<not> sc_connection_lost (conns c)) \<and>
            (\<forall>settings identity timeout now m' c.
               get_or_connect conns m settings identity timeout now = (m', Ready c) \<longrightarrow>
               key_of c = connection_key_new settings identity \<and> \<not> sc_connection_lost (conns c))"
proof -
  let ?m = "foldl pool_step connection_manager_new ops"
  have inv: "pool_inv key_of ?m" by (rule pool.reachable_inv[OF refl assms])
  have ready: "connected conns ?m (connection_key_new settings identity) = Some c"
    if "get_or_connect conns ?m settings identity timeout now = (m', Ready c)" for settings identity timeout now m' c
    using that
    by (auto simp: get_or_connect_def connected_def start_attempt_def Let_def delete_conv'
        split: option.splits PoolEntry.splits if_splits)
  have sound: "key_of c = key \<and> \<not> sc_connection_lost (conns c)" if "connected conns ?m key = Some c" for key c
    using source.lookup_key[OF inv that] source.lookup_usable[OF that] by simp
  show ?thesis
    using inv sound sound[OF ready] unfolding Let_def pool_inv_def by blast
qed

theorem pooled_connection_matches_witness:
  "connected demo_conns (foldl pool_step connection_manager_new demo_pool_ops) demo_pool_key = Some (ConnId 8) \<and>
   \<not> sc_connection_lost (demo_conns (ConnId 8))"
proof -
  have "pool.admissible_run (\<lambda>_. demo_pool_key) connection_manager_new demo_pool_ops"
    unfolding pool.admissible_run_eq by code_simp
  note * = pooled_connection_matches[OF this, of demo_conns]
  have c: "connected demo_conns (foldl pool_step connection_manager_new demo_pool_ops) demo_pool_key = Some (ConnId 8)"
    by code_simp
  with * show ?thesis by (simp add: Let_def)
qed

text \<open>
  superseded_attempt_inert: when a stalled attempt was replaced by a new one for the same key, nothing
  the old one does later, at whatever time and however it ends, touches the pool: neither a late success
  nor a failure, a deadline or an extension of its deadline can overwrite, remove or keep alive the entry
  the new attempt or its connection has.
\<close>

theorem superseded_attempt_inert:
  assumes "pool.admissible_run key_of connection_manager_new before"
    and "m = foldl pool_step connection_manager_new before"
    and "map_of (cm_pool m) (connection_key_new settings identity) = Some (Connecting started deadline old)"
    and "get_or_connect conns m settings identity timeout now = (m', Started new t1 t2)"
    and "cm_next_attempt m \<noteq> - 1"
    and "pool.admissible_run key_of m' after"
  shows "let m'' = foldl pool_step m' after
         in finish_attempt m'' key old result = m'' \<and> reap_stale_attempt m'' key old = m'' \<and>
            extend_deadline m'' old d = m''"
proof -
  have "attempt_gone old m'"
    using pool.reachable_inv[OF refl assms(1)] replaced_gone[where key_of = key_of, OF _ assms(3,4,5)] assms(2) by blast
  from gone.reachable_inv[OF this] have "attempt_gone old (foldl pool_step m' after)"
    using assms(6) by blast
  then show ?thesis by (simp add: Let_def gone_inert)
qed

theorem superseded_attempt_inert_witness:
  "finish_attempt (foldl pool_step connection_manager_new (take 2 demo_pool_ops)) demo_pool_key 1 (Some (ConnId 7)) =
   foldl pool_step connection_manager_new (take 2 demo_pool_ops)"
proof -
  let ?m = "foldl pool_step connection_manager_new (take 1 demo_pool_ops)"
  let ?r = "get_or_connect demo_conns ?m demo_settings demo_identity 10 500"
  have a: "pool.admissible_run (\<lambda>_. demo_pool_key) connection_manager_new (take 1 demo_pool_ops)"
    by (simp add: demo_pool_ops_def connection_manager_new_def)
  have e: "map_of (cm_pool ?m) (connection_key_new demo_settings demo_identity) = Some (Connecting 0 100 1)"
    by code_simp
  have r: "?r = (fst ?r, Started 2 (TrustRequestId 3) (TrustRequestId 4))" by code_simp
  have n: "cm_next_attempt ?m \<noteq> - 1" by code_simp
  have f: "foldl pool_step connection_manager_new (take 2 demo_pool_ops) = fst ?r"
    by (simp add: demo_pool_ops_def)
  from superseded_attempt_inert[OF a refl e r n, of "[]" demo_pool_key "Some (ConnId 7)" 0]
  show ?thesis by (simp add: Let_def f)
qed

end
