(* ===== verification/Transfer_Manager.thy ===== *)
theory Transfer_Manager
  imports Pool Prompt_Registry
begin

text \<open>
  The transfer manager of \<open>crates/sftp/src/transfer_manager.rs\<close>: the queue of jobs, the requests that
  change it, and the loop that starts jobs within the limits per process, per plan and per connection.

  A hash map is an association list, which stands for one order of its unspecified iteration; a hash set
  is a set. The manager's own steps are functions of its state that return what it sends. A started job
  runs concurrently: it is a \<open>TransferTask\<close> in flight until it ends, gives its channel back and reports
  its completion through the channel that the manager's loop reads.
\<close>

section \<open>State\<close>

definition MAX_CONCURRENT_TRANSFERS :: usize where
  "MAX_CONCURRENT_TRANSFERS = 12"

definition MAX_CONCURRENT_PER_PLAN :: usize where
  "MAX_CONCURRENT_PER_PLAN = 8"

definition MAX_CHANNELS_PER_CONNECTION :: usize where
  "MAX_CHANNELS_PER_CONNECTION = 9"

definition MAX_IDLE_SESSIONS_PER_PLAN :: usize where
  "MAX_IDLE_SESSIONS_PER_PLAN = MAX_CONCURRENT_PER_PLAN"

definition MAX_PENDING_CANCELS :: usize where
  "MAX_PENDING_CANCELS = 1024"

datatype TransferManagerRequest =
    Enqueue ConnId TransferPlanId "TransferJob list"
  | Cancel TransferId "TransferPlanId option"
  | CancelPlan TransferPlanId
  | ForgetPlan TransferPlanId
  | Retry TransferId
  | ResolveConflict ConflictRequestId ConflictDecision

record QueuedTransfer =
  qt_connection :: ConnId
  qt_plan_id :: TransferPlanId
  qt_job :: TransferJob

record RunningTransfer =
  rt_plan_id :: TransferPlanId
  rt_cancel :: bool

text \<open>
  The facts shared by the jobs of a plan. The manager sets the destination root once, before any job of
  the plan starts; the two sets of directories belong to the jobs alone.
\<close>

record PlanTransferFacts =
  pf_destination_root :: "LocalPath option"

record TransferSessionSlot =
  slot_session :: nat
  slot_direction :: TransferDirection
  slot_facts :: PlanTransferFacts

record RetryRoute =
  rr_connection_key :: ConnectionKey
  rr_connection :: ConnId
  rr_plan_id :: TransferPlanId
  rr_job :: TransferJob

record CompletedTransfer =
  ct_transfer_id :: TransferId
  ct_retry_route :: "RetryRoute option"
  ct_reusable_session :: "TransferSessionSlot option"

record ConflictWaiter =
  cw_plan_id :: TransferPlanId
  cw_sender :: responder

record TransferManager =
  tm_pending :: "QueuedTransfer list"
  tm_pending_per_plan :: "(TransferPlanId \<times> usize) list"
  tm_pending_roots :: "TransferId set"
  tm_running :: "(TransferId \<times> RunningTransfer) list"
  tm_running_per_plan :: "(TransferPlanId \<times> usize) list"
  tm_plan_root_jobs :: "(TransferPlanId \<times> TransferId) list"
  tm_plan_children_started :: "TransferPlanId set"
  tm_cancelled_before_enqueue :: "(TransferId \<times> TransferPlanId option) list"
  tm_pending_cancel_order :: "TransferId list"
  tm_retry_routes :: "(TransferId \<times> RetryRoute) list"
  tm_idle_sessions :: "(TransferPlanId \<times> TransferSessionSlot list) list"
  tm_plan_facts :: "(TransferPlanId \<times> PlanTransferFacts) list"
  tm_plan_policies :: "(TransferPlanId \<times> ConflictPolicy) list"
  tm_conflict_waiters :: "(ConflictRequestId \<times> ConflictWaiter) list"

definition transfer_manager_new :: TransferManager where
  "transfer_manager_new =
     \<lparr>tm_pending = [], tm_pending_per_plan = [], tm_pending_roots = {}, tm_running = [], tm_running_per_plan = [],
      tm_plan_root_jobs = [], tm_plan_children_started = {}, tm_cancelled_before_enqueue = [],
      tm_pending_cancel_order = [], tm_retry_routes = [], tm_idle_sessions = [], tm_plan_facts = [],
      tm_plan_policies = [], tm_conflict_waiters = []\<rparr>"

datatype ManagerOutput =
    SendEvent AppEvent
  | SendDecision responder ConflictDecision

section \<open>Counters per plan\<close>

text \<open>The two idioms on the maps that count jobs per plan: the entry API's increment and the decrement
  that drops an entry at zero.\<close>

definition count_up :: "('k \<times> nat) list \<Rightarrow> 'k \<Rightarrow> ('k \<times> nat) list" where
  "count_up counts k = AList.update k ((case map_of counts k of None \<Rightarrow> 0 | Some n \<Rightarrow> n) + 1) counts"

definition count_down :: "('k \<times> nat) list \<Rightarrow> 'k \<Rightarrow> ('k \<times> nat) list" where
  "count_down counts k =
     (case map_of counts k of
        None \<Rightarrow> counts
      | Some n \<Rightarrow> if n - 1 = 0 then AList.delete k counts else AList.update k (n - 1) counts)"

definition counted :: "('k \<times> nat) list \<Rightarrow> 'k \<Rightarrow> nat" where
  "counted counts k = (case map_of counts k of None \<Rightarrow> 0 | Some n \<Rightarrow> n)"

section \<open>Cancels that arrive before their job\<close>

definition forget_cancellations_for_plan :: "TransferManager \<Rightarrow> TransferPlanId \<Rightarrow> TransferManager" where
  "forget_cancellations_for_plan m plan =
     (let cancelled = filter (\<lambda>(_, recorded). recorded \<noteq> Some plan) (tm_cancelled_before_enqueue m)
      in m\<lparr>tm_cancelled_before_enqueue := cancelled,
           tm_pending_cancel_order := filter (\<lambda>t. map_of cancelled t \<noteq> None) (tm_pending_cancel_order m)\<rparr>)"

definition take_pending_cancel :: "TransferManager \<Rightarrow> TransferId \<Rightarrow> TransferManager \<times> bool" where
  "take_pending_cancel m t =
     (if map_of (tm_cancelled_before_enqueue m) t \<noteq> None
      then (m\<lparr>tm_cancelled_before_enqueue := AList.delete t (tm_cancelled_before_enqueue m),
              tm_pending_cancel_order := filter (\<lambda>queued. queued \<noteq> t) (tm_pending_cancel_order m)\<rparr>, True)
      else (m, False))"

fun drop_oldest_cancels ::
  "TransferId list \<Rightarrow> (TransferId \<times> TransferPlanId option) list \<Rightarrow>
   TransferId list \<times> (TransferId \<times> TransferPlanId option) list" where
  "drop_oldest_cancels [] cancelled = ([], cancelled)"
| "drop_oldest_cancels (oldest # order) cancelled =
     (if MAX_PENDING_CANCELS < length (oldest # order)
      then drop_oldest_cancels order (AList.delete oldest cancelled)
      else (oldest # order, cancelled))"

definition record_pending_cancel ::
  "TransferManager \<Rightarrow> TransferId \<Rightarrow> TransferPlanId option \<Rightarrow> TransferManager" where
  "record_pending_cancel m t plan =
     (let order = (if map_of (tm_cancelled_before_enqueue m) t = None then tm_pending_cancel_order m @ [t]
                   else tm_pending_cancel_order m);
          (order', cancelled) = drop_oldest_cancels order (AList.update t plan (tm_cancelled_before_enqueue m))
      in m\<lparr>tm_cancelled_before_enqueue := cancelled, tm_pending_cancel_order := order'\<rparr>)"

section \<open>The queue\<close>

definition push_pending :: "TransferManager \<Rightarrow> QueuedTransfer \<Rightarrow> TransferManager" where
  "push_pending m queued =
     m\<lparr>tm_pending_per_plan := count_up (tm_pending_per_plan m) (qt_plan_id queued),
       tm_pending_roots :=
         (if map_of (tm_plan_root_jobs m) (qt_plan_id queued) = Some (job_id (qt_job queued))
          then insert (job_id (qt_job queued)) (tm_pending_roots m) else tm_pending_roots m),
       tm_pending := tm_pending m @ [queued]\<rparr>"

definition remove_pending :: "TransferManager \<Rightarrow> nat \<Rightarrow> (TransferManager \<times> QueuedTransfer) option" where
  "remove_pending m i =
     (if i < length (tm_pending m)
      then let queued = tm_pending m ! i
           in Some (m\<lparr>tm_pending := remove_at i (tm_pending m),
                      tm_pending_per_plan := count_down (tm_pending_per_plan m) (qt_plan_id queued),
                      tm_pending_roots := tm_pending_roots m - {job_id (qt_job queued)}\<rparr>, queued)
      else None)"

definition retain_pending_not_plan :: "TransferManager \<Rightarrow> TransferPlanId \<Rightarrow> TransferManager" where
  "retain_pending_not_plan m plan =
     m\<lparr>tm_pending := filter (\<lambda>queued. qt_plan_id queued \<noteq> plan) (tm_pending m),
       tm_pending_per_plan := AList.delete plan (tm_pending_per_plan m),
       tm_pending_roots :=
         (case map_of (tm_plan_root_jobs m) plan of
            Some root \<Rightarrow> tm_pending_roots m - {root} | None \<Rightarrow> tm_pending_roots m)\<rparr>"

definition cleanup_plan_if_idle :: "TransferManager \<Rightarrow> TransferPlanId \<Rightarrow> TransferManager" where
  "cleanup_plan_if_idle m plan =
     (let has_pending = (map_of (tm_pending_per_plan m) plan \<noteq> None);
          has_running = (map_of (tm_running_per_plan m) plan \<noteq> None);
          has_retry = (if has_pending \<or> has_running then False
                       else list_ex (\<lambda>(_, route). rr_plan_id route = plan) (tm_retry_routes m))
      in if \<not> has_pending \<and> \<not> has_running \<and> \<not> has_retry
         then forget_cancellations_for_plan
                (m\<lparr>tm_plan_policies := AList.delete plan (tm_plan_policies m),
                   tm_plan_root_jobs := AList.delete plan (tm_plan_root_jobs m),
                   tm_plan_children_started := tm_plan_children_started m - {plan},
                   tm_idle_sessions := AList.delete plan (tm_idle_sessions m),
                   tm_plan_facts := AList.delete plan (tm_plan_facts m)\<rparr>) plan
         else m)"

definition plan_of_root :: "TransferManager \<Rightarrow> TransferId \<Rightarrow> TransferPlanId option" where
  "plan_of_root m t = map_option fst (find (\<lambda>(_, root). root = t) (tm_plan_root_jobs m))"

section \<open>Requests\<close>

definition cancel_plan :: "TransferManager \<Rightarrow> TransferPlanId \<Rightarrow> TransferManager \<times> ManagerOutput list" where
  "cancel_plan m plan =
     (let m1 = forget_cancellations_for_plan m plan;
          cancelled_pending = map (\<lambda>queued. job_id (qt_job queued))
            (filter (\<lambda>queued. qt_plan_id queued = plan) (tm_pending m1));
          m2 = retain_pending_not_plan m1 plan;
          cancelled_running = map fst (filter (\<lambda>(_, running). rt_plan_id running = plan) (tm_running m2));
          m3 = m2\<lparr>tm_running := map (\<lambda>(t, running).
                 if rt_plan_id running = plan then (t, running\<lparr>rt_cancel := True\<rparr>) else (t, running)) (tm_running m2)\<rparr>
      in if cancelled_pending = [] \<and> cancelled_running = [] then (m3, [])
         else (cleanup_plan_if_idle
                 (m3\<lparr>tm_plan_root_jobs := AList.delete plan (tm_plan_root_jobs m3),
                     tm_plan_children_started := tm_plan_children_started m3 - {plan},
                     tm_plan_facts := AList.delete plan (tm_plan_facts m3)\<rparr>) plan,
               [SendEvent (AppEvent.TransferPlanCancelled plan)]))"

definition set_destination_root :: "PlanTransferFacts \<Rightarrow> LocalPath \<Rightarrow> PlanTransferFacts" where
  "set_destination_root facts root =
     (if pf_destination_root facts = None then facts\<lparr>pf_destination_root := Some root\<rparr> else facts)"

definition record_plan_root :: "TransferManager \<Rightarrow> TransferPlanId \<Rightarrow> TransferJob \<Rightarrow> TransferManager" where
  "record_plan_root m plan root =
     (let roots = (if map_of (tm_plan_root_jobs m) plan = None
                   then AList.update plan (job_id root) (tm_plan_root_jobs m) else tm_plan_root_jobs m);
          facts = (case map_of (tm_plan_facts m) plan of
                     Some facts \<Rightarrow> facts | None \<Rightarrow> \<lparr>pf_destination_root = None\<rparr>)
      in m\<lparr>tm_plan_root_jobs := roots,
           tm_plan_facts := (case job_destination root of
               TransferEndpoint.Local destination \<Rightarrow>
                 AList.update plan (set_destination_root facts destination) (tm_plan_facts m)
             | TransferEndpoint.Remote _ \<Rightarrow> tm_plan_facts m)\<rparr>)"

definition admit_plan :: "TransferManager \<Rightarrow> TransferPlanId \<Rightarrow> TransferJob list \<Rightarrow> bool \<Rightarrow> TransferManager" where
  "admit_plan m plan jobs record_root =
     (let m1 = (if jobs \<noteq> [] \<and> map_of (tm_plan_policies m) plan = None
                then m\<lparr>tm_plan_policies := AList.update plan (job_conflict_policy (hd jobs)) (tm_plan_policies m)\<rparr>
                else m)
      in if record_root \<and> jobs \<noteq> [] then record_plan_root m1 plan (hd jobs) else m1)"

fun enqueue_jobs ::
  "TransferManager \<Rightarrow> ConnId \<Rightarrow> TransferPlanId \<Rightarrow> TransferJob list \<Rightarrow> TransferManager \<times> TransferId list" where
  "enqueue_jobs m connection plan [] = (m, [])"
| "enqueue_jobs m connection plan (job # jobs) =
     (case take_pending_cancel m (job_id job) of
        (m', True) \<Rightarrow> (let (m'', skipped) = enqueue_jobs m' connection plan jobs in (m'', job_id job # skipped))
      | (m', False) \<Rightarrow>
          enqueue_jobs (push_pending m' \<lparr>qt_connection = connection, qt_plan_id = plan, qt_job = job\<rparr>)
            connection plan jobs)"

definition enqueue ::
  "TransferManager \<Rightarrow> ConnId \<Rightarrow> TransferPlanId \<Rightarrow> TransferJob list \<Rightarrow> bool \<Rightarrow> TransferManager \<times> ManagerOutput list" where
  "enqueue m connection plan jobs record_root =
     (if record_root \<and> jobs \<noteq> [] \<and> map_of (tm_cancelled_before_enqueue m) (job_id (hd jobs)) \<noteq> None
      then (forget_cancellations_for_plan m plan, [SendEvent (AppEvent.TransferPlanCancelled plan)])
      else
        let (m1, skipped) = enqueue_jobs (admit_plan m plan jobs record_root) connection plan jobs;
            m2 = forget_cancellations_for_plan m1 plan;
            m3 = (if skipped \<noteq> [] then cleanup_plan_if_idle m2 plan else m2)
        in (m3, map (\<lambda>t. SendEvent (AppEvent.TransferSkipped t)) skipped))"

text \<open>
  What a retry sees of the connections: the shared objects, whether its weak reference can still be
  upgraded, and the pool.
\<close>

record Connections =
  cx_conns :: "ConnId \<Rightarrow> SharedConnection"
  cx_alive :: "ConnId \<Rightarrow> bool"
  cx_pool :: ConnectionManager

definition retry_connection :: "Connections \<Rightarrow> RetryRoute \<Rightarrow> ConnId option" where
  "retry_connection cx route =
     (case (if cx_alive cx (rr_connection route) then Some (rr_connection route) else None) of
        Some c \<Rightarrow> if \<not> sc_connection_lost (cx_conns cx c) then Some c
                  else connected (cx_conns cx) (cx_pool cx) (rr_connection_key route)
      | None \<Rightarrow> connected (cx_conns cx) (cx_pool cx) (rr_connection_key route))"

definition reconnect_before_retrying :: UserFacingError where
  "reconnect_before_retrying =
     with_retryable (user_facing_error ChannelClosed (lit ''Reconnect before retrying'')
       (lit ''The previous connection is no longer available. Reconnect this profile and retry the transfer.'')) True"

definition cancel_transfer ::
  "TransferManager \<Rightarrow> TransferId \<Rightarrow> TransferPlanId option \<Rightarrow> TransferManager \<times> ManagerOutput list" where
  "cancel_transfer m t plan =
     (case plan_of_root m t of
        Some root_plan \<Rightarrow> cancel_plan m root_plan
      | None \<Rightarrow>
          (case position (\<lambda>queued. job_id (qt_job queued) = t) (tm_pending m) of
             Some i \<Rightarrow>
               (case remove_pending m i of
                  Some (m', queued) \<Rightarrow>
                    (cleanup_plan_if_idle m' (qt_plan_id queued), [SendEvent (AppEvent.TransferSkipped t)])
                | None \<Rightarrow> (m, [SendEvent (AppEvent.TransferSkipped t)]))
           | None \<Rightarrow>
               (case map_of (tm_running m) t of
                  Some running \<Rightarrow>
                    (m\<lparr>tm_running := AList.update t (running\<lparr>rt_cancel := True\<rparr>) (tm_running m)\<rparr>, [])
                | None \<Rightarrow> (record_pending_cancel m t plan, []))))"

definition retry_transfer :: "Connections \<Rightarrow> TransferManager \<Rightarrow> TransferId \<Rightarrow> TransferManager \<times> ManagerOutput list" where
  "retry_transfer cx m t =
     (case map_of (tm_retry_routes m) t of
        None \<Rightarrow> (m, [])
      | Some route \<Rightarrow>
          let m1 = m\<lparr>tm_retry_routes := AList.delete t (tm_retry_routes m)\<rparr>;
              m2 = fst (take_pending_cancel m1 t)
          in (case retry_connection cx route of
                Some connection \<Rightarrow> enqueue m2 connection (rr_plan_id route) [rr_job route] False
              | None \<Rightarrow>
                  (m2\<lparr>tm_retry_routes := AList.update t route (tm_retry_routes m2)\<rparr>,
                   [SendEvent (AppEvent.TransferFailed
                      \<lparr>tf_transfer_id = t, tf_error = reconnect_before_retrying\<rparr>)])))"

definition resolve_conflict_request ::
  "TransferManager \<Rightarrow> ConflictRequestId \<Rightarrow> ConflictDecision \<Rightarrow> TransferManager \<times> ManagerOutput list" where
  "resolve_conflict_request m request decision =
     (case map_of (tm_conflict_waiters m) request of
        Some waiter \<Rightarrow>
          (m\<lparr>tm_conflict_waiters := AList.delete request (tm_conflict_waiters m)\<rparr>,
           [SendDecision (cw_sender waiter) decision])
      | None \<Rightarrow> (m, []))"

fun handle_request ::
  "Connections \<Rightarrow> TransferManager \<Rightarrow> TransferManagerRequest \<Rightarrow> TransferManager \<times> ManagerOutput list" where
  "handle_request cx m (Enqueue connection plan jobs) = enqueue m connection plan jobs True"
| "handle_request cx m (Cancel t plan) = cancel_transfer m t plan"
| "handle_request cx m (CancelPlan plan) = cancel_plan m plan"
| "handle_request cx m (ForgetPlan plan) = (forget_cancellations_for_plan m plan, [])"
| "handle_request cx m (Retry t) = retry_transfer cx m t"
| "handle_request cx m (ResolveConflict request decision) = resolve_conflict_request m request decision"

section \<open>Completions and idle sessions\<close>

definition return_idle_session :: "TransferManager \<Rightarrow> TransferPlanId \<Rightarrow> TransferSessionSlot \<Rightarrow> TransferManager" where
  "return_idle_session m plan slot =
     (let sessions = (case map_of (tm_idle_sessions m) plan of None \<Rightarrow> [] | Some sessions \<Rightarrow> sessions)
      in m\<lparr>tm_idle_sessions := AList.update plan
             (if length sessions < MAX_IDLE_SESSIONS_PER_PLAN then sessions @ [slot] else sessions)
             (tm_idle_sessions m)\<rparr>)"

definition take_idle_session ::
  "TransferManager \<Rightarrow> TransferPlanId \<Rightarrow> TransferDirection \<Rightarrow> TransferManager \<times> TransferSessionSlot option" where
  "take_idle_session m plan direction =
     (case map_of (tm_idle_sessions m) plan of
        None \<Rightarrow> (m, None)
      | Some sessions \<Rightarrow>
          (case position (\<lambda>slot. slot_direction slot = direction) sessions of
             None \<Rightarrow> (m, None)
           | Some i \<Rightarrow>
               let rest = remove_at i sessions
               in (m\<lparr>tm_idle_sessions := (if rest = [] then AList.delete plan (tm_idle_sessions m)
                                        else AList.update plan rest (tm_idle_sessions m))\<rparr>,
                   Some (sessions ! i))))"

definition handle_completed :: "TransferManager \<Rightarrow> CompletedTransfer \<Rightarrow> TransferManager" where
  "handle_completed m completed =
     (let t = ct_transfer_id completed;
          plan = map_option rt_plan_id (map_of (tm_running m) t);
          m1 = (case plan of
                  Some p \<Rightarrow> m\<lparr>tm_running := AList.delete t (tm_running m),
                              tm_running_per_plan := count_down (tm_running_per_plan m) p\<rparr>
                | None \<Rightarrow> m);
          m2 = (case ct_retry_route completed of
                  Some route \<Rightarrow> m1\<lparr>tm_retry_routes := AList.update t route (tm_retry_routes m1)\<rparr>
                | None \<Rightarrow> m1\<lparr>tm_retry_routes := AList.delete t (tm_retry_routes m1)\<rparr>);
          m3 = (case (plan, ct_reusable_session completed) of
                  (Some p, Some slot) \<Rightarrow> return_idle_session m2 p slot
                | _ \<Rightarrow> m2)
      in (case plan of Some p \<Rightarrow> cleanup_plan_if_idle m3 p | None \<Rightarrow> m3))"

section \<open>Which job starts next\<close>

definition is_eligible :: "(ConnId \<Rightarrow> SharedConnection) \<Rightarrow> TransferManager \<Rightarrow> QueuedTransfer \<Rightarrow> bool" where
  "is_eligible conns m queued =
     (let running = counted (tm_running_per_plan m) (qt_plan_id queued)
      in if MAX_CONCURRENT_PER_PLAN \<le> running then False
         else if MAX_CHANNELS_PER_CONNECTION \<le> sc_active_channels (conns (qt_connection queued)) then False
         else if job_direction (qt_job queued) \<noteq> Download then True
         else (case map_of (tm_plan_root_jobs m) (qt_plan_id queued) of
                 None \<Rightarrow> running = 0
               | Some root \<Rightarrow>
                   if job_id (qt_job queued) = root then running = 0
                   else root \<notin> tm_pending_roots m \<and> map_of (tm_running m) root = None))"

definition take_destination_clear_permission ::
  "TransferManager \<Rightarrow> TransferPlanId \<Rightarrow> TransferId \<Rightarrow> TransferManager \<times> bool" where
  "take_destination_clear_permission m plan t =
     (let is_plan_root = (map_of (tm_plan_root_jobs m) plan = Some t);
          may_clear = (is_plan_root \<and> plan \<notin> tm_plan_children_started m)
      in (if is_plan_root then m
          else m\<lparr>tm_plan_children_started := insert plan (tm_plan_children_started m)\<rparr>, may_clear))"

definition next_queued_position :: "(ConnId \<Rightarrow> SharedConnection) \<Rightarrow> TransferManager \<Rightarrow> nat option" where
  "next_queued_position conns m =
     (if tm_pending m = [] then None
      else
        let plans = map fst (tm_pending_per_plan m);
            has_idle_plan = list_ex (\<lambda>p. counted (tm_running_per_plan m) p = 0) plans;
            admissible_plans = filter (\<lambda>p. counted (tm_running_per_plan m) p < MAX_CONCURRENT_PER_PLAN) plans;
            fill = position (\<lambda>queued. qt_plan_id queued \<in> set admissible_plans \<and> is_eligible conns m queued)
                     (tm_pending m)
        in if admissible_plans = [] then None
           else if has_idle_plan
           then (case position (\<lambda>queued. qt_plan_id queued \<in> set admissible_plans \<and>
                          counted (tm_running_per_plan m) (qt_plan_id queued) = 0 \<and> is_eligible conns m queued)
                   (tm_pending m) of
                   Some i \<Rightarrow> Some i
                 | None \<Rightarrow> fill)
           else fill)"

section \<open>Starting jobs\<close>

record TransferTask =
  task_transfer_id :: TransferId
  task_plan_id :: TransferPlanId
  task_job :: TransferJob
  task_connection :: ConnId
  task_idle_session :: "TransferSessionSlot option"
  task_facts :: PlanTransferFacts
  task_may_clear_destination :: bool

text \<open>
  The manager with the connections it shares, the tasks in flight, the completions not yet read, all it
  sent, the browsing sessions that hold a channel on a connection, and the tasks ever started.
\<close>

record TransferSystem =
  sys_manager :: TransferManager
  sys_conns :: "ConnId \<Rightarrow> SharedConnection"
  sys_tasks :: "TransferTask list"
  sys_completions :: "CompletedTransfer list"
  sys_outputs :: "ManagerOutput list"
  sys_browsing :: "ConnId \<Rightarrow> nat"
  sys_started :: "TransferTask list"

definition transfer_system_new :: "(ConnId \<Rightarrow> SharedConnection) \<Rightarrow> TransferSystem" where
  "transfer_system_new conns =
     \<lparr>sys_manager = transfer_manager_new, sys_conns = conns, sys_tasks = [], sys_completions = [], sys_outputs = [],
      sys_browsing = (\<lambda>_. 0), sys_started = []\<rparr>"

definition add_channels :: "(ConnId \<Rightarrow> SharedConnection) \<Rightarrow> ConnId \<Rightarrow> ConnId \<Rightarrow> SharedConnection" where
  "add_channels conns c = conns(c := (conns c)\<lparr>sc_active_channels := sc_active_channels (conns c) + 1\<rparr>)"

definition drop_channels :: "(ConnId \<Rightarrow> SharedConnection) \<Rightarrow> ConnId \<Rightarrow> Instant \<Rightarrow> ConnId \<Rightarrow> SharedConnection" where
  "drop_channels conns c now =
     conns(c := (conns c)\<lparr>sc_active_channels := sc_active_channels (conns c) - 1, sc_last_used := now\<rparr>)"

text \<open>One turn of the loop of \<open>start_queued\<close>, for the job just taken out of the queue.\<close>

definition start_task :: "TransferSystem \<Rightarrow> TransferManager \<Rightarrow> QueuedTransfer \<Rightarrow> TransferSystem" where
  "start_task s m queued =
     (let plan = qt_plan_id queued;
          job = (qt_job queued)\<lparr>job_conflict_policy :=
                   (case map_of (tm_plan_policies m) plan of
                      Some policy \<Rightarrow> policy | None \<Rightarrow> job_conflict_policy (qt_job queued))\<rparr>;
          t = job_id job;
          (m1, may_clear) = take_destination_clear_permission m plan t;
          m2 = m1\<lparr>tm_running := AList.update t \<lparr>rt_plan_id = plan, rt_cancel = False\<rparr> (tm_running m1),
                  tm_running_per_plan := count_up (tm_running_per_plan m1) plan\<rparr>;
          (m3, idle) = take_idle_session m2 plan (job_direction job);
          facts = (case map_of (tm_plan_facts m3) plan of
                     Some facts \<Rightarrow> facts | None \<Rightarrow> \<lparr>pf_destination_root = None\<rparr>);
          m4 = m3\<lparr>tm_plan_facts := AList.update plan facts (tm_plan_facts m3)\<rparr>;
          task = \<lparr>task_transfer_id = t, task_plan_id = plan, task_job = job, task_connection = qt_connection queued,
                  task_idle_session = idle, task_facts = facts, task_may_clear_destination = may_clear\<rparr>
      in s\<lparr>sys_manager := m4,
           sys_conns := add_channels (sys_conns s) (qt_connection queued),
           sys_tasks := sys_tasks s @ [task], sys_started := sys_started s @ [task]\<rparr>)"

lemma pending_start_task [simp]: "tm_pending (sys_manager (start_task s m queued)) = tm_pending m"
  by (simp add: start_task_def take_destination_clear_permission_def take_idle_session_def Let_def split_def
      split: option.splits)

function start_queued :: "TransferSystem \<Rightarrow> TransferSystem" where
  "start_queued s =
     (if length (tm_running (sys_manager s)) < MAX_CONCURRENT_TRANSFERS
      then (case next_queued_position (sys_conns s) (sys_manager s) of
              None \<Rightarrow> s
            | Some i \<Rightarrow>
                (case remove_pending (sys_manager s) i of
                   None \<Rightarrow> s
                 | Some (m, queued) \<Rightarrow> start_queued (start_task s m queued)))
      else s)"
  by pat_completeness auto
termination
  by (relation "measure (\<lambda>s. length (tm_pending (sys_manager s)))")
     (auto simp: remove_pending_def remove_at_def Let_def split: if_splits)

declare start_queued.simps [simp del]

section \<open>The end of a task\<close>

datatype TransferJobOutcome =
    Completed
  | Skipped (reusable_session: bool)
  | Failed (retryable: bool)

text \<open>
  A task without an idle session first opens one: either that fails, with an error, or the session has
  the given name. Then the job runs to an outcome.
\<close>

datatype TaskEnd =
    OpenFailed UserFacingError
  | Ran nat TransferJobOutcome

definition task_session :: "TransferTask \<Rightarrow> nat \<Rightarrow> TransferSessionSlot" where
  "task_session task fresh =
     (case task_idle_session task of
        Some slot \<Rightarrow> slot
      | None \<Rightarrow> \<lparr>slot_session = fresh, slot_direction = job_direction (task_job task), slot_facts = task_facts task\<rparr>)"

definition task_retry_route :: "(ConnId \<Rightarrow> SharedConnection) \<Rightarrow> TransferTask \<Rightarrow> RetryRoute" where
  "task_retry_route conns task =
     \<lparr>rr_connection_key = sc_connection_key (conns (task_connection task)), rr_connection = task_connection task,
      rr_plan_id = task_plan_id task, rr_job = task_job task\<rparr>"

fun task_completion :: "(ConnId \<Rightarrow> SharedConnection) \<Rightarrow> TransferTask \<Rightarrow> TaskEnd \<Rightarrow> CompletedTransfer" where
  "task_completion conns task (OpenFailed error) =
     \<lparr>ct_transfer_id = task_transfer_id task,
      ct_retry_route = (if ufe_retryable error then Some (task_retry_route conns task) else None),
      ct_reusable_session = None\<rparr>"
| "task_completion conns task (Ran fresh outcome) =
     \<lparr>ct_transfer_id = task_transfer_id task,
      ct_retry_route = (if outcome = Failed True then Some (task_retry_route conns task) else None),
      ct_reusable_session = (if outcome = Completed \<or> outcome = Skipped True
                             then Some (task_session task fresh) else None)\<rparr>"

fun task_events :: "TransferTask \<Rightarrow> TaskEnd \<Rightarrow> ManagerOutput list" where
  "task_events task (OpenFailed error) =
     [SendEvent (AppEvent.TransferFailed \<lparr>tf_transfer_id = task_transfer_id task, tf_error = error\<rparr>)]"
| "task_events task (Ran _ _) = []"

definition finish_task :: "TransferSystem \<Rightarrow> TransferId \<Rightarrow> TaskEnd \<Rightarrow> Instant \<Rightarrow> TransferSystem" where
  "finish_task s t ending now =
     (case find (\<lambda>task. task_transfer_id task = t) (sys_tasks s) of
        None \<Rightarrow> s
      | Some task \<Rightarrow>
          s\<lparr>sys_tasks := remove_first (\<lambda>task. task_transfer_id task = t) (sys_tasks s),
            sys_conns := drop_channels (sys_conns s) (task_connection task) now,
            sys_completions := sys_completions s @ [task_completion (sys_conns s) task ending],
            sys_outputs := sys_outputs s @ task_events task ending\<rparr>)"

section \<open>The manager's loop\<close>

definition on_request ::
  "(ConnId \<Rightarrow> bool) \<Rightarrow> ConnectionManager \<Rightarrow> TransferSystem \<Rightarrow> TransferManagerRequest \<Rightarrow> TransferSystem" where
  "on_request alive pool s request =
     (let (m, out) = handle_request \<lparr>cx_conns = sys_conns s, cx_alive = alive, cx_pool = pool\<rparr> (sys_manager s) request
      in start_queued (s\<lparr>sys_manager := m, sys_outputs := sys_outputs s @ out\<rparr>))"

definition on_completion :: "TransferSystem \<Rightarrow> TransferSystem" where
  "on_completion s =
     (case sys_completions s of
        [] \<Rightarrow> s
      | completed # rest \<Rightarrow>
          start_queued (s\<lparr>sys_manager := handle_completed (sys_manager s) completed, sys_completions := rest\<rparr>))"

section \<open>Browsing sessions\<close>

text \<open>A session actor counts itself as a channel of its connection while it serves its tab.\<close>

definition browse_open :: "TransferSystem \<Rightarrow> ConnId \<Rightarrow> TransferSystem" where
  "browse_open s c = s\<lparr>sys_conns := add_channels (sys_conns s) c,
     sys_browsing := (sys_browsing s)(c := sys_browsing s c + 1)\<rparr>"

definition browse_close :: "TransferSystem \<Rightarrow> ConnId \<Rightarrow> Instant \<Rightarrow> TransferSystem" where
  "browse_close s c now = s\<lparr>sys_conns := drop_channels (sys_conns s) c now,
     sys_browsing := (sys_browsing s)(c := sys_browsing s c - 1)\<rparr>"

section \<open>Shared with the jobs\<close>

definition resolve_waiters_for_plan ::
  "TransferManager \<Rightarrow> TransferPlanId \<Rightarrow> ConflictDecision \<Rightarrow> TransferManager \<times> ManagerOutput list" where
  "resolve_waiters_for_plan m plan decision =
     (let ids = matching_ids (\<lambda>waiter. cw_plan_id waiter = plan) (tm_conflict_waiters m);
          (rest, sent) = answer_ids cw_sender decision ids (tm_conflict_waiters m)
      in (m\<lparr>tm_conflict_waiters := rest\<rparr>, map (\<lambda>(c, d). SendDecision c d) sent))"

text \<open>
  A job that meets an existing destination registers its waiter and asks; when it has its answer, or was
  cancelled, it takes the waiter back, and an answer for all jobs of the plan is stored as the plan's
  policy and passed on to the other waiters. A new name is stored only if the job could use it
  (\<open>renamed\<close>).
\<close>

definition register_waiter :: "TransferManager \<Rightarrow> ConflictRequestId \<Rightarrow> ConflictWaiter \<Rightarrow> TransferManager" where
  "register_waiter m request waiter =
     m\<lparr>tm_conflict_waiters := AList.update request waiter (tm_conflict_waiters m)\<rparr>"

definition settle_waiter ::
  "TransferManager \<Rightarrow> ConflictRequestId \<Rightarrow> TransferPlanId \<Rightarrow> ConflictDecision \<Rightarrow> bool \<Rightarrow>
   TransferManager \<times> ManagerOutput list" where
  "settle_waiter m request plan decision renamed =
     (let m1 = m\<lparr>tm_conflict_waiters := AList.delete request (tm_conflict_waiters m)\<rparr>
      in case decision of
           ConflictDecision.Overwrite all \<Rightarrow>
             if all then resolve_waiters_for_plan
               (m1\<lparr>tm_plan_policies := AList.update plan OverwriteAll (tm_plan_policies m1)\<rparr>) plan
               (ConflictDecision.Overwrite False)
             else (m1, [])
         | ConflictDecision.Skip all \<Rightarrow>
             if all then resolve_waiters_for_plan
               (m1\<lparr>tm_plan_policies := AList.update plan SkipAll (tm_plan_policies m1)\<rparr>) plan
               (ConflictDecision.Skip False)
             else (m1, [])
         | ConflictDecision.Rename new_name all \<Rightarrow>
             if renamed \<and> all then
               (m1\<lparr>tm_plan_policies := AList.update plan (RenameAll (ExplicitName new_name)) (tm_plan_policies m1)\<rparr>, [])
             else (m1, [])
         | ConflictDecision.CancelJob \<Rightarrow> (m1, []))"

end
