(* ===== verification/Transfer_Manager_Laws.thy ===== *)
theory Transfer_Manager_Laws
  imports Transfer_Manager
begin

text \<open>
  The invariants of the transfer manager: the counters agree with the lists they count, no job is queued,
  running or retryable twice, the limits hold, the records of early cancels stay bounded, and nothing
  is kept for a plan without jobs.
\<close>

section \<open>Counters\<close>

definition tallied :: "('k \<times> nat) list \<Rightarrow> 'k multiset \<Rightarrow> bool" where
  "tallied counts M \<longleftrightarrow> distinct (map fst counts) \<and>
     (\<forall>k. map_of counts k = (if k \<in># M then Some (count M k) else None))"

lemma tallied_empty [simp]: "tallied [] {#}"
  by (simp add: tallied_def)

lemma tallied_counted: "tallied counts M \<Longrightarrow> counted counts k = count M k"
  by (simp add: tallied_def counted_def count_eq_zero_iff)

lemma tallied_None: "tallied counts M \<Longrightarrow> map_of counts k = None \<longleftrightarrow> k \<notin># M"
  by (simp add: tallied_def)

lemma tallied_keys: "tallied counts M \<Longrightarrow> fst ` set counts = set_mset M"
  using tallied_None[of counts M] by (auto simp: map_of_eq_None_iff)

lemma tallied_up:
  assumes "tallied counts M"
  shows "tallied (count_up counts k) (add_mset k M)"
proof -
  have "map_of (count_up counts k) = (map_of counts)(k \<mapsto> count M k + 1)"
    using tallied_counted[OF assms, of k] by (simp add: count_up_def counted_def update_conv')
  then show ?thesis using assms by (auto simp: tallied_def count_up_def distinct_update)
qed

lemma tallied_down:
  assumes "tallied counts M" and "k \<in># M"
  shows "tallied (count_down counts k) (M - {#k#})"
proof -
  have k: "map_of counts k = Some (count M k)" using assms by (simp add: tallied_def)
  have keys: "distinct (map fst (count_down counts k))"
    using assms(1) by (auto simp: tallied_def count_down_def k distinct_update distinct_delete)
  have "map_of (count_down counts k) = (map_of counts)(k := (if count M k - 1 = 0 then None else Some (count M k - 1)))"
    by (simp add: count_down_def k update_conv' delete_conv')
  moreover have "j \<in># M - {#k#} \<longleftrightarrow> (if j = k then 1 < count M k else j \<in># M)" for j
    by (auto simp: in_diff_count)
  ultimately show ?thesis using assms(1) keys by (auto simp: tallied_def)
qed

lemma tallied_drop: "tallied counts M \<Longrightarrow> tallied (AList.delete k counts) (filter_mset (\<lambda>x. x \<noteq> k) M)"
  by (auto simp: tallied_def distinct_delete delete_conv')

section \<open>The invariant of the manager\<close>

abbreviation queued_id :: "QueuedTransfer \<Rightarrow> TransferId" where
  "queued_id queued \<equiv> job_id (qt_job queued)"

definition queue_ok :: "TransferManager \<Rightarrow> bool" where
  "queue_ok m \<longleftrightarrow>
     tallied (tm_pending_per_plan m) (mset (map qt_plan_id (tm_pending m))) \<and>
     distinct (map queued_id (tm_pending m)) \<and>
     distinct (map fst (tm_plan_root_jobs m)) \<and> distinct (map snd (tm_plan_root_jobs m)) \<and>
     tm_pending_roots m = {t. \<exists>q \<in> set (tm_pending m). queued_id q = t \<and> map_of (tm_plan_root_jobs m) (qt_plan_id q) = Some t}"

definition running_ok :: "TransferManager \<Rightarrow> bool" where
  "running_ok m \<longleftrightarrow>
     tallied (tm_running_per_plan m) (mset (map (\<lambda>p. rt_plan_id (snd p)) (tm_running m))) \<and>
     distinct (map fst (tm_running m)) \<and> length (tm_running m) \<le> MAX_CONCURRENT_TRANSFERS \<and>
     (\<forall>plan. count (mset (map (\<lambda>p. rt_plan_id (snd p)) (tm_running m))) plan \<le> MAX_CONCURRENT_PER_PLAN)"

definition ids_ok :: "TransferManager \<Rightarrow> bool" where
  "ids_ok m \<longleftrightarrow>
     distinct (map fst (tm_retry_routes m)) \<and>
     queued_id ` set (tm_pending m) \<inter> fst ` set (tm_running m) = {} \<and>
     fst ` set (tm_retry_routes m) \<inter> queued_id ` set (tm_pending m) = {} \<and>
     fst ` set (tm_retry_routes m) \<inter> fst ` set (tm_running m) = {} \<and>
     (\<forall>(t, route) \<in> set (tm_retry_routes m). job_id (rr_job route) = t)"

definition cancels_ok :: "TransferManager \<Rightarrow> bool" where
  "cancels_ok m \<longleftrightarrow>
     distinct (map fst (tm_cancelled_before_enqueue m)) \<and> distinct (tm_pending_cancel_order m) \<and>
     set (tm_pending_cancel_order m) = fst ` set (tm_cancelled_before_enqueue m) \<and>
     length (tm_pending_cancel_order m) \<le> MAX_PENDING_CANCELS"

definition idle_ok :: "TransferManager \<Rightarrow> bool" where
  "idle_ok m \<longleftrightarrow> distinct (map fst (tm_idle_sessions m)) \<and>
     (\<forall>(plan, slots) \<in> set (tm_idle_sessions m). length slots \<le> MAX_IDLE_SESSIONS_PER_PLAN)"

definition plan_live :: "TransferManager \<Rightarrow> TransferPlanId \<Rightarrow> bool" where
  "plan_live m plan \<longleftrightarrow> plan \<in> qt_plan_id ` set (tm_pending m) \<or> plan \<in> (\<lambda>p. rt_plan_id (snd p)) ` set (tm_running m) \<or>
     plan \<in> (\<lambda>p. rr_plan_id (snd p)) ` set (tm_retry_routes m)"

definition recorded_plans :: "TransferManager \<Rightarrow> TransferPlanId set" where
  "recorded_plans m = fst ` set (tm_plan_root_jobs m) \<union> tm_plan_children_started m \<union> fst ` set (tm_idle_sessions m) \<union>
     fst ` set (tm_plan_facts m) \<union> fst ` set (tm_plan_policies m)"

definition reclaimed_except :: "TransferPlanId set \<Rightarrow> TransferManager \<Rightarrow> bool" where
  "reclaimed_except P m \<longleftrightarrow> (\<forall>plan \<in> recorded_plans m - P. plan_live m plan)"

definition jobs_ok :: "TransferManager \<Rightarrow> bool" where
  "jobs_ok m \<longleftrightarrow> queue_ok m \<and> running_ok m \<and> ids_ok m"

lemmas manager_inv_defs = queue_ok_def running_ok_def ids_ok_def cancels_ok_def idle_ok_def jobs_ok_def

section \<open>Early cancels\<close>

lemma cancels_ok_forget [simp]: "cancels_ok m \<Longrightarrow> cancels_ok (forget_cancellations_for_plan m plan)"
  by (auto simp: cancels_ok_def forget_cancellations_for_plan_def Let_def distinct_map_filter map_of_eq_None_iff
      intro: order_trans[OF length_filter_le])

lemma cancels_ok_take [simp]: "cancels_ok m \<Longrightarrow> cancels_ok (fst (take_pending_cancel m t))"
  by (auto simp: cancels_ok_def take_pending_cancel_def distinct_map_filter delete_as_filter
      intro: order_trans[OF length_filter_le])

lemma drop_oldest_order: "fst (drop_oldest_cancels order cancelled) = drop (length order - MAX_PENDING_CANCELS) order"
  by (induction order cancelled rule: drop_oldest_cancels.induct) (auto simp: Suc_diff_le less_Suc_eq_le)

lemma drop_oldest_ok:
  "distinct order \<Longrightarrow> distinct (map fst cancelled) \<Longrightarrow> set order = fst ` set cancelled \<Longrightarrow>
   drop_oldest_cancels order cancelled = (order', cancelled') \<Longrightarrow>
   distinct order' \<and> distinct (map fst cancelled') \<and> set order' = fst ` set cancelled' \<and>
   length order' \<le> MAX_PENDING_CANCELS"
proof (induction order cancelled rule: drop_oldest_cancels.induct)
  case (2 oldest order cancelled)
  show ?case
  proof (cases "MAX_PENDING_CANCELS < length (oldest # order)")
    case True
    have "set order = fst ` set (AList.delete oldest cancelled)"
      using 2 by (auto simp: delete_as_filter image_iff)
    with 2 True show ?thesis by (simp add: distinct_delete)
  next
    case False
    then have "order' = oldest # order" "cancelled' = cancelled" using 2(5) by auto
    then show ?thesis using 2(2-4) False by (simp add: not_less)
  qed
qed simp

lemma cancels_ok_record [simp]:
  assumes "cancels_ok m"
  shows "cancels_ok (record_pending_cancel m t plan)"
proof -
  let ?c = "AList.update t plan (tm_cancelled_before_enqueue m)"
  let ?o = "if map_of (tm_cancelled_before_enqueue m) t = None then tm_pending_cancel_order m @ [t]
            else tm_pending_cancel_order m"
  obtain order' cancelled' where d: "drop_oldest_cancels ?o ?c = (order', cancelled')" by fastforce
  have "distinct ?o" "distinct (map fst ?c)" "set ?o = fst ` set ?c"
    using assms by (auto simp: cancels_ok_def distinct_update dom_update map_of_eq_None_iff image_iff)
  from drop_oldest_ok[OF this d] show ?thesis
    by (simp add: record_pending_cancel_def d cancels_ok_def Let_def)
qed

section \<open>Jobs: queued, running, retryable\<close>

lemma jobs_ok_new [simp]: "jobs_ok transfer_manager_new"
  by (simp add: manager_inv_defs transfer_manager_new_def)

lemma jobs_ok_forget [simp]: "jobs_ok (forget_cancellations_for_plan m plan) = jobs_ok m"
  by (simp add: manager_inv_defs forget_cancellations_for_plan_def Let_def)

lemma jobs_ok_take_cancel [simp]: "jobs_ok (fst (take_pending_cancel m t)) = jobs_ok m"
  by (simp add: manager_inv_defs take_pending_cancel_def)

lemma jobs_ok_record_cancel [simp]: "jobs_ok (record_pending_cancel m t plan) = jobs_ok m"
  by (simp add: manager_inv_defs record_pending_cancel_def Let_def split_def)

lemma queue_ok_delete_root:
  assumes "queue_ok m" and "plan \<notin> qt_plan_id ` set (tm_pending m)"
  shows "queue_ok (m\<lparr>tm_plan_root_jobs := AList.delete plan (tm_plan_root_jobs m)\<rparr>)"
proof -
  have "map_of (AList.delete plan (tm_plan_root_jobs m)) (qt_plan_id q) = map_of (tm_plan_root_jobs m) (qt_plan_id q)"
    if "q \<in> set (tm_pending m)" for q
    using that assms(2) by (intro map_of_delete) auto
  then show ?thesis using assms(1) by (auto simp: queue_ok_def delete_as_filter distinct_map_filter)
qed

lemma roots_inj:
  "queue_ok m \<Longrightarrow> map_of (tm_plan_root_jobs m) p = Some t \<Longrightarrow> map_of (tm_plan_root_jobs m) p' = Some t \<Longrightarrow> p = p'"
  by (auto simp: queue_ok_def distinct_map inj_on_def dest!: map_of_SomeD) fastforce

lemma jobs_ok_delete_root:
  "jobs_ok m \<Longrightarrow> plan \<notin> qt_plan_id ` set (tm_pending m) \<Longrightarrow>
   jobs_ok (m\<lparr>tm_plan_root_jobs := AList.delete plan (tm_plan_root_jobs m)\<rparr>)"
  using queue_ok_delete_root[of m plan] by (simp add: jobs_ok_def running_ok_def ids_ok_def)

lemma pending_plan_None: "queue_ok m \<Longrightarrow> map_of (tm_pending_per_plan m) plan = None \<longleftrightarrow> plan \<notin> qt_plan_id ` set (tm_pending m)"
  using tallied_None[of "tm_pending_per_plan m" "mset (map qt_plan_id (tm_pending m))" plan] by (simp add: queue_ok_def)

lemma running_plan_None:
  "running_ok m \<Longrightarrow> map_of (tm_running_per_plan m) plan = None \<longleftrightarrow> plan \<notin> (\<lambda>p. rt_plan_id (snd p)) ` set (tm_running m)"
  using tallied_None[of "tm_running_per_plan m" "mset (map (\<lambda>p. rt_plan_id (snd p)) (tm_running m))" plan]
  by (simp add: running_ok_def)

lemma cleanup_alt:
  assumes "jobs_ok m"
  shows "cleanup_plan_if_idle m plan =
    (if plan_live m plan then m
     else forget_cancellations_for_plan
       (m\<lparr>tm_plan_policies := AList.delete plan (tm_plan_policies m),
          tm_plan_root_jobs := AList.delete plan (tm_plan_root_jobs m),
          tm_plan_children_started := tm_plan_children_started m - {plan},
          tm_idle_sessions := AList.delete plan (tm_idle_sessions m),
          tm_plan_facts := AList.delete plan (tm_plan_facts m)\<rparr>) plan)"
proof -
  have "queue_ok m" "running_ok m" using assms by (simp_all add: jobs_ok_def)
  then show ?thesis
    using pending_plan_None[of m plan] running_plan_None[of m plan]
    by (auto simp: cleanup_plan_if_idle_def plan_live_def Let_def list_ex_iff image_iff split_def)
qed

lemma jobs_ok_cleanup [simp]:
  assumes "jobs_ok m"
  shows "jobs_ok (cleanup_plan_if_idle m plan)"
proof (cases "plan_live m plan")
  case False
  then have "jobs_ok (m\<lparr>tm_plan_root_jobs := AList.delete plan (tm_plan_root_jobs m)\<rparr>)"
    using assms by (intro jobs_ok_delete_root) (auto simp: plan_live_def)
  then show ?thesis
    using assms False by (simp add: cleanup_alt) (simp add: manager_inv_defs)
qed (use assms in \<open>simp add: cleanup_alt\<close>)

lemma jobs_ok_push:
  assumes "jobs_ok m" and "queued_id q \<notin> queued_id ` set (tm_pending m)"
    and "queued_id q \<notin> fst ` set (tm_running m)" and "queued_id q \<notin> fst ` set (tm_retry_routes m)"
  shows "jobs_ok (push_pending m q)"
  using assms tallied_up[of "tm_pending_per_plan m" _ "qt_plan_id q"]
  by (auto simp: manager_inv_defs push_pending_def)

lemma mset_remove_at: "i < length xs \<Longrightarrow> mset (remove_at i xs) = mset xs - {#xs ! i#}"
proof -
  assume i: "i < length xs"
  have "mset xs = add_mset (xs ! i) (mset (remove_at i xs))"
    using arg_cong[OF id_take_nth_drop[OF i], of mset] by (simp add: remove_at_def)
  then show ?thesis by simp
qed

lemma set_remove_at_key:
  assumes "i < length xs" and "distinct (map f xs)"
  shows "set (remove_at i xs) = set xs - {xs ! i} \<and> distinct (map f (remove_at i xs)) \<and>
    f ` set (remove_at i xs) = f ` set xs - {f (xs ! i)}"
proof -
  have e: "xs = take i xs @ xs ! i # drop (Suc i) xs" by (rule id_take_nth_drop[OF assms(1)])
  have "distinct (map f (take i xs @ xs ! i # drop (Suc i) xs))" using assms(2) e by simp
  then have "distinct (map f (take i xs @ drop (Suc i) xs))" "f (xs ! i) \<notin> f ` set (take i xs @ drop (Suc i) xs)"
    by auto
  moreover have "set xs = insert (xs ! i) (set (take i xs @ drop (Suc i) xs))" by (subst e) auto
  ultimately show ?thesis by (auto simp: remove_at_def)
qed

lemma remove_pending_ok:
  assumes "jobs_ok m" and "remove_pending m i = Some (m', q)"
  shows "jobs_ok m'" and "q \<in> set (tm_pending m)" and "queued_id q \<notin> queued_id ` set (tm_pending m')"
    and "set (tm_pending m') = set (tm_pending m) - {q}"
proof -
  have i: "i < length (tm_pending m)" and q: "q = tm_pending m ! i"
    and m': "m' = m\<lparr>tm_pending := remove_at i (tm_pending m),
      tm_pending_per_plan := count_down (tm_pending_per_plan m) (qt_plan_id q),
      tm_pending_roots := tm_pending_roots m - {queued_id q}\<rparr>"
    using assms(2) by (auto simp: remove_pending_def Let_def split: if_splits)
  have d: "distinct (map queued_id (tm_pending m))" using assms(1) by (simp add: manager_inv_defs)
  note r = set_remove_at_key[OF i, of queued_id]
  have r1: "set (remove_at i (tm_pending m)) = set (tm_pending m) - {q}"
    and r3: "queued_id q \<notin> queued_id ` set (remove_at i (tm_pending m))"
    using r[OF d] by (simp_all only: q) blast
  show qm: "q \<in> set (tm_pending m)" using i q by simp
  show "set (tm_pending m') = set (tm_pending m) - {q}" "queued_id q \<notin> queued_id ` set (tm_pending m')"
    unfolding m' using r1 r3 by simp_all
  have "tallied (tm_pending_per_plan m') (mset (map qt_plan_id (tm_pending m')))"
    using assms(1) qm tallied_down[of "tm_pending_per_plan m" "mset (map qt_plan_id (tm_pending m))" "qt_plan_id q"]
    by (simp add: m' manager_inv_defs mset_remove_at[OF i] image_mset_Diff q)
  moreover have "tm_pending_roots m' =
      {t. \<exists>q \<in> set (tm_pending m'). queued_id q = t \<and> map_of (tm_plan_root_jobs m') (qt_plan_id q) = Some t}"
  proof -
    have "q' \<in> set (tm_pending m') \<longleftrightarrow> q' \<in> set (tm_pending m) \<and> queued_id q' \<noteq> queued_id q" for q'
      using r[OF d] q qm d by (auto simp: m' distinct_map inj_on_def)
    then show ?thesis using assms(1) by (auto simp: m' manager_inv_defs)
  qed
  moreover have "distinct (map queued_id (tm_pending m'))"
    using r[OF d] by (simp add: m')
  ultimately have "queue_ok m'" using assms(1) by (simp add: jobs_ok_def queue_ok_def m')
  moreover have "running_ok m'" using assms(1) by (simp add: jobs_ok_def running_ok_def m')
  moreover have sub: "queued_id ` set (tm_pending m') \<subseteq> queued_id ` set (tm_pending m)" by (auto simp: m' r1)
  have "queued_id ` set (tm_pending m') \<inter> fst ` set (tm_running m) = {}"
    "fst ` set (tm_retry_routes m) \<inter> queued_id ` set (tm_pending m') = {}"
    using assms(1) sub unfolding jobs_ok_def ids_ok_def by fast+
  then have "ids_ok m'" using assms(1) by (simp add: jobs_ok_def ids_ok_def m')
  ultimately show "jobs_ok m'" by (simp add: jobs_ok_def)
qed

end
