(* ===== verification/Transfer_Manager_Steps.thy ===== *)
theory Transfer_Manager_Steps
  imports Transfer_Manager_Laws
begin

text \<open>
  That every request, every completion and every start keeps the invariants of the transfer manager.
\<close>

section \<open>Requests: the jobs\<close>

lemma jobs_ok_retain:
  assumes "jobs_ok m"
  shows "jobs_ok (retain_pending_not_plan m plan)"
proof -
  let ?m = "retain_pending_not_plan m plan"
  have "tallied (tm_pending_per_plan ?m) (mset (map qt_plan_id (tm_pending ?m)))"
    using assms tallied_drop[of "tm_pending_per_plan m" "mset (map qt_plan_id (tm_pending m))" plan]
    by (simp add: manager_inv_defs retain_pending_not_plan_def
        image_mset_filter_mset_swap[of qt_plan_id "\<lambda>x. x \<noteq> plan", symmetric])
  moreover have "tm_pending_roots ?m =
      {t. \<exists>q \<in> set (tm_pending ?m). queued_id q = t \<and> map_of (tm_plan_root_jobs ?m) (qt_plan_id q) = Some t}"
  proof -
    have inj: "p = p'" if "map_of (tm_plan_root_jobs m) p = Some t" "map_of (tm_plan_root_jobs m) p' = Some t" for p p' t
      using roots_inj[OF _ that] assms by (simp add: jobs_ok_def)
    have "tm_pending_roots m =
        {t. \<exists>q \<in> set (tm_pending m). queued_id q = t \<and> map_of (tm_plan_root_jobs m) (qt_plan_id q) = Some t}"
      using assms by (simp add: manager_inv_defs)
    then show ?thesis
      by (cases "map_of (tm_plan_root_jobs m) plan") (auto simp: retain_pending_not_plan_def dest: inj)
  qed
  ultimately show ?thesis
    using assms by (auto simp: manager_inv_defs retain_pending_not_plan_def distinct_map_filter)
qed

lemma jobs_ok_frame [simp]:
  "jobs_ok (m\<lparr>tm_plan_policies := x\<rparr>) = jobs_ok m"
  "jobs_ok (m\<lparr>tm_plan_children_started := y\<rparr>) = jobs_ok m"
  "jobs_ok (m\<lparr>tm_idle_sessions := z\<rparr>) = jobs_ok m"
  "jobs_ok (m\<lparr>tm_plan_facts := f\<rparr>) = jobs_ok m"
  "jobs_ok (m\<lparr>tm_conflict_waiters := w\<rparr>) = jobs_ok m"
  by (simp_all add: manager_inv_defs)

lemma jobs_ok_mark_cancel:
  assumes "jobs_ok m" and "map fst running = map fst (tm_running m)"
    and "map (\<lambda>p. rt_plan_id (snd p)) running = map (\<lambda>p. rt_plan_id (snd p)) (tm_running m)"
  shows "jobs_ok (m\<lparr>tm_running := running\<rparr>)"
proof -
  have "length running = length (tm_running m)" using assms(2) by (metis length_map)
  moreover have "fst ` set running = fst ` set (tm_running m)" using assms(2) by (metis list.set_map)
  ultimately show ?thesis
    using assms by (simp add: manager_inv_defs flip: mset_map)
qed

lemma jobs_ok_cancel_plan_mid:
  fixes plan :: TransferPlanId
  assumes "jobs_ok m"
  defines "m2 \<equiv> retain_pending_not_plan (forget_cancellations_for_plan m plan) plan"
  defines "m3 \<equiv> m2\<lparr>tm_running := map (\<lambda>(t, running).
    if rt_plan_id running = plan then (t, running\<lparr>rt_cancel := True\<rparr>) else (t, running)) (tm_running m2)\<rparr>"
  shows "jobs_ok m3" and "jobs_ok (m3\<lparr>tm_plan_root_jobs := AList.delete plan (tm_plan_root_jobs m3)\<rparr>)"
proof -
  have "jobs_ok m2" using assms(1) by (simp add: m2_def jobs_ok_retain)
  then show m3: "jobs_ok m3" unfolding m3_def by (rule jobs_ok_mark_cancel) auto
  have "plan \<notin> qt_plan_id ` set (tm_pending m3)"
    by (auto simp: m3_def m2_def retain_pending_not_plan_def)
  with m3 show "jobs_ok (m3\<lparr>tm_plan_root_jobs := AList.delete plan (tm_plan_root_jobs m3)\<rparr>)"
    by (rule jobs_ok_delete_root)
qed

lemma jobs_ok_cancel_plan:
  assumes "jobs_ok m"
  shows "jobs_ok (fst (cancel_plan m plan))"
  using jobs_ok_cancel_plan_mid[OF assms, of plan] by (auto simp: cancel_plan_def Let_def)

lemma record_root_frame [simp]:
  "tm_pending (record_plan_root m plan root) = tm_pending m"
  "tm_running (record_plan_root m plan root) = tm_running m"
  "tm_retry_routes (record_plan_root m plan root) = tm_retry_routes m"
  "tm_pending_per_plan (record_plan_root m plan root) = tm_pending_per_plan m"
  "tm_pending_roots (record_plan_root m plan root) = tm_pending_roots m"
  "tm_running_per_plan (record_plan_root m plan root) = tm_running_per_plan m"
  by (simp_all add: record_plan_root_def Let_def)

lemma jobs_ok_record_root:
  assumes "jobs_ok m" and "plan \<notin> qt_plan_id ` set (tm_pending m)" and "job_id root \<notin> snd ` set (tm_plan_root_jobs m)"
  shows "jobs_ok (record_plan_root m plan root)"
proof -
  let ?m = "record_plan_root m plan root"
  have look: "map_of (tm_plan_root_jobs ?m) (qt_plan_id q) = map_of (tm_plan_root_jobs m) (qt_plan_id q)"
    if "q \<in> set (tm_pending m)" for q
    using that assms(2) by (auto simp: update_conv' record_plan_root_def Let_def)
  have "distinct (map fst (tm_plan_root_jobs m))" "distinct (map snd (tm_plan_root_jobs m))"
    using assms(1) by (simp_all add: manager_inv_defs)
  then have "distinct (map fst (tm_plan_root_jobs ?m))" "distinct (map snd (tm_plan_root_jobs ?m))"
    using assms(3) by (auto simp: record_plan_root_def Let_def map_of_eq_None_iff update_absent)
  then show ?thesis
    using assms(1) look by (simp add: manager_inv_defs cong: bex_cong)
qed

lemma forget_frame [simp]:
  "tm_pending (forget_cancellations_for_plan m plan) = tm_pending m"
  "tm_running (forget_cancellations_for_plan m plan) = tm_running m"
  "tm_retry_routes (forget_cancellations_for_plan m plan) = tm_retry_routes m"
  "tm_plan_root_jobs (forget_cancellations_for_plan m plan) = tm_plan_root_jobs m"
  "tm_plan_children_started (forget_cancellations_for_plan m plan) = tm_plan_children_started m"
  by (simp_all add: forget_cancellations_for_plan_def Let_def)

lemma cleanup_frame [simp]:
  "tm_pending (cleanup_plan_if_idle m plan) = tm_pending m"
  "tm_running (cleanup_plan_if_idle m plan) = tm_running m"
  "tm_retry_routes (cleanup_plan_if_idle m plan) = tm_retry_routes m"
  by (simp_all add: cleanup_plan_if_idle_def Let_def)

lemma take_cancel_frame [simp]:
  "tm_pending (fst (take_pending_cancel m t)) = tm_pending m"
  "tm_running (fst (take_pending_cancel m t)) = tm_running m"
  "tm_retry_routes (fst (take_pending_cancel m t)) = tm_retry_routes m"
  "tm_plan_root_jobs (fst (take_pending_cancel m t)) = tm_plan_root_jobs m"
  by (simp_all add: take_pending_cancel_def)

lemma push_frame [simp]:
  "tm_pending (push_pending m q) = tm_pending m @ [q]"
  "tm_running (push_pending m q) = tm_running m"
  "tm_retry_routes (push_pending m q) = tm_retry_routes m"
  "tm_plan_root_jobs (push_pending m q) = tm_plan_root_jobs m"
  by (simp_all add: push_pending_def)

lemma enqueue_jobs_Cons:
  "enqueue_jobs m c plan (job # jobs) =
    (if snd (take_pending_cancel m (job_id job))
     then (fst (enqueue_jobs (fst (take_pending_cancel m (job_id job))) c plan jobs),
           job_id job # snd (enqueue_jobs (fst (take_pending_cancel m (job_id job))) c plan jobs))
     else enqueue_jobs (push_pending (fst (take_pending_cancel m (job_id job)))
            \<lparr>qt_connection = c, qt_plan_id = plan, qt_job = job\<rparr>) c plan jobs)"
  by (simp add: split_def Let_def split: prod.splits bool.splits)

declare enqueue_jobs.simps(2) [simp del]

lemma jobs_ok_enqueue_jobs:
  assumes "jobs_ok m" and "distinct (map job_id jobs)"
    and "\<forall>j \<in> set jobs. job_id j \<notin> queued_id ` set (tm_pending m) \<and> job_id j \<notin> fst ` set (tm_running m) \<and>
      job_id j \<notin> fst ` set (tm_retry_routes m)"
  shows "jobs_ok (fst (enqueue_jobs m c plan jobs))"
  using assms
proof (induction jobs arbitrary: m)
  case (Cons job jobs)
  let ?m = "fst (take_pending_cancel m (job_id job))"
  have ok: "jobs_ok ?m" using Cons.prems by simp
  show ?case
  proof (cases "snd (take_pending_cancel m (job_id job))")
    case True
    with Cons.IH[OF ok] Cons.prems show ?thesis by (simp add: enqueue_jobs_Cons)
  next
    case False
    let ?q = "\<lparr>qt_connection = c, qt_plan_id = plan, qt_job = job\<rparr>"
    have "jobs_ok (push_pending ?m ?q)" using Cons.prems ok by (intro jobs_ok_push) auto
    then have "jobs_ok (fst (enqueue_jobs (push_pending ?m ?q) c plan jobs))"
      using Cons.prems by (intro Cons.IH) (auto simp: rev_image_eqI)
    with False show ?thesis by (simp add: enqueue_jobs_Cons)
  qed
qed simp

lemma admit_frame [simp]:
  "tm_pending (admit_plan m plan jobs record_root) = tm_pending m"
  "tm_running (admit_plan m plan jobs record_root) = tm_running m"
  "tm_retry_routes (admit_plan m plan jobs record_root) = tm_retry_routes m"
  by (simp_all add: admit_plan_def Let_def)

definition fresh_jobs :: "TransferManager \<Rightarrow> TransferPlanId \<Rightarrow> TransferJob list \<Rightarrow> bool \<Rightarrow> bool" where
  "fresh_jobs m plan jobs record_root \<longleftrightarrow> distinct (map job_id jobs) \<and>
     (\<forall>j \<in> set jobs. job_id j \<notin> queued_id ` set (tm_pending m) \<and> job_id j \<notin> fst ` set (tm_running m) \<and>
        job_id j \<notin> fst ` set (tm_retry_routes m)) \<and>
     (record_root \<longrightarrow> plan \<notin> qt_plan_id ` set (tm_pending m) \<and>
        (\<forall>j \<in> set jobs. job_id j \<notin> snd ` set (tm_plan_root_jobs m)))"

lemma jobs_ok_admit:
  assumes "jobs_ok m" and "fresh_jobs m plan jobs record_root"
  shows "jobs_ok (admit_plan m plan jobs record_root)"
proof -
  have "job_id (hd jobs) \<notin> snd ` set (tm_plan_root_jobs m)" if "record_root" "jobs \<noteq> []"
    using that assms(2) hd_in_set[of jobs] by (auto simp: fresh_jobs_def)
  then show ?thesis
    using assms jobs_ok_record_root[of m plan "hd jobs"]
      jobs_ok_record_root[of "m\<lparr>tm_plan_policies := AList.update plan (job_conflict_policy (hd jobs)) (tm_plan_policies m)\<rparr>"
        plan "hd jobs"]
    by (simp add: admit_plan_def fresh_jobs_def Let_def)
qed

lemma jobs_ok_admit_jobs:
  "jobs_ok m \<Longrightarrow> fresh_jobs m plan jobs record_root \<Longrightarrow>
   jobs_ok (fst (enqueue_jobs (admit_plan m plan jobs record_root) c plan jobs))"
  using jobs_ok_admit by (intro jobs_ok_enqueue_jobs) (auto simp: fresh_jobs_def)

lemma jobs_ok_enqueue:
  "jobs_ok m \<Longrightarrow> fresh_jobs m plan jobs record_root \<Longrightarrow> jobs_ok (fst (enqueue m c plan jobs record_root))"
  using jobs_ok_admit_jobs by (simp add: enqueue_def Let_def split_def)

lemma jobs_ok_cancel_transfer:
  assumes "jobs_ok m"
  shows "jobs_ok (fst (cancel_transfer m t plan))"
proof -
  have "jobs_ok (m\<lparr>tm_running := AList.update t (r\<lparr>rt_cancel := True\<rparr>) (tm_running m)\<rparr>)"
    if r: "map_of (tm_running m) t = Some r" for r
  proof (rule jobs_ok_mark_cancel[OF assms])
    have t: "t \<in> set (map fst (tm_running m))" using r by (auto dest: map_of_SomeD intro: rev_image_eqI)
    then show "map fst (AList.update t (r\<lparr>rt_cancel := True\<rparr>) (tm_running m)) = map fst (tm_running m)"
      by (simp add: update_keys)
    have d: "distinct (map fst (tm_running m))" using assms by (simp add: manager_inv_defs)
    show "map (\<lambda>p. rt_plan_id (snd p)) (AList.update t (r\<lparr>rt_cancel := True\<rparr>) (tm_running m)) =
        map (\<lambda>p. rt_plan_id (snd p)) (tm_running m)"
      using r d by (auto simp: update_in_place[OF d r] dest!: map_of_SomeD dest: eq_key_imp_eq_value)
  qed
  then show ?thesis
    using assms jobs_ok_cancel_plan remove_pending_ok(1)[OF assms]
    by (auto simp: cancel_transfer_def split: option.splits)
qed

lemma jobs_ok_drop_route:
  assumes "jobs_ok m"
  shows "jobs_ok (m\<lparr>tm_retry_routes := AList.delete t (tm_retry_routes m)\<rparr>)"
  using assms by (auto simp: manager_inv_defs distinct_map_filter delete_as_filter)

lemma jobs_ok_set_route:
  assumes "jobs_ok m" and "t \<notin> queued_id ` set (tm_pending m)" and "t \<notin> fst ` set (tm_running m)"
    and "job_id (rr_job route) = t" and "t \<notin> fst ` set (tm_retry_routes m)"
  shows "jobs_ok (m\<lparr>tm_retry_routes := AList.update t route (tm_retry_routes m)\<rparr>)"
  using assms by (auto simp: manager_inv_defs update_absent)

lemma jobs_ok_retry:
  assumes "jobs_ok m"
  shows "jobs_ok (fst (retry_transfer cx m t))"
proof (cases "map_of (tm_retry_routes m) t")
  case (Some route)
  let ?m1 = "m\<lparr>tm_retry_routes := AList.delete t (tm_retry_routes m)\<rparr>"
  let ?m2 = "fst (take_pending_cancel ?m1 t)"
  have mem: "(t, route) \<in> set (tm_retry_routes m)" using Some by (rule map_of_SomeD)
  then have "t \<in> fst ` set (tm_retry_routes m)" by (auto intro: rev_image_eqI)
  with mem have free: "job_id (rr_job route) = t" "t \<notin> queued_id ` set (tm_pending m)" "t \<notin> fst ` set (tm_running m)"
    using assms unfolding jobs_ok_def ids_ok_def by blast+
  have m2: "jobs_ok ?m2" using jobs_ok_drop_route[OF assms] by simp
  have gone: "t \<notin> fst ` set (tm_retry_routes ?m2)" by (auto simp: delete_as_filter)
  have "jobs_ok (fst (enqueue ?m2 c (rr_plan_id route) [rr_job route] False))" for c
    using m2 free gone by (intro jobs_ok_enqueue) (auto simp: fresh_jobs_def)
  moreover have "jobs_ok (?m2\<lparr>tm_retry_routes := AList.update t route (tm_retry_routes ?m2)\<rparr>)"
    using m2 free gone by (intro jobs_ok_set_route) auto
  ultimately show ?thesis
    using Some by (auto simp: retry_transfer_def Let_def split: option.splits)
qed (use assms in \<open>simp add: retry_transfer_def\<close>)

section \<open>Completions and starts: the jobs\<close>

lemma mset_delete:
  "distinct (map fst al) \<Longrightarrow> map_of al t = Some r \<Longrightarrow> mset al = add_mset (t, r) (mset (AList.delete t al))"
  by (induction al) (auto simp: image_iff split: if_splits)

lemma jobs_ok_drop_running:
  assumes "jobs_ok m" and r: "map_of (tm_running m) t = Some r"
  shows "jobs_ok (m\<lparr>tm_running := AList.delete t (tm_running m),
    tm_running_per_plan := count_down (tm_running_per_plan m) (rt_plan_id r)\<rparr>)"
proof -
  let ?f = "\<lambda>p. rt_plan_id (snd p)" and ?al = "AList.delete t (tm_running m)"
  have d: "distinct (map fst (tm_running m))" using assms(1) by (simp add: manager_inv_defs)
  have e: "mset (map ?f (tm_running m)) = add_mset (rt_plan_id r) (mset (map ?f ?al))"
    using mset_delete[OF d r] by simp
  then have "tallied (count_down (tm_running_per_plan m) (rt_plan_id r)) (mset (map ?f ?al))"
    using assms(1) tallied_down[of "tm_running_per_plan m" "mset (map ?f (tm_running m))" "rt_plan_id r"]
    by (simp add: manager_inv_defs)
  moreover have "count (mset (map ?f ?al)) plan \<le> count (mset (map ?f (tm_running m))) plan" for plan
    unfolding e by simp
  then have "\<forall>plan. count (mset (map ?f ?al)) plan \<le> MAX_CONCURRENT_PER_PLAN"
    using assms(1) unfolding jobs_ok_def running_ok_def by (meson order_trans)
  moreover have "length ?al \<le> MAX_CONCURRENT_TRANSFERS"
    using assms(1) length_delete_le[of t "tm_running m"] by (simp add: manager_inv_defs)
  ultimately show ?thesis
    using assms(1) d by (auto simp: manager_inv_defs distinct_map_filter delete_as_filter)
qed

lemma jobs_ok_add_running:
  assumes "jobs_ok m" and "t \<notin> queued_id ` set (tm_pending m)" and "t \<notin> fst ` set (tm_running m)"
    and "t \<notin> fst ` set (tm_retry_routes m)" and "length (tm_running m) < MAX_CONCURRENT_TRANSFERS"
    and "counted (tm_running_per_plan m) (rt_plan_id r) < MAX_CONCURRENT_PER_PLAN"
  shows "jobs_ok (m\<lparr>tm_running := AList.update t r (tm_running m),
    tm_running_per_plan := count_up (tm_running_per_plan m) (rt_plan_id r)\<rparr>)"
proof -
  let ?M = "mset (map (\<lambda>p. rt_plan_id (snd p)) (tm_running m))"
  have t: "tallied (tm_running_per_plan m) ?M" using assms(1) by (simp add: manager_inv_defs)
  have "count ?M (rt_plan_id r) < MAX_CONCURRENT_PER_PLAN" using assms(6) tallied_counted[OF t] by simp
  then show ?thesis
    using assms tallied_up[OF t, of "rt_plan_id r"] by (auto simp: manager_inv_defs update_absent Suc_le_eq)
qed

lemma return_idle_frame [simp]:
  "jobs_ok (return_idle_session m plan slot) = jobs_ok m"
  "tm_pending (return_idle_session m plan slot) = tm_pending m"
  "tm_running (return_idle_session m plan slot) = tm_running m"
  "tm_retry_routes (return_idle_session m plan slot) = tm_retry_routes m"
  by (simp_all add: return_idle_session_def Let_def)

lemma take_idle_frame [simp]:
  "jobs_ok (fst (take_idle_session m plan direction)) = jobs_ok m"
  "tm_pending (fst (take_idle_session m plan direction)) = tm_pending m"
  "tm_running (fst (take_idle_session m plan direction)) = tm_running m"
  "tm_retry_routes (fst (take_idle_session m plan direction)) = tm_retry_routes m"
  "tm_plan_root_jobs (fst (take_idle_session m plan direction)) = tm_plan_root_jobs m"
  "tm_plan_children_started (fst (take_idle_session m plan direction)) = tm_plan_children_started m"
  by (simp_all add: take_idle_session_def Let_def split: option.splits)

lemma clear_permission_frame [simp]:
  "jobs_ok (fst (take_destination_clear_permission m plan t)) = jobs_ok m"
  "tm_pending (fst (take_destination_clear_permission m plan t)) = tm_pending m"
  "tm_running (fst (take_destination_clear_permission m plan t)) = tm_running m"
  "tm_retry_routes (fst (take_destination_clear_permission m plan t)) = tm_retry_routes m"
  "tm_running_per_plan (fst (take_destination_clear_permission m plan t)) = tm_running_per_plan m"
  "tm_plan_root_jobs (fst (take_destination_clear_permission m plan t)) = tm_plan_root_jobs m"
  by (simp_all add: take_destination_clear_permission_def Let_def)

lemma completed_frame:
  "tm_pending (handle_completed m c) = tm_pending m"
  "tm_running (handle_completed m c) = AList.delete (ct_transfer_id c) (tm_running m)"
  "tm_retry_routes (handle_completed m c) =
     (case ct_retry_route c of Some route \<Rightarrow> AList.update (ct_transfer_id c) route (tm_retry_routes m)
      | None \<Rightarrow> AList.delete (ct_transfer_id c) (tm_retry_routes m))"
  by (auto simp: handle_completed_def Let_def map_of_eq_None_iff split: option.splits)

lemma jobs_ok_completed:
  assumes "jobs_ok m" and "map_of (tm_running m) (ct_transfer_id c) = Some r"
    and "\<And>route. ct_retry_route c = Some route \<Longrightarrow> job_id (rr_job route) = ct_transfer_id c"
  shows "jobs_ok (handle_completed m c)"
proof -
  let ?t = "ct_transfer_id c"
  let ?m1 = "m\<lparr>tm_running := AList.delete ?t (tm_running m),
    tm_running_per_plan := count_down (tm_running_per_plan m) (rt_plan_id r)\<rparr>"
  have t: "?t \<in> fst ` set (tm_running m)" using assms(2) by (auto dest: map_of_SomeD intro: rev_image_eqI)
  then have "?t \<notin> queued_id ` set (tm_pending m)" "?t \<notin> fst ` set (tm_retry_routes m)"
    using assms(1) unfolding jobs_ok_def ids_ok_def by blast+
  moreover have "?t \<notin> fst ` set (AList.delete ?t (tm_running m))" by (rule delete_notin_dom)
  moreover have m1: "jobs_ok ?m1" by (rule jobs_ok_drop_running[OF assms(1,2)])
  ultimately have "jobs_ok (?m1\<lparr>tm_retry_routes := AList.update ?t route (tm_retry_routes ?m1)\<rparr>)"
    if "ct_retry_route c = Some route" for route
    using assms(3)[OF that] by (intro jobs_ok_set_route) auto
  then show ?thesis
    using m1 jobs_ok_drop_route[OF m1, of ?t]
    by (auto simp: handle_completed_def assms(2) Let_def split: option.splits)
qed

text \<open>What one start does to the manager.\<close>

lemma start_task_frame:
  "tm_running (sys_manager (start_task s m q)) =
     AList.update (queued_id q) \<lparr>rt_plan_id = qt_plan_id q, rt_cancel = False\<rparr> (tm_running m)"
  "tm_retry_routes (sys_manager (start_task s m q)) = tm_retry_routes m"
  "tm_plan_root_jobs (sys_manager (start_task s m q)) = tm_plan_root_jobs m"
  by (simp_all add: start_task_def Let_def split_def)

lemma jobs_ok_start:
  assumes "jobs_ok m0" and "remove_pending m0 i = Some (m, q)" and "is_eligible conns m0 q"
    and "length (tm_running m0) < MAX_CONCURRENT_TRANSFERS"
  shows "jobs_ok (sys_manager (start_task s m q))"
proof -
  note r = remove_pending_ok[OF assms(1,2)]
  have same: "tm_running m = tm_running m0" "tm_running_per_plan m = tm_running_per_plan m0"
    "tm_retry_routes m = tm_retry_routes m0"
    using assms(2) by (auto simp: remove_pending_def Let_def split: if_splits)
  have "queued_id q \<in> queued_id ` set (tm_pending m0)" using r(2) by simp
  then have free: "queued_id q \<notin> fst ` set (tm_running m)" "queued_id q \<notin> fst ` set (tm_retry_routes m)"
    using assms(1) unfolding same jobs_ok_def ids_ok_def by blast+
  have c: "counted (tm_running_per_plan m) (qt_plan_id q) < MAX_CONCURRENT_PER_PLAN"
    using assms(3) same by (auto simp: is_eligible_def Let_def split: if_splits)
  let ?m1 = "fst (take_destination_clear_permission m (qt_plan_id q) (queued_id q))"
  let ?r = "\<lparr>rt_plan_id = qt_plan_id q, rt_cancel = False\<rparr>"
  have "jobs_ok (?m1\<lparr>tm_running := AList.update (queued_id q) ?r (tm_running ?m1),
      tm_running_per_plan := count_up (tm_running_per_plan ?m1) (rt_plan_id ?r)\<rparr>)"
    using r free c assms(4) same by (intro jobs_ok_add_running) auto
  then show ?thesis by (simp add: start_task_def Let_def split_def)
qed

section \<open>Early cancels and idle sessions\<close>

definition slack_ok :: "TransferManager \<Rightarrow> bool" where
  "slack_ok m \<longleftrightarrow> cancels_ok m \<and> idle_ok m"

lemma cancels_ok_cong:
  "tm_cancelled_before_enqueue m' = tm_cancelled_before_enqueue m \<Longrightarrow>
   tm_pending_cancel_order m' = tm_pending_cancel_order m \<Longrightarrow> cancels_ok m' = cancels_ok m"
  by (simp add: cancels_ok_def)

lemma idle_ok_cong: "tm_idle_sessions m' = tm_idle_sessions m \<Longrightarrow> idle_ok m' = idle_ok m"
  by (simp add: idle_ok_def)

lemma slack_forget [simp]: "slack_ok m \<Longrightarrow> slack_ok (forget_cancellations_for_plan m plan)"
  using idle_ok_cong[of "forget_cancellations_for_plan m plan" m]
  by (simp add: slack_ok_def) (simp add: forget_cancellations_for_plan_def Let_def)

lemma slack_take [simp]: "slack_ok m \<Longrightarrow> slack_ok (fst (take_pending_cancel m t))"
  using idle_ok_cong[of "fst (take_pending_cancel m t)" m]
  by (simp add: slack_ok_def) (simp add: take_pending_cancel_def)

lemma slack_record [simp]: "slack_ok m \<Longrightarrow> slack_ok (record_pending_cancel m t plan)"
  using idle_ok_cong[of "record_pending_cancel m t plan" m]
  by (simp add: slack_ok_def) (simp add: record_pending_cancel_def Let_def split_def)

lemma idle_ok_delete: "idle_ok m \<Longrightarrow> idle_ok (m\<lparr>tm_idle_sessions := AList.delete plan (tm_idle_sessions m)\<rparr>)"
  by (auto simp: idle_ok_def delete_as_filter distinct_map_filter)

lemma idle_ok_update:
  assumes "idle_ok m" and "length slots \<le> MAX_IDLE_SESSIONS_PER_PLAN"
  shows "idle_ok (m\<lparr>tm_idle_sessions := AList.update plan slots (tm_idle_sessions m)\<rparr>)"
proof -
  have "set (AList.update plan slots al) \<subseteq> insert (plan, slots) (set al)" for al
    by (induction al) auto
  from subsetD[OF this] show ?thesis
    using assms unfolding idle_ok_def by (fastforce simp: distinct_update)
qed

lemma slack_frame [simp]:
  "slack_ok (m\<lparr>tm_plan_policies := a\<rparr>) = slack_ok m"
  "slack_ok (m\<lparr>tm_plan_children_started := b\<rparr>) = slack_ok m"
  "slack_ok (m\<lparr>tm_plan_facts := c\<rparr>) = slack_ok m"
  "slack_ok (m\<lparr>tm_conflict_waiters := d\<rparr>) = slack_ok m"
  "slack_ok (m\<lparr>tm_retry_routes := e\<rparr>) = slack_ok m"
  "slack_ok (m\<lparr>tm_running := f\<rparr>) = slack_ok m"
  "slack_ok (m\<lparr>tm_running_per_plan := g\<rparr>) = slack_ok m"
  "slack_ok (m\<lparr>tm_pending := h\<rparr>) = slack_ok m"
  "slack_ok (m\<lparr>tm_pending_per_plan := i\<rparr>) = slack_ok m"
  "slack_ok (m\<lparr>tm_pending_roots := j\<rparr>) = slack_ok m"
  "slack_ok (m\<lparr>tm_plan_root_jobs := k\<rparr>) = slack_ok m"
  by (simp_all add: slack_ok_def cancels_ok_def idle_ok_def)

lemma slack_idle_update:
  "slack_ok m \<Longrightarrow> length slots \<le> MAX_IDLE_SESSIONS_PER_PLAN \<Longrightarrow>
   slack_ok (m\<lparr>tm_idle_sessions := AList.update plan slots (tm_idle_sessions m)\<rparr>)"
  using idle_ok_update[of m slots plan] by (simp add: slack_ok_def cancels_ok_def)

lemma slack_idle_delete:
  "slack_ok m \<Longrightarrow> slack_ok (m\<lparr>tm_idle_sessions := AList.delete plan (tm_idle_sessions m)\<rparr>)"
  using idle_ok_delete[of m plan] by (simp add: slack_ok_def cancels_ok_def)

lemma slack_cleanup [simp]: "slack_ok m \<Longrightarrow> slack_ok (cleanup_plan_if_idle m plan)"
proof -
  assume m: "slack_ok m"
  let ?m = "m\<lparr>tm_plan_policies := AList.delete plan (tm_plan_policies m),
    tm_plan_root_jobs := AList.delete plan (tm_plan_root_jobs m),
    tm_plan_children_started := tm_plan_children_started m - {plan}\<rparr>"
  have "slack_ok (?m\<lparr>tm_idle_sessions := AList.delete plan (tm_idle_sessions ?m)\<rparr>)"
    using m by (intro slack_idle_delete) simp
  then show ?thesis using m by (simp add: cleanup_plan_if_idle_def Let_def)
qed

lemma slack_push [simp]: "slack_ok (push_pending m q) = slack_ok m"
  by (simp add: push_pending_def)

lemma slack_enqueue_jobs [simp]: "slack_ok m \<Longrightarrow> slack_ok (fst (enqueue_jobs m c plan jobs))"
  by (induction jobs arbitrary: m) (simp_all add: enqueue_jobs_Cons)

lemma slack_enqueue [simp]: "slack_ok m \<Longrightarrow> slack_ok (fst (enqueue m c plan jobs record_root))"
  by (simp add: enqueue_def admit_plan_def record_plan_root_def Let_def split_def)

lemma slack_cancel_plan [simp]: "slack_ok m \<Longrightarrow> slack_ok (fst (cancel_plan m plan))"
  by (simp add: cancel_plan_def retain_pending_not_plan_def Let_def)

lemma slack_remove_pending: "remove_pending m i = Some (m', q) \<Longrightarrow> slack_ok m \<Longrightarrow> slack_ok m'"
  by (auto simp: remove_pending_def Let_def split: if_splits)

lemma slack_cancel_transfer [simp]: "slack_ok m \<Longrightarrow> slack_ok (fst (cancel_transfer m t plan))"
  by (auto simp: cancel_transfer_def intro!: slack_cleanup intro: slack_remove_pending split: option.splits)

lemma slack_retry [simp]: "slack_ok m \<Longrightarrow> slack_ok (fst (retry_transfer cx m t))"
  by (auto simp: retry_transfer_def Let_def split: option.splits)

lemma slack_return_idle [simp]:
  assumes "slack_ok m"
  shows "slack_ok (return_idle_session m plan slot)"
proof -
  have "length sessions \<le> MAX_IDLE_SESSIONS_PER_PLAN" if "map_of (tm_idle_sessions m) plan = Some sessions" for sessions
    using that assms by (auto simp: slack_ok_def idle_ok_def dest: map_of_SomeD)
  then show ?thesis
    using slack_idle_update[OF assms]
    by (auto simp: return_idle_session_def Let_def MAX_IDLE_SESSIONS_PER_PLAN_def MAX_CONCURRENT_PER_PLAN_def
        split: option.splits)
qed

lemma length_remove_at: "length (remove_at i xs) \<le> length xs"
  by (simp add: remove_at_def)

lemma slack_take_idle [simp]:
  assumes "slack_ok m"
  shows "slack_ok (fst (take_idle_session m plan direction))"
proof -
  have "length (remove_at i sessions) \<le> MAX_IDLE_SESSIONS_PER_PLAN"
    if "map_of (tm_idle_sessions m) plan = Some sessions" for sessions i
    using that assms length_remove_at[of i sessions]
    by (fastforce simp: slack_ok_def idle_ok_def dest: map_of_SomeD)
  then show ?thesis
    using assms slack_idle_update[OF assms] slack_idle_delete[OF assms]
    by (auto simp: take_idle_session_def Let_def split: option.splits)
qed

lemma slack_completed [simp]: "slack_ok m \<Longrightarrow> slack_ok (handle_completed m c)"
  by (simp add: handle_completed_def Let_def split: option.splits)

lemma slack_start [simp]: "slack_ok m \<Longrightarrow> slack_ok (sys_manager (start_task s m q))"
  by (simp add: start_task_def take_destination_clear_permission_def Let_def split_def)

section \<open>Nothing is kept for a plan without jobs\<close>

lemma reclaimed_cong:
  "recorded_plans m' = recorded_plans m \<Longrightarrow> plan_live m' = plan_live m \<Longrightarrow> reclaimed_except P m' = reclaimed_except P m"
  by (simp add: reclaimed_except_def)

lemma reclaimed_forget [simp]: "reclaimed_except P (forget_cancellations_for_plan m plan) = reclaimed_except P m"
  by (rule reclaimed_cong)
     (auto simp: forget_cancellations_for_plan_def Let_def recorded_plans_def plan_live_def fun_eq_iff)

lemma reclaimed_take [simp]: "reclaimed_except P (fst (take_pending_cancel m t)) = reclaimed_except P m"
  by (rule reclaimed_cong) (auto simp: take_pending_cancel_def recorded_plans_def plan_live_def fun_eq_iff)

lemma reclaimed_record [simp]: "reclaimed_except P (record_pending_cancel m t plan) = reclaimed_except P m"
  by (rule reclaimed_cong)
     (auto simp: record_pending_cancel_def Let_def split_def recorded_plans_def plan_live_def fun_eq_iff)

lemma reclaimed_waiters [simp]: "reclaimed_except P (m\<lparr>tm_conflict_waiters := w\<rparr>) = reclaimed_except P m"
  by (rule reclaimed_cong) (auto simp: recorded_plans_def plan_live_def fun_eq_iff)

lemma reclaimed_live: "reclaimed_except {plan} m \<Longrightarrow> plan_live m plan \<Longrightarrow> reclaimed_except {} m"
  by (auto simp: reclaimed_except_def)

lemma reclaimed_weaken: "reclaimed_except {} m \<Longrightarrow> reclaimed_except P m"
  by (auto simp: reclaimed_except_def)

text \<open>Records of one plan may come and go, and so may its jobs, while that plan is exempt.\<close>

lemma reclaimed_exempt:
  assumes "reclaimed_except {plan} m" and "recorded_plans m' \<subseteq> insert plan (recorded_plans m)"
    and "\<And>p. p \<noteq> plan \<Longrightarrow> plan_live m p \<Longrightarrow> plan_live m' p"
  shows "reclaimed_except {plan} m'"
  using assms by (auto simp: reclaimed_except_def)

lemma keys_update [simp]: "fst ` set (AList.update k v al) = insert k (fst ` set al)"
  by (simp add: dom_update)

lemma keys_delete [simp]: "fst ` set (AList.delete k al) = fst ` set al - {k}"
  by (auto simp: delete_as_filter)

lemma reclaimed_cleanup:
  assumes "jobs_ok m" and "reclaimed_except {plan} m"
  shows "reclaimed_except {} (cleanup_plan_if_idle m plan)"
proof (cases "plan_live m plan")
  case True
  with assms show ?thesis by (simp add: cleanup_alt reclaimed_live)
next
  case False
  let ?m = "m\<lparr>tm_plan_policies := AList.delete plan (tm_plan_policies m),
    tm_plan_root_jobs := AList.delete plan (tm_plan_root_jobs m),
    tm_plan_children_started := tm_plan_children_started m - {plan},
    tm_idle_sessions := AList.delete plan (tm_idle_sessions m), tm_plan_facts := AList.delete plan (tm_plan_facts m)\<rparr>"
  have "recorded_plans ?m = recorded_plans m - {plan}" "plan_live ?m = plan_live m"
    by (auto simp: recorded_plans_def plan_live_def fun_eq_iff)
  then have "reclaimed_except {} ?m" using assms(2) by (simp add: reclaimed_except_def)
  then show ?thesis using False by (simp add: cleanup_alt[OF assms(1)])
qed

lemma plan_live_push [simp]: "plan_live (push_pending m q) p \<longleftrightarrow> p = qt_plan_id q \<or> plan_live m p"
  by (auto simp: plan_live_def push_pending_def)

lemma recorded_push [simp]: "recorded_plans (push_pending m q) = recorded_plans m"
  by (auto simp: recorded_plans_def push_pending_def)

lemma plan_live_take [simp]: "plan_live (fst (take_pending_cancel m t)) = plan_live m"
  by (auto simp: plan_live_def fun_eq_iff)

lemma reclaimed_enqueue_jobs:
  assumes "reclaimed_except {plan} m"
  shows "reclaimed_except {plan} (fst (enqueue_jobs m c plan jobs)) \<and>
    (plan_live m plan \<longrightarrow> plan_live (fst (enqueue_jobs m c plan jobs)) plan) \<and>
    (snd (enqueue_jobs m c plan jobs) = [] \<longrightarrow> jobs \<noteq> [] \<longrightarrow> plan_live (fst (enqueue_jobs m c plan jobs)) plan)"
  using assms
proof (induction jobs arbitrary: m)
  case (Cons job jobs)
  let ?m = "fst (take_pending_cancel m (job_id job))"
  let ?p = "push_pending ?m \<lparr>qt_connection = c, qt_plan_id = plan, qt_job = job\<rparr>"
  have "reclaimed_except {plan} ?p"
    by (rule reclaimed_exempt[of plan ?m]) (use Cons.prems in auto)
  from Cons.IH[OF this] Cons.IH[of ?m] Cons.prems show ?case by (simp add: enqueue_jobs_Cons)
qed simp

lemma reclaimed_enqueue:
  assumes "jobs_ok m" and "fresh_jobs m plan jobs record_root" and "reclaimed_except {} m"
  shows "reclaimed_except {} (fst (enqueue m c plan jobs record_root))"
proof (cases "jobs = []")
  case True
  then show ?thesis using assms(3) by (simp add: enqueue_def admit_plan_def Let_def)
next
  case False
  let ?m = "admit_plan m plan jobs record_root"
  have "recorded_plans ?m \<subseteq> insert plan (recorded_plans m)"
    unfolding recorded_plans_def
    by (cases "job_destination (hd jobs)") (auto simp: admit_plan_def record_plan_root_def Let_def)
  from reclaimed_exempt[OF reclaimed_weaken[OF assms(3)] this] have "reclaimed_except {plan} ?m"
    by (simp add: plan_live_def)
  note m3 = reclaimed_enqueue_jobs[OF this, of c jobs]
  let ?m3 = "fst (enqueue_jobs ?m c plan jobs)"
  have "reclaimed_except {} (cleanup_plan_if_idle (forget_cancellations_for_plan ?m3 plan) plan)"
    using m3 jobs_ok_admit_jobs[OF assms(1,2), of c] by (intro reclaimed_cleanup) simp_all
  moreover have "reclaimed_except {} ?m3" if "snd (enqueue_jobs ?m c plan jobs) = []"
    using m3 False that by (intro reclaimed_live[of plan]) simp_all
  ultimately show ?thesis
    using assms(3) by (simp only: enqueue_def Let_def split_def fst_conv snd_conv reclaimed_forget split: if_split) simp
qed

lemma remove_pending_frame:
  assumes "remove_pending m i = Some (m', q)"
  shows "tm_running m' = tm_running m" and "tm_retry_routes m' = tm_retry_routes m"
    and "tm_plan_root_jobs m' = tm_plan_root_jobs m" and "recorded_plans m' = recorded_plans m"
    and "tm_running_per_plan m' = tm_running_per_plan m" and "tm_plan_children_started m' = tm_plan_children_started m"
  using assms by (auto simp: remove_pending_def Let_def recorded_plans_def split: if_splits)

lemma reclaimed_remove_pending:
  assumes "jobs_ok m" and "reclaimed_except {} m" and "remove_pending m i = Some (m', q)"
  shows "reclaimed_except {qt_plan_id q} m'"
proof (rule reclaimed_exempt[OF reclaimed_weaken[OF assms(2)]])
  note r = remove_pending_frame[OF assms(3)] remove_pending_ok(4)[OF assms(1,3)]
  show "recorded_plans m' \<subseteq> insert (qt_plan_id q) (recorded_plans m)" using r by auto
  show "plan_live m' p" if "p \<noteq> qt_plan_id q" "plan_live m p" for p
    using that unfolding plan_live_def r by auto
qed

lemma plan_live_running:
  assumes "map (\<lambda>p. rt_plan_id (snd p)) r = map (\<lambda>p. rt_plan_id (snd p)) (tm_running m)"
  shows "plan_live (m\<lparr>tm_running := r\<rparr>) p = plan_live m p"
proof -
  have "(\<lambda>p. rt_plan_id (snd p)) ` set r = (\<lambda>p. rt_plan_id (snd p)) ` set (tm_running m)"
    using arg_cong[OF assms, of set] by (simp only: list.set_map)
  then show ?thesis by (simp add: plan_live_def)
qed

lemma plan_live_mark [simp]:
  "plan_live (m\<lparr>tm_running := map (\<lambda>(t, running).
      if rt_plan_id running = plan then (t, running\<lparr>rt_cancel := True\<rparr>) else (t, running)) (tm_running m)\<rparr>) p = plan_live m p"
  by (rule plan_live_running) auto

lemma reclaimed_cancel_plan:
  assumes "jobs_ok m" and "reclaimed_except {} m"
  shows "reclaimed_except {} (fst (cancel_plan m plan))"
proof -
  let ?m0 = "forget_cancellations_for_plan m plan"
  let ?m2 = "retain_pending_not_plan ?m0 plan"
  let ?r = "map (\<lambda>(t, running). if rt_plan_id running = plan then (t, running\<lparr>rt_cancel := True\<rparr>) else (t, running))
    (tm_running ?m2)"
  let ?m3 = "?m2\<lparr>tm_running := ?r\<rparr>"
  let ?m4 = "?m3\<lparr>tm_plan_root_jobs := AList.delete plan (tm_plan_root_jobs ?m3),
    tm_plan_children_started := tm_plan_children_started ?m3 - {plan}, tm_plan_facts := AList.delete plan (tm_plan_facts ?m3)\<rparr>"
  have m0: "reclaimed_except {} ?m0" "jobs_ok ?m0" using assms by simp_all
  have rec: "recorded_plans ?m3 = recorded_plans ?m0" "recorded_plans ?m4 \<subseteq> recorded_plans ?m0"
    by (auto simp: recorded_plans_def retain_pending_not_plan_def)
  have live: "plan_live ?m3 p = plan_live ?m2 p" "plan_live ?m4 p = plan_live ?m3 p" for p
    by simp (simp add: plan_live_def)
  have live2: "plan_live ?m2 p" if "plan_live ?m0 p" "p \<noteq> plan" for p
    using that by (auto simp: plan_live_def retain_pending_not_plan_def)
  have "reclaimed_except {plan} ?m4"
    using m0 rec(2) live live2 by (intro reclaimed_exempt[OF reclaimed_weaken[OF m0(1)]]) auto
  moreover have "jobs_ok ?m4"
    using jobs_ok_cancel_plan_mid[OF assms(1)] by simp
  ultimately have m4: "reclaimed_except {} (cleanup_plan_if_idle ?m4 plan)" by (intro reclaimed_cleanup)
  have "reclaimed_except {} ?m3" if "filter (\<lambda>q. qt_plan_id q = plan) (tm_pending ?m0) = []"
  proof -
    have "plan_live ?m2 p = plan_live ?m0 p" for p
      using that by (auto simp: plan_live_def retain_pending_not_plan_def filter_empty_conv)
    then show ?thesis using m0 rec(1) live(1) unfolding reclaimed_except_def by simp
  qed
  with m4 show ?thesis by (simp add: cancel_plan_def Let_def)
qed

lemma reclaimed_cancel_transfer:
  assumes "jobs_ok m" and "reclaimed_except {} m"
  shows "reclaimed_except {} (fst (cancel_transfer m t plan))"
proof -
  have run: "reclaimed_except {} (m\<lparr>tm_running := AList.update t (r\<lparr>rt_cancel := True\<rparr>) (tm_running m)\<rparr>)"
    if r: "map_of (tm_running m) t = Some r" for r
  proof -
    have d: "distinct (map fst (tm_running m))" using assms(1) by (simp add: manager_inv_defs)
    have "map (\<lambda>p. rt_plan_id (snd p)) (AList.update t (r\<lparr>rt_cancel := True\<rparr>) (tm_running m)) =
        map (\<lambda>p. rt_plan_id (snd p)) (tm_running m)"
      using r d by (auto simp: update_in_place[OF d r] dest!: map_of_SomeD dest: eq_key_imp_eq_value)
    from plan_live_running[OF this] assms(2) show ?thesis
      by (simp add: reclaimed_except_def recorded_plans_def)
  qed
  have "reclaimed_except {} (cleanup_plan_if_idle m' (qt_plan_id q))" if "remove_pending m i = Some (m', q)" for i m' q
    using reclaimed_cleanup[OF remove_pending_ok(1)[OF assms(1) that] reclaimed_remove_pending[OF assms that]] .
  then show ?thesis
    using assms(2) run reclaimed_cancel_plan[OF assms] by (auto simp: cancel_transfer_def split: option.splits)
qed

lemma reclaimed_retry:
  assumes "jobs_ok m" and "reclaimed_except {} m"
  shows "reclaimed_except {} (fst (retry_transfer cx m t))"
proof (cases "map_of (tm_retry_routes m) t")
  case (Some route)
  let ?plan = "rr_plan_id route"
  let ?m1 = "m\<lparr>tm_retry_routes := AList.delete t (tm_retry_routes m)\<rparr>"
  let ?m2 = "fst (take_pending_cancel ?m1 t)"
  let ?m3 = "admit_plan ?m2 ?plan [rr_job route] False"
  have mem: "(t, route) \<in> set (tm_retry_routes m)" using Some by (rule map_of_SomeD)
  then have job: "job_id (rr_job route) = t" using assms(1) by (auto simp: manager_inv_defs)
  have d: "distinct (map fst (tm_retry_routes m))" using assms(1) by (simp add: manager_inv_defs)
  have keep: "(a, b) \<in> set (AList.delete t (tm_retry_routes m))"
    if "(a, b) \<in> set (tm_retry_routes m)" "rr_plan_id b \<noteq> ?plan" for a b
    using that eq_key_imp_eq_value[OF d mem, of b] by (auto simp: delete_as_filter)
  have others: "plan_live ?m2 p" if "plan_live m p" "p \<noteq> ?plan" for p
    using that keep unfolding plan_live_def by (auto intro: rev_image_eqI)
  have "reclaimed_except {?plan} ?m1"
    by (rule reclaimed_exempt[OF reclaimed_weaken[OF assms(2)]])
       (use others in \<open>auto simp: recorded_plans_def\<close>)
  then have m2: "reclaimed_except {?plan} ?m2" by simp
  have "recorded_plans ?m3 \<subseteq> insert ?plan (recorded_plans ?m2)"
    by (auto simp: recorded_plans_def admit_plan_def Let_def)
  from reclaimed_exempt[OF m2 this] have m3: "reclaimed_except {?plan} ?m3" by (simp add: plan_live_def)
  have "tm_cancelled_before_enqueue (admit_plan m p jobs False) = tm_cancelled_before_enqueue m" for m p jobs
    by (simp add: admit_plan_def Let_def)
  then have "snd (take_pending_cancel ?m3 t) = False"
    by (simp add: take_pending_cancel_def delete_conv')
  then have skip: "snd (enqueue_jobs ?m3 c ?plan [rr_job route]) = []" for c
    by (simp add: enqueue_jobs_Cons job)
  have "reclaimed_except {} (fst (enqueue_jobs ?m3 c ?plan [rr_job route]))" for c
    using reclaimed_enqueue_jobs[OF m3, of c "[rr_job route]"] skip[of c] by (intro reclaimed_live[of ?plan]) auto
  then have go: "reclaimed_except {} (fst (enqueue ?m2 c ?plan [rr_job route] False))" for c
    using skip[of c] by (simp add: enqueue_def Let_def split_def)
  have kept: "reclaimed_except {} (?m2\<lparr>tm_retry_routes := AList.update t route (tm_retry_routes ?m2)\<rparr>)"
  proof (rule reclaimed_live[of ?plan])
    let ?b = "?m2\<lparr>tm_retry_routes := AList.update t route (tm_retry_routes ?m2)\<rparr>"
    have routes: "AList.update t route (AList.delete t (tm_retry_routes m)) = AList.delete t (tm_retry_routes m) @ [(t, route)]"
      by (simp add: update_absent)
    show "plan_live ?b ?plan" by (simp add: plan_live_def routes)
    show "reclaimed_except {?plan} ?b"
      by (rule reclaimed_exempt[OF m2]) (auto simp: plan_live_def routes recorded_plans_def)
  qed
  show ?thesis
    using go kept Some by (auto simp: retry_transfer_def Let_def split: option.splits)
qed (use assms in \<open>simp add: retry_transfer_def\<close>)

lemma reclaimed_completed:
  assumes "jobs_ok m" and "reclaimed_except {} m" and r: "map_of (tm_running m) (ct_transfer_id c) = Some r"
    and "\<And>route. ct_retry_route c = Some route \<Longrightarrow> job_id (rr_job route) = ct_transfer_id c"
  shows "reclaimed_except {} (handle_completed m c)"
proof -
  let ?t = "ct_transfer_id c" and ?plan = "rt_plan_id r"
  let ?m1 = "m\<lparr>tm_running := AList.delete ?t (tm_running m),
    tm_running_per_plan := count_down (tm_running_per_plan m) ?plan\<rparr>"
  let ?m2 = "case ct_retry_route c of
      Some route \<Rightarrow> ?m1\<lparr>tm_retry_routes := AList.update ?t route (tm_retry_routes ?m1)\<rparr>
    | None \<Rightarrow> ?m1\<lparr>tm_retry_routes := AList.delete ?t (tm_retry_routes ?m1)\<rparr>"
  let ?m3 = "case ct_reusable_session c of Some slot \<Rightarrow> return_idle_session ?m2 ?plan slot | None \<Rightarrow> ?m2"
  have d: "distinct (map fst (tm_running m))" using assms(1) by (simp add: manager_inv_defs)
  have t: "?t \<in> fst ` set (tm_running m)" using r by (auto dest: map_of_SomeD intro: rev_image_eqI)
  then have no: "?t \<notin> fst ` set (tm_retry_routes m)" using assms(1) unfolding jobs_ok_def ids_ok_def by blast
  have keep: "(a, b) \<in> set (AList.delete ?t (tm_running m))"
    if "(a, b) \<in> set (tm_running m)" "rt_plan_id b \<noteq> ?plan" for a b
    using that eq_key_imp_eq_value[OF d map_of_SomeD[OF r], of b] by (auto simp: delete_as_filter)
  have e: "handle_completed m c = cleanup_plan_if_idle ?m3 ?plan"
    by (simp add: handle_completed_def r Let_def split: option.splits)
  have live: "plan_live ?m3 p" if "p \<noteq> ?plan" "plan_live m p" for p
    using that keep no unfolding plan_live_def
    by (auto simp: update_absent intro: rev_image_eqI split: option.splits)
  have "recorded_plans ?m3 \<subseteq> insert ?plan (recorded_plans m)"
    by (auto simp: recorded_plans_def return_idle_session_def Let_def split: option.splits)
  then have m3: "reclaimed_except {?plan} ?m3"
    using reclaimed_exempt[OF reclaimed_weaken[OF assms(2)]] live by blast
  have m1: "jobs_ok ?m1" by (rule jobs_ok_drop_running[OF assms(1) r])
  have "?t \<notin> queued_id ` set (tm_pending m)" using t assms(1) unfolding jobs_ok_def ids_ok_def by blast
  then have "jobs_ok (?m1\<lparr>tm_retry_routes := AList.update ?t route (tm_retry_routes ?m1)\<rparr>)"
    if "ct_retry_route c = Some route" for route
    using assms(4)[OF that] no m1 by (intro jobs_ok_set_route) auto
  then have "jobs_ok ?m3"
    using jobs_ok_drop_route[OF m1, of ?t] by (simp split: option.splits)
  then show ?thesis using reclaimed_cleanup m3 e by simp
qed

lemma reclaimed_start:
  assumes "jobs_ok m0" and "reclaimed_except {} m0" and "remove_pending m0 i = Some (m, q)"
  shows "reclaimed_except {} (sys_manager (start_task s m q))"
proof (rule reclaimed_live[of "qt_plan_id q"])
  let ?m = "sys_manager (start_task s m q)"
  have f: "tm_running m = tm_running m0" "tm_retry_routes m = tm_retry_routes m0"
    using remove_pending_frame[OF assms(3)] by auto
  have "queued_id q \<notin> fst ` set (tm_running m)"
    using remove_pending_ok(2)[OF assms(1,3)] assms(1) unfolding f jobs_ok_def ids_ok_def by blast
  then have run: "tm_running ?m = tm_running m @ [(queued_id q, \<lparr>rt_plan_id = qt_plan_id q, rt_cancel = False\<rparr>)]"
    by (simp add: start_task_frame update_absent)
  show "plan_live ?m (qt_plan_id q)" by (simp add: plan_live_def run)
  show "reclaimed_except {qt_plan_id q} ?m"
  proof (rule reclaimed_exempt[OF reclaimed_remove_pending[OF assms]])
    show "recorded_plans ?m \<subseteq> insert (qt_plan_id q) (recorded_plans m)"
      unfolding recorded_plans_def
      by (simp add: start_task_def Let_def split_def)
         (auto simp: take_destination_clear_permission_def take_idle_session_def Let_def split: option.splits)
    show "plan_live ?m p" if "plan_live m p" for p
      using that by (auto simp: plan_live_def run start_task_frame(2))
  qed
qed

end
