(* ===== verification/Transfer_System.thy ===== *)
theory Transfer_System
  imports Transfer_Manager_Steps
begin

text \<open>
  The transfer manager at work: requests, completions, ends of tasks, browsing sessions and conflict
  answers interleave in any order. The invariants tie the manager's books to the tasks in flight.
\<close>

section \<open>Steps\<close>

datatype TransferSystemOp =
    OnRequest "ConnId \<Rightarrow> bool" ConnectionManager TransferManagerRequest
  | OnCompletion
  | TaskEnds TransferId TaskEnd Instant
  | BrowseOpens ConnId
  | BrowseCloses ConnId Instant
  | ConnectionLost ConnId
  | WaiterRegisters ConflictRequestId ConflictWaiter
  | WaiterSettles ConflictRequestId TransferPlanId ConflictDecision bool

fun system_step :: "TransferSystem \<Rightarrow> TransferSystemOp \<Rightarrow> TransferSystem" where
  "system_step s (OnRequest alive pool request) = on_request alive pool s request"
| "system_step s OnCompletion = on_completion s"
| "system_step s (TaskEnds t ending now) = finish_task s t ending now"
| "system_step s (BrowseOpens c) = browse_open s c"
| "system_step s (BrowseCloses c now) = browse_close s c now"
| "system_step s (ConnectionLost c) =
     s\<lparr>sys_conns := (sys_conns s)(c := (sys_conns s c)\<lparr>sc_connection_lost := True\<rparr>)\<rparr>"
| "system_step s (WaiterRegisters request waiter) =
     s\<lparr>sys_manager := register_waiter (sys_manager s) request waiter\<rparr>"
| "system_step s (WaiterSettles request plan decision renamed) =
     (let (m, out) = settle_waiter (sys_manager s) request plan decision renamed
      in s\<lparr>sys_manager := m, sys_outputs := sys_outputs s @ out\<rparr>)"

text \<open>
  What the runtime guarantees. Plan and job ids come from counters, so a plan is enqueued once, with jobs
  never seen before, all of one direction and on a connection of the plan's key. A task ends once, it
  cannot fail to open a session it was given, and an answer for a plan comes from one of its tasks. A
  browsing session that ends had begun, and the pool handed to a retry keeps its own invariant. The
  functions \<open>dir\<close> and \<open>key\<close> name the direction and the connection key of every plan.
\<close>

fun system_admissible ::
  "(TransferPlanId \<Rightarrow> TransferDirection) \<Rightarrow> (TransferPlanId \<Rightarrow> ConnectionKey) \<Rightarrow> TransferSystem \<Rightarrow> TransferSystemOp \<Rightarrow> bool"
where
  "system_admissible dir key s (OnRequest alive pool (Enqueue c plan jobs)) \<longleftrightarrow>
     fresh_jobs (sys_manager s) plan jobs True \<and> \<not> plan_live (sys_manager s) plan \<and>
     plan \<notin> task_plan_id ` set (sys_started s) \<and>
     (\<forall>j \<in> set jobs. job_direction j = dir plan) \<and> sc_connection_key (sys_conns s c) = key plan"
| "system_admissible dir key s (OnRequest alive pool (Retry t)) \<longleftrightarrow>
     pool_inv (\<lambda>c. sc_connection_key (sys_conns s c)) pool"
| "system_admissible dir key s (TaskEnds t ending now) \<longleftrightarrow>
     (\<exists>task \<in> set (sys_tasks s). task_transfer_id task = t \<and>
        (case ending of OpenFailed _ \<Rightarrow> task_idle_session task = None | Ran _ _ \<Rightarrow> True))"
| "system_admissible dir key s (BrowseCloses c now) \<longleftrightarrow> 0 < sys_browsing s c"
| "system_admissible dir key s (WaiterSettles request plan decision renamed) \<longleftrightarrow>
     plan \<in> task_plan_id ` set (sys_tasks s)"
| "system_admissible dir key s _ \<longleftrightarrow> True"

section \<open>The start loop\<close>

lemma next_position_eligible:
  assumes "next_queued_position conns m = Some i"
  shows "i < length (tm_pending m)" and "is_eligible conns m (tm_pending m ! i)"
  using assms by (auto simp: next_queued_position_def Let_def dest!: position_Some_nth split: if_splits option.splits)

lemma start_queued_keeps:
  assumes "I s"
    and "\<And>s i m q. I s \<Longrightarrow> length (tm_running (sys_manager s)) < MAX_CONCURRENT_TRANSFERS \<Longrightarrow>
      remove_pending (sys_manager s) i = Some (m, q) \<Longrightarrow> is_eligible (sys_conns s) (sys_manager s) q \<Longrightarrow>
      I (start_task s m q)"
  shows "I (start_queued s)"
  using assms(1)
proof (induction s rule: start_queued.induct)
  case (1 s)
  show ?case
  proof (cases "length (tm_running (sys_manager s)) < MAX_CONCURRENT_TRANSFERS \<and>
      (\<exists>i. next_queued_position (sys_conns s) (sys_manager s) = Some i)")
    case True
    then obtain i where i: "next_queued_position (sys_conns s) (sys_manager s) = Some i" by blast
    note e = next_position_eligible[OF i]
    then obtain m q where r: "remove_pending (sys_manager s) i = Some (m, q)"
      and q: "q = tm_pending (sys_manager s) ! i"
      by (auto simp: remove_pending_def Let_def)
    have "I (start_task s m q)" using assms(2)[OF 1(2) _ r] True e(2) q by simp
    from 1(1)[OF _ i r refl this] True show ?thesis
      by (subst start_queued.simps) (simp add: i r)
  next
    case False
    then have "start_queued s = s" by (subst start_queued.simps) (auto split: option.splits)
    with 1(2) show ?thesis by simp
  qed
qed

section \<open>Books and tasks\<close>

definition manager_inv :: "TransferManager \<Rightarrow> bool" where
  "manager_inv m \<longleftrightarrow> jobs_ok m \<and> slack_ok m \<and> reclaimed_except {} m"

text \<open>Which job runs for which plan.\<close>

definition shape :: "TransferManager \<Rightarrow> (TransferId \<times> TransferPlanId) list" where
  "shape m = map (\<lambda>p. (fst p, rt_plan_id (snd p))) (tm_running m)"

definition tasks_on :: "ConnId \<Rightarrow> TransferTask list \<Rightarrow> nat" where
  "tasks_on c tasks = length (filter (\<lambda>task. task_connection task = c) tasks)"

definition books_ok :: "TransferSystem \<Rightarrow> bool" where
  "books_ok s \<longleftrightarrow>
     manager_inv (sys_manager s) \<and>
     mset (map task_transfer_id (sys_tasks s)) + mset (map ct_transfer_id (sys_completions s)) =
       mset (map fst (tm_running (sys_manager s))) \<and>
     (\<forall>task \<in> set (sys_tasks s). (task_transfer_id task, task_plan_id task) \<in> set (shape (sys_manager s)) \<and>
        job_id (task_job task) = task_transfer_id task) \<and>
     (\<forall>c \<in> set (sys_completions s). \<forall>route. ct_retry_route c = Some route \<longrightarrow> job_id (rr_job route) = ct_transfer_id c) \<and>
     (\<forall>c. sc_active_channels (sys_conns s c) = sys_browsing s c + tasks_on c (sys_tasks s)) \<and>
     (\<forall>c. tasks_on c (sys_tasks s) \<le> MAX_CHANNELS_PER_CONNECTION)"

lemma books_new: "(\<And>c. sc_active_channels (conns c) = 0) \<Longrightarrow> books_ok (transfer_system_new conns)"
  by (auto simp: books_ok_def transfer_system_new_def manager_inv_def slack_ok_def cancels_ok_def idle_ok_def
      reclaimed_except_def recorded_plans_def tasks_on_def) (simp_all add: transfer_manager_new_def)

lemma shape_keys: "map fst (tm_running m) = map fst (shape m)"
  by (simp add: shape_def)

lemma shape_forget [simp]: "shape (forget_cancellations_for_plan m plan) = shape m"
  by (simp add: shape_def forget_cancellations_for_plan_def Let_def)

lemma shape_take [simp]: "shape (fst (take_pending_cancel m t)) = shape m"
  by (simp add: shape_def)

lemma shape_cleanup [simp]: "shape (cleanup_plan_if_idle m plan) = shape m"
  by (simp add: cleanup_plan_if_idle_def Let_def) (simp add: shape_def)

lemma running_enqueue_jobs [simp]: "tm_running (fst (enqueue_jobs m c plan jobs)) = tm_running m"
  by (induction jobs arbitrary: m) (simp_all add: enqueue_jobs_Cons)

lemma shape_enqueue [simp]: "shape (fst (enqueue m c plan jobs record_root)) = shape m"
  by (simp add: enqueue_def Let_def split_def) (simp add: shape_def)

lemma shape_cancel_plan [simp]: "shape (fst (cancel_plan m plan)) = shape m"
proof -
  have "map (\<lambda>p. (fst p, rt_plan_id (snd p))) (map (\<lambda>(t, running).
      if rt_plan_id running = plan then (t, running\<lparr>rt_cancel := True\<rparr>) else (t, running)) al) =
    map (\<lambda>p. (fst p, rt_plan_id (snd p))) al" for al :: "(TransferId \<times> RunningTransfer) list"
    by auto
  then show ?thesis
    by (simp add: cancel_plan_def Let_def)
       (simp add: shape_def retain_pending_not_plan_def forget_cancellations_for_plan_def Let_def)
qed

lemma shape_request:
  assumes "jobs_ok m"
  shows "shape (fst (handle_request cx m request)) = shape m"
proof (cases request)
  case (Cancel t plan)
  have d: "distinct (map fst (tm_running m))" using assms by (simp add: manager_inv_defs)
  have "shape (m\<lparr>tm_running := AList.update t (r\<lparr>rt_cancel := True\<rparr>) (tm_running m)\<rparr>) = shape m"
    if r: "map_of (tm_running m) t = Some r" for r
    using r d by (auto simp: shape_def update_in_place[OF d r] dest!: map_of_SomeD dest: eq_key_imp_eq_value)
  moreover have "shape m' = shape m" if "remove_pending m i = Some (m', q)" for i m' q
    using remove_pending_frame(1)[OF that] by (simp add: shape_def)
  moreover have "shape (record_pending_cancel m t plan) = shape m"
    by (simp add: shape_def record_pending_cancel_def Let_def split_def)
  ultimately show ?thesis
    by (auto simp: Cancel cancel_transfer_def split: option.splits)
next
  case (Retry t)
  have "shape (m\<lparr>tm_retry_routes := r\<rparr>) = shape m" for m r by (simp add: shape_def)
  then show ?thesis by (auto simp: Retry retry_transfer_def Let_def split: option.splits)
next
  case (ResolveConflict request decision)
  then show ?thesis by (auto simp: resolve_conflict_request_def shape_def split: option.splits)
qed simp_all

lemma manager_inv_request:
  assumes "manager_inv m"
    and "\<And>c plan jobs. request = Enqueue c plan jobs \<Longrightarrow> fresh_jobs m plan jobs True"
  shows "manager_inv (fst (handle_request cx m request))"
proof (cases request)
  case (Enqueue c plan jobs)
  then show ?thesis
    using assms jobs_ok_enqueue reclaimed_enqueue by (simp add: manager_inv_def)
next
  case (ResolveConflict request decision)
  then show ?thesis
    using assms(1) by (auto simp: resolve_conflict_request_def manager_inv_def split: option.splits)
qed (use assms(1) in \<open>simp_all add: manager_inv_def jobs_ok_cancel_transfer jobs_ok_cancel_plan jobs_ok_retry
      reclaimed_cancel_transfer reclaimed_cancel_plan reclaimed_retry\<close>)

lemma task_of_start:
  "\<exists>task. sys_tasks (start_task s m q) = sys_tasks s @ [task] \<and> sys_started (start_task s m q) = sys_started s @ [task] \<and>
     task_transfer_id task = queued_id q \<and> task_plan_id task = qt_plan_id q \<and> job_id (task_job task) = queued_id q \<and>
     task_connection task = qt_connection q \<and> job_direction (task_job task) = job_direction (qt_job q) \<and>
     task_may_clear_destination task =
       (map_of (tm_plan_root_jobs m) (qt_plan_id q) = Some (queued_id q) \<and> qt_plan_id q \<notin> tm_plan_children_started m)"
  by (simp add: start_task_def Let_def split_def take_destination_clear_permission_def)

lemma start_frame [simp]:
  "sys_completions (start_task s m q) = sys_completions s"
  "sys_browsing (start_task s m q) = sys_browsing s"
  "sys_conns (start_task s m q) = add_channels (sys_conns s) (qt_connection q)"
  by (simp_all add: start_task_def Let_def split_def)

lemma books_start:
  assumes "books_ok s" and "length (tm_running (sys_manager s)) < MAX_CONCURRENT_TRANSFERS"
    and "remove_pending (sys_manager s) i = Some (m, q)" and "is_eligible (sys_conns s) (sys_manager s) q"
  shows "books_ok (start_task s m q)"
proof -
  have inv: "jobs_ok (sys_manager s)" "slack_ok (sys_manager s)" "reclaimed_except {} (sys_manager s)"
    using assms(1) by (auto simp: books_ok_def manager_inv_def)
  have m: "manager_inv (sys_manager (start_task s m q))"
    using jobs_ok_start[OF inv(1) assms(3,4,2)] reclaimed_start[OF inv(1,3) assms(3)] inv(2)
      slack_remove_pending[OF assms(3)] by (simp add: manager_inv_def)
  obtain task where task: "sys_tasks (start_task s m q) = sys_tasks s @ [task]" "task_transfer_id task = queued_id q"
    "task_plan_id task = qt_plan_id q" "job_id (task_job task) = queued_id q" "task_connection task = qt_connection q"
    using task_of_start[of s m q] by blast
  have f: "tm_running m = tm_running (sys_manager s)" using remove_pending_frame(1)[OF assms(3)] .
  have "queued_id q \<notin> fst ` set (tm_running m)"
    using remove_pending_ok(2)[OF inv(1) assms(3)] inv(1) unfolding f jobs_ok_def ids_ok_def by blast
  then have run: "tm_running (sys_manager (start_task s m q)) =
      tm_running (sys_manager s) @ [(queued_id q, \<lparr>rt_plan_id = qt_plan_id q, rt_cancel = False\<rparr>)]"
    using f by (simp add: start_task_frame(1) update_absent)
  then have sh: "shape (sys_manager (start_task s m q)) = shape (sys_manager s) @ [(queued_id q, qt_plan_id q)]"
    by (simp add: shape_def)
  have free: "sc_active_channels (sys_conns s (qt_connection q)) < MAX_CHANNELS_PER_CONNECTION"
    using assms(4) by (auto simp: is_eligible_def Let_def split: if_splits)
  have on: "tasks_on c (sys_tasks (start_task s m q)) = tasks_on c (sys_tasks s) + (if c = qt_connection q then 1 else 0)" for c
    by (auto simp: task tasks_on_def)
  have "tasks_on (qt_connection q) (sys_tasks s) < MAX_CHANNELS_PER_CONNECTION"
    using assms(1) free unfolding books_ok_def by (metis le_add2 le_less_trans)
  then have cap: "tasks_on c (sys_tasks (start_task s m q)) \<le> MAX_CHANNELS_PER_CONNECTION" for c
    using assms(1) by (auto simp: on books_ok_def)
  have act: "sc_active_channels (sys_conns (start_task s m q) c) =
      sys_browsing (start_task s m q) c + tasks_on c (sys_tasks (start_task s m q))" for c
    using assms(1) unfolding on by (simp add: add_channels_def books_ok_def)
  show ?thesis
    using assms(1) m cap act unfolding books_ok_def sh run task(1) by (auto simp: task)
qed

lemma books_start_queued: "books_ok s \<Longrightarrow> books_ok (start_queued s)"
  by (rule start_queued_keeps[of books_ok]) (auto intro: books_start)

lemma books_request_mid:
  assumes "books_ok s" and "system_admissible dir key s (OnRequest alive pool request)"
    and "r = handle_request \<lparr>cx_conns = sys_conns s, cx_alive = alive, cx_pool = pool\<rparr> (sys_manager s) request"
  shows "books_ok (s\<lparr>sys_manager := fst r, sys_outputs := out\<rparr>)"
proof -
  have "manager_inv (fst r)"
    unfolding assms(3) using assms(1,2) by (intro manager_inv_request) (auto simp: books_ok_def)
  moreover have "shape (fst r) = shape (sys_manager s)"
    unfolding assms(3) using assms(1) by (intro shape_request) (simp add: books_ok_def manager_inv_def)
  ultimately show ?thesis
    using assms(1) unfolding books_ok_def shape_keys by simp
qed

lemma books_request:
  "books_ok s \<Longrightarrow> system_admissible dir key s (OnRequest alive pool request) \<Longrightarrow> books_ok (on_request alive pool s request)"
  by (simp add: on_request_def Let_def split_def books_start_queued books_request_mid)

lemma books_completion_mid:
  assumes "books_ok s" and Cons: "sys_completions s = c # rest"
  shows "books_ok (s\<lparr>sys_manager := handle_completed (sys_manager s) c, sys_completions := rest\<rparr>)"
proof -
  let ?m = "sys_manager s" and ?t = "ct_transfer_id c"
  have inv: "manager_inv ?m" and ids: "mset (map task_transfer_id (sys_tasks s)) + mset (map ct_transfer_id (c # rest)) =
      mset (map fst (tm_running ?m))"
    and route: "\<And>route. ct_retry_route c = Some route \<Longrightarrow> job_id (rr_job route) = ?t"
    using assms Cons by (auto simp: books_ok_def)
  have d: "distinct (map fst (tm_running ?m))" using inv by (simp add: manager_inv_def manager_inv_defs)
  have "?t \<in># mset (map fst (tm_running ?m))" unfolding ids[symmetric] by simp
  then obtain r where r: "map_of (tm_running ?m) ?t = Some r"
    by (metis map_of_eq_None_iff not_None_eq set_mset_mset list.set_map)
  have m: "manager_inv (handle_completed ?m c)"
    using inv jobs_ok_completed[OF _ r route] reclaimed_completed[OF _ _ r route] by (simp add: manager_inv_def)
  have run: "tm_running (handle_completed ?m c) = AList.delete ?t (tm_running ?m)"
    by (rule completed_frame(2))
  have "mset (map fst (tm_running ?m)) = add_mset ?t (mset (map fst (AList.delete ?t (tm_running ?m))))"
    using mset_delete[OF d r] by simp
  then have ids': "mset (map task_transfer_id (sys_tasks s)) + mset (map ct_transfer_id rest) =
      mset (map fst (tm_running (handle_completed ?m c)))"
    using ids by (simp add: run)
  have "?t \<notin># mset (map task_transfer_id (sys_tasks s))"
  proof
    assume "?t \<in># mset (map task_transfer_id (sys_tasks s))"
    then obtain M where "mset (map task_transfer_id (sys_tasks s)) = add_mset ?t M" by (rule mset_add)
    with ids have "mset (map fst (tm_running ?m)) = add_mset ?t (add_mset ?t (M + mset (map ct_transfer_id rest)))"
      by simp
    then have "count (mset (map fst (tm_running ?m))) ?t \<ge> 2" by simp
    with d show False by (simp add: distinct_count_atmost_1 split: if_splits)
  qed
  then have "?t \<notin> task_transfer_id ` set (sys_tasks s)" by simp
  then have "task_transfer_id task \<noteq> ?t" if "task \<in> set (sys_tasks s)" for task
    using imageI[OF that, of task_transfer_id] by metis
  moreover have "shape (handle_completed ?m c) = filter (\<lambda>p. fst p \<noteq> ?t) (shape ?m)"
    by (simp add: shape_def run delete_as_filter filter_map comp_def)
  ultimately have "\<forall>task \<in> set (sys_tasks s). (task_transfer_id task, task_plan_id task) \<in> set (shape (handle_completed ?m c))"
    using assms by (simp add: books_ok_def)
  then show ?thesis
    using assms m ids' Cons by (simp add: books_ok_def)
qed

lemma books_completion: "books_ok s \<Longrightarrow> books_ok (on_completion s)"
  by (auto simp: on_completion_def intro: books_start_queued books_completion_mid split: list.splits)

lemma find_task:
  assumes "distinct (map task_transfer_id tasks)" and "task \<in> set tasks"
  shows "find (\<lambda>task'. task_transfer_id task' = task_transfer_id task) tasks = Some task"
    and "mset tasks = add_mset task (mset (remove_first (\<lambda>task'. task_transfer_id task' = task_transfer_id task) tasks))"
  using assms by (induction tasks) (auto simp: image_iff)

lemma books_distinct_tasks:
  assumes "books_ok s"
  shows "distinct (map task_transfer_id (sys_tasks s))"
proof -
  have d: "distinct (map fst (tm_running (sys_manager s)))" and
    ids: "mset (map task_transfer_id (sys_tasks s) @ map ct_transfer_id (sys_completions s)) =
      mset (map fst (tm_running (sys_manager s)))"
    using assms by (auto simp: books_ok_def manager_inv_def manager_inv_defs)
  from mset_eq_imp_distinct_iff[OF ids] d show ?thesis by simp
qed

lemma books_task_ends:
  assumes "books_ok s" and "task \<in> set (sys_tasks s)" and "task_transfer_id task = t"
  shows "books_ok (finish_task s t ending now)"
proof -
  let ?tasks = "remove_first (\<lambda>task. task_transfer_id task = t) (sys_tasks s)"
  have f: "find (\<lambda>task. task_transfer_id task = t) (sys_tasks s) = Some task"
    and ms: "mset (sys_tasks s) = add_mset task (mset ?tasks)"
    using find_task[OF books_distinct_tasks[OF assms(1)] assms(2)] assms(3) by simp_all
  have tid: "ct_transfer_id (task_completion conns task ending) = t" for conns
    using assms(3) by (cases ending) auto
  have jid: "job_id (task_job task) = t" using assms by (auto simp: books_ok_def)
  have route: "job_id (rr_job route) = t" if "ct_retry_route (task_completion conns task ending) = Some route" for conns route
    using that jid by (cases ending) (auto simp: task_retry_route_def split: if_splits)
  have ids: "mset (map task_transfer_id ?tasks) + mset (map ct_transfer_id (sys_completions s @ [task_completion (sys_conns s) task ending])) =
      mset (map task_transfer_id (sys_tasks s)) + mset (map ct_transfer_id (sys_completions s))"
    using arg_cong[OF ms, of "image_mset task_transfer_id"] assms(3) tid by simp
  have on: "tasks_on c (sys_tasks s) = tasks_on c ?tasks + (if c = task_connection task then 1 else 0)" for c
    using arg_cong[OF ms, of "\<lambda>M. size (filter_mset (\<lambda>task. task_connection task = c) M)"]
    by (simp add: tasks_on_def flip: mset_filter)
  have act: "sc_active_channels (drop_channels (sys_conns s) (task_connection task) now c) = sys_browsing s c + tasks_on c ?tasks" for c
    using assms(1) on[of c] by (cases "c = task_connection task") (simp_all add: drop_channels_def books_ok_def)
  have cap: "tasks_on c ?tasks \<le> MAX_CHANNELS_PER_CONNECTION" for c
    using assms(1) on[of c] unfolding books_ok_def by (metis le_add1 order_trans)
  have "set ?tasks \<subseteq> set (sys_tasks s)" by (rule set_remove_first_subset)
  then show ?thesis
    using assms(1) ids act cap route tid unfolding finish_task_def f books_ok_def by auto
qed

lemma manager_inv_settle:
  assumes "manager_inv m" and "plan_live m plan"
  shows "manager_inv (fst (settle_waiter m request plan decision renamed))"
proof -
  have pol: "reclaimed_except {} (m\<lparr>tm_plan_policies := AList.update plan policy (tm_plan_policies m)\<rparr>)" for policy
    using assms by (auto simp: manager_inv_def reclaimed_except_def recorded_plans_def plan_live_def)
  have swap: "m\<lparr>tm_conflict_waiters := w, tm_plan_policies := x\<rparr> = m\<lparr>tm_plan_policies := x\<rparr>\<lparr>tm_conflict_waiters := w\<rparr>" for w x
    by simp
  show ?thesis
    using assms(1) pol
    by (auto simp: settle_waiter_def resolve_waiters_for_plan_def manager_inv_def Let_def split_def swap
        simp del: TransferManager.update_convs split: ConflictDecision.splits)
qed

lemma books_step:
  assumes "books_ok s" and "system_admissible dir key s a"
  shows "books_ok (system_step s a)"
proof (cases a)
  case (OnRequest alive pool request)
  then show ?thesis using assms books_request by simp
next
  case (TaskEnds t ending now)
  then show ?thesis using assms books_task_ends by auto
next
  case (WaiterRegisters request waiter)
  then show ?thesis
    using assms by (simp add: books_ok_def register_waiter_def manager_inv_def shape_def)
next
  case (WaiterSettles request plan decision renamed)
  let ?r = "settle_waiter (sys_manager s) request plan decision renamed"
  have "tm_running (fst ?r) = tm_running (sys_manager s)"
    by (simp add: settle_waiter_def resolve_waiters_for_plan_def Let_def split_def split: ConflictDecision.splits)
  moreover have "plan_live (sys_manager s) plan"
    using assms WaiterSettles by (auto simp: books_ok_def shape_def plan_live_def)
  then have "manager_inv (fst ?r)"
    using assms(1) by (intro manager_inv_settle) (auto simp: books_ok_def)
  ultimately show ?thesis
    using assms(1) WaiterSettles by (simp add: books_ok_def shape_def split_def Let_def)
next
  case OnCompletion
  then show ?thesis using assms books_completion by simp
next
  case (BrowseOpens c)
  have "sc_active_channels (add_channels (sys_conns s) c d) = (if d = c then sys_browsing s c + 1 else sys_browsing s d) + tasks_on d (sys_tasks s)" for d
    using assms(1) by (simp add: books_ok_def add_channels_def)
  then show ?thesis using assms(1) by (simp add: BrowseOpens browse_open_def books_ok_def)
next
  case (BrowseCloses c now)
  have "sc_active_channels (drop_channels (sys_conns s) c now d) = (if d = c then sys_browsing s c - 1 else sys_browsing s d) + tasks_on d (sys_tasks s)" for d
    using assms BrowseCloses by (simp add: books_ok_def drop_channels_def)
  then show ?thesis using assms(1) by (simp add: BrowseCloses browse_close_def books_ok_def)
next
  case (ConnectionLost c)
  then show ?thesis using assms(1) by (simp add: books_ok_def)
qed

interpretation books: guarded_machine
  "\<lambda>s. \<exists>conns. s = transfer_system_new conns \<and> (\<forall>c. sc_active_channels (conns c) = 0)"
  system_step "system_admissible dir key" books_ok for dir key
  by unfold_locales (auto intro: books_new books_step)

end
