(* ===== verification/Transfer_Flow.thy ===== *)
theory Transfer_Flow
  imports Transfer_System
begin

text \<open>
  What a job keeps on its way from the queue through a task to a retry: its plan's direction and its
  connection key. And the right of a download's root to clear the destination: it is given only while no
  other job of the plan has been started, and the root then runs alone.
\<close>

section \<open>Where queued jobs, routes and roots come from\<close>

lemma pending_enqueue_jobs:
  "q \<in> set (tm_pending (fst (enqueue_jobs m c plan jobs))) \<Longrightarrow>
   q \<in> set (tm_pending m) \<or> (\<exists>job \<in> set jobs. q = \<lparr>qt_connection = c, qt_plan_id = plan, qt_job = job\<rparr>)"
proof (induction jobs arbitrary: m)
  case (Cons job jobs)
  show ?case
    using Cons.prems Cons.IH[of "fst (take_pending_cancel m (job_id job))"]
      Cons.IH[of "push_pending (fst (take_pending_cancel m (job_id job))) \<lparr>qt_connection = c, qt_plan_id = plan, qt_job = job\<rparr>"]
    by (auto simp: enqueue_jobs_Cons split: if_splits)
qed simp

lemma routes_enqueue_jobs [simp]: "tm_retry_routes (fst (enqueue_jobs m c plan jobs)) = tm_retry_routes m"
  by (induction jobs arbitrary: m) (simp_all add: enqueue_jobs_Cons)

lemma pending_enqueue:
  "q \<in> set (tm_pending (fst (enqueue m c plan jobs record_root))) \<Longrightarrow>
   q \<in> set (tm_pending m) \<or> (\<exists>job \<in> set jobs. q = \<lparr>qt_connection = c, qt_plan_id = plan, qt_job = job\<rparr>)"
  using pending_enqueue_jobs[of q "admit_plan m plan jobs record_root" c plan jobs]
  by (auto simp: enqueue_def Let_def split_def split: if_splits)

lemma routes_enqueue [simp]: "tm_retry_routes (fst (enqueue m c plan jobs record_root)) = tm_retry_routes m"
  by (simp add: enqueue_def Let_def split_def)

lemma pending_cancel_plan: "set (tm_pending (fst (cancel_plan m plan))) \<subseteq> set (tm_pending m)"
  by (auto simp: cancel_plan_def retain_pending_not_plan_def Let_def split: if_splits)

lemma routes_cancel_plan [simp]: "tm_retry_routes (fst (cancel_plan m plan)) = tm_retry_routes m"
  by (simp add: cancel_plan_def retain_pending_not_plan_def Let_def)

lemma set_remove_at: "set (remove_at i xs) \<subseteq> set xs"
  by (auto simp: remove_at_def dest: in_set_takeD in_set_dropD)

lemma pending_remove: "remove_pending m i = Some (m', q) \<Longrightarrow> set (tm_pending m') \<subseteq> set (tm_pending m)"
  using set_remove_at by (fastforce simp: remove_pending_def Let_def split: if_splits)

lemma pending_cancel_transfer: "set (tm_pending (fst (cancel_transfer m t plan))) \<subseteq> set (tm_pending m)"
  using pending_cancel_plan pending_remove
  by (fastforce simp: cancel_transfer_def record_pending_cancel_def Let_def split_def split: option.splits)

lemma routes_cancel_transfer [simp]: "tm_retry_routes (fst (cancel_transfer m t plan)) = tm_retry_routes m"
  by (auto simp: cancel_transfer_def record_pending_cancel_def remove_pending_frame Let_def split_def split: option.splits)

lemma pending_request:
  assumes "q \<in> set (tm_pending (fst (handle_request cx m request)))"
  obtains "q \<in> set (tm_pending m)"
  | c plan jobs where "request = Enqueue c plan jobs" "qt_job q \<in> set jobs" "qt_plan_id q = plan" "qt_connection q = c"
  | t route where "request = Retry t" "map_of (tm_retry_routes m) t = Some route"
      "retry_connection cx route = Some (qt_connection q)" "qt_plan_id q = rr_plan_id route" "qt_job q = rr_job route"
proof (cases request)
  case (Enqueue c plan jobs)
  with assms that(1,2) show ?thesis by (auto dest!: pending_enqueue)
next
  case (Retry t)
  with assms that(1,3) show ?thesis
    by (auto simp: retry_transfer_def Let_def split: option.splits dest!: pending_enqueue)
next
  case (Cancel t plan)
  with assms that(1) pending_cancel_transfer[of m t plan] show ?thesis by auto
next
  case (CancelPlan plan)
  with assms that(1) pending_cancel_plan[of m plan] show ?thesis by auto
next
  case (ResolveConflict r d)
  with assms that(1) show ?thesis by (auto simp: resolve_conflict_request_def split: option.splits)
qed (use assms that(1) in simp)

lemma routes_request:
  assumes "route \<in> snd ` set (tm_retry_routes (fst (handle_request cx m request)))"
  shows "route \<in> snd ` set (tm_retry_routes m)"
proof (cases request)
  case (Retry t)
  have upd: "snd ` set (AList.update t r (AList.delete t al)) \<subseteq> snd ` set al"
    if "map_of al t = Some r" for r and al :: "(TransferId \<times> RetryRoute) list"
  proof -
    have "AList.update t r (AList.delete t al) = AList.delete t al @ [(t, r)]" by (simp add: update_absent)
    with map_of_SomeD[OF that] show ?thesis by (auto simp: delete_as_filter intro: rev_image_eqI)
  qed
  have del: "snd ` set (AList.delete t al) \<subseteq> snd ` set al" for al :: "(TransferId \<times> RetryRoute) list"
    by (auto simp: delete_as_filter)
  show ?thesis
  proof (cases "map_of (tm_retry_routes m) t")
    case (Some r)
    show ?thesis
      using assms upd[OF Some] del[of "tm_retry_routes m"]
      by (cases "retry_connection cx r") (simp_all add: Retry retry_transfer_def Some Let_def, blast+)
  qed (use assms Retry in \<open>simp add: retry_transfer_def\<close>)
next
  case (ResolveConflict r d)
  with assms show ?thesis by (auto simp: resolve_conflict_request_def split: option.splits)
qed (use assms in simp_all)

text \<open>
  A root keeps its record of started children as long as it is recorded itself, and only the enqueue of
  its plan records it.
\<close>

definition roots_from :: "TransferPlanId set \<Rightarrow> TransferManager \<Rightarrow> TransferManager \<Rightarrow> bool" where
  "roots_from new m m' \<longleftrightarrow> (\<forall>p r. p \<notin> new \<and> map_of (tm_plan_root_jobs m') p = Some r \<longrightarrow>
     map_of (tm_plan_root_jobs m) p = Some r \<and> (p \<in> tm_plan_children_started m \<longrightarrow> p \<in> tm_plan_children_started m'))"

lemma roots_from_refl: "roots_from new m m"
  by (simp add: roots_from_def)

lemma roots_from_trans: "roots_from new m m' \<Longrightarrow> roots_from new m' m'' \<Longrightarrow> roots_from new m m''"
  by (auto simp: roots_from_def)

lemma roots_from_same:
  "tm_plan_root_jobs m' = tm_plan_root_jobs m \<Longrightarrow> tm_plan_children_started m' = tm_plan_children_started m \<Longrightarrow>
   roots_from new m m'"
  by (simp add: roots_from_def)

lemma roots_from_delete:
  "tm_plan_root_jobs m' = AList.delete plan (tm_plan_root_jobs m) \<Longrightarrow>
   tm_plan_children_started m' = tm_plan_children_started m - {plan} \<Longrightarrow> roots_from new m m'"
  by (auto simp: roots_from_def delete_conv' split: if_splits)

lemma roots_from_cleanup: "roots_from new m (cleanup_plan_if_idle m plan)"
  by (cases "map_of (tm_pending_per_plan m) plan = None \<and> map_of (tm_running_per_plan m) plan = None \<and>
      \<not> list_ex (\<lambda>(_, route). rr_plan_id route = plan) (tm_retry_routes m)")
     (auto simp: cleanup_plan_if_idle_def Let_def intro: roots_from_refl
       roots_from_delete[where plan = plan])

lemma roots_enqueue_jobs [simp]:
  "tm_plan_root_jobs (fst (enqueue_jobs m c plan jobs)) = tm_plan_root_jobs m"
  "tm_plan_children_started (fst (enqueue_jobs m c plan jobs)) = tm_plan_children_started m"
  by (induction jobs arbitrary: m) (simp_all add: enqueue_jobs_Cons push_pending_def take_pending_cancel_def)

lemma roots_from_admit: "roots_from (if record_root then {plan} else {}) m (admit_plan m plan jobs record_root)"
  by (auto simp: roots_from_def admit_plan_def record_plan_root_def Let_def update_conv' split: if_splits)

lemma roots_from_enqueue:
  assumes "new = (if record_root then {plan} else {})"
  shows "roots_from new m (fst (enqueue m c plan jobs record_root))"
proof -
  let ?m = "admit_plan m plan jobs record_root"
  have "roots_from new m ?m" unfolding assms by (rule roots_from_admit)
  moreover have "roots_from new ?m (forget_cancellations_for_plan (fst (enqueue_jobs ?m c plan jobs)) plan)"
    by (rule roots_from_same) simp_all
  ultimately have "roots_from new m (forget_cancellations_for_plan (fst (enqueue_jobs ?m c plan jobs)) plan)"
    by (rule roots_from_trans)
  then show ?thesis
    using roots_from_trans[OF _ roots_from_cleanup]
    by (simp add: enqueue_def Let_def split_def roots_from_same)
qed

lemma roots_from_cancel_plan: "roots_from new m (fst (cancel_plan m plan))"
proof -
  have "roots_from new m (m'\<lparr>tm_plan_root_jobs := AList.delete plan (tm_plan_root_jobs m),
      tm_plan_children_started := tm_plan_children_started m - {plan}, tm_plan_facts := f\<rparr>)" for m' f
    by (rule roots_from_delete) simp_all
  note this[THEN roots_from_trans, OF roots_from_cleanup]
  moreover have "roots_from new m (m'\<lparr>tm_running := r\<rparr>)" if "roots_from new m m'" for m' r
    using that by (simp add: roots_from_def)
  ultimately show ?thesis
    by (simp add: cancel_plan_def retain_pending_not_plan_def Let_def roots_from_same)
qed

lemma roots_from_request:
  "roots_from (case request of Enqueue c plan jobs \<Rightarrow> {plan} | _ \<Rightarrow> {}) m (fst (handle_request cx m request))"
proof (cases request)
  case (Enqueue c plan jobs)
  with roots_from_enqueue[of _ True plan m c jobs] show ?thesis by simp
next
  case (Cancel t plan)
  have "roots_from new m (cleanup_plan_if_idle m' p)" if "remove_pending m i = Some (m', q)" for new i m' q p
    by (rule roots_from_trans[OF _ roots_from_cleanup], rule roots_from_same) (simp_all add: remove_pending_frame[OF that])
  moreover have "roots_from new m (record_pending_cancel m t plan)" for new
    by (rule roots_from_same) (simp_all add: record_pending_cancel_def Let_def split_def)
  ultimately show ?thesis
    using roots_from_cancel_plan
    by (auto simp: Cancel cancel_transfer_def intro: roots_from_refl roots_from_same split: option.splits)
next
  case (CancelPlan plan)
  then show ?thesis using roots_from_cancel_plan by simp
next
  case (Retry t)
  have "roots_from {} m (fst (enqueue (fst (take_pending_cancel (m\<lparr>tm_retry_routes := r\<rparr>) t)) c plan jobs False))" for r c plan jobs
    by (rule roots_from_trans[OF roots_from_same roots_from_enqueue])
       (simp_all add: take_pending_cancel_def)
  then show ?thesis
    by (auto simp: Retry retry_transfer_def Let_def take_pending_cancel_def
        intro: roots_from_refl roots_from_same split: option.splits)
qed (auto simp: resolve_conflict_request_def intro: roots_from_refl roots_from_same split: option.splits)

lemma roots_from_completed: "roots_from new m (handle_completed m c)"
proof -
  have "roots_from new m (m'\<lparr>tm_retry_routes := r\<rparr>)"
    "roots_from new m (return_idle_session (m'\<lparr>tm_retry_routes := r\<rparr>) p slot)"
    if "tm_plan_root_jobs m' = tm_plan_root_jobs m" "tm_plan_children_started m' = tm_plan_children_started m" for m' r p slot
    using that by (simp_all add: roots_from_same return_idle_session_def Let_def)
  then show ?thesis
    by (auto simp: handle_completed_def Let_def intro: roots_from_trans[OF _ roots_from_cleanup] split: option.splits)
qed

section \<open>The plan's direction and connection key\<close>

definition routed ::
  "(TransferPlanId \<Rightarrow> TransferDirection) \<Rightarrow> (TransferPlanId \<Rightarrow> ConnectionKey) \<Rightarrow> (ConnId \<Rightarrow> SharedConnection) \<Rightarrow>
   TransferPlanId \<Rightarrow> ConnId \<Rightarrow> TransferJob \<Rightarrow> bool" where
  "routed dir key conns plan c job \<longleftrightarrow> job_direction job = dir plan \<and> sc_connection_key (conns c) = key plan"

definition route_ok ::
  "(TransferPlanId \<Rightarrow> TransferDirection) \<Rightarrow> (TransferPlanId \<Rightarrow> ConnectionKey) \<Rightarrow> (ConnId \<Rightarrow> SharedConnection) \<Rightarrow>
   RetryRoute \<Rightarrow> bool" where
  "route_ok dir key conns route \<longleftrightarrow> rr_connection_key route = key (rr_plan_id route) \<and>
     routed dir key conns (rr_plan_id route) (rr_connection route) (rr_job route)"

definition flow_ok ::
  "(TransferPlanId \<Rightarrow> TransferDirection) \<Rightarrow> (TransferPlanId \<Rightarrow> ConnectionKey) \<Rightarrow> TransferSystem \<Rightarrow> bool" where
  "flow_ok dir key s \<longleftrightarrow>
     (\<forall>q \<in> set (tm_pending (sys_manager s)). routed dir key (sys_conns s) (qt_plan_id q) (qt_connection q) (qt_job q)) \<and>
     (\<forall>task \<in> set (sys_tasks s). routed dir key (sys_conns s) (task_plan_id task) (task_connection task) (task_job task)) \<and>
     (\<forall>route \<in> snd ` set (tm_retry_routes (sys_manager s)). route_ok dir key (sys_conns s) route) \<and>
     (\<forall>c \<in> set (sys_completions s). \<forall>route. ct_retry_route c = Some route \<longrightarrow> route_ok dir key (sys_conns s) route)"

lemma routed_channels [simp]:
  "routed dir key (add_channels conns c) = routed dir key conns"
  "routed dir key (drop_channels conns c now) = routed dir key conns"
  "routed dir key (conns(c := (conns c)\<lparr>sc_connection_lost := lost\<rparr>)) = routed dir key conns"
  by (auto simp: routed_def add_channels_def drop_channels_def fun_eq_iff)

lemma route_channels [simp]:
  "route_ok dir key (add_channels conns c) = route_ok dir key conns"
  "route_ok dir key (drop_channels conns c now) = route_ok dir key conns"
  "route_ok dir key (conns(c := (conns c)\<lparr>sc_connection_lost := lost\<rparr>)) = route_ok dir key conns"
  by (auto simp: route_ok_def)

lemma retry_same_key:
  assumes "route_ok dir key conns route" and "pool_inv (\<lambda>c. sc_connection_key (conns c)) pool"
    and "retry_connection \<lparr>cx_conns = conns, cx_alive = alive, cx_pool = pool\<rparr> route = Some c"
  shows "sc_connection_key (conns c) = key (rr_plan_id route)" and "\<not> sc_connection_lost (conns c)"
  using source.fallback_sound[where conns = conns and key_of = "\<lambda>c. sc_connection_key (conns c)" and p = pool
      and k = "rr_connection_key route" and c = c
      and weak = "if alive (rr_connection route) then Some (rr_connection route) else None"] assms
  by (auto simp: retry_connection_def route_ok_def routed_def split: if_splits)

lemma flow_start:
  assumes "flow_ok dir key s" and "remove_pending (sys_manager s) i = Some (m, q)"
  shows "flow_ok dir key (start_task s m q)"
proof -
  obtain task where task: "sys_tasks (start_task s m q) = sys_tasks s @ [task]" "task_plan_id task = qt_plan_id q"
    "task_connection task = qt_connection q" "job_direction (task_job task) = job_direction (qt_job q)"
    using task_of_start[of s m q] by blast
  have q: "q \<in> set (tm_pending (sys_manager s))"
    using assms(2) by (auto simp: remove_pending_def Let_def split: if_splits)
  then have "routed dir key (sys_conns s) (task_plan_id task) (task_connection task) (task_job task)"
    using assms(1) by (simp add: flow_ok_def routed_def task)
  then show ?thesis
    using assms(1) pending_remove[OF assms(2)] remove_pending_frame(2)[OF assms(2)]
    by (auto simp: flow_ok_def task(1) start_task_frame)
qed

lemma flow_request_mid:
  assumes "flow_ok dir key s" and "system_admissible dir key s (OnRequest alive pool request)"
    and r: "r = handle_request \<lparr>cx_conns = sys_conns s, cx_alive = alive, cx_pool = pool\<rparr> (sys_manager s) request"
  shows "flow_ok dir key (s\<lparr>sys_manager := fst r, sys_outputs := out\<rparr>)"
proof -
  have "routed dir key (sys_conns s) (qt_plan_id q) (qt_connection q) (qt_job q)" if "q \<in> set (tm_pending (fst r))" for q
    using that unfolding r
  proof (cases rule: pending_request)
    case 1
    then show ?thesis using assms(1) by (simp add: flow_ok_def)
  next
    case (2 c plan jobs)
    then show ?thesis using assms(2) by (auto simp: routed_def)
  next
    case (3 t route)
    have "route_ok dir key (sys_conns s) route"
      using assms(1) map_of_SomeD[OF 3(2)] by (force simp: flow_ok_def)
    with 3 retry_same_key(1)[OF this _ 3(3)] assms(2) show ?thesis by (simp add: routed_def route_ok_def)
  qed
  moreover have "route_ok dir key (sys_conns s) route" if "route \<in> snd ` set (tm_retry_routes (fst r))" for route
  proof -
    have "route \<in> snd ` set (tm_retry_routes (sys_manager s))" using that unfolding r by (rule routes_request)
    with assms(1) show ?thesis unfolding flow_ok_def by blast
  qed
  ultimately show ?thesis using assms(1) by (simp add: flow_ok_def)
qed

lemma flow_completion_mid:
  assumes "flow_ok dir key s" and "sys_completions s = c # rest"
  shows "flow_ok dir key (s\<lparr>sys_manager := handle_completed (sys_manager s) c, sys_completions := rest\<rparr>)"
proof -
  let ?m = "sys_manager s"
  note routes = completed_frame(3)[of ?m c]
  have upd: "snd ` set (AList.update t route al) \<subseteq> insert route (snd ` set al)" for t route and al :: "(TransferId \<times> RetryRoute) list"
    by (induction al) auto
  have del: "snd ` set (AList.delete t al) \<subseteq> snd ` set al" for t and al :: "(TransferId \<times> RetryRoute) list"
    by (auto simp: delete_as_filter)
  note pending = completed_frame(1)[of ?m c]
  have "route_ok dir key (sys_conns s) route" if "route \<in> snd ` set (tm_retry_routes (handle_completed ?m c))" for route
  proof (cases "ct_retry_route c")
    case None
    then have "route \<in> snd ` set (AList.delete (ct_transfer_id c) (tm_retry_routes ?m))" using that by (simp add: routes)
    then have "route \<in> snd ` set (tm_retry_routes ?m)" by (rule subsetD[OF del])
    then show ?thesis using assms(1) unfolding flow_ok_def by blast
  next
    case (Some r)
    then have "route \<in> snd ` set (AList.update (ct_transfer_id c) r (tm_retry_routes ?m))" using that by (simp add: routes)
    then have "route \<in> insert r (snd ` set (tm_retry_routes ?m))" by (rule subsetD[OF upd])
    moreover have "route_ok dir key (sys_conns s) r" using assms Some by (simp add: flow_ok_def)
    ultimately show ?thesis using assms(1) unfolding flow_ok_def by blast
  qed
  then show ?thesis using assms by (simp add: flow_ok_def pending)
qed

lemma flow_task_ends:
  assumes "flow_ok dir key s"
  shows "flow_ok dir key (finish_task s t ending now)"
proof (cases "find (\<lambda>task. task_transfer_id task = t) (sys_tasks s)")
  case (Some task)
  then have "task \<in> set (sys_tasks s)" by (auto simp: find_Some_iff)
  then have "routed dir key (sys_conns s) (task_plan_id task) (task_connection task) (task_job task)"
    using assms by (simp add: flow_ok_def)
  then have "route_ok dir key (sys_conns s) route" if "ct_retry_route (task_completion (sys_conns s) task ending) = Some route" for route
    using that by (cases ending) (auto simp: task_retry_route_def route_ok_def routed_def split: if_splits)
  then show ?thesis
    using assms set_remove_first_subset by (fastforce simp: finish_task_def Some flow_ok_def)
qed (use assms in \<open>simp add: finish_task_def\<close>)

end
