(* ===== verification/Transfer_Clear.thy ===== *)
theory Transfer_Clear
  imports Transfer_Flow
begin

text \<open>
  The root of a plan may empty the destination only before any other job of the plan has started. The
  history of all started tasks shows it; for a download the root also runs without company.
\<close>

section \<open>The history of started tasks\<close>

definition clears_first :: "TransferTask list \<Rightarrow> bool" where
  "clears_first started \<longleftrightarrow> (\<forall>i < length started. task_may_clear_destination (started ! i) \<longrightarrow>
     (\<forall>j < i. task_plan_id (started ! j) = task_plan_id (started ! i) \<longrightarrow>
        task_transfer_id (started ! j) = task_transfer_id (started ! i)))"

lemma clears_first_Nil [simp]: "clears_first []"
  by (simp add: clears_first_def)

lemma clears_first_snoc:
  "clears_first (started @ [task]) \<longleftrightarrow> clears_first started \<and>
     (task_may_clear_destination task \<longrightarrow>
       (\<forall>t \<in> set started. task_plan_id t = task_plan_id task \<longrightarrow> task_transfer_id t = task_transfer_id task))"
proof -
  let ?all = "started @ [task]"
  have "?all ! i = started ! i" if "i < length started" for i using that by (simp add: nth_append)
  then have "(\<forall>j < i. task_plan_id (?all ! j) = task_plan_id (?all ! i) \<longrightarrow> task_transfer_id (?all ! j) = task_transfer_id (?all ! i)) \<longleftrightarrow>
      (\<forall>j < i. task_plan_id (started ! j) = task_plan_id (started ! i) \<longrightarrow> task_transfer_id (started ! j) = task_transfer_id (started ! i))"
    if "i < length started" for i using that by simp
  moreover have "(\<forall>j < length started. task_plan_id (?all ! j) = task_plan_id task \<longrightarrow> task_transfer_id (?all ! j) = task_transfer_id task) \<longleftrightarrow>
      (\<forall>t \<in> set started. task_plan_id t = task_plan_id task \<longrightarrow> task_transfer_id t = task_transfer_id task)"
    by (simp add: all_set_conv_all_nth nth_append)
  ultimately show ?thesis
    unfolding clears_first_def by (simp add: All_less_Suc nth_append conj_commute)
qed

definition sole :: "TransferManager \<Rightarrow> TransferTask \<Rightarrow> bool" where
  "sole m task \<longleftrightarrow>
     (\<forall>p \<in> set (shape m). snd p = task_plan_id task \<longrightarrow> fst p = task_transfer_id task) \<and>
     (\<forall>r. map_of (tm_plan_root_jobs m) (task_plan_id task) = Some r \<longrightarrow> r = task_transfer_id task)"

definition clear_ok :: "(TransferPlanId \<Rightarrow> TransferDirection) \<Rightarrow> TransferSystem \<Rightarrow> bool" where
  "clear_ok dir s \<longleftrightarrow>
     (\<forall>task \<in> set (sys_started s). \<forall>r. map_of (tm_plan_root_jobs (sys_manager s)) (task_plan_id task) = Some r \<longrightarrow>
        task_transfer_id task = r \<or> task_plan_id task \<in> tm_plan_children_started (sys_manager s)) \<and>
     clears_first (sys_started s) \<and> set (sys_tasks s) \<subseteq> set (sys_started s) \<and>
     (\<forall>task \<in> set (sys_tasks s). task_may_clear_destination task \<and> dir (task_plan_id task) = Download \<longrightarrow>
        sole (sys_manager s) task)"

lemma clear_ok_mid:
  assumes "clear_ok dir s" and "roots_from new (sys_manager s) m"
    and "new \<inter> task_plan_id ` set (sys_started s) = {}" and "set (shape m) \<subseteq> set (shape (sys_manager s))"
    and "sys_started s' = sys_started s" and "set (sys_tasks s') \<subseteq> set (sys_tasks s)" and "sys_manager s' = m"
  shows "clear_ok dir s'"
proof -
  have keep: "map_of (tm_plan_root_jobs (sys_manager s)) (task_plan_id task) = Some r \<and>
      (task_plan_id task \<in> tm_plan_children_started (sys_manager s) \<longrightarrow> task_plan_id task \<in> tm_plan_children_started m)"
    if "task \<in> set (sys_started s)" "map_of (tm_plan_root_jobs m) (task_plan_id task) = Some r" for task r
    using assms(2,3) that unfolding roots_from_def by blast
  have sub: "set (sys_tasks s') \<subseteq> set (sys_started s)" using assms(1,6) by (auto simp: clear_ok_def)
  have "sole m task" if "sole (sys_manager s) task" "task \<in> set (sys_started s)" for task
    using that(1) keep[OF that(2)] assms(4) unfolding sole_def by blast
  moreover have "sole (sys_manager s) task"
    if "task \<in> set (sys_tasks s')" "task_may_clear_destination task" "dir (task_plan_id task) = Download" for task
    using that assms(1,6) unfolding clear_ok_def by blast
  moreover have "task_transfer_id task = r \<or> task_plan_id task \<in> tm_plan_children_started m"
    if "task \<in> set (sys_started s)" "map_of (tm_plan_root_jobs m) (task_plan_id task) = Some r" for task r
    using keep[OF that] that(1) assms(1) unfolding clear_ok_def by blast
  moreover have "clears_first (sys_started s)" using assms(1) by (simp add: clear_ok_def)
  ultimately show ?thesis
    using sub unfolding clear_ok_def assms(5,7) by blast
qed

lemma children_start:
  "tm_plan_children_started (sys_manager (start_task s m q)) =
     (if map_of (tm_plan_root_jobs m) (qt_plan_id q) = Some (queued_id q) then tm_plan_children_started m
      else insert (qt_plan_id q) (tm_plan_children_started m))"
  by (simp add: start_task_def Let_def split_def) (simp add: take_destination_clear_permission_def Let_def)

lemma running_none_shape:
  assumes "jobs_ok m" and "counted (tm_running_per_plan m) plan = 0"
  shows "plan \<notin> snd ` set (shape m)"
proof -
  have "count (mset (map (\<lambda>p. rt_plan_id (snd p)) (tm_running m))) plan = 0"
    using assms tallied_counted[of "tm_running_per_plan m" "mset (map (\<lambda>p. rt_plan_id (snd p)) (tm_running m))" plan]
    by (simp add: jobs_ok_def running_ok_def)
  then have "plan \<notin> set (map (\<lambda>p. rt_plan_id (snd p)) (tm_running m))" by (simp only: count_mset_0_iff not_False_eq_True)
  then show ?thesis by (simp add: shape_def image_image)
qed

lemma clear_start:
  assumes b: "books_ok s" and f: "flow_ok dir key s" and c: "clear_ok dir s"
    and r: "remove_pending (sys_manager s) i = Some (m, q)" and e: "is_eligible (sys_conns s) (sys_manager s) q"
  shows "clear_ok dir (start_task s m q)"
proof -
  let ?old = "sys_manager s" and ?m = "sys_manager (start_task s m q)" and ?p = "qt_plan_id q" and ?t = "queued_id q"
  have ok: "jobs_ok ?old" using b by (simp add: books_ok_def manager_inv_def)
  note fr = remove_pending_frame[OF r]
  obtain task where task: "sys_tasks (start_task s m q) = sys_tasks s @ [task]"
    "sys_started (start_task s m q) = sys_started s @ [task]"
    "task_transfer_id task = ?t" "task_plan_id task = ?p"
    "task_may_clear_destination task \<longleftrightarrow> map_of (tm_plan_root_jobs ?old) ?p = Some ?t \<and> ?p \<notin> tm_plan_children_started ?old"
    using task_of_start[of s m q] unfolding fr by blast
  have roots: "tm_plan_root_jobs ?m = tm_plan_root_jobs ?old" by (simp add: start_task_frame fr)
  have kids: "tm_plan_children_started ?m = (if map_of (tm_plan_root_jobs ?old) ?p = Some ?t
      then tm_plan_children_started ?old else insert ?p (tm_plan_children_started ?old))"
    by (simp add: children_start fr)
  have "?t \<notin> fst ` set (tm_running ?old)"
    using remove_pending_ok(2)[OF ok r] ok unfolding jobs_ok_def ids_ok_def by blast
  then have sh: "set (shape ?m) = insert (?t, ?p) (set (shape ?old))"
    by (simp add: shape_def start_task_frame fr update_absent)
  have dirq: "job_direction (qt_job q) = dir ?p"
    using f remove_pending_ok(2)[OF ok r] by (simp add: flow_ok_def routed_def)
  have alone: "?p \<notin> snd ` set (shape ?old)"
    if "dir ?p = Download" "map_of (tm_plan_root_jobs ?old) ?p = Some ?t \<or> map_of (tm_plan_root_jobs ?old) ?p = None"
    using that e dirq by (intro running_none_shape[OF ok]) (auto simp: is_eligible_def Let_def split: if_splits)
  have old: "sole ?m task'"
    if t': "task' \<in> set (sys_tasks s)" "task_may_clear_destination task'" "dir (task_plan_id task') = Download" for task'
  proof -
    have so: "sole ?old task'" and run: "(task_transfer_id task', task_plan_id task') \<in> set (shape ?old)"
      using c b t' by (auto simp: clear_ok_def books_ok_def)
    have "?p \<noteq> task_plan_id task'"
    proof
      assume p: "?p = task_plan_id task'"
      then have "?p \<in> snd ` set (shape ?old)" using run by force
      with alone t'(3) p obtain root where root: "map_of (tm_plan_root_jobs ?old) ?p = Some root" "root \<noteq> ?t"
        by (cases "map_of (tm_plan_root_jobs ?old) ?p") auto
      then have "root = task_transfer_id task'" using so p by (simp add: sole_def)
      moreover have "map_of (tm_running ?old) root = None"
        using e root dirq t'(3) p by (auto simp: is_eligible_def Let_def split: if_splits)
      ultimately show False using run by (force simp: shape_def map_of_eq_None_iff)
    qed
    with so show ?thesis unfolding sole_def sh roots by auto
  qed
  have new: "sole ?m task" if "task_may_clear_destination task" "dir (task_plan_id task) = Download"
    using alone that unfolding sole_def sh roots task(3-5) by force
  have "task_plan_id t' = ?p \<longrightarrow> task_transfer_id t' = ?t"
    if "task_may_clear_destination task" "t' \<in> set (sys_started s)" for t'
    using that c unfolding task(5) clear_ok_def by metis
  then have hist: "clears_first (sys_started s @ [task])"
    using c by (simp add: clears_first_snoc task(3,4) clear_ok_def)
  have "task_transfer_id t' = root \<or> task_plan_id t' \<in> tm_plan_children_started ?m"
    if "t' \<in> set (sys_started s @ [task])" "map_of (tm_plan_root_jobs ?old) (task_plan_id t') = Some root" for t' root
    using that c task(3,4) unfolding kids clear_ok_def by auto
  then show ?thesis
    using c hist old new unfolding clear_ok_def roots task(1,2) by auto
qed

section \<open>Jobs on their way\<close>

definition journey_ok ::
  "(TransferPlanId \<Rightarrow> TransferDirection) \<Rightarrow> (TransferPlanId \<Rightarrow> ConnectionKey) \<Rightarrow> TransferSystem \<Rightarrow> bool" where
  "journey_ok dir key s \<longleftrightarrow> books_ok s \<and> flow_ok dir key s \<and> clear_ok dir s"

lemma journey_start_queued: "journey_ok dir key s \<Longrightarrow> journey_ok dir key (start_queued s)"
  by (rule start_queued_keeps[of "journey_ok dir key"])
     (auto simp: journey_ok_def intro: books_start flow_start clear_start)

lemma journey_request:
  assumes "journey_ok dir key s" and "system_admissible dir key s (OnRequest alive pool request)"
  shows "journey_ok dir key (on_request alive pool s request)"
proof -
  let ?r = "handle_request \<lparr>cx_conns = sys_conns s, cx_alive = alive, cx_pool = pool\<rparr> (sys_manager s) request"
  let ?s = "s\<lparr>sys_manager := fst ?r, sys_outputs := sys_outputs s @ snd ?r\<rparr>"
  have j: "books_ok s" "flow_ok dir key s" "clear_ok dir s" using assms(1) by (auto simp: journey_ok_def)
  have "shape (fst ?r) = shape (sys_manager s)"
    using j(1) by (intro shape_request) (simp add: books_ok_def manager_inv_def)
  moreover have "(case request of Enqueue c plan jobs \<Rightarrow> {plan} | _ \<Rightarrow> {}) \<inter> task_plan_id ` set (sys_started s) = {}"
    using assms(2) by (cases request) auto
  ultimately have "clear_ok dir ?s"
    by (intro clear_ok_mid[OF j(3) roots_from_request]) simp_all
  then have "journey_ok dir key ?s"
    using books_request_mid[OF j(1) assms(2) refl] flow_request_mid[OF j(2) assms(2) refl] by (simp add: journey_ok_def)
  then show ?thesis by (simp add: on_request_def Let_def split_def journey_start_queued)
qed

lemma journey_completion:
  assumes "journey_ok dir key s"
  shows "journey_ok dir key (on_completion s)"
proof (cases "sys_completions s")
  case (Cons c rest)
  let ?s = "s\<lparr>sys_manager := handle_completed (sys_manager s) c, sys_completions := rest\<rparr>"
  have j: "books_ok s" "flow_ok dir key s" "clear_ok dir s" using assms by (auto simp: journey_ok_def)
  have "set (shape (handle_completed (sys_manager s) c)) \<subseteq> set (shape (sys_manager s))"
    by (auto simp: shape_def completed_frame(2) delete_as_filter)
  then have "clear_ok dir ?s"
    by (intro clear_ok_mid[OF j(3) roots_from_completed[of "{}"]]) simp_all
  then have "journey_ok dir key ?s"
    using books_completion_mid[OF j(1) Cons] flow_completion_mid[OF j(2) Cons] by (simp add: journey_ok_def)
  then show ?thesis by (simp add: on_completion_def Cons journey_start_queued)
qed (use assms in \<open>simp add: on_completion_def\<close>)

lemma journey_step:
  assumes "journey_ok dir key s" and "system_admissible dir key s a"
  shows "journey_ok dir key (system_step s a)"
proof -
  have j: "books_ok s" "flow_ok dir key s" "clear_ok dir s" using assms(1) by (auto simp: journey_ok_def)
  have b: "books_ok (system_step s a)" using books_step[OF j(1) assms(2)] .
  show ?thesis
  proof (cases a)
    case (OnRequest alive pool request)
    then show ?thesis using journey_request assms by simp
  next
    case OnCompletion
    then show ?thesis using journey_completion assms by simp
  next
    case (TaskEnds t ending now)
    have "clear_ok dir (finish_task s t ending now)"
      by (rule clear_ok_mid[OF j(3) roots_from_refl[of "{}"]])
         (auto simp: finish_task_def split: option.splits dest: subsetD[OF set_remove_first_subset])
    with b flow_task_ends[OF j(2)] TaskEnds show ?thesis by (simp add: journey_ok_def)
  next
    case (BrowseOpens c)
    with b j show ?thesis by (simp add: journey_ok_def browse_open_def flow_ok_def clear_ok_def)
  next
    case (BrowseCloses c now)
    with b j show ?thesis by (simp add: journey_ok_def browse_close_def flow_ok_def clear_ok_def)
  next
    case (ConnectionLost c)
    with b j show ?thesis by (simp add: journey_ok_def flow_ok_def clear_ok_def)
  next
    case (WaiterRegisters request waiter)
    with b j show ?thesis by (simp add: journey_ok_def register_waiter_def flow_ok_def clear_ok_def sole_def shape_def)
  next
    case (WaiterSettles request plan decision renamed)
    let ?m = "fst (settle_waiter (sys_manager s) request plan decision renamed)"
    have "tm_running ?m = tm_running (sys_manager s)" "tm_pending ?m = tm_pending (sys_manager s)"
      "tm_retry_routes ?m = tm_retry_routes (sys_manager s)" "tm_plan_root_jobs ?m = tm_plan_root_jobs (sys_manager s)"
      "tm_plan_children_started ?m = tm_plan_children_started (sys_manager s)"
      by (simp_all add: settle_waiter_def resolve_waiters_for_plan_def Let_def split_def split: ConflictDecision.splits)
    with b j WaiterSettles show ?thesis
      by (simp add: journey_ok_def flow_ok_def clear_ok_def sole_def shape_def split_def Let_def)
  qed
qed

interpretation journey: guarded_machine
  "\<lambda>s. \<exists>conns. s = transfer_system_new conns \<and> (\<forall>c. sc_active_channels (conns c) = 0)"
  system_step "system_admissible dir key" "journey_ok dir key" for dir key
proof unfold_locales
  fix s
  assume "\<exists>conns. s = transfer_system_new conns \<and> (\<forall>c. sc_active_channels (conns c) = 0)"
  then obtain conns where s: "s = transfer_system_new conns" "\<And>c. sc_active_channels (conns c) = 0" by blast
  then show "journey_ok dir key s"
    using books_new[OF s(2)]
    by (simp add: journey_ok_def) (simp add: transfer_system_new_def transfer_manager_new_def flow_ok_def clear_ok_def)
qed (rule journey_step)

end
