(* ===== verification/Transfer_Progress.thy ===== *)
theory Transfer_Progress
  imports Transfer_System
begin

text \<open>
  The queue makes progress: as long as the browsing sessions leave a channel free on every connection,
  jobs are in flight whenever jobs are queued, and the tasks and completions of any finite backlog run
  out with an empty queue.
\<close>

section \<open>Somebody can start\<close>

lemma next_position_exists:
  assumes "jobs_ok m" and "q \<in> set (tm_pending m)" and "is_eligible conns m q"
  shows "\<exists>i. next_queued_position conns m = Some i"
proof -
  have keys: "fst ` set (tm_pending_per_plan m) = qt_plan_id ` set (tm_pending m)"
    using tallied_keys[of "tm_pending_per_plan m" "mset (map qt_plan_id (tm_pending m))"] assms(1)
    by (simp add: jobs_ok_def queue_ok_def)
  have low: "counted (tm_running_per_plan m) (qt_plan_id q) < MAX_CONCURRENT_PER_PLAN"
    using assms(3) by (auto simp: is_eligible_def Let_def split: if_splits)
  let ?plans = "filter (\<lambda>p. counted (tm_running_per_plan m) p < MAX_CONCURRENT_PER_PLAN) (map fst (tm_pending_per_plan m))"
  have "qt_plan_id q \<in> fst ` set (tm_pending_per_plan m)" using assms(2) by (simp add: keys)
  then have q: "qt_plan_id q \<in> set ?plans" using low by simp
  then have "?plans \<noteq> []" by (metis empty_iff empty_set)
  moreover obtain i where "position (\<lambda>q. qt_plan_id q \<in> set ?plans \<and> is_eligible conns m q) (tm_pending m) = Some i"
    using position_Some_ex[OF assms(2), of "\<lambda>q. qt_plan_id q \<in> set ?plans \<and> is_eligible conns m q"] q assms(3) by auto
  moreover have "tm_pending m \<noteq> []" using assms(2) by auto
  ultimately show ?thesis by (simp add: next_queued_position_def Let_def split: option.splits)
qed

lemma idle_manager_starts:
  assumes "jobs_ok m" and "tm_running m = []" and "tm_pending m \<noteq> []"
    and free: "\<And>c. sc_active_channels (conns c) < MAX_CHANNELS_PER_CONNECTION"
  shows "\<exists>i. next_queued_position conns m = Some i"
proof -
  have none: "counted (tm_running_per_plan m) p = 0" for p
    using tallied_counted[of "tm_running_per_plan m" "{#}" p] assms(1,2) by (simp add: jobs_ok_def running_ok_def)
  have open_plan: "\<not> MAX_CONCURRENT_PER_PLAN \<le> counted (tm_running_per_plan m) p" for p
    by (simp add: none MAX_CONCURRENT_PER_PLAN_def)
  obtain q where q: "q \<in> set (tm_pending m)" using assms(3) by (cases "tm_pending m") auto
  show ?thesis
  proof (cases "is_eligible conns m q")
    case True
    then show ?thesis using next_position_exists assms(1) q by blast
  next
    case False
    then obtain root where root: "root \<in> tm_pending_roots m"
      using free[of "qt_connection q"] open_plan assms(2)
      by (auto simp: is_eligible_def Let_def none split: if_splits option.splits)
    then obtain r where r: "r \<in> set (tm_pending m)" "map_of (tm_plan_root_jobs m) (qt_plan_id r) = Some (queued_id r)"
      using assms(1) by (auto simp: manager_inv_defs)
    then have "is_eligible conns m r"
      using free[of "qt_connection r"] open_plan by (simp add: is_eligible_def Let_def none not_le)
    then show ?thesis using next_position_exists assms(1) r(1) by blast
  qed
qed

lemma start_queued_stops:
  "next_queued_position (sys_conns (start_queued s)) (sys_manager (start_queued s)) = None \<or>
   MAX_CONCURRENT_TRANSFERS \<le> length (tm_running (sys_manager (start_queued s)))"
proof (induction s rule: start_queued.induct)
  case (1 s)
  show ?case
  proof (cases "length (tm_running (sys_manager s)) < MAX_CONCURRENT_TRANSFERS \<and>
      (\<exists>i. next_queued_position (sys_conns s) (sys_manager s) = Some i)")
    case True
    then obtain i where i: "next_queued_position (sys_conns s) (sys_manager s) = Some i" by blast
    from next_position_eligible(1)[OF this] obtain m q where r: "remove_pending (sys_manager s) i = Some (m, q)"
      by (auto simp: remove_pending_def Let_def)
    have "start_queued s = start_queued (start_task s m q)"
      using True by (subst start_queued.simps) (simp add: i r)
    then show ?thesis using 1[OF _ i r refl] True by simp
  next
    case False
    then have "start_queued s = s" by (subst start_queued.simps) (auto split: option.splits)
    with False show ?thesis by auto
  qed
qed

section \<open>Queued jobs never wait alone\<close>

definition roomy :: "TransferSystem \<Rightarrow> bool" where
  "roomy s \<longleftrightarrow> (\<forall>c. sys_browsing s c < MAX_CHANNELS_PER_CONNECTION)"

definition awake :: "TransferSystem \<Rightarrow> bool" where
  "awake s \<longleftrightarrow> books_ok s \<and> roomy s \<and> (tm_running (sys_manager s) = [] \<longrightarrow> tm_pending (sys_manager s) = [])"

lemma browsing_start_queued [simp]: "sys_browsing (start_queued s) = sys_browsing s"
  by (rule start_queued_keeps[of "\<lambda>s'. sys_browsing s' = sys_browsing s"]) simp_all

lemma books_running:
  assumes "books_ok s"
  shows "length (sys_tasks s) + length (sys_completions s) = length (tm_running (sys_manager s))"
proof -
  have "size (mset (map task_transfer_id (sys_tasks s)) + mset (map ct_transfer_id (sys_completions s))) =
      size (mset (map fst (tm_running (sys_manager s))))"
    using assms by (simp add: books_ok_def)
  then show ?thesis by simp
qed

lemma awake_start_queued:
  assumes "books_ok s" and "roomy s"
  shows "awake (start_queued s)"
proof -
  let ?s = "start_queued s"
  have b: "books_ok ?s" using assms(1) by (rule books_start_queued)
  have "tm_pending (sys_manager ?s) = []" if none: "tm_running (sys_manager ?s) = []"
  proof (rule ccontr)
    assume pending: "tm_pending (sys_manager ?s) \<noteq> []"
    have "sys_tasks ?s = []" using books_running[OF b] none by simp
    then have "sc_active_channels (sys_conns ?s c) < MAX_CHANNELS_PER_CONNECTION" for c
      using b assms(2) by (simp add: books_ok_def roomy_def tasks_on_def)
    moreover have "jobs_ok (sys_manager ?s)" using b by (simp add: books_ok_def manager_inv_def)
    ultimately obtain i where "next_queued_position (sys_conns ?s) (sys_manager ?s) = Some i"
      using idle_manager_starts[OF _ none pending] by blast
    with start_queued_stops[of s] none show False by (simp add: MAX_CONCURRENT_TRANSFERS_def)
  qed
  with b assms(2) show ?thesis by (simp add: awake_def roomy_def)
qed

fun progress_admissible ::
  "(TransferPlanId \<Rightarrow> TransferDirection) \<Rightarrow> (TransferPlanId \<Rightarrow> ConnectionKey) \<Rightarrow> TransferSystem \<Rightarrow> TransferSystemOp \<Rightarrow> bool"
where
  "progress_admissible dir key s a \<longleftrightarrow> system_admissible dir key s a \<and> roomy (system_step s a)"

lemma awake_step:
  assumes "awake s" and "progress_admissible dir key s a"
  shows "awake (system_step s a)"
proof -
  have b: "books_ok s" "roomy s" using assms(1) by (simp_all add: awake_def)
  have b': "books_ok (system_step s a)" using books_step[OF b(1)] assms(2) by auto
  have keep: "awake (system_step s a)"
    if "tm_running (sys_manager (system_step s a)) = tm_running (sys_manager s)"
      "tm_pending (sys_manager (system_step s a)) = tm_pending (sys_manager s)"
    using that b' assms by (simp add: awake_def)
  show ?thesis
  proof (cases a)
    case (OnRequest alive pool request)
    let ?r = "handle_request \<lparr>cx_conns = sys_conns s, cx_alive = alive, cx_pool = pool\<rparr> (sys_manager s) request"
    have "books_ok (s\<lparr>sys_manager := fst ?r, sys_outputs := sys_outputs s @ snd ?r\<rparr>)"
      by (rule books_request_mid[OF b(1) _ refl]) (use assms(2) OnRequest in auto)
    with b(2) show ?thesis
      by (simp add: OnRequest on_request_def Let_def split_def awake_start_queued roomy_def)
  next
    case OnCompletion
    show ?thesis
    proof (cases "sys_completions s")
      case (Cons c rest)
      with books_completion_mid[OF b(1) Cons] b(2) show ?thesis
        by (simp add: OnCompletion on_completion_def awake_start_queued roomy_def)
    qed (use assms(1) OnCompletion in \<open>simp add: on_completion_def\<close>)
  next
    case (WaiterSettles request plan decision renamed)
    have "tm_running (fst (settle_waiter m request plan decision renamed)) = tm_running m"
      "tm_pending (fst (settle_waiter m request plan decision renamed)) = tm_pending m" for m
      by (simp_all add: settle_waiter_def resolve_waiters_for_plan_def Let_def split_def split: ConflictDecision.splits)
    then show ?thesis using WaiterSettles by (intro keep) (simp_all add: split_def Let_def)
  qed (intro keep; simp add: finish_task_def browse_open_def browse_close_def register_waiter_def split: option.splits)+
qed

interpretation awake: guarded_machine
  "\<lambda>s. \<exists>conns. s = transfer_system_new conns \<and> (\<forall>c. sc_active_channels (conns c) = 0)"
  system_step "progress_admissible dir key" awake for dir key
proof unfold_locales
  fix s
  assume "\<exists>conns. s = transfer_system_new conns \<and> (\<forall>c. sc_active_channels (conns c) = 0)"
  then show "awake s"
    by (auto simp: awake_def roomy_def books_new)
       (simp_all add: transfer_system_new_def transfer_manager_new_def MAX_CHANNELS_PER_CONNECTION_def)
qed (rule awake_step)

section \<open>Draining\<close>

text \<open>
  The steps that need no new request: a task in flight ends, the manager reads a completion. A backlog
  allows only finitely many of them.
\<close>

fun drains :: "TransferSystem \<Rightarrow> TransferSystemOp \<Rightarrow> bool" where
  "drains s (TaskEnds t ending now) \<longleftrightarrow> t \<in> task_transfer_id ` set (sys_tasks s)"
| "drains s OnCompletion \<longleftrightarrow> sys_completions s \<noteq> []"
| "drains s _ \<longleftrightarrow> False"

primrec drain_run :: "TransferSystem \<Rightarrow> TransferSystemOp list \<Rightarrow> bool" where
  "drain_run s [] = True"
| "drain_run s (a # ops) = (drains s a \<and> drain_run (system_step s a) ops)"

definition backlog :: "TransferSystem \<Rightarrow> nat" where
  "backlog s = 2 * length (tm_pending (sys_manager s)) + 2 * length (sys_tasks s) + length (sys_completions s)"

lemma backlog_start_queued: "backlog (start_queued s) = backlog s"
proof (rule start_queued_keeps[of "\<lambda>s'. backlog s' = backlog s"])
  fix s' i m q
  assume "backlog s' = backlog s" and r: "remove_pending (sys_manager s') i = Some (m, q)"
  moreover from r have "length (tm_pending (sys_manager s')) = Suc (length (tm_pending m))"
    by (auto simp: remove_pending_def remove_at_def Let_def split: if_splits)
  moreover obtain task where "sys_tasks (start_task s' m q) = sys_tasks s' @ [task]"
    using task_of_start by blast
  ultimately show "backlog (start_task s' m q) = backlog s" by (simp add: backlog_def)
qed simp

lemma length_remove_first: "x \<in> set xs \<Longrightarrow> P x \<Longrightarrow> Suc (length (remove_first P xs)) = length xs"
  by (induction xs) auto

lemma backlog_drains:
  assumes "drains s a"
  shows "backlog (system_step s a) < backlog s"
proof (cases a)
  case OnCompletion
  with assms obtain c rest where "sys_completions s = c # rest" by (cases "sys_completions s") auto
  then show ?thesis by (simp add: OnCompletion on_completion_def backlog_start_queued) (simp add: backlog_def completed_frame(1))
next
  case (TaskEnds t ending now)
  with assms obtain task where task: "task \<in> set (sys_tasks s)" "task_transfer_id task = t" by auto
  then obtain task' where f: "find (\<lambda>task. task_transfer_id task = t) (sys_tasks s) = Some task'"
    by (cases "find (\<lambda>task. task_transfer_id task = t) (sys_tasks s)") (auto simp: find_None_iff)
  have "Suc (length (remove_first (\<lambda>task. task_transfer_id task = t) (sys_tasks s))) = length (sys_tasks s)"
    by (rule length_remove_first[OF task(1)]) (rule task(2))
  then show ?thesis by (simp add: TaskEnds finish_task_def f backlog_def)
qed (use assms in simp_all)

lemma drain_bounded: "drain_run s ops \<Longrightarrow> length ops + backlog (foldl system_step s ops) \<le> backlog s"
proof (induction ops arbitrary: s)
  case (Cons a ops)
  then have "length ops + backlog (foldl system_step (system_step s a) ops) \<le> backlog (system_step s a)" by simp
  with backlog_drains[of s a] Cons.prems show ?case by simp
qed simp

lemma roomy_drains: "drains s a \<Longrightarrow> roomy s \<Longrightarrow> roomy (system_step s a)"
  by (cases a) (auto simp: on_completion_def finish_task_def roomy_def split: list.splits option.splits)

lemma awake_drains:
  assumes "awake s" and "drains s a"
  shows "awake (system_step s a)"
proof (cases a)
  case OnCompletion
  then show ?thesis
    using assms roomy_drains[OF assms(2)] awake_step[of s "\<lambda>_. Upload" "\<lambda>_. undefined" a] by (simp add: awake_def)
next
  case (TaskEnds t ending now)
  have "books_ok (system_step s a)"
    using assms books_task_ends by (auto simp: TaskEnds awake_def)
  with assms roomy_drains[OF assms(2)] show ?thesis
    by (simp add: awake_def TaskEnds finish_task_def split: option.splits)
qed (use assms in simp_all)

lemma awake_drain_run: "awake s \<Longrightarrow> drain_run s ops \<Longrightarrow> awake (foldl system_step s ops)"
  by (induction ops arbitrary: s) (auto intro: awake_drains)

lemma quiet_empty:
  assumes "awake s" and "\<And>a. \<not> drains s a"
  shows "tm_pending (sys_manager s) = [] \<and> tm_running (sys_manager s) = []"
proof -
  have "sys_completions s = []" using assms(2)[of OnCompletion] by simp
  moreover have "sys_tasks s = []" using assms(2)[of "TaskEnds (task_transfer_id (hd (sys_tasks s))) undefined 0"] by force
  ultimately have "tm_running (sys_manager s) = []"
    using books_running[of s] assms(1) by (simp add: awake_def)
  with assms(1) show ?thesis by (simp add: awake_def)
qed

end
