(* ===== verification/Transfer_Manager_Properties.thy ===== *)
theory Transfer_Manager_Properties
  imports Transfer_Clear Transfer_Progress
begin

text \<open>
  The properties of the transfer manager, each with a concrete run: a download of two files into a folder
  next to an upload, with a failed job that is retried.
\<close>

section \<open>A concrete run\<close>

definition queue_job :: "u64 \<Rightarrow> TransferDirection \<Rightarrow> TransferJob" where
  "queue_job n direction = \<lparr>job_id = TransferId n, job_direction = direction,
     job_source = TransferEndpoint.Remote (RemotePath []), job_destination = TransferEndpoint.Local (LocalPath []),
     job_state = TransferState.Queued, job_metadata_policy = metadata_policy_default,
     job_conflict_policy = Ask, job_warnings = [], job_created_at = 0\<rparr>"

definition queue_dir :: "TransferPlanId \<Rightarrow> TransferDirection" where
  "queue_dir plan = (if plan = TransferPlanId 1 then Download else Upload)"

abbreviation queue_key :: "TransferPlanId \<Rightarrow> ConnectionKey" where
  "queue_key \<equiv> \<lambda>_. demo_pool_key"

abbreviation queue_request :: "TransferManagerRequest \<Rightarrow> TransferSystemOp" where
  "queue_request \<equiv> OnRequest (\<lambda>_. True) connection_manager_new"

definition queue_ops :: "TransferSystemOp list" where
  "queue_ops =
     [BrowseOpens (ConnId 0),
      queue_request (Enqueue (ConnId 0) (TransferPlanId 1) [queue_job 1 Download, queue_job 2 Download, queue_job 3 Download]),
      queue_request (Enqueue (ConnId 0) (TransferPlanId 2) [queue_job 4 Upload]),
      TaskEnds (TransferId 1) (Ran 0 TransferJobOutcome.Completed) 0, OnCompletion,
      TaskEnds (TransferId 2) (Ran 1 (TransferJobOutcome.Failed True)) 0, OnCompletion,
      queue_request (Retry (TransferId 2))]"

abbreviation queue_start :: TransferSystem where
  "queue_start \<equiv> transfer_system_new demo_conns"

lemma pool_inv_code [code]:
  "pool_inv key_of m \<longleftrightarrow> distinct (map fst (cm_pool m)) \<and> distinct (attempts (cm_pool m)) \<and>
     list_all (\<lambda>a. a < cm_next_attempt m) (attempts (cm_pool m)) \<and>
     list_all (\<lambda>(k, entry). case entry of Connected c \<Rightarrow> key_of c = k | _ \<Rightarrow> True) (cm_pool m)"
  by (auto simp: pool_inv_def list_all_iff split: PoolEntry.splits)

lemma demo_unused: "sc_active_channels (demo_conns c) = 0"
  by (simp add: demo_conns_def)

text \<open>What the witnesses read off a state, evaluated together.\<close>

definition observe :: "TransferSystem \<Rightarrow> nat \<times> nat \<times> nat \<times> nat \<times> nat \<times> nat \<times> bool" where
  "observe s = (length (sys_tasks s), length (filter (\<lambda>task. task_connection task = ConnId 0) (sys_tasks s)),
     sys_browsing s (ConnId 0), length (tm_pending (sys_manager s)), length (tm_running (sys_manager s)),
     length (filter (\<lambda>p. rt_plan_id (snd p) = TransferPlanId 1) (tm_running (sys_manager s))),
     sys_tasks s \<noteq> [] \<and> task_may_clear_destination (hd (sys_tasks s)) \<and> task_plan_id (hd (sys_tasks s)) = TransferPlanId 1)"

lemma queue_observed: "observe (foldl system_step queue_start queue_ops) = (3, 3, 1, 0, 3, 2, False)"
  by code_simp

lemma queue_early_observed: "observe (foldl system_step queue_start (take 3 queue_ops)) = (2, 2, 1, 2, 2, 1, True)"
  by code_simp

lemma queue_admissible: "books.admissible_run queue_dir queue_key queue_start queue_ops"
  unfolding books.admissible_run_eq by code_simp

section \<open>Limits\<close>

text \<open>
  C18 (transfer_limits_hold): however requests, completions, ends of tasks, browsing sessions and conflict
  answers interleave, at most 12 transfers run, at most 8 of one plan, at most 9 on one connection; every
  running transfer is either a task in flight or a completion still to be read, so the channel of
  completions, with room for 24, never blocks a task; a connection's channel counter is exactly its
  browsing sessions plus its tasks; and at most 1024 early cancels and 8 idle sessions per plan are kept.
\<close>

theorem transfer_limits_hold:
  assumes "\<forall>c. sc_active_channels (conns c) = 0"
    and "books.admissible_run dir key (transfer_system_new conns) ops"
  shows "let s = foldl system_step (transfer_system_new conns) ops; m = sys_manager s
         in length (tm_running m) \<le> 12 \<and>
            (\<forall>plan. length (filter (\<lambda>(_, running). rt_plan_id running = plan) (tm_running m)) \<le> 8) \<and>
            (\<forall>c. length (filter (\<lambda>task. task_connection task = c) (sys_tasks s)) \<le> 9) \<and>
            length (sys_tasks s) + length (sys_completions s) = length (tm_running m) \<and>
            (\<forall>c. sc_active_channels (sys_conns s c) =
               sys_browsing s c + length (filter (\<lambda>task. task_connection task = c) (sys_tasks s))) \<and>
            length (tm_cancelled_before_enqueue m) \<le> 1024 \<and>
            (\<forall>(plan, slots) \<in> set (tm_idle_sessions m). length slots \<le> 8)"
proof -
  let ?s = "foldl system_step (transfer_system_new conns) ops"
  have b: "books_ok ?s" using assms(1) by (intro books.reachable_inv[OF _ assms(2)]) blast
  then have inv: "jobs_ok (sys_manager ?s)" "slack_ok (sys_manager ?s)" by (simp_all add: books_ok_def manager_inv_def)
  have per_plan: "length (filter (\<lambda>(_, running). rt_plan_id running = plan) (tm_running (sys_manager ?s))) \<le> 8" for plan
  proof -
    have "count (mset (map (\<lambda>p. rt_plan_id (snd p)) al)) plan = length (filter (\<lambda>(_, running). rt_plan_id running = plan) al)"
      for al :: "(TransferId \<times> RunningTransfer) list" by (induction al) auto
    with inv(1) show ?thesis by (metis jobs_ok_def running_ok_def MAX_CONCURRENT_PER_PLAN_def)
  qed
  have "length (tm_cancelled_before_enqueue (sys_manager ?s)) \<le> 1024"
  proof -
    have "length (tm_cancelled_before_enqueue (sys_manager ?s)) = card (set (tm_pending_cancel_order (sys_manager ?s)))"
      using inv(2) by (metis slack_ok_def cancels_ok_def distinct_card length_map list.set_map)
    also have "\<dots> \<le> length (tm_pending_cancel_order (sys_manager ?s))" by (rule card_length)
    also have "\<dots> \<le> 1024" using inv(2) by (simp add: slack_ok_def cancels_ok_def MAX_PENDING_CANCELS_def)
    finally show ?thesis .
  qed
  moreover have "length (tm_running (sys_manager ?s)) \<le> 12"
    using inv(1) by (simp add: jobs_ok_def running_ok_def MAX_CONCURRENT_TRANSFERS_def)
  moreover have "\<forall>(plan, slots) \<in> set (tm_idle_sessions (sys_manager ?s)). length slots \<le> 8"
    using inv(2) by (simp add: slack_ok_def idle_ok_def MAX_IDLE_SESSIONS_PER_PLAN_def MAX_CONCURRENT_PER_PLAN_def)
  ultimately show ?thesis
    using per_plan b books_running[OF b]
    unfolding Let_def books_ok_def tasks_on_def MAX_CHANNELS_PER_CONNECTION_def by blast
qed

theorem transfer_limits_hold_witness:
  "length (sys_tasks (foldl system_step queue_start queue_ops)) = 3 \<and>
   sc_active_channels (sys_conns (foldl system_step queue_start queue_ops) (ConnId 0)) = 4"
proof -
  from queue_observed have "length (sys_tasks (foldl system_step queue_start queue_ops)) = 3"
    "length (filter (\<lambda>task. task_connection task = ConnId 0) (sys_tasks (foldl system_step queue_start queue_ops))) = 3"
    "sys_browsing (foldl system_step queue_start queue_ops) (ConnId 0) = 1"
    by (simp_all add: observe_def)
  with transfer_limits_hold[OF allI[OF demo_unused] queue_admissible] show ?thesis
    by (simp add: Let_def)
qed

section \<open>Books\<close>

lemma reachable_books:
  assumes "\<forall>c. sc_active_channels (conns c) = 0" and "books.admissible_run dir key (transfer_system_new conns) ops"
  shows "books_ok (foldl system_step (transfer_system_new conns) ops)"
  using assms(1) by (intro books.reachable_inv[OF _ assms(2)]) blast

lemma count_plans: "count (mset (map f xs)) x = length (filter (\<lambda>y. f y = x) xs)"
  by (induction xs) auto



section \<open>Which job starts\<close>

text \<open>The order of starts in two lines: the oldest startable job of a plan with nothing running, else the
  oldest startable job. A job is startable by its eligibility alone.\<close>

definition fair_choice :: "(ConnId \<Rightarrow> SharedConnection) \<Rightarrow> TransferManager \<Rightarrow> nat option" where
  "fair_choice conns m =
     (case position (\<lambda>q. \<not> list_ex (\<lambda>p. rt_plan_id (snd p) = qt_plan_id q) (tm_running m) \<and> is_eligible conns m q)
             (tm_pending m) of
        Some i \<Rightarrow> Some i
      | None \<Rightarrow> position (is_eligible conns m) (tm_pending m))"

lemma position_cong: "(\<And>x. x \<in> set xs \<Longrightarrow> P x = Q x) \<Longrightarrow> position P xs = position Q xs"
  by (induction xs) auto

lemma fair_choice_correct:
  assumes "jobs_ok m"
  shows "next_queued_position conns m = fair_choice conns m"
proof -
  let ?run = "counted (tm_running_per_plan m)"
  let ?plans = "filter (\<lambda>p. ?run p < MAX_CONCURRENT_PER_PLAN) (map fst (tm_pending_per_plan m))"
  have keys: "fst ` set (tm_pending_per_plan m) = qt_plan_id ` set (tm_pending m)"
    using tallied_keys[of "tm_pending_per_plan m" "mset (map qt_plan_id (tm_pending m))"] assms
    by (simp add: jobs_ok_def queue_ok_def)
  have idle: "?run plan = 0 \<longleftrightarrow> \<not> list_ex (\<lambda>p. rt_plan_id (snd p) = plan) (tm_running m)" for plan
    using tallied_counted[of "tm_running_per_plan m" "mset (map (\<lambda>p. rt_plan_id (snd p)) (tm_running m))" plan] assms
      count_plans[of "\<lambda>p. rt_plan_id (snd p)" "tm_running m" plan]
    by (auto simp: jobs_ok_def running_ok_def list_ex_iff filter_empty_conv)
  have low: "qt_plan_id q \<in> set ?plans" if "q \<in> set (tm_pending m)" "is_eligible conns m q" for q
  proof -
    have "?run (qt_plan_id q) < MAX_CONCURRENT_PER_PLAN"
      using that(2) by (auto simp: is_eligible_def Let_def split: if_splits)
    moreover have "qt_plan_id q \<in> fst ` set (tm_pending_per_plan m)" using that(1) by (simp add: keys)
    ultimately show ?thesis by simp
  qed
  have fill: "position (\<lambda>q. qt_plan_id q \<in> set ?plans \<and> is_eligible conns m q) (tm_pending m) =
      position (is_eligible conns m) (tm_pending m)"
    by (rule position_cong) (use low in blast)
  have pick: "position (\<lambda>q. qt_plan_id q \<in> set ?plans \<and> ?run (qt_plan_id q) = 0 \<and> is_eligible conns m q) (tm_pending m) =
      position (\<lambda>q. \<not> list_ex (\<lambda>p. rt_plan_id (snd p) = qt_plan_id q) (tm_running m) \<and> is_eligible conns m q) (tm_pending m)"
    by (rule position_cong) (use low idle in blast)
  have none: "fair_choice conns m = None" if "?plans = []"
  proof -
    have "\<not> is_eligible conns m q" if "q \<in> set (tm_pending m)" for q
      using low[OF that] \<open>?plans = []\<close> by (metis empty_iff list.set(1))
    then have "position (is_eligible conns m) (tm_pending m) = None"
      "position (\<lambda>q. \<not> list_ex (\<lambda>p. rt_plan_id (snd p) = qt_plan_id q) (tm_running m) \<and> is_eligible conns m q) (tm_pending m) = None"
      by (auto simp: position_None_iff)
    then show ?thesis by (simp add: fair_choice_def)
  qed
  have busy: "position (\<lambda>q. \<not> list_ex (\<lambda>p. rt_plan_id (snd p) = qt_plan_id q) (tm_running m) \<and> is_eligible conns m q) (tm_pending m) = None"
    if all: "\<not> list_ex (\<lambda>p. ?run p = 0) (map fst (tm_pending_per_plan m))"
  proof -
    have "?run (qt_plan_id q) \<noteq> 0" if q: "q \<in> set (tm_pending m)" for q
    proof -
      have "qt_plan_id q \<in> fst ` set (tm_pending_per_plan m)" using q by (simp add: keys)
      then show ?thesis using all by (auto simp: list_ex_iff)
    qed
    then show ?thesis using idle by (simp add: position_None_iff)
  qed
  show ?thesis
    unfolding next_queued_position_def Let_def fill pick
    using none busy by (auto simp: fair_choice_def split: option.splits)
qed

text \<open>
  C22 (next_job_is_fair_choice): in every reachable state the two-phase scan over the counters per plan picks
  exactly the oldest eligible job of a plan with nothing running, or else the oldest eligible job: the
  shortcuts through the counters neither skip a job nor let one start early.
\<close>

theorem next_job_is_fair_choice:
  assumes "\<forall>c. sc_active_channels (conns c) = 0"
    and "books.admissible_run dir key (transfer_system_new conns) ops"
    and "s = foldl system_step (transfer_system_new conns) ops"
  shows "next_queued_position (sys_conns s) (sys_manager s) = fair_choice (sys_conns s) (sys_manager s)"
  using reachable_books[OF assms(1,2)] unfolding assms(3)
  by (intro fair_choice_correct) (simp add: books_ok_def manager_inv_def)

theorem next_job_is_fair_choice_witness:
  "let s = foldl system_step queue_start (take 2 queue_ops)
   in next_queued_position (sys_conns s) (sys_manager s) = None \<and> length (tm_pending (sys_manager s)) = 2"
proof -
  from next_job_is_fair_choice[OF allI[OF demo_unused] books.admissible_take[OF queue_admissible] refl, of 2] show ?thesis
    unfolding Let_def by (simp only:) code_simp
qed

section \<open>Progress\<close>

text \<open>
  C19 (transfers_drain): as long as the browsing sessions leave a channel free on every connection, the
  manager never stalls. From any reachable state, let tasks end and completions be read in any order and
  with any outcomes: there can be at most two such steps per queued or running transfer, and when none is
  left, every queued transfer has been started and has ended.
\<close>

theorem transfers_drain:
  assumes "\<forall>c. sc_active_channels (conns c) = 0"
    and "awake.admissible_run dir key (transfer_system_new conns) ops"
    and "s = foldl system_step (transfer_system_new conns) ops"
    and "drain_run s ends"
  shows "length ends \<le> 2 * (length (tm_pending (sys_manager s)) + length (tm_running (sys_manager s))) \<and>
         ((\<forall>a. \<not> drains (foldl system_step s ends) a) \<longrightarrow>
            tm_pending (sys_manager (foldl system_step s ends)) = [] \<and>
            tm_running (sys_manager (foldl system_step s ends)) = [] \<and> sys_tasks (foldl system_step s ends) = [])"
proof -
  have awake: "awake s" unfolding assms(3) using assms(1) by (intro awake.reachable_inv[OF _ assms(2)]) blast
  have "length ends \<le> backlog s" using drain_bounded[OF assms(4)] by simp
  moreover have "backlog s \<le> 2 * (length (tm_pending (sys_manager s)) + length (tm_running (sys_manager s)))"
    using books_running[of s] awake by (simp add: backlog_def awake_def)
  moreover have end_awake: "awake (foldl system_step s ends)" using awake assms(4) by (rule awake_drain_run)
  then have "length (sys_tasks (foldl system_step s ends)) \<le> length (tm_running (sys_manager (foldl system_step s ends)))"
    using books_running[of "foldl system_step s ends"] by (simp add: awake_def)
  ultimately show ?thesis using quiet_empty[OF end_awake] by auto
qed

definition queue_ends :: "TransferSystemOp list" where
  "queue_ends =
     [TaskEnds (TransferId 4) (Ran 2 TransferJobOutcome.Completed) 0, OnCompletion,
      TaskEnds (TransferId 2) (Ran 3 (TransferJobOutcome.Failed False)) 0, OnCompletion,
      TaskEnds (TransferId 3) (Ran 4 TransferJobOutcome.Completed) 0, OnCompletion]"

lemma drains_none: "sys_tasks s = [] \<Longrightarrow> sys_completions s = [] \<Longrightarrow> \<not> drains s a"
  by (cases a) simp_all

lemma roomy_step: "roomy s \<Longrightarrow> (\<And>c. a \<noteq> BrowseOpens c) \<Longrightarrow> roomy (system_step s a)"
  by (cases a) (auto simp: roomy_def on_request_def on_completion_def finish_task_def browse_close_def Let_def split_def
      intro: le_less_trans[OF diff_le_self] split: list.splits option.splits)

lemma roomy_run:
  "books.admissible_run dir key s ops \<Longrightarrow> roomy s \<Longrightarrow> (\<forall>a \<in> set ops. \<forall>c. a \<noteq> BrowseOpens c) \<Longrightarrow>
   awake.admissible_run dir key s ops"
  by (induction ops arbitrary: s) (simp_all add: roomy_step)

theorem transfers_drain_witness:
  "let s = foldl system_step queue_start queue_ops
   in drain_run s queue_ends \<and> length queue_ends \<le> 6 \<and> tm_pending (sys_manager (foldl system_step s queue_ends)) = [] \<and>
      tm_running (sys_manager (foldl system_step s queue_ends)) = []"
proof -
  let ?first = "system_step queue_start (BrowseOpens (ConnId 0))" and ?s = "foldl system_step queue_start queue_ops"
  have room: "roomy ?first"
    by (simp add: browse_open_def transfer_system_new_def roomy_def MAX_CHANNELS_PER_CONNECTION_def)
  have run: "books.admissible_run queue_dir queue_key queue_start (BrowseOpens (ConnId 0) # tl queue_ops)"
    using queue_admissible by (simp add: queue_ops_def)
  then have "awake.admissible_run queue_dir queue_key queue_start (BrowseOpens (ConnId 0) # tl queue_ops)"
    using room roomy_run[of queue_dir queue_key ?first "tl queue_ops"] by (simp add: queue_ops_def)
  then have awake: "awake.admissible_run queue_dir queue_key queue_start queue_ops" by (simp add: queue_ops_def)
  have ends: "drain_run ?s queue_ends" by code_simp
  have lengths: "length (tm_pending (sys_manager ?s)) = 0" "length (tm_running (sys_manager ?s)) = 3"
    using queue_observed by (simp_all add: observe_def)
  have "(\<lambda>s. sys_tasks s = [] \<and> sys_completions s = []) (foldl system_step ?s queue_ends)"
    by code_simp
  then have "sys_tasks (foldl system_step ?s queue_ends) = []" "sys_completions (foldl system_step ?s queue_ends) = []"
    by simp_all
  then have quiet: "\<forall>a. \<not> drains (foldl system_step ?s queue_ends) a" by (simp add: drains_none)
  from transfers_drain[OF allI[OF demo_unused] awake refl ends] quiet ends lengths show ?thesis
    by (simp add: Let_def)
qed

section \<open>Where jobs run\<close>

lemma reachable_journey:
  assumes "\<forall>c. sc_active_channels (conns c) = 0" and "books.admissible_run dir key (transfer_system_new conns) ops"
  shows "journey_ok dir key (foldl system_step (transfer_system_new conns) ops)"
  using assms(1) by (intro journey.reachable_inv[OF _ assms(2)]) blast

text \<open>
  transfers_keep_identity: every task in flight, retried ones included, runs on a connection with the
  key (host, user, route and credential) its plan was enqueued with and in the plan's direction, even when
  the first connection was lost and the retry took another one from the pool; what a later retry would use
  is recorded with the same key.
\<close>

theorem transfers_keep_identity:
  assumes "\<forall>c. sc_active_channels (conns c) = 0"
    and "books.admissible_run dir key (transfer_system_new conns) ops"
    and "s = foldl system_step (transfer_system_new conns) ops"
  shows "(\<forall>task \<in> set (sys_tasks s). sc_connection_key (sys_conns s (task_connection task)) = key (task_plan_id task) \<and>
            job_direction (task_job task) = dir (task_plan_id task)) \<and>
         (\<forall>(t, route) \<in> set (tm_retry_routes (sys_manager s)). rr_connection_key route = key (rr_plan_id route))"
proof -
  have "flow_ok dir key s" using reachable_journey[OF assms(1,2)] assms(3) by (simp add: journey_ok_def)
  then show ?thesis by (auto simp: flow_ok_def routed_def route_ok_def)
qed

theorem transfers_keep_identity_witness:
  "list_all (\<lambda>task. sc_connection_key (sys_conns (foldl system_step queue_start queue_ops) (task_connection task)) = demo_pool_key)
     (sys_tasks (foldl system_step queue_start queue_ops))"
  using transfers_keep_identity[OF allI[OF demo_unused] queue_admissible refl] by (simp add: list_all_iff)

text \<open>
  C20 (destination_cleared_first): a job is allowed to clear its destination only if no other job of its plan
  was ever started before it, so a retried root never deletes what a finished child wrote; and while a
  download's job with that right runs, no other job of the plan runs.
\<close>

theorem destination_cleared_first:
  assumes "\<forall>c. sc_active_channels (conns c) = 0"
    and "books.admissible_run dir key (transfer_system_new conns) ops"
    and "s = foldl system_step (transfer_system_new conns) ops"
  shows "(\<forall>i < length (sys_started s). \<forall>j < i. task_may_clear_destination (sys_started s ! i) \<and>
            task_plan_id (sys_started s ! j) = task_plan_id (sys_started s ! i) \<longrightarrow>
            task_transfer_id (sys_started s ! j) = task_transfer_id (sys_started s ! i)) \<and>
         (\<forall>task \<in> set (sys_tasks s). \<forall>other \<in> set (sys_tasks s). task_may_clear_destination task \<and>
            dir (task_plan_id task) = Download \<and> task_plan_id other = task_plan_id task \<longrightarrow> other = task)"
proof -
  have j: "books_ok s" "clear_ok dir s" using reachable_journey[OF assms(1,2)] assms(3) by (simp_all add: journey_ok_def)
  have "other = task" if t: "task \<in> set (sys_tasks s)" "other \<in> set (sys_tasks s)" "task_may_clear_destination task"
    "dir (task_plan_id task) = Download" "task_plan_id other = task_plan_id task" for task other
  proof -
    have "sole (sys_manager s) task" using j(2) t by (simp add: clear_ok_def)
    moreover have "(task_transfer_id other, task_plan_id other) \<in> set (shape (sys_manager s))"
      using j(1) t(2) by (simp add: books_ok_def)
    ultimately have "task_transfer_id other = task_transfer_id task" using t(5) by (force simp: sole_def)
    with books_distinct_tasks[OF j(1)] t(1,2) show ?thesis by (simp add: distinct_map inj_on_def)
  qed
  with j(2) show ?thesis by (auto simp: clear_ok_def clears_first_def)
qed

theorem destination_cleared_first_witness:
  "let s = foldl system_step queue_start (take 3 queue_ops)
   in (\<forall>other \<in> set (sys_tasks s). task_plan_id other = TransferPlanId 1 \<longrightarrow> other = hd (sys_tasks s))"
proof -
  let ?s = "foldl system_step queue_start (take 3 queue_ops)"
  note * = destination_cleared_first[OF allI[OF demo_unused] books.admissible_take[OF queue_admissible] refl, of 3]
  from queue_early_observed have "task_may_clear_destination (hd (sys_tasks ?s))" "task_plan_id (hd (sys_tasks ?s)) = TransferPlanId 1"
    "sys_tasks ?s \<noteq> []"
    by (simp_all add: observe_def)
  moreover have "queue_dir (TransferPlanId 1) = Download" by (simp add: queue_dir_def)
  ultimately show ?thesis using conjunct2[OF *] by (simp add: Let_def)
qed

section \<open>A queue that nobody wakes\<close>

text \<open>
  The premise of progress is needed. Nine tabs browse over one connection, so its nine channels are
  taken, and an upload is enqueued. It stays queued without an event. When all nine tabs close, the job is
  eligible and nothing runs, but the manager reads only requests and completions, so the job stays
  queued until some other transfer comes along.
\<close>

definition stalled_ops :: "TransferSystemOp list" where
  "stalled_ops = replicate 9 (BrowseOpens (ConnId 0)) @
     [queue_request (Enqueue (ConnId 0) (TransferPlanId 2) [queue_job 4 Upload])] @
     replicate 9 (BrowseCloses (ConnId 0) 0)"

definition stalled :: "TransferSystem \<Rightarrow> bool" where
  "stalled s \<longleftrightarrow> map (\<lambda>q. job_id (qt_job q)) (tm_pending (sys_manager s)) = [TransferId 4] \<and>
     list_all (is_eligible (sys_conns s) (sys_manager s)) (tm_pending (sys_manager s)) \<and>
     sys_tasks s = [] \<and> sys_completions s = [] \<and> sys_outputs s = []"

text \<open>
  closed_tabs_leave_transfer_queued: after nine tabs of a connection were open while an upload was
  enqueued and all closed again, the upload is still queued although it is eligible, no transfer runs, no
  event was sent and no completion is due that would make the manager look at its queue.
\<close>

theorem closed_tabs_leave_transfer_queued:
  "let s = foldl system_step queue_start stalled_ops
   in books.admissible_run queue_dir queue_key queue_start stalled_ops \<and>
      map (\<lambda>q. job_id (qt_job q)) (tm_pending (sys_manager s)) = [TransferId 4] \<and>
      list_all (is_eligible (sys_conns s) (sys_manager s)) (tm_pending (sys_manager s)) \<and>
      sys_tasks s = [] \<and> sys_completions s = [] \<and> sys_outputs s = []"
proof -
  have "books.admissible_run queue_dir queue_key queue_start stalled_ops"
    unfolding books.admissible_run_eq by code_simp
  moreover have "stalled (foldl system_step queue_start stalled_ops)" by code_simp
  ultimately show ?thesis by (simp add: Let_def stalled_def)
qed

end
