(* ===== verification/Early_Cancels.thy ===== *)
theory Early_Cancels
  imports Transfer_Manager_Steps
begin

text \<open>
  The cancels that arrive before their job, as the manager's callers see them: one log of at most 1024
  records, oldest first. The hash map and the queue of ids of the code refine it, and a job that was
  cancelled before it is enqueued never enters the queue.
\<close>

section \<open>The log\<close>

type_synonym cancel_log = "(TransferId \<times> TransferPlanId option) list"

definition log_record :: "cancel_log \<Rightarrow> TransferId \<Rightarrow> TransferPlanId option \<Rightarrow> cancel_log" where
  "log_record log t plan =
     (let log' = (if t \<in> fst ` set log then map (\<lambda>p. if fst p = t then (t, plan) else p) log else log @ [(t, plan)])
      in drop (length log' - MAX_PENDING_CANCELS) log')"

definition log_take :: "cancel_log \<Rightarrow> TransferId \<Rightarrow> cancel_log \<times> bool" where
  "log_take log t = (filter (\<lambda>p. fst p \<noteq> t) log, t \<in> fst ` set log)"

definition log_forget :: "cancel_log \<Rightarrow> TransferPlanId \<Rightarrow> cancel_log" where
  "log_forget log plan = filter (\<lambda>p. snd p \<noteq> Some plan) log"

definition cancel_log :: "TransferManager \<Rightarrow> cancel_log" where
  "cancel_log m = map (\<lambda>t. (t, the (map_of (tm_cancelled_before_enqueue m) t))) (tm_pending_cancel_order m)"

section \<open>Refinement\<close>

lemma log_ids [simp]: "map fst (cancel_log m) = tm_pending_cancel_order m"
  by (simp add: cancel_log_def comp_def)

lemma log_keys: "fst ` set (cancel_log m) = set (tm_pending_cancel_order m)"
  by (simp flip: log_ids)

lemma ordered_known:
  "cancels_ok m \<Longrightarrow> t \<in> set (tm_pending_cancel_order m) \<longleftrightarrow> map_of (tm_cancelled_before_enqueue m) t \<noteq> None"
  by (auto simp: cancels_ok_def map_of_eq_None_iff)

lemma drop_oldest_values:
  "distinct order \<Longrightarrow> t \<in> set (fst (drop_oldest_cancels order cancelled)) \<Longrightarrow>
   map_of (snd (drop_oldest_cancels order cancelled)) t = map_of cancelled t"
proof (induction order cancelled rule: drop_oldest_cancels.induct)
  case (2 oldest order cancelled)
  show ?case
  proof (cases "MAX_PENDING_CANCELS < length (oldest # order)")
    case True
    then have t: "t \<in> set (fst (drop_oldest_cancels order (AList.delete oldest cancelled)))" using 2(3) by simp
    then have "t \<in> set order" by (simp add: drop_oldest_order in_set_dropD)
    then have "t \<noteq> oldest" using 2(2) by auto
    with 2(1)[OF True _ t] 2(2) True show ?thesis by (simp add: delete_conv')
  qed simp
qed simp

lemma log_record_refines:
  assumes "cancels_ok m"
  shows "cancel_log (record_pending_cancel m t plan) = log_record (cancel_log m) t plan"
proof -
  let ?al = "tm_cancelled_before_enqueue m" and ?o = "tm_pending_cancel_order m"
  let ?order = "if map_of ?al t = None then ?o @ [t] else ?o"
  let ?r = "drop_oldest_cancels ?order (AList.update t plan ?al)"
  let ?keep = "drop (length ?order - MAX_PENDING_CANCELS) ?order"
  have known: "t \<in> set ?o \<longleftrightarrow> map_of ?al t \<noteq> None" using ordered_known[OF assms] .
  have "distinct ?order" using assms known by (auto simp: cancels_ok_def)
  then have "the (map_of (snd ?r) k) = (if k = t then plan else the (map_of ?al k))" if "k \<in> set ?keep" for k
    using drop_oldest_values[of ?order k "AList.update t plan ?al"] that
    by (simp add: drop_oldest_order update_conv')
  then have "map (\<lambda>k. (k, the (map_of (snd ?r) k))) ?keep =
      map (\<lambda>k. (k, if k = t then plan else the (map_of ?al k))) ?keep"
    by (intro map_cong) auto
  moreover have "cancel_log (record_pending_cancel m t plan) = map (\<lambda>k. (k, the (map_of (snd ?r) k))) ?keep"
  proof -
    obtain order' cancelled' where r: "?r = (order', cancelled')" by fastforce
    have "order' = ?keep" using drop_oldest_order[of ?order "AList.update t plan ?al"] unfolding r by simp
    then show ?thesis unfolding cancel_log_def record_pending_cancel_def Let_def r by simp
  qed
  moreover have "log_record (cancel_log m) t plan = map (\<lambda>k. (k, if k = t then plan else the (map_of ?al k))) ?keep"
  proof -
    have "(if t \<in> fst ` set (cancel_log m) then map (\<lambda>p. if fst p = t then (t, plan) else p) (cancel_log m)
        else cancel_log m @ [(t, plan)]) = map (\<lambda>k. (k, if k = t then plan else the (map_of ?al k))) ?order"
      using known by (cases "map_of ?al t = None") (auto simp: log_keys, auto simp: cancel_log_def)
    then show ?thesis unfolding log_record_def Let_def by (simp only: length_map drop_map)
  qed
  ultimately show ?thesis by simp
qed

lemma log_take_refines:
  assumes "cancels_ok m"
  shows "(cancel_log (fst (take_pending_cancel m t)), snd (take_pending_cancel m t)) = log_take (cancel_log m) t"
proof (cases "map_of (tm_cancelled_before_enqueue m) t = None")
  case True
  then have absent: "t \<notin> set (tm_pending_cancel_order m)" using ordered_known[OF assms] by simp
  then have "filter (\<lambda>p. fst p \<noteq> t) (cancel_log m) = cancel_log m"
    by (auto simp: filter_id_conv simp flip: log_keys)
  with True absent show ?thesis by (simp add: take_pending_cancel_def log_take_def log_keys)
next
  case False
  then have "t \<in> fst ` set (cancel_log m)" using ordered_known[OF assms] by (simp add: log_keys)
  moreover have "cancel_log (fst (take_pending_cancel m t)) = filter (\<lambda>p. fst p \<noteq> t) (cancel_log m)"
    using False
    by (auto simp: take_pending_cancel_def cancel_log_def filter_map comp_def delete_conv' intro!: map_cong)
  ultimately show ?thesis using False by (simp add: take_pending_cancel_def log_take_def)
qed

lemma map_of_filter_values:
  "distinct (map fst al) \<Longrightarrow>
   map_of (filter (\<lambda>(_, recorded). recorded \<noteq> v) al) t =
     (case map_of al t of Some w \<Rightarrow> if w \<noteq> v then Some w else None | None \<Rightarrow> None)"
  by (induction al) (auto split: option.splits simp: map_of_eq_None_iff)

lemma log_forget_refines:
  assumes "cancels_ok m"
  shows "cancel_log (forget_cancellations_for_plan m plan) = log_forget (cancel_log m) plan"
proof -
  let ?al = "tm_cancelled_before_enqueue m"
  let ?kept = "filter (\<lambda>(_, recorded). recorded \<noteq> Some plan) ?al"
  have d: "distinct (map fst ?al)" using assms by (simp add: cancels_ok_def)
  have kept: "map_of ?kept t = (case map_of ?al t of Some v \<Rightarrow> if v \<noteq> Some plan then Some v else None | None \<Rightarrow> None)" for t
    using d by (rule map_of_filter_values)
  have "cancel_log (forget_cancellations_for_plan m plan) =
      map (\<lambda>t. (t, the (map_of ?kept t))) (filter (\<lambda>t. map_of ?kept t \<noteq> None) (tm_pending_cancel_order m))"
    by (simp add: cancel_log_def forget_cancellations_for_plan_def Let_def)
  also have "\<dots> = map (\<lambda>t. (t, the (map_of ?al t))) (filter (\<lambda>t. the (map_of ?al t) \<noteq> Some plan) (tm_pending_cancel_order m))"
    using ordered_known[OF assms]
    by (intro map_cong filter_cong) (auto simp: kept split: option.splits if_splits)
  finally show ?thesis by (simp add: log_forget_def cancel_log_def filter_map comp_def)
qed

datatype cancel_op = Record TransferId "TransferPlanId option" | Take TransferId | Forget TransferPlanId

fun cancel_step :: "TransferManager \<Rightarrow> cancel_op \<Rightarrow> TransferManager" where
  "cancel_step m (Record t plan) = record_pending_cancel m t plan"
| "cancel_step m (Take t) = fst (take_pending_cancel m t)"
| "cancel_step m (Forget plan) = forget_cancellations_for_plan m plan"

fun log_step :: "cancel_log \<Rightarrow> cancel_op \<Rightarrow> cancel_log" where
  "log_step log (Record t plan) = log_record log t plan"
| "log_step log (Take t) = fst (log_take log t)"
| "log_step log (Forget plan) = log_forget log plan"

interpretation cancels: state_machine "\<lambda>m. m = transfer_manager_new" cancel_step cancels_ok
proof unfold_locales
  show "cancels_ok (cancel_step m a)" if "cancels_ok m" for m a using that by (cases a) simp_all
qed (simp add: cancels_ok_def transfer_manager_new_def)

lemma cancel_step_refines: "cancels_ok m \<Longrightarrow> cancel_log (cancel_step m a) = log_step (cancel_log m) a"
  using arg_cong[OF log_take_refines[of m], of fst] by (cases a) (auto simp: log_record_refines log_forget_refines)

lemma cancel_run_refines:
  "cancels_ok m \<Longrightarrow> cancel_log (foldl cancel_step m ops) = foldl log_step (cancel_log m) ops"
  by (induction ops arbitrary: m) (simp_all add: cancel_step_refines cancels.inv_step)

text \<open>
  C23 (early_cancels_refine_log): through any sequence of recording, taking and forgetting, the hash map of
  early cancels and the queue of their ids behave as one log, oldest record first: recording an id again
  only renews its plan, the oldest records go when there are more than 1024, a record is found exactly
  while it is in the log, and forgetting a plan removes its records and no others.
\<close>

theorem early_cancels_refine_log:
  "let m = foldl cancel_step transfer_manager_new ops; log = foldl log_step [] ops
   in cancel_log m = log \<and> length log \<le> 1024 \<and> distinct (map fst log) \<and>
      (\<forall>t. snd (take_pending_cancel m t) = (t \<in> fst ` set log))"
proof -
  let ?m = "foldl cancel_step transfer_manager_new ops" and ?log = "foldl log_step [] ops"
  have ok: "cancels_ok ?m" by (rule cancels.reachable_inv) simp
  have "cancels_ok transfer_manager_new" by (rule cancels.inv_init) simp
  from cancel_run_refines[OF this, of ops] have abs: "cancel_log ?m = ?log"
    by (simp add: cancel_log_def transfer_manager_new_def)
  then have ids: "map fst ?log = tm_pending_cancel_order ?m" using log_ids by metis
  have "length ?log = length (tm_pending_cancel_order ?m)" using arg_cong[OF ids, of length] by simp
  then have "length ?log \<le> 1024" "distinct (map fst ?log)"
    using ok by (simp_all add: ids cancels_ok_def MAX_PENDING_CANCELS_def)
  moreover have "snd (take_pending_cancel ?m t) = (t \<in> fst ` set ?log)" for t
    using arg_cong[OF log_take_refines[OF ok, of t], of snd] by (simp add: abs log_take_def)
  ultimately show ?thesis using abs by (simp add: Let_def)
qed

section \<open>A cancel that overtakes its job\<close>

lemma enqueue_jobs_result:
  assumes "distinct (map job_id jobs)"
  shows "tm_pending (fst (enqueue_jobs m c plan jobs)) = tm_pending m @
           map (\<lambda>job. \<lparr>qt_connection = c, qt_plan_id = plan, qt_job = job\<rparr>)
             (filter (\<lambda>job. map_of (tm_cancelled_before_enqueue m) (job_id job) = None) jobs)"
    and "snd (enqueue_jobs m c plan jobs) =
           map job_id (filter (\<lambda>job. map_of (tm_cancelled_before_enqueue m) (job_id job) \<noteq> None) jobs)"
  using assms
proof (induction jobs arbitrary: m)
  case (Cons job jobs)
  have early: "map_of (tm_cancelled_before_enqueue (fst (take_pending_cancel m (job_id job)))) (job_id j) =
      map_of (tm_cancelled_before_enqueue m) (job_id j)" if "job_id j \<noteq> job_id job" for j m
    using that by (auto simp: take_pending_cancel_def delete_conv')
  have flag: "snd (take_pending_cancel m (job_id job)) \<longleftrightarrow> map_of (tm_cancelled_before_enqueue m) (job_id job) \<noteq> None" for m
    by (simp add: take_pending_cancel_def)
  have push: "tm_cancelled_before_enqueue (push_pending m q) = tm_cancelled_before_enqueue m" for m q
    by (simp add: push_pending_def)
  have same: "filter (\<lambda>j. P (map_of (tm_cancelled_before_enqueue (fst (take_pending_cancel m (job_id job)))) (job_id j))) jobs =
      filter (\<lambda>j. P (map_of (tm_cancelled_before_enqueue m) (job_id j))) jobs"
    if "distinct (map job_id (job # jobs))" for P m
    using that by (intro filter_cong refl arg_cong[where f = P] early) (force simp: image_iff)
  {
    case 1
    with Cons.IH(1) same[of "\<lambda>r. r = None"] show ?case by (simp add: enqueue_jobs_Cons flag push)
  next
    case 2
    with Cons.IH(2) same[of "\<lambda>r. r \<noteq> None"] show ?case by (simp add: enqueue_jobs_Cons flag push)
  }
qed simp_all

lemma recorded_survives:
  assumes "cancels_ok m"
  shows "map_of (tm_cancelled_before_enqueue (record_pending_cancel m t plan)) t \<noteq> None"
proof -
  have "t \<in> fst ` set (log_record (cancel_log m) t plan)"
  proof (cases "t \<in> fst ` set (cancel_log m)")
    case True
    have "length (cancel_log m) \<le> MAX_PENDING_CANCELS"
      using assms by (simp add: cancel_log_def cancels_ok_def)
    with True have "log_record (cancel_log m) t plan = map (\<lambda>p. if fst p = t then (t, plan) else p) (cancel_log m)"
      by (simp add: log_record_def)
    moreover have "fst ` set (map (\<lambda>p. if fst p = t then (t, plan) else p) log) = fst ` set log" for log :: cancel_log
      by (induction log) auto
    ultimately show ?thesis using True by (simp only:)
  next
    case False
    then show ?thesis
      by (simp add: log_record_def Let_def MAX_PENDING_CANCELS_def)
  qed
  then have "t \<in> set (tm_pending_cancel_order (record_pending_cancel m t plan))"
    by (simp flip: log_record_refines[OF assms] log_keys)
  then show ?thesis using ordered_known[OF cancels_ok_record[OF assms]] by simp
qed

lemma cancelled_admit [simp]:
  "tm_cancelled_before_enqueue (admit_plan m plan jobs record_root) = tm_cancelled_before_enqueue m"
  by (simp add: admit_plan_def record_plan_root_def Let_def)

text \<open>
  early_cancel_honoured: a cancel for a transfer the manager does not know yet is remembered, whatever
  else was cancelled before, and takes effect when the plan arrives: a cancelled root cancels the whole plan,
  nothing is queued; a cancelled child is reported as skipped and left out, and the other jobs that were not
  cancelled are queued in order.
\<close>

theorem early_cancel_honoured:
  assumes "cancels_ok m" and "t \<in> job_id ` set jobs" and "distinct (map job_id jobs)"
    and "plan_of_root m t = None" and "t \<notin> (\<lambda>q. job_id (qt_job q)) ` set (tm_pending m)" and "map_of (tm_running m) t = None"
    and "m1 = fst (cancel_transfer m t (Some plan))" and "enqueue m1 c plan jobs True = (m2, out)"
  shows "(if map_of (tm_cancelled_before_enqueue m1) (job_id (hd jobs)) \<noteq> None
          then out = [SendEvent (AppEvent.TransferPlanCancelled plan)] \<and> tm_pending m2 = tm_pending m
          else SendEvent (AppEvent.TransferSkipped t) \<in> set out \<and>
               map qt_job (tm_pending m2) = map qt_job (tm_pending m) @
                 filter (\<lambda>job. job_id job \<noteq> t \<and> map_of (tm_cancelled_before_enqueue m1) (job_id job) = None) jobs) \<and>
         (t = job_id (hd jobs) \<longrightarrow> map_of (tm_cancelled_before_enqueue m1) (job_id (hd jobs)) \<noteq> None)"
proof -
  have "position (\<lambda>q. job_id (qt_job q) = t) (tm_pending m) = None"
    using assms(5) by (auto simp: position_None_iff)
  then have m1: "m1 = record_pending_cancel m t (Some plan)"
    using assms(4,6,7) by (simp add: cancel_transfer_def)
  have rec: "map_of (tm_cancelled_before_enqueue m1) t \<noteq> None" unfolding m1 using recorded_survives[OF assms(1)] .
  have same: "tm_pending m1 = tm_pending m" by (simp add: m1 record_pending_cancel_def Let_def split_def)
  have jobs: "jobs \<noteq> []" using assms(2) by auto
  show ?thesis
  proof (cases "map_of (tm_cancelled_before_enqueue m1) (job_id (hd jobs)) = None")
    case False
    then have "m2 = forget_cancellations_for_plan m1 plan" "out = [SendEvent (AppEvent.TransferPlanCancelled plan)]"
      using assms(8) jobs by (auto simp: enqueue_def)
    with False same show ?thesis by simp
  next
    case True
    let ?m = "admit_plan m1 plan jobs True"
    have m2: "tm_pending m2 = tm_pending (fst (enqueue_jobs ?m c plan jobs))"
      and out: "out = map (\<lambda>t. SendEvent (AppEvent.TransferSkipped t)) (snd (enqueue_jobs ?m c plan jobs))"
      using True assms(8) by (auto simp: enqueue_def Let_def split_def split: if_splits)
    have "map qt_job (tm_pending m2) = map qt_job (tm_pending m) @
        filter (\<lambda>job. map_of (tm_cancelled_before_enqueue m1) (job_id job) = None) jobs"
      unfolding m2 enqueue_jobs_result(1)[OF assms(3)] by (simp add: same comp_def)
    moreover have "filter (\<lambda>job. map_of (tm_cancelled_before_enqueue m1) (job_id job) = None) jobs =
        filter (\<lambda>job. job_id job \<noteq> t \<and> map_of (tm_cancelled_before_enqueue m1) (job_id job) = None) jobs"
      using rec by (intro filter_cong) auto
    moreover have "SendEvent (AppEvent.TransferSkipped t) \<in> set out"
      unfolding out enqueue_jobs_result(2)[OF assms(3)] using rec assms(2) by auto
    ultimately show ?thesis using True rec by auto
  qed
qed

definition early_job :: "u64 \<Rightarrow> TransferJob" where
  "early_job n = \<lparr>job_id = TransferId n, job_direction = Upload,
     job_source = TransferEndpoint.Local (LocalPath []), job_destination = TransferEndpoint.Remote (RemotePath []),
     job_state = TransferState.Queued, job_metadata_policy = metadata_policy_default,
     job_conflict_policy = Ask, job_warnings = [], job_created_at = 0\<rparr>"

theorem early_cancel_honoured_witness:
  "let m1 = fst (cancel_transfer transfer_manager_new (TransferId 2) (Some (TransferPlanId 7)));
       r = enqueue m1 (ConnId 0) (TransferPlanId 7) [early_job 1, early_job 2, early_job 3] True
   in SendEvent (AppEvent.TransferSkipped (TransferId 2)) \<in> set (snd r) \<and>
      map qt_job (tm_pending (fst r)) = [early_job 1, early_job 3]"
proof -
  let ?m1 = "fst (cancel_transfer transfer_manager_new (TransferId 2) (Some (TransferPlanId 7)))"
  let ?r = "enqueue ?m1 (ConnId 0) (TransferPlanId 7) [early_job 1, early_job 2, early_job 3] True"
  have m1: "tm_cancelled_before_enqueue ?m1 = [(TransferId 2, Some (TransferPlanId 7))]"
    by (simp add: cancel_transfer_def plan_of_root_def transfer_manager_new_def record_pending_cancel_def Let_def
        MAX_PENDING_CANCELS_def)
  have "cancels_ok transfer_manager_new" by (rule cancels.inv_init) simp
  moreover have "plan_of_root transfer_manager_new (TransferId 2) = None"
    by (simp add: plan_of_root_def transfer_manager_new_def)
  ultimately show ?thesis
    using early_cancel_honoured[of transfer_manager_new "TransferId 2" "[early_job 1, early_job 2, early_job 3]" ?m1
        "TransferPlanId 7" "ConnId 0" "fst ?r" "snd ?r"] m1
    by (simp add: early_job_def Let_def) (simp add: transfer_manager_new_def)
qed

end
