(* ===== verification/Pipeline.thy ===== *)
theory Pipeline
  imports Core_Types Rust_Format
begin

text \<open>
  What the pipelined reader and writer of \<open>crates/sftp/src/pipelined_reader.rs\<close> and
  \<open>pipelined_writer.rs\<close> share: the sizes of chunks and windows, the errors they report, the throttle
  of their progress events, and a file as the bytes it holds.
\<close>

section \<open>Chunks and windows\<close>

definition TARGET_PIPELINE_WINDOW_BYTES :: u64 where
  "TARGET_PIPELINE_WINDOW_BYTES = 8 * 1024 * 1024"

definition DEFAULT_WINDOW_CAPACITY :: usize where
  "DEFAULT_WINDOW_CAPACITY = 32"

definition DEFAULT_CHUNK_SIZE :: u32 where
  "DEFAULT_CHUNK_SIZE = 256 * 1024"

definition optimal_window_capacity :: "u32 \<Rightarrow> usize" where
  "optimal_window_capacity chunk_size =
     (if chunk_size = 0 then DEFAULT_WINDOW_CAPACITY
      else min 128 (max 16 (unat (TARGET_PIPELINE_WINDOW_BYTES div ucast chunk_size))))"

definition next_chunk_len :: "u64 \<Rightarrow> u32 \<Rightarrow> u32" where
  "next_chunk_len remaining chunk_size = ucast (min remaining (ucast chunk_size))"

lemma next_chunk_len_exact: "unat (next_chunk_len remaining chunk) = min (unat remaining) (unat chunk)"
proof -
  have lt: "unat chunk < 2 ^ 32" using unsigned_less[of chunk] by simp
  then have c: "unat (ucast chunk :: u64) = unat chunk" by (simp add: unsigned_ucast_eq take_bit_eq_mod)
  have m: "unat (min remaining (ucast chunk :: u64)) = min (unat remaining) (unat chunk)"
    by (simp add: min_def word_le_nat_alt c)
  then have "unat (min remaining (ucast chunk :: u64)) < 2 ^ 32" using lt by simp
  with m show ?thesis by (simp add: next_chunk_len_def unsigned_ucast_eq take_bit_eq_mod)
qed

text \<open>The reader and the writer keep the negotiated chunk size but never a chunk or a window of zero.\<close>

record Pipeline =
  pl_chunk_size :: u32
  pl_window_capacity :: usize
  pl_bytes_total :: "u64 option"

definition pipeline_new :: "u64 option \<Rightarrow> Pipeline" where
  "pipeline_new bytes_total = \<lparr>pl_chunk_size = DEFAULT_CHUNK_SIZE, pl_window_capacity = DEFAULT_WINDOW_CAPACITY,
     pl_bytes_total = bytes_total\<rparr>"

definition with_chunk_size :: "Pipeline \<Rightarrow> u32 \<Rightarrow> Pipeline" where
  "with_chunk_size p chunk_size = p\<lparr>pl_chunk_size := max chunk_size 1\<rparr>"

definition with_window_capacity :: "Pipeline \<Rightarrow> usize \<Rightarrow> Pipeline" where
  "with_window_capacity p capacity = p\<lparr>pl_window_capacity := max capacity 1\<rparr>"

definition pipeline_ok :: "Pipeline \<Rightarrow> bool" where
  "pipeline_ok p \<longleftrightarrow> pl_chunk_size p \<noteq> 0 \<and> 0 < pl_window_capacity p"

lemma pipeline_ok_new [simp]: "pipeline_ok (pipeline_new bytes_total)"
  by (simp add: pipeline_ok_def pipeline_new_def DEFAULT_CHUNK_SIZE_def DEFAULT_WINDOW_CAPACITY_def)

lemma pipeline_ok_with [simp]:
  "pipeline_ok p \<Longrightarrow> pipeline_ok (with_chunk_size p chunk)"
  "pipeline_ok p \<Longrightarrow> pipeline_ok (with_window_capacity p capacity)"
  by (auto simp: pipeline_ok_def with_chunk_size_def with_window_capacity_def max_def)

section \<open>Errors\<close>

datatype IoErrorKind = NotFoundIo | PermissionDeniedIo | OtherIo

record IoError =
  io_kind :: IoErrorKind
  io_text :: rstr

abbreviation apostrophe :: rchar where
  "apostrophe \<equiv> 8217"

definition cancelled_transfer_error :: UserFacingError where
  "cancelled_transfer_error =
     user_facing_error ErrorCode.Cancelled (lit ''Transfer cancelled'') (lit ''The transfer was cancelled.'')"

definition transfer_error :: "ErrorCode \<Rightarrow> rstr \<Rightarrow> rstr \<Rightarrow> rstr \<Rightarrow> UserFacingError" where
  "transfer_error code title message detail =
     (with_retryable (user_facing_error code title message) True)\<lparr>ufe_detail := Some detail\<rparr>"

definition local_transfer_error :: "rstr \<Rightarrow> IoError \<Rightarrow> UserFacingError" where
  "local_transfer_error title error =
     transfer_error
       (case io_kind error of
          NotFoundIo \<Rightarrow> ErrorCode.NotFound
        | PermissionDeniedIo \<Rightarrow> ErrorCode.PermissionDenied
        | OtherIo \<Rightarrow> ErrorCode.Unknown)
       title (lit ''Check the local file and permissions, then try again.'') (io_text error)"

definition progress_closed_error :: UserFacingError where
  "progress_closed_error =
     user_facing_error ErrorCode.ChannelClosed (lit ''Transfer stopped'')
       (lit ''The application stopped receiving transfer updates.'')"

definition size_mismatch_error :: "nat \<Rightarrow> nat \<Rightarrow> UserFacingError" where
  "size_mismatch_error expected written =
     transfer_error ErrorCode.Unknown (lit ''Transfer Incomplete'')
       (lit ''The transferred file size did not match the expected size.'')
       (lit ''Expected '' @ decimal expected @ lit '' bytes, wrote '' @ decimal written @ lit '' bytes'')"

section \<open>The progress throttle\<close>

text \<open>Of \<open>crates/sftp/src/runtime.rs\<close>; instants and durations are nanoseconds, and a duration since a later
  instant is zero.\<close>

record ProgressThrottle =
  th_max_interval :: int
  th_last_sent :: "int option"

definition throttle_new :: "u8 \<Rightarrow> ProgressThrottle" where
  "throttle_new max_hz =
     (let hz = (if max_hz = 0 then 1 else max_hz)
      in \<lparr>th_max_interval = 1000000000 div uint hz, th_last_sent = None\<rparr>)"

definition should_send :: "ProgressThrottle \<Rightarrow> int \<Rightarrow> ProgressThrottle \<times> bool" where
  "should_send t now =
     (case th_last_sent t of
        Some sent \<Rightarrow> if max 0 (now - sent) < th_max_interval t then (t, False) else (t\<lparr>th_last_sent := Some now\<rparr>, True)
      | None \<Rightarrow> (t\<lparr>th_last_sent := Some now\<rparr>, True))"

definition throttle_reset :: "ProgressThrottle \<Rightarrow> ProgressThrottle" where
  "throttle_reset t = t\<lparr>th_last_sent := None\<rparr>"

section \<open>Files\<close>

type_synonym bytes = "u8 list"

text \<open>Writing at a position fills a gap behind the old end with zeros.\<close>

definition overwrite :: "bytes \<Rightarrow> nat \<Rightarrow> bytes \<Rightarrow> bytes" where
  "overwrite old p data = take p (old @ replicate (p - length old) 0) @ data @ drop (p + length data) old"

lemma length_overwrite [simp]: "length (overwrite old p data) = max (length old) (p + length data)"
  by (auto simp: overwrite_def max_def min_def)

lemma nth_overwrite:
  "i < length (overwrite old p data) \<Longrightarrow>
   overwrite old p data ! i =
     (if p \<le> i \<and> i < p + length data then data ! (i - p) else if i < length old then old ! i else 0)"
  by (auto simp: overwrite_def nth_append min_def split: if_splits)

text \<open>A range of bytes is its first offset and its length.\<close>

type_synonym byte_range = "nat \<times> nat"

definition covers :: "byte_range list \<Rightarrow> nat \<Rightarrow> bool" where
  "covers ranges i \<longleftrightarrow> (\<exists>(off, len) \<in> set ranges. off \<le> i \<and> i < off + len)"

lemma covers_simps [simp]:
  "\<not> covers [] i"
  "covers ((off, len) # ranges) i \<longleftrightarrow> off \<le> i \<and> i < off + len \<or> covers ranges i"
  "covers (xs @ ys) i \<longleftrightarrow> covers xs i \<or> covers ys i"
  by (auto simp: covers_def)

end
