(* ===== verification/Pipelined_Reader.thy ===== *)
theory Pipelined_Reader
  imports Pipeline
begin

text \<open>
  \<open>PipelinedDownloadReader::download_to\<close> of \<open>crates/sftp/src/pipelined_reader.rs\<close>: read requests are
  kept in flight up to a window, answers arrive in any order and possibly short, and are written at
  their offsets into the destination.

  One event is what the loop waits for: an answer of one request in flight, together with the results of
  the seek and the write it leads to, the failure of a task, a cancellation, or the shutdown of the
  destination. Offsets are natural numbers; for a known size they stay below it, so the \<open>u64\<close>
  arithmetic of the code does not wrap.
\<close>

section \<open>State and events\<close>

record Destination =
  dst_bytes :: bytes
  dst_pos :: nat

definition seek_start :: "Destination \<Rightarrow> nat \<Rightarrow> Destination" where
  "seek_start d p = d\<lparr>dst_pos := p\<rparr>"

definition write_all :: "Destination \<Rightarrow> bytes \<Rightarrow> Destination" where
  "write_all d data = d\<lparr>dst_bytes := overwrite (dst_bytes d) (dst_pos d) data, dst_pos := dst_pos d + length data\<rparr>"

datatype ReadReply = Data bytes | EofStatus | ReadFailed rstr

datatype ReaderPhase =
    Waiting
  | Closing
  | Finished "UserFacingError + nat"

record Reader =
  rd_in_flight :: "byte_range list"
  rd_retry_ranges :: "byte_range list"
  rd_next_request_offset :: nat
  rd_eof_reached :: bool
  rd_bytes_done :: nat
  rd_current_offset :: "nat option"
  rd_destination :: Destination
  rd_throttle :: ProgressThrottle
  rd_progress :: "(nat \<times> u64 option) list"
  rd_phase :: ReaderPhase

text \<open>
  The results of local operations are values of the event: \<open>None\<close> is success. \<open>ar_receiver_gone\<close> tells
  that nobody receives progress events any more.
\<close>

record Arrival =
  ar_index :: nat
  ar_reply :: ReadReply
  ar_seek :: "IoError option"
  ar_write :: "IoError option"
  ar_now :: int
  ar_receiver_gone :: bool

datatype ReaderEvent =
    ChunkArrives Arrival
  | TaskFails
  | CancelRequested
  | ShutdownEnds "IoError option" bool

section \<open>Requests\<close>

definition next_read_request :: "Pipeline \<Rightarrow> Reader \<Rightarrow> (Reader \<times> byte_range) option" where
  "next_read_request p r =
     (case rd_retry_ranges r of
        (off, len) # rest \<Rightarrow> Some (r\<lparr>rd_retry_ranges := rest\<rparr>, (off, len))
      | [] \<Rightarrow>
          if rd_eof_reached r then None
          else (case pl_bytes_total p of
                  Some bytes_total \<Rightarrow>
                    if unat bytes_total \<le> rd_next_request_offset r then None
                    else let remaining = bytes_total - of_nat (rd_next_request_offset r);
                             len = unat (next_chunk_len remaining (pl_chunk_size p))
                         in Some (r\<lparr>rd_next_request_offset := rd_next_request_offset r + len\<rparr>,
                                  (rd_next_request_offset r, len))
                | None \<Rightarrow>
                    let len = unat (pl_chunk_size p)
                    in Some (r\<lparr>rd_next_request_offset := rd_next_request_offset r + len\<rparr>,
                             (rd_next_request_offset r, len))))"

function spawn_read_requests :: "Pipeline \<Rightarrow> Reader \<Rightarrow> Reader" where
  "spawn_read_requests p r =
     (if length (rd_in_flight r) < pl_window_capacity p
      then (case next_read_request p r of
              None \<Rightarrow> r
            | Some (r', request) \<Rightarrow> spawn_read_requests p (r'\<lparr>rd_in_flight := rd_in_flight r' @ [request]\<rparr>))
      else r)"
  by pat_completeness auto
termination
  by (relation "measure (\<lambda>(p, r). pl_window_capacity p - length (rd_in_flight r))")
     (auto simp: next_read_request_def Let_def split: list.splits if_splits option.splits)

declare spawn_read_requests.simps [simp del]

section \<open>The loop\<close>

definition read_failed_error :: "rstr \<Rightarrow> UserFacingError" where
  "read_failed_error guidance =
     transfer_error ErrorCode.Unknown (lit ''Transfer Read Failed'') (lit ''The remote file could not be read.'') guidance"

definition read_worker_error :: UserFacingError where
  "read_worker_error =
     user_facing_error ErrorCode.Unknown (lit ''Transfer Read Failed'')
       (lit ''The transfer read worker failed unexpectedly.'')"

definition stopped_early_error :: "nat \<Rightarrow> nat \<Rightarrow> UserFacingError" where
  "stopped_early_error expected received =
     transfer_error ErrorCode.Unknown (lit ''Transfer Incomplete'')
       (lit ''The server stopped sending data before the file was complete.'')
       (lit ''Expected '' @ decimal expected @ lit '' bytes, received '' @ decimal received @ lit '' bytes'')"

definition write_failed_title :: rstr where
  "write_failed_title = lit ''Transfer Write Failed''"

definition finish_failed_title :: rstr where
  "finish_failed_title = lit ''Transfer Couldn'' @ [apostrophe] @ lit ''t Finish''"

definition reader_fails :: "Reader \<Rightarrow> UserFacingError \<Rightarrow> Reader" where
  "reader_fails r error = r\<lparr>rd_in_flight := [], rd_phase := Finished (Inl error)\<rparr>"

text \<open>The head of the loop: fill the window, and leave the loop when nothing is in flight.\<close>

definition loop_head :: "Pipeline \<Rightarrow> Reader \<Rightarrow> Reader" where
  "loop_head p r =
     (let r' = spawn_read_requests p r
      in if rd_in_flight r' = []
         then (case pl_bytes_total p of
                 Some bytes_total \<Rightarrow>
                   if rd_bytes_done r' \<noteq> unat bytes_total
                   then reader_fails r' (size_mismatch_error (unat bytes_total) (rd_bytes_done r'))
                   else r'\<lparr>rd_phase := Closing\<rparr>
               | None \<Rightarrow> r'\<lparr>rd_phase := Closing\<rparr>)
         else r')"

definition retry_tail :: "Pipeline \<Rightarrow> byte_range \<Rightarrow> nat \<Rightarrow> byte_range list" where
  "retry_tail p request received =
     (let received_end = fst request + received;
          requested_end = fst request + snd request;
          missing_end = (case pl_bytes_total p of
                           None \<Rightarrow> requested_end | Some bytes_total \<Rightarrow> min requested_end (unat bytes_total))
      in if received_end < missing_end then [(received_end, missing_end - received_end)] else [])"

text \<open>The data of one answer goes to its place, and the throttle decides whether progress is sent.\<close>

definition store_chunk :: "Pipeline \<Rightarrow> Reader \<Rightarrow> nat \<Rightarrow> bytes \<Rightarrow> Arrival \<Rightarrow> Reader" where
  "store_chunk p r off data a =
     (if data = [] then loop_head p r
      else
        let needs_seek = (rd_current_offset r \<noteq> Some off);
            d = (if needs_seek then seek_start (rd_destination r) off else rd_destination r)
        in if needs_seek \<and> ar_seek a \<noteq> None
           then reader_fails r (local_transfer_error write_failed_title (the (ar_seek a)))
           else (case ar_write a of
                   Some error \<Rightarrow> reader_fails (r\<lparr>rd_destination := d\<rparr>) (local_transfer_error write_failed_title error)
                 | None \<Rightarrow>
                     let r1 = r\<lparr>rd_destination := write_all d data, rd_current_offset := Some (off + length data),
                                rd_bytes_done := rd_bytes_done r + length data\<rparr>;
                         (throttle, send) = should_send (rd_throttle r1) (ar_now a);
                         r2 = r1\<lparr>rd_throttle := throttle\<rparr>
                     in if send \<and> ar_receiver_gone a then reader_fails r2 progress_closed_error
                        else loop_head p (if send
                          then r2\<lparr>rd_progress := rd_progress r2 @ [(rd_bytes_done r2, pl_bytes_total p)]\<rparr> else r2)))"

definition on_data :: "Pipeline \<Rightarrow> Reader \<Rightarrow> byte_range \<Rightarrow> bytes \<Rightarrow> Arrival \<Rightarrow> Reader" where
  "on_data p r request data a =
     (let received = length data
      in if received = 0
         then (case pl_bytes_total p of
                 None \<Rightarrow> store_chunk p (spawn_read_requests p (r\<lparr>rd_eof_reached := True\<rparr>)) (fst request) data a
               | Some bytes_total \<Rightarrow>
                   if fst request < unat bytes_total
                   then reader_fails r (stopped_early_error (unat bytes_total) (rd_bytes_done r))
                   else store_chunk p (spawn_read_requests p r) (fst request) data a)
         else if received < snd request
         then store_chunk p (spawn_read_requests p
                (r\<lparr>rd_retry_ranges := rd_retry_ranges r @ retry_tail p request received\<rparr>)) (fst request) data a
         else store_chunk p (spawn_read_requests p r) (fst request) data a)"

definition on_arrival :: "Pipeline \<Rightarrow> Reader \<Rightarrow> Arrival \<Rightarrow> Reader" where
  "on_arrival p r a =
     (if ar_index a < length (rd_in_flight r)
      then let request = rd_in_flight r ! ar_index a;
               r' = r\<lparr>rd_in_flight := remove_at (ar_index a) (rd_in_flight r)\<rparr>
           in (case ar_reply a of
                 ReadFailed guidance \<Rightarrow> reader_fails r' (read_failed_error guidance)
               | EofStatus \<Rightarrow> on_data p r' request [] a
               | Data data \<Rightarrow> on_data p r' request data a)
      else r)"

definition on_shutdown :: "Pipeline \<Rightarrow> Reader \<Rightarrow> IoError option \<Rightarrow> bool \<Rightarrow> Reader" where
  "on_shutdown p r result receiver_gone =
     (case result of
        Some error \<Rightarrow> reader_fails r (local_transfer_error finish_failed_title error)
      | None \<Rightarrow>
          let r' = r\<lparr>rd_throttle := throttle_reset (rd_throttle r)\<rparr>
          in if receiver_gone then reader_fails r' progress_closed_error
             else r'\<lparr>rd_progress := rd_progress r' @ [(rd_bytes_done r', pl_bytes_total p)],
                     rd_phase := Finished (Inr (rd_bytes_done r'))\<rparr>)"

fun reader_step :: "Pipeline \<Rightarrow> Reader \<Rightarrow> ReaderEvent \<Rightarrow> Reader" where
  "reader_step p r event =
     (case rd_phase r of
        Finished _ \<Rightarrow> r
      | Waiting \<Rightarrow>
          (case event of
             ChunkArrives a \<Rightarrow> on_arrival p r a
           | TaskFails \<Rightarrow> reader_fails r read_worker_error
           | CancelRequested \<Rightarrow> reader_fails r cancelled_transfer_error
           | ShutdownEnds _ _ \<Rightarrow> r)
      | Closing \<Rightarrow>
          (case event of
             CancelRequested \<Rightarrow> reader_fails r cancelled_transfer_error
           | ShutdownEnds result receiver_gone \<Rightarrow> on_shutdown p r result receiver_gone
           | _ \<Rightarrow> r))"

declare reader_step.simps [simp del]

text \<open>The start: an empty file needs no request; otherwise the window is filled for the first time.\<close>

definition reader_start :: "Pipeline \<Rightarrow> Reader" where
  "reader_start p =
     (let r = \<lparr>rd_in_flight = [], rd_retry_ranges = [], rd_next_request_offset = 0, rd_eof_reached = False,
               rd_bytes_done = 0, rd_current_offset = None, rd_destination = \<lparr>dst_bytes = [], dst_pos = 0\<rparr>,
               rd_throttle = throttle_new 10, rd_progress = [], rd_phase = Waiting\<rparr>
      in if pl_bytes_total p = Some 0 then r\<lparr>rd_phase := Closing\<rparr> else loop_head p r)"

end
