(* ===== verification/Pipelined_Reader_Laws.thy ===== *)
theory Pipelined_Reader_Laws
  imports Pipelined_Reader
begin

text \<open>
  Against a server that answers each read with a non-empty piece of the file at the offset asked for, and
  with nothing only behind its end, the pipelined download ends after a bounded number of answers, in
  whatever order they come, with the file itself in the destination.
\<close>

section \<open>Ranges and the bytes they owe\<close>

definition clip :: "nat \<Rightarrow> byte_range \<Rightarrow> nat" where
  "clip L rng = min (fst rng + snd rng) L - min (fst rng) L"

definition owed :: "nat \<Rightarrow> byte_range list \<Rightarrow> nat" where
  "owed L ranges = sum_list (map (clip L) ranges)"

lemma owed_simps [simp]:
  "owed L [] = 0"
  "owed L (rng # ranges) = clip L rng + owed L ranges"
  "owed L (xs @ ys) = owed L xs + owed L ys"
  by (simp_all add: owed_def)

lemma clip_split: "r \<le> l \<Longrightarrow> clip L (off, l) = clip L (off, r) + clip L (off + r, l - r)"
  by (auto simp: clip_def min_def)

lemma clip_inside: "off + l \<le> L \<Longrightarrow> clip L (off, l) = l"
  by (simp add: clip_def min_def)

lemma clip_behind: "L \<le> off \<Longrightarrow> clip L (off, l) = 0"
  by (simp add: clip_def min_def)

lemma clip_next: "min (n + l) L = min n L + clip L (n, l)"
  by (simp add: clip_def min_def)

section \<open>The invariant\<close>

text \<open>
  \<open>hold\<close> are ranges whose data has arrived but is not stored yet. Together with the ranges in flight and
  to be retried they cover all that is missing of the file up to the next request.
\<close>

definition outstanding :: "byte_range list \<Rightarrow> Reader \<Rightarrow> byte_range list" where
  "outstanding hold r = hold @ rd_in_flight r @ rd_retry_ranges r"

definition reader_core :: "bytes \<Rightarrow> Pipeline \<Rightarrow> byte_range list \<Rightarrow> Reader \<Rightarrow> bool" where
  "reader_core file p hold r \<longleftrightarrow>
     (\<forall>(off, len) \<in> set (outstanding hold r). 0 < len \<and> off + len \<le> rd_next_request_offset r) \<and>
     rd_bytes_done r + owed (length file) (outstanding hold r) = min (rd_next_request_offset r) (length file) \<and>
     (\<forall>i < min (rd_next_request_offset r) (length file). \<not> covers (outstanding hold r) i \<longrightarrow>
        i < length (dst_bytes (rd_destination r)) \<and> dst_bytes (rd_destination r) ! i = file ! i) \<and>
     length (dst_bytes (rd_destination r)) \<le> min (rd_next_request_offset r) (length file) \<and>
     (case pl_bytes_total p of
        Some t \<Rightarrow> rd_next_request_offset r \<le> unat t \<and> \<not> rd_eof_reached r
      | None \<Rightarrow> rd_eof_reached r \<longrightarrow> length file \<le> rd_next_request_offset r) \<and>
     (\<forall>off. rd_current_offset r = Some off \<longrightarrow> dst_pos (rd_destination r) = off)"

definition honest :: "bytes \<Rightarrow> byte_range \<Rightarrow> ReadReply \<Rightarrow> bool" where
  "honest file request reply =
     (case reply of
        Data data \<Rightarrow> length data \<le> snd request \<and> data = take (length data) (drop (fst request) file) \<and>
          (data = [] \<longrightarrow> length file \<le> fst request)
      | EofStatus \<Rightarrow> length file \<le> fst request
      | ReadFailed _ \<Rightarrow> False)"

section \<open>Requests\<close>

lemma next_request_cases:
  assumes "next_read_request p r = Some (r', request)"
  obtains rest where "rd_retry_ranges r = request # rest" "r' = r\<lparr>rd_retry_ranges := rest\<rparr>"
  | len where "rd_retry_ranges r = []" "\<not> rd_eof_reached r" "request = (rd_next_request_offset r, len)"
      "r' = r\<lparr>rd_next_request_offset := rd_next_request_offset r + len\<rparr>"
      "case pl_bytes_total p of Some t \<Rightarrow> rd_next_request_offset r < unat t \<and>
         len = min (unat t - rd_next_request_offset r) (unat (pl_chunk_size p)) | None \<Rightarrow> len = unat (pl_chunk_size p)"
proof (cases "rd_retry_ranges r")
  case (Cons x rest)
  with assms that(1) show ?thesis by (cases x) (simp add: next_read_request_def)
next
  case Nil
  show ?thesis
  proof (cases "pl_bytes_total p")
    case None
    with assms Nil that(2) show ?thesis by (auto simp: next_read_request_def Let_def split: if_splits)
  next
    case (Some t)
    then have lt: "rd_next_request_offset r < unat t" and neof: "\<not> rd_eof_reached r"
      using assms Nil by (auto simp: next_read_request_def split: if_splits)
    have "unat (of_nat (rd_next_request_offset r) :: u64) = rd_next_request_offset r"
    proof -
      have "unat t < 2 ^ 64" using unsigned_less[of t] by simp
      with lt show ?thesis by (simp add: unsigned_of_nat take_bit_eq_mod)
    qed
    moreover from this have "of_nat (rd_next_request_offset r) \<le> t" using lt by (simp add: word_le_nat_alt)
    ultimately have "unat (t - of_nat (rd_next_request_offset r)) = unat t - rd_next_request_offset r"
      by (simp add: unat_sub)
    with Some Nil lt neof assms that(2) show ?thesis
      by (auto simp: next_read_request_def Let_def next_chunk_len_exact)
  qed
qed

lemma core_request:
  assumes core: "reader_core file p hold r" and ok: "pipeline_ok p"
    and n: "next_read_request p r = Some (r', request)"
  shows "reader_core file p hold (r'\<lparr>rd_in_flight := rd_in_flight r' @ [request]\<rparr>)"
  using n
proof (cases rule: next_request_cases)
  case (1 rest)
  then have "outstanding hold (r'\<lparr>rd_in_flight := rd_in_flight r' @ [request]\<rparr>) = outstanding hold r"
    by (simp add: outstanding_def)
  with 1 core show ?thesis by (simp add: reader_core_def split: option.splits)
next
  case (2 len)
  let ?n = "rd_next_request_offset r"
  have c: "0 < unat (pl_chunk_size p)" using ok by (simp add: pipeline_ok_def unat_gt_0)
  then have len: "0 < len" using 2(5) by (auto split: option.splits)
  have out: "outstanding hold (r'\<lparr>rd_in_flight := rd_in_flight r' @ [request]\<rparr>) = outstanding hold r @ [(?n, len)]"
    using 2 by (simp add: outstanding_def)
  have lim: "case pl_bytes_total p of Some t \<Rightarrow> ?n + len \<le> unat t \<and> \<not> rd_eof_reached r | None \<Rightarrow> True"
    using 2(2,5) by (auto split: option.splits)
  show ?thesis
    unfolding reader_core_def out
    using core 2 lim len clip_next[of ?n len "length file"]
    by (auto simp: reader_core_def min_def split: option.splits if_splits)
qed

lemma spawn_keeps:
  assumes "I r" and "\<And>r r' request. I r \<Longrightarrow> length (rd_in_flight r) < pl_window_capacity p \<Longrightarrow>
    next_read_request p r = Some (r', request) \<Longrightarrow> I (r'\<lparr>rd_in_flight := rd_in_flight r' @ [request]\<rparr>)"
  shows "I (spawn_read_requests p r)"
proof -
  have "\<forall>I. I r \<longrightarrow> (\<forall>r r' request. I r \<longrightarrow> length (rd_in_flight r) < pl_window_capacity p \<longrightarrow>
      next_read_request p r = Some (r', request) \<longrightarrow> I (r'\<lparr>rd_in_flight := rd_in_flight r' @ [request]\<rparr>)) \<longrightarrow>
      I (spawn_read_requests p r)"
  proof (induction p r rule: spawn_read_requests.induct)
    case (1 p r)
    show ?case
    proof (cases "length (rd_in_flight r) < pl_window_capacity p \<and> next_read_request p r \<noteq> None")
      case True
      then obtain r' request where n: "next_read_request p r = Some (r', request)" by auto
      have e: "spawn_read_requests p r = spawn_read_requests p (r'\<lparr>rd_in_flight := rd_in_flight r' @ [request]\<rparr>)"
        using True by (subst spawn_read_requests.simps) (simp add: n)
      show ?thesis using 1[OF _ n refl] True n unfolding e by blast
    next
      case False
      then have "spawn_read_requests p r = r" by (subst spawn_read_requests.simps) (auto split: option.splits)
      then show ?thesis by simp
    qed
  qed
  with assms show ?thesis by blast
qed

lemma spawn_stops:
  "pl_window_capacity p \<le> length (rd_in_flight (spawn_read_requests p r)) \<or>
   next_read_request p (spawn_read_requests p r) = None"
proof (induction p r rule: spawn_read_requests.induct)
  case (1 p r)
  show ?case
  proof (cases "length (rd_in_flight r) < pl_window_capacity p \<and> next_read_request p r \<noteq> None")
    case True
    then obtain r' request where n: "next_read_request p r = Some (r', request)" by auto
    have "spawn_read_requests p r = spawn_read_requests p (r'\<lparr>rd_in_flight := rd_in_flight r' @ [request]\<rparr>)"
      using True by (subst spawn_read_requests.simps) (simp add: n)
    with 1[OF _ n refl] True show ?thesis by simp
  next
    case False
    then have "spawn_read_requests p r = r" by (subst spawn_read_requests.simps) (auto split: option.splits)
    with False show ?thesis by auto
  qed
qed

lemma core_spawn:
  "reader_core file p hold r \<Longrightarrow> pipeline_ok p \<Longrightarrow> reader_core file p hold (spawn_read_requests p r)"
  by (rule spawn_keeps[of "reader_core file p hold"]) (auto intro: core_request)

text \<open>Spawning moves ranges and the next offset, and nothing else.\<close>

lemma spawn_frame [simp]:
  "rd_eof_reached (spawn_read_requests p r) = rd_eof_reached r"
  "rd_bytes_done (spawn_read_requests p r) = rd_bytes_done r"
  "rd_current_offset (spawn_read_requests p r) = rd_current_offset r"
  "rd_destination (spawn_read_requests p r) = rd_destination r"
  "rd_throttle (spawn_read_requests p r) = rd_throttle r"
  "rd_progress (spawn_read_requests p r) = rd_progress r"
  "rd_phase (spawn_read_requests p r) = rd_phase r"
proof -
  have "(\<lambda>s. rd_eof_reached s = rd_eof_reached r \<and> rd_bytes_done s = rd_bytes_done r \<and>
      rd_current_offset s = rd_current_offset r \<and> rd_destination s = rd_destination r \<and>
      rd_throttle s = rd_throttle r \<and> rd_progress s = rd_progress r \<and> rd_phase s = rd_phase r) (spawn_read_requests p r)"
    by (rule spawn_keeps) (auto elim!: next_request_cases)
  then show "rd_eof_reached (spawn_read_requests p r) = rd_eof_reached r"
    "rd_bytes_done (spawn_read_requests p r) = rd_bytes_done r"
    "rd_current_offset (spawn_read_requests p r) = rd_current_offset r"
    "rd_destination (spawn_read_requests p r) = rd_destination r"
    "rd_throttle (spawn_read_requests p r) = rd_throttle r"
    "rd_progress (spawn_read_requests p r) = rd_progress r"
    "rd_phase (spawn_read_requests p r) = rd_phase r"
    by simp_all
qed

text \<open>
  A state is \<open>settled\<close> when its window holds every outstanding range. The window always has room for the
  tail of a short answer, because the answer freed a place.
\<close>

definition settled :: "Pipeline \<Rightarrow> Reader \<Rightarrow> bool" where
  "settled p r \<longleftrightarrow> rd_retry_ranges r = [] \<and> length (rd_in_flight r) \<le> pl_window_capacity p"

lemma settled_spawn:
  assumes "length (rd_in_flight r) + length (rd_retry_ranges r) \<le> pl_window_capacity p"
  shows "settled p (spawn_read_requests p r)"
    and "rd_eof_reached r \<Longrightarrow> rd_in_flight (spawn_read_requests p r) = rd_in_flight r @ rd_retry_ranges r"
proof -
  let ?s = "spawn_read_requests p r"
  have fit: "length (rd_in_flight ?s) + length (rd_retry_ranges ?s) \<le> pl_window_capacity p"
    by (rule spawn_keeps[where I = "\<lambda>s. length (rd_in_flight s) + length (rd_retry_ranges s) \<le> pl_window_capacity p"])
       (use assms in \<open>auto elim!: next_request_cases\<close>)
  have empty: "rd_retry_ranges ?s = []"
  proof (rule ccontr)
    assume "rd_retry_ranges ?s \<noteq> []"
    then have "next_read_request p ?s \<noteq> None"
      by (auto simp: next_read_request_def split: list.splits)
    with spawn_stops[of p r] fit \<open>rd_retry_ranges ?s \<noteq> []\<close> show False by (cases "rd_retry_ranges ?s") auto
  qed
  with fit show "settled p ?s" by (simp add: settled_def)
  show "rd_in_flight ?s = rd_in_flight r @ rd_retry_ranges r" if "rd_eof_reached r"
  proof -
    have "(\<lambda>s. rd_eof_reached s \<and> rd_in_flight s @ rd_retry_ranges s = rd_in_flight r @ rd_retry_ranges r) ?s"
      by (rule spawn_keeps) (use that in \<open>auto elim!: next_request_cases\<close>)
    with empty show ?thesis by simp
  qed
qed

section \<open>One answer\<close>

lemma covers_remove:
  assumes "k < length xs" and "xs ! k = (off, len)"
  shows "covers xs i \<longleftrightarrow> off \<le> i \<and> i < off + len \<or> covers (remove_at k xs) i"
    and "owed L xs = clip L (off, len) + owed L (remove_at k xs)"
    and "set (remove_at k xs) \<subseteq> set xs"
proof -
  have xs: "xs = take k xs @ (off, len) # drop (Suc k) xs" using assms id_take_nth_drop by metis
  show "covers xs i \<longleftrightarrow> off \<le> i \<and> i < off + len \<or> covers (remove_at k xs) i"
    by (subst xs) (auto simp: remove_at_def)
  show "owed L xs = clip L (off, len) + owed L (remove_at k xs)"
    by (subst xs) (simp add: remove_at_def)
  show "set (remove_at k xs) \<subseteq> set xs"
    by (auto simp: remove_at_def dest: in_set_takeD in_set_dropD)
qed

text \<open>The answered request moves from the window into \<open>hold\<close>.\<close>

lemma core_take:
  assumes "reader_core file p [] r" and "k < length (rd_in_flight r)"
  shows "reader_core file p [rd_in_flight r ! k] (r\<lparr>rd_in_flight := remove_at k (rd_in_flight r)\<rparr>)"
proof -
  obtain off len where req: "rd_in_flight r ! k = (off, len)" by fastforce
  note c = covers_remove[OF assms(2) req]
  have "(off, len) \<in> set (rd_in_flight r)" using assms(2) req nth_mem by metis
  then have "0 < len \<and> off + len \<le> rd_next_request_offset r" using assms(1) by (auto simp: reader_core_def outstanding_def)
  then have "\<forall>(o', l') \<in> set (outstanding [(off, len)] (r\<lparr>rd_in_flight := remove_at k (rd_in_flight r)\<rparr>)).
      0 < l' \<and> o' + l' \<le> rd_next_request_offset r"
    using assms(1) c(3) unfolding reader_core_def outstanding_def by auto
  moreover have "covers (outstanding [(off, len)] (r\<lparr>rd_in_flight := remove_at k (rd_in_flight r)\<rparr>)) i \<longleftrightarrow>
      covers (outstanding [] r) i" for i
    using c(1)[of i] by (auto simp: outstanding_def)
  moreover have "owed L (outstanding [(off, len)] (r\<lparr>rd_in_flight := remove_at k (rd_in_flight r)\<rparr>)) =
      owed L (outstanding [] r)" for L
    using c(2)[of L] by (simp add: outstanding_def)
  ultimately show ?thesis
    using assms(1) unfolding reader_core_def req by (simp split: option.splits)
qed

text \<open>An answer behind the end of the file owes nothing.\<close>

lemma core_empty:
  assumes "reader_core file p [(off, len)] r" and "length file \<le> off" and "pl_bytes_total p = None"
  shows "reader_core file p [] (r\<lparr>rd_eof_reached := True\<rparr>)"
  using assms clip_behind[OF assms(2), of len]
  by (auto simp: reader_core_def outstanding_def)

text \<open>A short answer splits its range into what arrived and what is asked for again.\<close>

lemma core_short:
  assumes "reader_core file p [(off, len)] r" and "0 < n" and "n < len"
  shows "reader_core file p [(off, n)] (r\<lparr>rd_retry_ranges := rd_retry_ranges r @ retry_tail p (off, len) n\<rparr>)"
proof -
  have in_total: "case pl_bytes_total p of Some t \<Rightarrow> off + len \<le> unat t | None \<Rightarrow> True"
    using assms(1) by (auto simp: reader_core_def outstanding_def split: option.splits)
  then have tail: "retry_tail p (off, len) n = [(off + n, len - n)]"
    using assms(2,3) by (auto simp: retry_tail_def Let_def split: option.splits)
  have "covers (outstanding [(off, n)] (r\<lparr>rd_retry_ranges := rd_retry_ranges r @ [(off + n, len - n)]\<rparr>)) i \<longleftrightarrow>
      covers (outstanding [(off, len)] r) i" for i
    using assms(2,3) by (auto simp: outstanding_def)
  moreover have "owed L (outstanding [(off, n)] (r\<lparr>rd_retry_ranges := rd_retry_ranges r @ [(off + n, len - n)]\<rparr>)) =
      owed L (outstanding [(off, len)] r)" for L
    using clip_split[of n len L off] assms(3) by (simp add: outstanding_def)
  moreover have "\<forall>(o', l') \<in> set (outstanding [(off, n)] (r\<lparr>rd_retry_ranges := rd_retry_ranges r @ [(off + n, len - n)]\<rparr>)).
      0 < l' \<and> o' + l' \<le> rd_next_request_offset r"
    using assms by (auto simp: reader_core_def outstanding_def)
  ultimately show ?thesis
    using assms(1) unfolding reader_core_def tail by (simp split: option.splits)
qed

text \<open>Storing the data settles the range it was held for.\<close>

lemma core_store:
  assumes core: "reader_core file p [(off, length data)] r" and "off + length data \<le> length file"
    and data: "data = take (length data) (drop off file)"
    and d: "d = (if rd_current_offset r \<noteq> Some off then seek_start (rd_destination r) off else rd_destination r)"
  shows "reader_core file p [] (r\<lparr>rd_destination := write_all d data, rd_current_offset := Some (off + length data),
    rd_bytes_done := rd_bytes_done r + length data\<rparr>)"
proof -
  let ?dst = "dst_bytes (rd_destination r)" and ?n = "rd_next_request_offset r"
  have pos: "dst_pos d = off" "dst_bytes d = ?dst"
    using core d by (auto simp: reader_core_def seek_start_def)
  have bytes: "data ! (i - off) = file ! i" if "off \<le> i" "i < off + length data" for i
  proof -
    have "data ! (i - off) = take (length data) (drop off file) ! (i - off)" using data by metis
    with that assms(2) show ?thesis by simp
  qed
  have w: "i < length (overwrite ?dst off data) \<and> overwrite ?dst off data ! i = file ! i"
    if "i < min ?n (length file)" "\<not> covers (outstanding [] r) i" for i
  proof (cases "off \<le> i \<and> i < off + length data")
    case True
    then have "i < length (overwrite ?dst off data)" by auto
    with True bytes[of i] show ?thesis by (simp add: nth_overwrite)
  next
    case False
    then have "\<not> covers (outstanding [(off, length data)] r) i" using that(2) by (auto simp: outstanding_def)
    then have "i < length ?dst \<and> ?dst ! i = file ! i" using core that(1) by (simp add: reader_core_def)
    moreover from this have "i < length (overwrite ?dst off data)" by auto
    ultimately show ?thesis using False by (auto simp: nth_overwrite)
  qed
  have "outstanding [] (r\<lparr>rd_destination := write_all d data, rd_current_offset := Some (off + length data),
      rd_bytes_done := rd_bytes_done r + length data\<rparr>) = outstanding [] r" by (simp add: outstanding_def)
  then show ?thesis
    using core assms(2) w clip_inside[OF assms(2)]
    by (auto simp: reader_core_def outstanding_def write_all_def pos split: option.splits)
qed

lemma data_inside:
  assumes "data = take (length data) (drop off file)" and "data \<noteq> []"
  shows "off + length data \<le> length file"
proof -
  have "length data = length (take (length data) (drop off file))" using assms(1) by metis
  then have "length data \<le> length file - off" by simp
  moreover have "0 < length data" using assms(2) by simp
  ultimately show ?thesis by linarith
qed

lemma core_done_le: "reader_core file p hold r \<Longrightarrow> rd_bytes_done r \<le> length file"
  unfolding reader_core_def by (metis le_add1 min.cobounded2 order_trans)

lemma core_room:
  assumes "reader_core file p [(off, n)] r" and "off + n \<le> length file"
  shows "rd_bytes_done r + n \<le> length file"
proof -
  have "rd_bytes_done r + (n + owed (length file) (outstanding [] r)) = min (rd_next_request_offset r) (length file)"
    using assms clip_inside[OF assms(2)] by (simp add: reader_core_def outstanding_def)
  then show ?thesis by linarith
qed

section \<open>The whole download\<close>

definition size_ok :: "bytes \<Rightarrow> Pipeline \<Rightarrow> bool" where
  "size_ok file p \<longleftrightarrow> (case pl_bytes_total p of Some t \<Rightarrow> unat t \<le> length file | None \<Rightarrow> True)"

definition wanted :: "bytes \<Rightarrow> Pipeline \<Rightarrow> bytes" where
  "wanted file p = (case pl_bytes_total p of Some t \<Rightarrow> take (unat t) file | None \<Rightarrow> file)"

definition smooth :: "bytes \<Rightarrow> Reader \<Rightarrow> Arrival \<Rightarrow> bool" where
  "smooth file r a \<longleftrightarrow> ar_index a < length (rd_in_flight r) \<and> honest file (rd_in_flight r ! ar_index a) (ar_reply a) \<and>
     ar_seek a = None \<and> ar_write a = None \<and> \<not> ar_receiver_gone a"

definition reader_ok :: "bytes \<Rightarrow> Pipeline \<Rightarrow> Reader \<Rightarrow> bool" where
  "reader_ok file p r \<longleftrightarrow>
     (case rd_phase r of
        Waiting \<Rightarrow> reader_core file p [] r \<and> settled p r \<and> rd_in_flight r \<noteq> []
      | Closing \<Rightarrow> dst_bytes (rd_destination r) = wanted file p \<and> rd_bytes_done r = length (wanted file p)
      | Finished _ \<Rightarrow> False)"

text \<open>How many answers can still come: a non-empty one brings bytes that are missing, and an empty one is
  the first behind the end or uses up a request.\<close>

definition answers_left :: "bytes \<Rightarrow> Pipeline \<Rightarrow> Reader \<Rightarrow> nat" where
  "answers_left file p r = (length file - rd_bytes_done r) +
     (if rd_eof_reached r then length (rd_in_flight r) else pl_window_capacity p)"

lemma finished_bytes:
  assumes core: "reader_core file p [] r" and none: "outstanding [] r = []" and stop: "next_read_request p r = None"
    and size: "size_ok file p"
  shows "dst_bytes (rd_destination r) = wanted file p" and "rd_bytes_done r = length (wanted file p)"
proof -
  let ?n = "rd_next_request_offset r" and ?dst = "dst_bytes (rd_destination r)"
  have retry: "rd_retry_ranges r = []" using none by (simp add: outstanding_def)
  have reach: "min ?n (length file) = length (wanted file p)"
    using stop core size retry
    by (auto simp: next_read_request_def Let_def wanted_def size_ok_def reader_core_def min_def
        split: option.splits if_splits)
  have "length ?dst \<le> min ?n (length file)" and w: "\<forall>i < min ?n (length file). i < length ?dst \<and> ?dst ! i = file ! i"
    using core none by (simp_all add: reader_core_def)
  moreover have "min ?n (length file) \<le> length ?dst"
  proof (rule ccontr)
    assume "\<not> min ?n (length file) \<le> length ?dst"
    with w show False by (meson less_irrefl not_le)
  qed
  ultimately have len: "length ?dst = length (wanted file p)" using reach by simp
  moreover have "wanted file p ! i = file ! i" if "i < length (wanted file p)" for i
    using that by (auto simp: wanted_def split: option.splits)
  ultimately show "?dst = wanted file p" using w reach by (intro nth_equalityI) auto
  show "rd_bytes_done r = length (wanted file p)"
    using core none reach by (simp add: reader_core_def)
qed

lemma loop_head_ok:
  assumes core: "reader_core file p [] r" and set: "settled p r" and ok: "pipeline_ok p" and size: "size_ok file p"
    and phase: "rd_phase r = Waiting"
  shows "reader_ok file p (loop_head p r)"
    and "rd_bytes_done (loop_head p r) = rd_bytes_done r" and "rd_eof_reached (loop_head p r) = rd_eof_reached r"
    and "rd_phase (loop_head p r) = Waiting \<Longrightarrow> rd_eof_reached r \<Longrightarrow> rd_in_flight (loop_head p r) = rd_in_flight r"
proof -
  let ?s = "spawn_read_requests p r"
  have fit: "length (rd_in_flight r) + length (rd_retry_ranges r) \<le> pl_window_capacity p"
    using set by (simp add: settled_def)
  have core': "reader_core file p [] ?s" using core_spawn[OF core ok] .
  note set' = settled_spawn[OF fit]
  have fin: "dst_bytes (rd_destination ?s) = wanted file p \<and> rd_bytes_done ?s = length (wanted file p)"
    if "rd_in_flight ?s = []"
  proof -
    have "outstanding [] ?s = []" using that set'(1) by (simp add: outstanding_def settled_def)
    moreover have "next_read_request p ?s = None"
      using spawn_stops[of p r] that ok by (simp add: pipeline_ok_def)
    ultimately show ?thesis using finished_bytes[OF core' _ _ size] by blast
  qed
  have sizes: "pl_bytes_total p = Some t \<Longrightarrow> length (wanted file p) = unat t" for t
    using size by (simp add: size_ok_def wanted_def)
  show "reader_ok file p (loop_head p r)"
  proof (cases "rd_in_flight ?s = []")
    case True
    then have "loop_head p r = ?s\<lparr>rd_phase := Closing\<rparr>"
      using fin sizes by (auto simp: loop_head_def Let_def split: option.splits)
    with fin[OF True] show ?thesis by (simp add: reader_ok_def)
  next
    case False
    then have "loop_head p r = ?s" by (simp add: loop_head_def Let_def)
    with False core' set' phase show ?thesis by (simp add: reader_ok_def)
  qed
  have cases: "loop_head p r = ?s \<or> loop_head p r = ?s\<lparr>rd_phase := Closing\<rparr>"
    using fin sizes by (auto simp: loop_head_def Let_def split: option.splits)
  then show "rd_bytes_done (loop_head p r) = rd_bytes_done r" "rd_eof_reached (loop_head p r) = rd_eof_reached r"
    by auto
  show "rd_in_flight (loop_head p r) = rd_in_flight r" if "rd_phase (loop_head p r) = Waiting" "rd_eof_reached r"
    using cases that set'(2) set by (auto simp: settled_def)
qed

lemma store_chunk_smooth:
  assumes "ar_seek a = None" and "ar_write a = None" and "\<not> ar_receiver_gone a" and "data \<noteq> []"
    and d: "d = (if rd_current_offset r \<noteq> Some off then seek_start (rd_destination r) off else rd_destination r)"
  obtains throttle progress where "store_chunk p r off data a = loop_head p (r\<lparr>rd_destination := write_all d data,
      rd_current_offset := Some (off + length data), rd_bytes_done := rd_bytes_done r + length data,
      rd_throttle := throttle, rd_progress := progress\<rparr>)"
proof -
  obtain throttle send where t: "should_send (rd_throttle r) (ar_now a) = (throttle, send)" by fastforce
  show ?thesis
    by (rule that[where throttle = throttle and
          progress = "if send then rd_progress r @ [(rd_bytes_done r + length data, pl_bytes_total p)] else rd_progress r"])
       (use assms t in \<open>simp add: store_chunk_def Let_def\<close>)
qed

lemma core_quiet: "reader_core file p hold (r\<lparr>rd_throttle := throttle, rd_progress := progress\<rparr>) = reader_core file p hold r"
  "reader_core file p hold (r\<lparr>rd_throttle := throttle\<rparr>) = reader_core file p hold r"
  by (simp_all add: reader_core_def outstanding_def split: option.splits)

lemma store_data_ok:
  assumes core: "reader_core file p [(off, length data)] r" and set: "settled p r" and ok: "pipeline_ok p" and size: "size_ok file p"
    and phase: "rd_phase r = Waiting"
    and a: "ar_seek a = None" "ar_write a = None" "\<not> ar_receiver_gone a" "data \<noteq> []"
    and data: "data = take (length data) (drop off file)"
  shows "reader_ok file p (store_chunk p r off data a)"
    and "rd_phase (store_chunk p r off data a) = Waiting \<Longrightarrow>
      rd_bytes_done (store_chunk p r off data a) = rd_bytes_done r + length data \<and>
      rd_eof_reached (store_chunk p r off data a) = rd_eof_reached r \<and>
      (rd_eof_reached r \<longrightarrow> rd_in_flight (store_chunk p r off data a) = rd_in_flight r)"
proof -
  note inside = data_inside[OF data a(4)]
  obtain throttle progress where e: "store_chunk p r off data a = loop_head p (r\<lparr>rd_destination :=
      write_all (if rd_current_offset r \<noteq> Some off then seek_start (rd_destination r) off else rd_destination r) data,
      rd_current_offset := Some (off + length data), rd_bytes_done := rd_bytes_done r + length data,
      rd_throttle := throttle, rd_progress := progress\<rparr>)" (is "_ = loop_head p ?r")
    using store_chunk_smooth[OF a refl] by metis
  have "reader_core file p [] ?r"
    using core_store[OF core inside data refl] core_quiet(1)[where hold = "[]"] by simp
  moreover have "settled p ?r" "rd_phase ?r = Waiting" using set phase by (simp_all add: settled_def)
  ultimately have l: "reader_ok file p (loop_head p ?r)" "rd_bytes_done (loop_head p ?r) = rd_bytes_done ?r"
    "rd_eof_reached (loop_head p ?r) = rd_eof_reached ?r"
    "rd_phase (loop_head p ?r) = Waiting \<Longrightarrow> rd_eof_reached ?r \<Longrightarrow> rd_in_flight (loop_head p ?r) = rd_in_flight ?r"
    using loop_head_ok ok size by blast+
  show "reader_ok file p (store_chunk p r off data a)" unfolding e by (rule l(1))
  show "rd_bytes_done (store_chunk p r off data a) = rd_bytes_done r + length data \<and>
      rd_eof_reached (store_chunk p r off data a) = rd_eof_reached r \<and>
      (rd_eof_reached r \<longrightarrow> rd_in_flight (store_chunk p r off data a) = rd_in_flight r)"
    if "rd_phase (store_chunk p r off data a) = Waiting"
    using that l(2-4) unfolding e by simp
qed

text \<open>One answer keeps the invariant and leaves fewer answers to come.\<close>

lemma arrival_ok:
  assumes r: "reader_ok file p r" "rd_phase r = Waiting" and ok: "pipeline_ok p" and size: "size_ok file p" and a: "smooth file r a"
  shows "reader_ok file p (on_arrival p r a) \<and>
    (rd_phase (on_arrival p r a) = Waiting \<longrightarrow> answers_left file p (on_arrival p r a) < answers_left file p r)"
proof -
  obtain off len where req: "rd_in_flight r ! ar_index a = (off, len)" by fastforce
  let ?r = "r\<lparr>rd_in_flight := remove_at (ar_index a) (rd_in_flight r)\<rparr>"
  have k: "ar_index a < length (rd_in_flight r)" and h: "honest file (off, len) (ar_reply a)"
    and io: "ar_seek a = None" "ar_write a = None" "\<not> ar_receiver_gone a"
    using a req by (simp_all add: smooth_def)
  have set: "settled p r" and core: "reader_core file p [(off, len)] ?r"
    using r core_take[OF _ k] req by (simp_all add: reader_ok_def)
  have n: "length (rd_in_flight ?r) = length (rd_in_flight r) - 1" using k by (simp add: remove_at_def)
  have fit: "length (rd_in_flight ?r) + length rs \<le> pl_window_capacity p" if "length rs \<le> 1" for rs :: "byte_range list"
    using that set k n unfolding settled_def by linarith
  have retry: "rd_retry_ranges r = []" using set by (simp add: settled_def)
  have len: "0 < len" "off + len \<le> rd_next_request_offset r"
    using core by (auto simp: reader_core_def outstanding_def)
  obtain data where data: "on_arrival p r a = on_data p ?r (off, len) data a"
    "length data \<le> len" "data = take (length data) (drop off file)" "data = [] \<Longrightarrow> length file \<le> off"
    using h k by (cases "ar_reply a") (auto simp: on_arrival_def req honest_def)
  show ?thesis
  proof (cases "data = []")
    case True
    then have behind: "length file \<le> off" using data(4) by simp
    have "pl_bytes_total p = None"
      using core size behind len by (cases "pl_bytes_total p") (auto simp: reader_core_def size_ok_def)
    let ?s = "spawn_read_requests p (?r\<lparr>rd_eof_reached := True\<rparr>)"
    have e: "on_arrival p r a = loop_head p ?s"
      using True \<open>pl_bytes_total p = None\<close> by (simp add: data(1) on_data_def store_chunk_def)
    have "reader_core file p [] ?s"
      using core_spawn[OF core_empty[OF core behind \<open>pl_bytes_total p = None\<close>] ok] .
    moreover have s: "settled p ?s" "rd_in_flight ?s = rd_in_flight ?r"
      using settled_spawn[of "?r\<lparr>rd_eof_reached := True\<rparr>" p] fit[of "[]"] retry by simp_all
    ultimately show ?thesis
      using loop_head_ok[where r = ?s] ok size r(2) n k set
      by (auto simp: e answers_left_def settled_def)
  next
    case False
    then have pos: "0 < length data" by simp
    let ?s = "spawn_read_requests p (if length data < len
      then ?r\<lparr>rd_retry_ranges := rd_retry_ranges ?r @ retry_tail p (off, len) (length data)\<rparr> else ?r)"
    have e: "on_arrival p r a = store_chunk p ?s off data a" using False data(2) by (simp add: data(1) on_data_def)
    have core': "reader_core file p [(off, length data)] ?s"
      using core core_short[OF core pos] data(2) by (intro core_spawn[OF _ ok]) (auto simp: le_less)
    have one: "length (retry_tail p (off, len) (length data)) \<le> 1" by (simp add: retry_tail_def Let_def)
    have s: "settled p ?s" "rd_eof_reached r \<Longrightarrow> length (rd_in_flight ?s) \<le> length (rd_in_flight r)"
      using settled_spawn[of ?r p] fit[of "[]"] retry fit[OF one] one n k
        settled_spawn[of "?r\<lparr>rd_retry_ranges := rd_retry_ranges ?r @ retry_tail p (off, len) (length data)\<rparr>" p]
      by auto
    have phase: "rd_phase ?s = Waiting" using r(2) by simp
    note st = store_data_ok[OF core' s(1) ok size phase io False data(3)]
    have "rd_bytes_done ?s = rd_bytes_done r" by simp
    then have room: "rd_bytes_done r + length data \<le> length file"
      using core_room[OF core' data_inside[OF data(3) False]] by simp
    have eof: "rd_eof_reached ?s = rd_eof_reached r" by simp
    have "answers_left file p (on_arrival p r a) < answers_left file p r" if w: "rd_phase (on_arrival p r a) = Waiting"
    proof -
      have d: "rd_bytes_done (on_arrival p r a) = rd_bytes_done r + length data"
        "rd_eof_reached (on_arrival p r a) = rd_eof_reached r"
        "rd_eof_reached r \<Longrightarrow> length (rd_in_flight (on_arrival p r a)) \<le> length (rd_in_flight r)"
        using st(2) w s(2) \<open>rd_bytes_done ?s = rd_bytes_done r\<close> unfolding e eof by simp_all
      show ?thesis
      proof (cases "rd_eof_reached r")
        case True
        with d(1,2) d(3)[OF True] room pos show ?thesis unfolding answers_left_def by (simp only: if_True)
      next
        case False
        with d room pos show ?thesis unfolding answers_left_def by (simp only: if_False)
      qed
    qed
    then show ?thesis using st(1) unfolding e by blast
  qed
qed

section \<open>Every way a download can go\<close>

text \<open>
  The same without the assumption that local files and the user cooperate: a download may fail in any
  way, but if it reports success the bytes are complete.
\<close>

definition reader_safe :: "bytes \<Rightarrow> Pipeline \<Rightarrow> Reader \<Rightarrow> bool" where
  "reader_safe file p r \<longleftrightarrow>
     (case rd_phase r of
        Waiting \<Rightarrow> reader_core file p [] r \<and> settled p r
      | Closing \<Rightarrow> size_ok file p \<and> dst_bytes (rd_destination r) = wanted file p \<and> rd_bytes_done r = length (wanted file p)
      | Finished (Inr n) \<Rightarrow> size_ok file p \<and> dst_bytes (rd_destination r) = wanted file p \<and> n = length (wanted file p)
      | Finished (Inl _) \<Rightarrow> True)"

lemma reader_safe_fails [simp]: "reader_safe file p (reader_fails r error)"
  by (simp add: reader_safe_def reader_fails_def)

lemma loop_head_safe:
  assumes core: "reader_core file p [] r" and set: "settled p r" and ok: "pipeline_ok p" and phase: "rd_phase r = Waiting"
  shows "reader_safe file p (loop_head p r)"
proof (cases "size_ok file p")
  case True
  with loop_head_ok(1)[OF core set ok True phase] show ?thesis
    by (auto simp: reader_safe_def reader_ok_def split: ReaderPhase.splits)
next
  case False
  let ?s = "spawn_read_requests p r"
  obtain t where t: "pl_bytes_total p = Some t" "length file < unat t" using False by (auto simp: size_ok_def split: option.splits)
  have core': "reader_core file p [] ?s" using core_spawn[OF core ok] .
  then have "rd_bytes_done ?s \<le> length file" by (rule core_done_le)
  then have "rd_bytes_done ?s \<noteq> unat t" using t(2) by simp
  then show ?thesis
    using t core' phase settled_spawn(1)[of r p] set
    by (auto simp: loop_head_def Let_def reader_safe_def settled_def reader_fails_def)
qed

lemma store_chunk_safe:
  assumes core: "reader_core file p (if data = [] then [] else [(off, length data)]) r" and set: "settled p r" and ok: "pipeline_ok p"
    and phase: "rd_phase r = Waiting" and data: "data = take (length data) (drop off file)"
  shows "reader_safe file p (store_chunk p r off data a)"
proof (cases "data = []")
  case True
  then show ?thesis using loop_head_safe[OF _ set ok phase] core by (simp add: store_chunk_def)
next
  case False
  let ?d = "if rd_current_offset r \<noteq> Some off then seek_start (rd_destination r) off else rd_destination r"
  let ?r = "r\<lparr>rd_destination := write_all ?d data, rd_current_offset := Some (off + length data),
    rd_bytes_done := rd_bytes_done r + length data\<rparr>"
  have "reader_core file p [] ?r"
    using core_store[OF _ data_inside[OF data False] data refl] core False by simp
  then have c: "reader_core file p [] (?r\<lparr>rd_throttle := throttle, rd_progress := progress\<rparr>)"
    "reader_core file p [] (?r\<lparr>rd_throttle := throttle\<rparr>)" for throttle progress
    by (simp_all only: core_quiet)
  have "reader_safe file p (loop_head p (?r\<lparr>rd_throttle := throttle, rd_progress := progress\<rparr>))"
    "reader_safe file p (loop_head p (?r\<lparr>rd_throttle := throttle\<rparr>))" for throttle progress
    by (rule loop_head_safe[OF c(1)] loop_head_safe[OF c(2)]; use set ok phase in \<open>simp add: settled_def\<close>)+
  then show ?thesis
    using False by (auto simp: store_chunk_def Let_def split: option.splits prod.splits)
qed

definition truthful :: "bytes \<Rightarrow> Reader \<Rightarrow> ReaderEvent \<Rightarrow> bool" where
  "truthful file r event =
     (case event of
        ChunkArrives a \<Rightarrow> ar_index a < length (rd_in_flight r) \<longrightarrow>
          (case ar_reply a of ReadFailed _ \<Rightarrow> True | _ \<Rightarrow> honest file (rd_in_flight r ! ar_index a) (ar_reply a))
      | _ \<Rightarrow> True)"

lemma arrival_safe:
  assumes r: "reader_safe file p r" "rd_phase r = Waiting" and ok: "pipeline_ok p" and a: "truthful file r (ChunkArrives a)"
  shows "reader_safe file p (on_arrival p r a)"
proof (cases "ar_index a < length (rd_in_flight r) \<and> (\<forall>guidance. ar_reply a \<noteq> ReadFailed guidance)")
  case False
  then show ?thesis using r by (auto simp: on_arrival_def Let_def split: ReadReply.splits)
next
  case True
  obtain off len where req: "rd_in_flight r ! ar_index a = (off, len)" by fastforce
  let ?r = "r\<lparr>rd_in_flight := remove_at (ar_index a) (rd_in_flight r)\<rparr>"
  have k: "ar_index a < length (rd_in_flight r)" using True by simp
  have set: "settled p r" and core: "reader_core file p [(off, len)] ?r"
    using r core_take[OF _ k] req by (simp_all add: reader_safe_def)
  have fit: "length (rd_in_flight ?r) + length rs \<le> pl_window_capacity p" if "length rs \<le> 1" for rs :: "byte_range list"
    using that set k unfolding settled_def by (simp add: remove_at_def) linarith
  have retry: "rd_retry_ranges r = []" using set by (simp add: settled_def)
  obtain data where data: "on_arrival p r a = on_data p ?r (off, len) data a"
    "length data \<le> len" "data = take (length data) (drop off file)" "data = [] \<Longrightarrow> length file \<le> off"
    using a True by (cases "ar_reply a") (auto simp: on_arrival_def req honest_def truthful_def)
  show ?thesis
  proof (cases "data = []")
    case True
    show ?thesis
    proof (cases "pl_bytes_total p")
      case None
      have "reader_core file p [] (spawn_read_requests p (?r\<lparr>rd_eof_reached := True\<rparr>))"
        using core_spawn[OF core_empty[OF core data(4)[OF True] None] ok] .
      then show ?thesis
        using True None settled_spawn(1)[of "?r\<lparr>rd_eof_reached := True\<rparr>" p] fit[of "[]"] retry ok r(2)
        by (auto simp: data(1) on_data_def intro!: store_chunk_safe)
    next
      case (Some t)
      have "off < unat t" using core Some by (auto simp: reader_core_def outstanding_def)
      then show ?thesis using True Some by (simp add: data(1) on_data_def)
    qed
  next
    case False
    then have pos: "0 < length data" by simp
    let ?s = "if length data < len
      then ?r\<lparr>rd_retry_ranges := rd_retry_ranges ?r @ retry_tail p (off, len) (length data)\<rparr> else ?r"
    have e: "on_arrival p r a = store_chunk p (spawn_read_requests p ?s) off data a"
      using False data(2) by (simp add: data(1) on_data_def)
    have "reader_core file p [(off, length data)] (spawn_read_requests p ?s)"
      using core core_short[OF core pos] data(2) by (intro core_spawn[OF _ ok]) (auto simp: le_less)
    moreover have one: "length (retry_tail p (off, len) (length data)) \<le> 1" by (simp add: retry_tail_def Let_def)
    have "settled p (spawn_read_requests p ?s)"
      using fit[of "[]"] retry fit[OF one] by (intro settled_spawn(1)) auto
    moreover have "rd_phase (spawn_read_requests p ?s) = Waiting" using r(2) by simp
    ultimately show ?thesis unfolding e using False ok data(3) by (intro store_chunk_safe) simp_all
  qed
qed

lemma step_safe:
  assumes "reader_safe file p r" and "pipeline_ok p" and "truthful file r event"
  shows "reader_safe file p (reader_step p r event)"
proof (cases "rd_phase r")
  case Waiting
  then show ?thesis using assms arrival_safe by (cases event) (auto simp: reader_step.simps)
next
  case Closing
  then show ?thesis
    using assms(1) by (cases event) (auto simp: reader_step.simps on_shutdown_def Let_def reader_safe_def reader_fails_def split: option.splits)
qed (use assms in \<open>simp add: reader_step.simps\<close>)

lemma start_core: "reader_core file p [] \<lparr>rd_in_flight = [], rd_retry_ranges = [], rd_next_request_offset = 0,
    rd_eof_reached = False, rd_bytes_done = 0, rd_current_offset = None, rd_destination = \<lparr>dst_bytes = [], dst_pos = 0\<rparr>,
    rd_throttle = throttle, rd_progress = [], rd_phase = phase\<rparr>"
  by (simp add: reader_core_def outstanding_def split: option.splits)

lemma start_safe: "pipeline_ok p \<Longrightarrow> reader_safe file p (reader_start p)"
  using loop_head_safe[OF start_core]
  by (auto simp: reader_start_def settled_def Let_def) (simp add: reader_safe_def size_ok_def wanted_def)

lemma start_ok: "pipeline_ok p \<Longrightarrow> size_ok file p \<Longrightarrow> reader_ok file p (reader_start p)"
  using loop_head_ok(1)[OF start_core]
  by (auto simp: reader_start_def settled_def Let_def) (simp add: reader_ok_def wanted_def)

interpretation download: guarded_machine "\<lambda>(p, r). pipeline_ok p \<and> r = reader_start p"
  "\<lambda>(p, r) event. (p, reader_step p r event)" "\<lambda>(p, r). truthful content r" "\<lambda>(p, r). pipeline_ok p \<and> reader_safe content p r"
  for content
  by unfold_locales (auto simp: start_safe step_safe)

section \<open>Properties\<close>

text \<open>A run in which the server, the local file and the user let the download go on.\<close>

primrec smooth_run :: "bytes \<Rightarrow> Pipeline \<Rightarrow> Reader \<Rightarrow> Arrival list \<Rightarrow> bool" where
  "smooth_run file p r [] = True"
| "smooth_run file p r (a # as) = (rd_phase r = Waiting \<and> smooth file r a \<and> smooth_run file p (reader_step p r (ChunkArrives a)) as)"

lemma smooth_run_ok:
  "reader_ok file p r \<Longrightarrow> pipeline_ok p \<Longrightarrow> size_ok file p \<Longrightarrow> smooth_run file p r as \<Longrightarrow>
   reader_ok file p (foldl (\<lambda>r a. reader_step p r (ChunkArrives a)) r as) \<and>
   (rd_phase (foldl (\<lambda>r a. reader_step p r (ChunkArrives a)) r as) = Waiting \<longrightarrow>
      length as + answers_left file p (foldl (\<lambda>r a. reader_step p r (ChunkArrives a)) r as) \<le> answers_left file p r) \<and>
   (as \<noteq> [] \<longrightarrow> length as \<le> answers_left file p r)"
proof (induction as arbitrary: r)
  case (Cons a as)
  have w: "rd_phase r = Waiting" and sm: "smooth file r a" using Cons.prems(4) by simp_all
  note step = arrival_ok[OF Cons.prems(1) w Cons.prems(2,3) sm]
  have e: "reader_step p r (ChunkArrives a) = on_arrival p r a" using w by (simp add: reader_step.simps)
  have run: "smooth_run file p (on_arrival p r a) as" using Cons.prems(4) by (simp only: smooth_run.simps e)
  note ih = Cons.IH[OF conjunct1[OF step] Cons.prems(2,3) run]
  have pos: "0 < answers_left file p r"
  proof -
    have "0 < length (rd_in_flight r)" using Cons.prems(1) w by (simp add: reader_ok_def)
    moreover have "0 < pl_window_capacity p" using Cons.prems(2) by (simp add: pipeline_ok_def)
    ultimately show ?thesis unfolding answers_left_def by (cases "rd_eof_reached r") simp_all
  qed
  show ?case
  proof (cases "rd_phase (on_arrival p r a) = Waiting")
    case True
    then show ?thesis using ih step unfolding foldl_Cons e by (cases as) auto
  next
    case False
    then have "as = []" using run by (cases as) auto
    with False step pos show ?thesis by (simp add: e Suc_leI)
  qed
qed simp

text \<open>
  C24 (pipelined_download_delivers): with any chunk size and window, answers in any order and of any
  non-zero length, a download of a file of known or unknown size needs at most one answer per byte plus one
  per place of the window; as long as it has not got everything a request is in flight, and when it stops
  asking, the destination holds exactly the file (up to the expected size) and closing it reports success.
\<close>

theorem pipelined_download_delivers:
  assumes "pipeline_ok p" and "case pl_bytes_total p of Some t \<Rightarrow> unat t \<le> length file | None \<Rightarrow> True"
    and "smooth_run file p (reader_start p) as"
    and "r = foldl (\<lambda>r a. reader_step p r (ChunkArrives a)) (reader_start p) as"
  shows "length as \<le> length file + pl_window_capacity p \<and>
         (rd_phase r = Waiting \<and> rd_in_flight r \<noteq> [] \<or>
          rd_phase r = Closing \<and>
          dst_bytes (rd_destination r) = (case pl_bytes_total p of Some t \<Rightarrow> take (unat t) file | None \<Rightarrow> file) \<and>
          rd_phase (reader_step p r (ShutdownEnds None False)) = Finished (Inr (length (dst_bytes (rd_destination r)))))"
proof -
  have size: "size_ok file p" using assms(2) by (simp add: size_ok_def)
  note run = smooth_run_ok[OF start_ok[OF assms(1) size] assms(1) size assms(3)]
  have start: "answers_left file p (reader_start p) \<le> length file + pl_window_capacity p"
  proof -
    have "rd_eof_reached (reader_start p) = False"
      by (auto simp: reader_start_def Let_def loop_head_def reader_fails_def split: option.splits)
    then show ?thesis by (simp add: answers_left_def)
  qed
  have "reader_ok file p r" using run assms(4) by blast
  then have "rd_phase r = Waiting \<and> rd_in_flight r \<noteq> [] \<or> rd_phase r = Closing \<and> dst_bytes (rd_destination r) = wanted file p \<and>
      rd_bytes_done r = length (wanted file p)"
    by (auto simp: reader_ok_def split: ReaderPhase.splits)
  moreover have "length as \<le> length file + pl_window_capacity p"
    using run start by (cases "as = []") auto
  ultimately show ?thesis by (auto simp: wanted_def reader_step.simps on_shutdown_def Let_def)
qed

definition demo_pipeline :: Pipeline where
  "demo_pipeline = \<lparr>pl_chunk_size = 2, pl_window_capacity = 2, pl_bytes_total = Some 5\<rparr>"

definition demo_arrival :: "nat \<Rightarrow> bytes \<Rightarrow> Arrival" where
  "demo_arrival k data = \<lparr>ar_index = k, ar_reply = Data data, ar_seek = None, ar_write = None, ar_now = 0, ar_receiver_gone = False\<rparr>"

text \<open>Five bytes in chunks of two: the second chunk first, then the first one in two pieces, then the rest.\<close>

definition demo_arrivals :: "Arrival list" where
  "demo_arrivals = [demo_arrival 1 [3, 4], demo_arrival 0 [1], demo_arrival 1 [2], demo_arrival 0 [5]]"

theorem pipelined_download_delivers_witness:
  "dst_bytes (rd_destination (foldl (\<lambda>r a. reader_step demo_pipeline r (ChunkArrives a)) (reader_start demo_pipeline) demo_arrivals)) =
   [1, 2, 3, 4, 5]"
proof -
  let ?r = "foldl (\<lambda>r a. reader_step demo_pipeline r (ChunkArrives a)) (reader_start demo_pipeline) demo_arrivals"
  have run: "smooth_run [1, 2, 3, 4, 5] demo_pipeline (reader_start demo_pipeline) demo_arrivals" by code_simp
  have phase: "rd_phase ?r = Closing" by code_simp
  have ok: "pipeline_ok demo_pipeline" by (simp add: pipeline_ok_def demo_pipeline_def)
  have size: "case pl_bytes_total demo_pipeline of Some t \<Rightarrow> unat t \<le> length ([1, 2, 3, 4, 5] :: bytes) | None \<Rightarrow> True"
    by (simp add: demo_pipeline_def)
  from pipelined_download_delivers[OF ok size run refl] phase show ?thesis by (simp add: demo_pipeline_def)
qed

text \<open>
  C25 (download_success_is_complete): whatever happens, read errors, failing tasks, cancels, failing seeks,
  writes or shutdowns, a listener that is gone, short answers, a file shorter than announced: if the
  download reports success, the destination holds exactly the file up to the expected size, and the file
  was not shorter than that.
\<close>

theorem download_success_is_complete:
  assumes "pipeline_ok p" and "download.admissible_run file (p, reader_start p) events"
    and "r = foldl (reader_step p) (reader_start p) events" and "rd_phase r = Finished (Inr n)"
  shows "dst_bytes (rd_destination r) = (case pl_bytes_total p of Some t \<Rightarrow> take (unat t) file | None \<Rightarrow> file) \<and>
         n = length (dst_bytes (rd_destination r)) \<and> (\<forall>t. pl_bytes_total p = Some t \<longrightarrow> unat t = n)"
proof -
  have fold: "foldl (\<lambda>(p, r) event. (p, reader_step p r event)) (p, r0) events = (p, foldl (reader_step p) r0 events)" for r0
    by (induction events arbitrary: r0) simp_all
  have "reader_safe file p r"
    using download.reachable_inv[OF _ assms(2)] assms(1,3) by (simp add: fold)
  with assms(4) show ?thesis by (auto simp: reader_safe_def wanted_def size_ok_def)
qed

theorem download_success_is_complete_witness:
  "dst_bytes (rd_destination (foldl (reader_step demo_pipeline) (reader_start demo_pipeline)
     (map ChunkArrives demo_arrivals @ [ShutdownEnds None False]))) = [1, 2, 3, 4, 5]"
proof -
  let ?events = "map ChunkArrives demo_arrivals @ [ShutdownEnds None False]"
  have run: "download.admissible_run [1, 2, 3, 4, 5] (demo_pipeline, reader_start demo_pipeline) ?events"
    unfolding download.admissible_run_eq by code_simp
  have phase: "rd_phase (foldl (reader_step demo_pipeline) (reader_start demo_pipeline) ?events) = Finished (Inr 5)"
    by code_simp
  have ok: "pipeline_ok demo_pipeline" by (simp add: pipeline_ok_def demo_pipeline_def)
  from download_success_is_complete[OF ok run refl phase] show ?thesis by (simp add: demo_pipeline_def)
qed

end
