(* ===== verification/Pipelined_Writer.thy ===== *)
theory Pipelined_Writer
  imports Pipeline
begin

text \<open>
  \<open>PipelinedUploadWriter::upload_from\<close> of \<open>crates/sftp/src/pipelined_writer.rs\<close>: chunks are read from
  the local source one after the other, written to the remote file through a window of requests, and
  acknowledged in any order.

  The local file may give a read fewer bytes than asked for: \<open>pick k\<close> is how many the \<open>k\<close>-th read wants to
  give, at least one and never more than are left. A write the server acknowledges is in its file.
\<close>

section \<open>Reading a chunk\<close>

function fill_buffer :: "(nat \<Rightarrow> nat) \<Rightarrow> nat \<Rightarrow> bytes \<Rightarrow> bytes \<Rightarrow> nat \<Rightarrow> bytes \<times> bytes \<times> bool" where
  "fill_buffer pick k buffer source to_read =
     (if length buffer < to_read
      then let n = min (max 1 (pick k)) (min (to_read - length buffer) (length source))
           in if n = 0 then (buffer, source, True)
              else fill_buffer pick (k + 1) (buffer @ take n source) (drop n source) to_read
      else (buffer, source, False))"
  by pat_completeness auto
termination
  by (relation "measure (\<lambda>(pick, k, buffer, source, to_read). to_read - length buffer)") (auto simp: min_def simp flip: length_greater_0_conv)

declare fill_buffer.simps [simp del]

section \<open>State and events\<close>

datatype WriterPhase = WriterWaiting | WriterFinished "UserFacingError + nat"

type_synonym chunk = "nat \<times> bytes"

record Writer =
  wr_source :: bytes
  wr_in_flight :: "chunk list"
  wr_current_offset :: nat
  wr_eof_reached :: bool
  wr_bytes_done :: nat
  wr_remote :: bytes
  wr_throttle :: ProgressThrottle
  wr_progress :: "(nat \<times> u64 option) list"
  wr_phase :: WriterPhase

datatype WriteReply =
    WriteOk
  | WriteStatus rstr
  | WriteError rstr

text \<open>\<open>ak_trouble\<close> is a failure of the local file, or a cancellation, that the next read meets.\<close>

record Ack =
  ak_index :: nat
  ak_reply :: WriteReply
  ak_pick :: "nat \<Rightarrow> nat"
  ak_trouble :: "UserFacingError option"
  ak_now :: int
  ak_receiver_gone :: bool

datatype WriterEvent =
    AckArrives Ack
  | WriteTaskFails
  | UploadCancelled

definition writer_fails :: "Writer \<Rightarrow> UserFacingError \<Rightarrow> Writer" where
  "writer_fails w error = w\<lparr>wr_in_flight := [], wr_phase := WriterFinished (Inl error)\<rparr>"

section \<open>Requests\<close>

definition write_len :: "Pipeline \<Rightarrow> Writer \<Rightarrow> nat" where
  "write_len p w =
     (case pl_bytes_total p of
        Some bytes_total \<Rightarrow> unat (next_chunk_len (bytes_total - of_nat (wr_current_offset w)) (pl_chunk_size p))
      | None \<Rightarrow> unat (pl_chunk_size p))"

definition at_total :: "Pipeline \<Rightarrow> Writer \<Rightarrow> bool" where
  "at_total p w = (case pl_bytes_total p of Some bytes_total \<Rightarrow> unat bytes_total \<le> wr_current_offset w | None \<Rightarrow> False)"

function spawn_write_requests :: "Pipeline \<Rightarrow> (nat \<Rightarrow> nat) \<Rightarrow> UserFacingError option \<Rightarrow> Writer \<Rightarrow> Writer" where
  "spawn_write_requests p pick trouble w =
     (if length (wr_in_flight w) < pl_window_capacity p \<and> \<not> wr_eof_reached w
      then if at_total p w then w\<lparr>wr_eof_reached := True\<rparr>
           else (case trouble of
                   Some error \<Rightarrow> writer_fails w error
                 | None \<Rightarrow>
                     let (buffer, source, ended) = fill_buffer pick 0 [] (wr_source w) (write_len p w);
                         w1 = w\<lparr>wr_source := source, wr_eof_reached := ended\<rparr>
                     in if buffer = [] then w1\<lparr>wr_eof_reached := True\<rparr>
                        else spawn_write_requests p pick trouble
                               (w1\<lparr>wr_in_flight := wr_in_flight w1 @ [(wr_current_offset w1, buffer)],
                                   wr_current_offset := wr_current_offset w1 + length buffer\<rparr>))
      else w)"
  by pat_completeness auto
termination
  by (relation "measure (\<lambda>(p, pick, trouble, w). pl_window_capacity p - length (wr_in_flight w))") auto

declare spawn_write_requests.simps [simp del]

section \<open>The loop\<close>

definition write_failed_error :: "rstr \<Rightarrow> UserFacingError" where
  "write_failed_error detail =
     transfer_error ErrorCode.Unknown (lit ''Transfer Write Failed'') (lit ''The remote file could not be written.'') detail"

definition write_worker_error :: UserFacingError where
  "write_worker_error =
     user_facing_error ErrorCode.Unknown (lit ''Transfer Write Failed'')
       (lit ''The transfer write worker failed unexpectedly.'')"

definition writer_finish :: "Pipeline \<Rightarrow> Writer \<Rightarrow> bool \<Rightarrow> Writer" where
  "writer_finish p w receiver_gone =
     (let w' = w\<lparr>wr_throttle := throttle_reset (wr_throttle w)\<rparr>
      in if receiver_gone then writer_fails w' progress_closed_error
         else w'\<lparr>wr_progress := wr_progress w' @ [(wr_bytes_done w', pl_bytes_total p)],
                 wr_phase := WriterFinished (Inr (wr_bytes_done w'))\<rparr>)"

text \<open>The head of the loop; when nothing is in flight any more the sizes are compared and the end reported.\<close>

definition writer_head ::
  "Pipeline \<Rightarrow> (nat \<Rightarrow> nat) \<Rightarrow> UserFacingError option \<Rightarrow> bool \<Rightarrow> Writer \<Rightarrow> Writer" where
  "writer_head p pick trouble receiver_gone w =
     (if trouble = Some cancelled_transfer_error then writer_fails w cancelled_transfer_error
      else let w' = spawn_write_requests p pick trouble w
      in if wr_phase w' \<noteq> WriterWaiting \<or> wr_in_flight w' \<noteq> [] then w'
         else (case pl_bytes_total p of
                 Some bytes_total \<Rightarrow>
                   if wr_bytes_done w' \<noteq> unat bytes_total
                   then writer_fails w' (size_mismatch_error (unat bytes_total) (wr_bytes_done w'))
                   else writer_finish p w' receiver_gone
               | None \<Rightarrow> writer_finish p w' receiver_gone))"

definition on_write_ok :: "Pipeline \<Rightarrow> Writer \<Rightarrow> chunk \<Rightarrow> Ack \<Rightarrow> Writer" where
  "on_write_ok p w chunk a =
     (let w1 = w\<lparr>wr_remote := overwrite (wr_remote w) (fst chunk) (snd chunk),
                 wr_bytes_done := wr_bytes_done w + length (snd chunk)\<rparr>;
          w2 = spawn_write_requests p (ak_pick a) (ak_trouble a) w1;
          (throttle, send) = should_send (wr_throttle w2) (ak_now a);
          w3 = w2\<lparr>wr_throttle := throttle\<rparr>
      in if wr_phase w2 \<noteq> WriterWaiting then w2
         else if send \<and> ak_receiver_gone a then writer_fails w3 progress_closed_error
         else writer_head p (ak_pick a) (ak_trouble a) (ak_receiver_gone a)
                (if send then w3\<lparr>wr_progress := wr_progress w3 @ [(wr_bytes_done w3, pl_bytes_total p)]\<rparr> else w3))"

definition on_ack :: "Pipeline \<Rightarrow> Writer \<Rightarrow> Ack \<Rightarrow> Writer" where
  "on_ack p w a =
     (if ak_index a < length (wr_in_flight w)
      then let chunk = wr_in_flight w ! ak_index a;
               w' = w\<lparr>wr_in_flight := remove_at (ak_index a) (wr_in_flight w)\<rparr>
           in (case ak_reply a of
                 WriteOk \<Rightarrow> on_write_ok p w' chunk a
               | WriteStatus status \<Rightarrow> writer_fails w' (write_failed_error (lit ''Server status code: '' @ status))
               | WriteError guidance \<Rightarrow> writer_fails w' (write_failed_error guidance))
      else w)"

fun writer_step :: "Pipeline \<Rightarrow> Writer \<Rightarrow> WriterEvent \<Rightarrow> Writer" where
  "writer_step p w event =
     (case wr_phase w of
        WriterFinished _ \<Rightarrow> w
      | WriterWaiting \<Rightarrow>
          (case event of
             AckArrives a \<Rightarrow> on_ack p w a
           | WriteTaskFails \<Rightarrow> writer_fails w write_worker_error
           | UploadCancelled \<Rightarrow> writer_fails w cancelled_transfer_error))"

declare writer_step.simps [simp del]

definition writer_start ::
  "Pipeline \<Rightarrow> bytes \<Rightarrow> (nat \<Rightarrow> nat) \<Rightarrow> UserFacingError option \<Rightarrow> bool \<Rightarrow> Writer" where
  "writer_start p source pick trouble receiver_gone =
     (let w = \<lparr>wr_source = source, wr_in_flight = [], wr_current_offset = 0, wr_eof_reached = False, wr_bytes_done = 0,
               wr_remote = [], wr_throttle = throttle_new 10, wr_progress = [], wr_phase = WriterWaiting\<rparr>
      in if pl_bytes_total p = Some 0
         then if trouble = Some cancelled_transfer_error then writer_fails w cancelled_transfer_error
              else writer_finish p w receiver_gone
         else writer_head p pick trouble receiver_gone w)"

section \<open>The buffer\<close>

text \<open>However small the pieces a read gives, the buffer is the next part of the source.\<close>

lemma fill_buffer_exact:
  "length buffer \<le> to_read \<Longrightarrow> fill_buffer pick k buffer source to_read =
     (buffer @ take (to_read - length buffer) source, drop (to_read - length buffer) source,
      length source < to_read - length buffer)"
proof (induction pick k buffer source to_read rule: fill_buffer.induct)
  case (1 pick k buffer source to_read)
  show ?case
  proof (cases "length buffer < to_read \<and> source \<noteq> []")
    case True
    define n where "n = min (max 1 (pick k)) (min (to_read - length buffer) (length source))"
    have n: "n \<noteq> 0" "n \<le> to_read - length buffer" "n \<le> length source" using True by (auto simp: n_def)
    obtain m where m: "to_read - length buffer = n + m" using n(2) le_Suc_ex by blast
    have step: "fill_buffer pick k buffer source to_read = fill_buffer pick (k + 1) (buffer @ take n source) (drop n source) to_read"
      using True n(1) unfolding fill_buffer.simps[of pick k buffer source to_read] Let_def n_def[symmetric] by simp
    have len: "length (buffer @ take n source) \<le> to_read" "to_read - length (buffer @ take n source) = m"
      using n m True by simp_all
    have "fill_buffer pick (k + 1) (buffer @ take n source) (drop n source) to_read =
        ((buffer @ take n source) @ take m (drop n source), drop m (drop n source), length (drop n source) < m)"
      using 1(1)[OF _ n_def _ len(1)] True n(1) len(2) by simp
    then show ?thesis unfolding step m using n(3) by (auto simp: take_add add.commute[of m n])
  next
    case False
    then show ?thesis using 1(2) by (subst fill_buffer.simps) (auto simp: Let_def)
  qed
qed

end
