(* ===== verification/Pipelined_Writer_Laws.thy ===== *)
theory Pipelined_Writer_Laws
  imports Pipelined_Writer
begin

text \<open>
  What the pipelined upload leaves on the server: whatever goes wrong, a reported success means that the
  remote file is the source, and when nothing goes wrong the upload ends after at most one acknowledgement
  per byte.
\<close>

section \<open>The invariant\<close>

text \<open>
  \<open>hold\<close> is a chunk that is acknowledged but not counted yet. With the chunks in flight it is all that the
  remote file still misses of the source up to the current offset.
\<close>

definition pieces :: "chunk list \<Rightarrow> byte_range list" where
  "pieces chunks = map (apsnd length) chunks"

definition unacked :: "chunk list \<Rightarrow> nat" where
  "unacked chunks = sum_list (map (length \<circ> snd) chunks)"

lemma pieces_simps [simp]:
  "pieces [] = []" "pieces ((off, data) # chunks) = (off, length data) # pieces chunks" "pieces (xs @ ys) = pieces xs @ pieces ys"
  by (simp_all add: pieces_def)

lemma unacked_simps [simp]:
  "unacked [] = 0" "unacked ((off, data) # chunks) = length data + unacked chunks" "unacked (xs @ ys) = unacked xs + unacked ys"
  by (simp_all add: unacked_def)

definition chunk_ok :: "bytes \<Rightarrow> nat \<Rightarrow> chunk \<Rightarrow> bool" where
  "chunk_ok source offset chunk \<longleftrightarrow>
     snd chunk \<noteq> [] \<and> fst chunk + length (snd chunk) \<le> offset \<and> snd chunk = take (length (snd chunk)) (drop (fst chunk) source)"

lemma chunk_ok_mono: "chunk_ok source offset chunk \<Longrightarrow> chunk_ok source (offset + n) chunk"
  by (auto simp: chunk_ok_def)

definition writer_core :: "bytes \<Rightarrow> Pipeline \<Rightarrow> chunk list \<Rightarrow> Writer \<Rightarrow> bool" where
  "writer_core source p hold w \<longleftrightarrow>
     wr_current_offset w \<le> length source \<and> wr_source w = drop (wr_current_offset w) source \<and>
     list_all (chunk_ok source (wr_current_offset w)) (hold @ wr_in_flight w) \<and>
     wr_bytes_done w + unacked (hold @ wr_in_flight w) = wr_current_offset w \<and>
     length (wr_remote w) \<le> wr_current_offset w \<and>
     (\<forall>i < wr_current_offset w. \<not> covers (pieces (hold @ wr_in_flight w)) i \<longrightarrow>
        i < length (wr_remote w) \<and> wr_remote w ! i = source ! i) \<and>
     (case pl_bytes_total p of Some t \<Rightarrow> wr_current_offset w \<le> unat t | None \<Rightarrow> True) \<and>
     (wr_eof_reached w \<longrightarrow> at_total p w \<or> wr_current_offset w = length source)"

lemma writer_core_quiet [simp]:
  "writer_core source p hold (w\<lparr>wr_throttle := throttle\<rparr>) = writer_core source p hold w"
  "writer_core source p hold (w\<lparr>wr_progress := progress\<rparr>) = writer_core source p hold w"
  "at_total p (w\<lparr>wr_eof_reached := eof\<rparr>) = at_total p w"
  by (auto simp: writer_core_def at_total_def split: option.splits)

lemma core_end:
  "writer_core source p hold w \<Longrightarrow> at_total p w \<or> wr_current_offset w = length source \<Longrightarrow>
   writer_core source p hold (w\<lparr>wr_eof_reached := True\<rparr>)"
  by (auto simp: writer_core_def split: option.splits)

section \<open>Requests\<close>

lemma write_len_exact:
  assumes "\<not> at_total p w"
  shows "write_len p w =
    (case pl_bytes_total p of Some t \<Rightarrow> min (unat t - wr_current_offset w) (unat (pl_chunk_size p)) | None \<Rightarrow> unat (pl_chunk_size p))"
proof (cases "pl_bytes_total p")
  case (Some t)
  then have lt: "wr_current_offset w < unat t" using assms by (simp add: at_total_def)
  have "unat t < 2 ^ 64" using unsigned_less[of t] by simp
  with lt have "unat (of_nat (wr_current_offset w) :: u64) = wr_current_offset w"
    by (simp add: unsigned_of_nat take_bit_eq_mod)
  moreover from this have "of_nat (wr_current_offset w) \<le> t" using lt by (simp add: word_le_nat_alt)
  ultimately have "unat (t - of_nat (wr_current_offset w)) = unat t - wr_current_offset w"
    by (simp add: unat_sub)
  then show ?thesis using Some by (simp add: write_len_def next_chunk_len_exact)
qed (simp add: write_len_def)

text \<open>One chunk more in flight: it is the next piece of the source, and a short piece is its last.\<close>

lemma core_chunk:
  assumes core: "writer_core source p hold w" and more: "\<not> at_total p w"
    and buffer: "buffer = take (write_len p w) (wr_source w)" "buffer \<noteq> []"
  shows "writer_core source p hold
    (w\<lparr>wr_source := drop (write_len p w) (wr_source w), wr_eof_reached := length (wr_source w) < write_len p w,
       wr_in_flight := wr_in_flight w @ [(wr_current_offset w, buffer)],
       wr_current_offset := wr_current_offset w + length buffer\<rparr>)"
proof -
  let ?o = "wr_current_offset w"
  have rest: "wr_source w = drop ?o source" "?o \<le> length source" using core by (simp_all add: writer_core_def)
  have len: "length buffer = min (write_len p w) (length source - ?o)" using buffer(1) rest by simp
  have fits: "?o + length buffer \<le> length source" using len rest(2) by linarith
  have piece: "buffer = take (length buffer) (drop ?o source)" using buffer(1) rest(1) by (simp add: min_def)
  have limit: "case pl_bytes_total p of Some t \<Rightarrow> ?o + length buffer \<le> unat t | None \<Rightarrow> True"
    using write_len_exact[OF more] more len by (auto simp: at_total_def min_def split: option.splits)
  have "drop (write_len p w) (wr_source w) = drop (?o + length buffer) source"
    using rest len by (auto simp: min_def add.commute)
  moreover have "list_all (chunk_ok source (?o + length buffer)) (hold @ wr_in_flight w)"
    using core unfolding writer_core_def by (auto elim!: list.pred_mono_strong chunk_ok_mono)
  moreover have "chunk_ok source (?o + length buffer) (?o, buffer)"
    using buffer(2) piece by (simp add: chunk_ok_def)
  moreover have "?o + length buffer = length source" if "length (wr_source w) < write_len p w"
    using that len rest by simp
  ultimately show ?thesis
    using core fits limit unfolding writer_core_def by (auto simp: less_diff_conv split: option.splits)
qed

lemma spawn_writes:
  assumes "writer_core source p hold w" and "pipeline_ok p" and "wr_phase w = WriterWaiting"
    and "length (wr_in_flight w) \<le> pl_window_capacity p" and "w' = spawn_write_requests p pick trouble w"
  shows "(\<exists>error. trouble = Some error \<and> wr_phase w' = WriterFinished (Inl error)) \<or>
         writer_core source p hold w' \<and> wr_phase w' = WriterWaiting \<and>
         wr_bytes_done w' = wr_bytes_done w \<and> length (wr_in_flight w') \<le> pl_window_capacity p \<and>
         (wr_in_flight w' = [] \<longrightarrow> wr_eof_reached w')"
  using assms
proof (induction p pick trouble w arbitrary: w' rule: spawn_write_requests.induct)
  case (1 p pick trouble w)
  note simps = 1(6) spawn_write_requests.simps[of p pick trouble w]
  consider (full) "\<not> (length (wr_in_flight w) < pl_window_capacity p \<and> \<not> wr_eof_reached w)"
    | (limit) "length (wr_in_flight w) < pl_window_capacity p" "\<not> wr_eof_reached w" "at_total p w"
    | (trouble) error where "length (wr_in_flight w) < pl_window_capacity p" "\<not> wr_eof_reached w" "\<not> at_total p w" "trouble = Some error"
    | (read) "length (wr_in_flight w) < pl_window_capacity p" "\<not> wr_eof_reached w" "\<not> at_total p w" "trouble = None"
    by (cases trouble) auto
  then show ?case
  proof cases
    case full
    moreover have "0 < pl_window_capacity p" using 1(3) by (simp add: pipeline_ok_def)
    ultimately show ?thesis using 1(2-5) simps by auto
  next
    case limit
    then show ?thesis using 1(2-5) simps core_end[OF 1(2)] by auto
  next
    case trouble
    then show ?thesis using simps by (simp add: writer_fails_def)
  next
    case read
    define buffer where "buffer = take (write_len p w) (wr_source w)"
    define ended where "ended = (length (wr_source w) < write_len p w)"
    have fill: "fill_buffer pick 0 [] (wr_source w) (write_len p w) = (buffer, drop (write_len p w) (wr_source w), ended)"
      by (simp add: fill_buffer_exact buffer_def ended_def)
    show ?thesis
    proof (cases "buffer = []")
      case True
      have pos: "0 < write_len p w"
        unfolding write_len_exact[OF read(3)] using 1(3) read(3)
        by (auto simp: at_total_def pipeline_ok_def unat_gt_0 split: option.splits)
      then have "wr_source w = []" using True by (simp add: buffer_def)
      then have "wr_current_offset w = length source" using 1(2) by (simp add: writer_core_def)
      moreover have "w' = w\<lparr>wr_eof_reached := True\<rparr>"
        using read True simps \<open>wr_source w = []\<close> fill by (simp add: Let_def)
      ultimately show ?thesis using 1(2,4,5) core_end[OF 1(2)] by auto
    next
      case False
      let ?w = "w\<lparr>wr_source := drop (write_len p w) (wr_source w), wr_eof_reached := ended,
        wr_in_flight := wr_in_flight w @ [(wr_current_offset w, buffer)],
        wr_current_offset := wr_current_offset w + length buffer\<rparr>"
      have e: "w' = spawn_write_requests p pick trouble ?w"
        using read False fill simps by (simp add: Let_def)
      have core: "writer_core source p hold ?w"
        using core_chunk[OF 1(2) read(3) buffer_def False] by (simp add: ended_def)
      have room: "length (wr_in_flight ?w) \<le> pl_window_capacity p" using read(1) by simp
      show ?thesis
        using 1(1)[OF _ read(3,4) fill[symmetric] refl refl refl False, of w'] read(1,2) core 1(3,4) room e by simp
    qed
  qed
qed

section \<open>Acknowledgements\<close>

definition big_enough :: "bytes \<Rightarrow> Pipeline \<Rightarrow> bool" where
  "big_enough source p = (case pl_bytes_total p of Some t \<Rightarrow> unat t \<le> length source | None \<Rightarrow> True)"

definition uploaded :: "bytes \<Rightarrow> Pipeline \<Rightarrow> bytes" where
  "uploaded source p = (case pl_bytes_total p of Some t \<Rightarrow> take (unat t) source | None \<Rightarrow> source)"

text \<open>\<open>quiet\<close> tells whether nothing that could stop the upload has happened.\<close>

definition writer_ok :: "bytes \<Rightarrow> Pipeline \<Rightarrow> bool \<Rightarrow> Writer \<Rightarrow> bool" where
  "writer_ok source p quiet w =
     (case wr_phase w of
        WriterWaiting \<Rightarrow> writer_core source p [] w \<and> wr_in_flight w \<noteq> [] \<and> length (wr_in_flight w) \<le> pl_window_capacity p
      | WriterFinished (Inr n) \<Rightarrow> big_enough source p \<and> wr_remote w = uploaded source p \<and> n = length (uploaded source p)
      | WriterFinished (Inl error) \<Rightarrow> \<not> quiet \<or> \<not> big_enough source p)"

lemma writer_ok_fails [simp]: "writer_ok source p quiet (writer_fails w error) \<longleftrightarrow> \<not> quiet \<or> \<not> big_enough source p"
  by (simp add: writer_ok_def writer_fails_def)

lemma core_complete:
  assumes "writer_core source p [] w" and "wr_in_flight w = []"
  shows "wr_remote w = take (wr_current_offset w) source" and "wr_bytes_done w = wr_current_offset w"
proof -
  have all: "\<forall>i < wr_current_offset w. i < length (wr_remote w) \<and> wr_remote w ! i = source ! i"
    and len: "length (wr_remote w) \<le> wr_current_offset w" "wr_current_offset w \<le> length source"
    using assms by (simp_all add: writer_core_def)
  have "length (wr_remote w) = wr_current_offset w"
    using all[rule_format, of "length (wr_remote w)"] len(1) by (cases "length (wr_remote w) < wr_current_offset w") simp_all
  then show "wr_remote w = take (wr_current_offset w) source" using all len(2) by (intro nth_equalityI) simp_all
  show "wr_bytes_done w = wr_current_offset w" using assms by (simp add: writer_core_def)
qed

lemma writer_head_ok:
  assumes core: "writer_core source p [] w" and ok: "pipeline_ok p" and phase: "wr_phase w = WriterWaiting"
    and room: "length (wr_in_flight w) \<le> pl_window_capacity p"
  shows "writer_ok source p (trouble = None \<and> \<not> gone) (writer_head p pick trouble gone w)"
    and "wr_phase (writer_head p pick trouble gone w) = WriterWaiting \<Longrightarrow>
         wr_bytes_done (writer_head p pick trouble gone w) = wr_bytes_done w"
proof -
  define w' where "w' = spawn_write_requests p pick trouble w"
  note spawn = spawn_writes[OF core ok phase room w'_def]
  have "writer_ok source p (trouble = None \<and> \<not> gone) (writer_head p pick trouble gone w) \<and>
      (wr_phase (writer_head p pick trouble gone w) = WriterWaiting \<longrightarrow>
       wr_bytes_done (writer_head p pick trouble gone w) = wr_bytes_done w)"
  proof (cases "trouble = Some cancelled_transfer_error \<or> wr_phase w' \<noteq> WriterWaiting \<or> wr_in_flight w' \<noteq> []")
    case True
    then show ?thesis
      using spawn by (auto simp: writer_head_def Let_def w'_def[symmetric] writer_ok_def writer_fails_def)
  next
    case False
    then have w': "writer_core source p [] w'" "wr_in_flight w' = []" "wr_eof_reached w'" using spawn by auto
    note full = core_complete[OF w'(1,2)]
    have stop: "at_total p w' \<or> wr_current_offset w' = length source" "wr_current_offset w' \<le> length source"
      "case pl_bytes_total p of Some t \<Rightarrow> wr_current_offset w' \<le> unat t | None \<Rightarrow> True"
      using w' by (simp_all add: writer_core_def)
    show ?thesis
      using False full stop
      by (auto simp: writer_head_def Let_def w'_def[symmetric] writer_finish_def writer_ok_def writer_fails_def
          uploaded_def big_enough_def at_total_def split: option.splits)
  qed
  then show "writer_ok source p (trouble = None \<and> \<not> gone) (writer_head p pick trouble gone w)"
    "wr_phase (writer_head p pick trouble gone w) = WriterWaiting \<Longrightarrow>
     wr_bytes_done (writer_head p pick trouble gone w) = wr_bytes_done w" by blast+
qed

text \<open>Storing the acknowledged chunk.\<close>

lemma core_ack:
  assumes "writer_core source p [chunk] w"
  shows "writer_core source p [] (w\<lparr>wr_remote := overwrite (wr_remote w) (fst chunk) (snd chunk),
    wr_bytes_done := wr_bytes_done w + length (snd chunk)\<rparr>)"
proof -
  obtain off data where chunk: "chunk = (off, data)" by fastforce
  have fits: "off + length data \<le> wr_current_offset w" "wr_current_offset w \<le> length source"
    and piece: "data = take (length data) (drop off source)"
    using assms by (simp_all add: writer_core_def chunk_ok_def chunk)
  have at: "data ! (i - off) = source ! i" if "off \<le> i" "i < off + length data" for i
    using that fits by (subst piece) (simp add: nth_drop)
  have "i < length (overwrite (wr_remote w) off data) \<and> overwrite (wr_remote w) off data ! i = source ! i"
    if i: "i < wr_current_offset w" "\<not> covers (pieces (wr_in_flight w)) i" for i
  proof (cases "off \<le> i \<and> i < off + length data")
    case True
    then show ?thesis using at by (simp add: nth_overwrite less_max_iff_disj)
  next
    case False
    then have "i < length (wr_remote w) \<and> wr_remote w ! i = source ! i"
      using assms i by (auto simp: writer_core_def chunk)
    with False show ?thesis by (auto simp: nth_overwrite)
  qed
  then show ?thesis
    using assms fits unfolding writer_core_def chunk by (auto simp: at_total_def split: option.splits)
qed

lemma core_pick:
  assumes "writer_core source p [] w" and "k < length (wr_in_flight w)"
  shows "writer_core source p [wr_in_flight w ! k] (w\<lparr>wr_in_flight := remove_at k (wr_in_flight w)\<rparr>)"
proof -
  let ?c = "wr_in_flight w ! k" and ?ys = "remove_at k (wr_in_flight w)"
  have xs: "wr_in_flight w = take k (wr_in_flight w) @ ?c # drop (Suc k) (wr_in_flight w)"
    using assms(2) by (simp add: id_take_nth_drop)
  obtain off data where c: "?c = (off, data)" by fastforce
  have "covers (pieces (?c # ?ys)) i = covers (pieces (wr_in_flight w)) i" for i
    by (subst (3) xs) (auto simp: remove_at_def c)
  moreover have "unacked (?c # ?ys) = unacked (wr_in_flight w)"
    by (subst (3) xs) (simp add: remove_at_def c)
  moreover have "list_all P (?c # ?ys) = list_all P (wr_in_flight w)" for P
    by (subst (3) xs) (auto simp: remove_at_def)
  ultimately show ?thesis using assms(1) by (simp add: writer_core_def at_total_def split: option.splits)
qed

definition ack_quiet :: "Writer \<Rightarrow> Ack \<Rightarrow> bool" where
  "ack_quiet w a \<longleftrightarrow> ak_reply a = WriteOk \<and> ak_trouble a = None \<and> \<not> ak_receiver_gone a"

lemma ack_ok:
  assumes w: "writer_ok source p quiet w" and ok: "pipeline_ok p" and phase: "wr_phase w = WriterWaiting"
    and k: "ak_index a < length (wr_in_flight w)"
  shows "writer_ok source p (ack_quiet w a) (on_ack p w a) \<and>
         (wr_phase (on_ack p w a) = WriterWaiting \<longrightarrow> wr_bytes_done w < wr_bytes_done (on_ack p w a))"
proof (cases "ak_reply a = WriteOk")
  case False
  then show ?thesis using k by (cases "ak_reply a") (simp_all add: on_ack_def Let_def ack_quiet_def writer_fails_def writer_ok_def)
next
  case True
  let ?c = "wr_in_flight w ! ak_index a" and ?w = "w\<lparr>wr_in_flight := remove_at (ak_index a) (wr_in_flight w)\<rparr>"
  define w1 where "w1 = ?w\<lparr>wr_remote := overwrite (wr_remote ?w) (fst ?c) (snd ?c),
    wr_bytes_done := wr_bytes_done ?w + length (snd ?c)\<rparr>"
  define w2 where "w2 = spawn_write_requests p (ak_pick a) (ak_trouble a) w1"
  have e: "on_ack p w a = on_write_ok p ?w ?c a" using True k by (simp add: on_ack_def Let_def)
  have core: "writer_core source p [] w" and room: "length (wr_in_flight w) \<le> pl_window_capacity p"
    using w phase by (simp_all add: writer_ok_def)
  have core1: "writer_core source p [] w1" unfolding w1_def by (rule core_ack[OF core_pick[OF core k]])
  have "snd ?c \<noteq> []" using core k by (auto simp: writer_core_def list_all_iff chunk_ok_def)
  then have more: "wr_bytes_done w < wr_bytes_done w1" by (simp add: w1_def)
  have room1: "length (wr_in_flight w1) \<le> pl_window_capacity p" "wr_phase w1 = WriterWaiting"
    using room k phase by (simp_all add: w1_def remove_at_def)
  note spawn = spawn_writes[OF core1 ok room1(2) room1(1) w2_def]
  obtain throttle send where s: "should_send (wr_throttle w2) (ak_now a) = (throttle, send)" by fastforce
  define w3 where "w3 = (if send then w2\<lparr>wr_throttle := throttle, wr_progress := wr_progress w2 @ [(wr_bytes_done w2, pl_bytes_total p)]\<rparr>
    else w2\<lparr>wr_throttle := throttle\<rparr>)"
  have step: "on_ack p w a =
    (if wr_phase w2 \<noteq> WriterWaiting then w2
     else if send \<and> ak_receiver_gone a then writer_fails (w2\<lparr>wr_throttle := throttle\<rparr>) progress_closed_error
     else writer_head p (ak_pick a) (ak_trouble a) (ak_receiver_gone a) w3)"
    unfolding e on_write_ok_def Let_def w1_def[symmetric] w2_def[symmetric] s by (simp add: w3_def)
  show ?thesis
  proof (cases "wr_phase w2 \<noteq> WriterWaiting \<or> send \<and> ak_receiver_gone a")
    case True
    then show ?thesis using spawn unfolding step by (auto simp: ack_quiet_def writer_ok_def writer_fails_def)
  next
    case False
    have w3: "writer_core source p [] w3" "wr_phase w3 = WriterWaiting" "length (wr_in_flight w3) \<le> pl_window_capacity p"
      "wr_bytes_done w3 = wr_bytes_done w1"
      using spawn False by (auto simp: w3_def)
    note head = writer_head_ok[OF w3(1) ok w3(2,3), where trouble = "ak_trouble a" and gone = "ak_receiver_gone a" and pick = "ak_pick a"]
    have "on_ack p w a = writer_head p (ak_pick a) (ak_trouble a) (ak_receiver_gone a) w3" using False step by auto
    then show ?thesis using head more w3(4) \<open>ak_reply a = WriteOk\<close> by (simp add: ack_quiet_def)
  qed
qed

section \<open>Runs\<close>

lemma writer_ok_weaken: "writer_ok source p quiet w \<Longrightarrow> writer_ok source p False w"
  by (auto simp: writer_ok_def split: WriterPhase.splits sum.splits)

lemma writer_step_ok:
  assumes "writer_ok source p False w" and "pipeline_ok p"
  shows "writer_ok source p False (writer_step p w event)"
proof (cases "wr_phase w = WriterWaiting")
  case True
  show ?thesis
  proof (cases event)
    case (AckArrives a)
    have "writer_ok source p False (on_ack p w a)"
    proof (cases "ak_index a < length (wr_in_flight w)")
      case k: True
      show ?thesis using ack_ok[OF assms True k] writer_ok_weaken by blast
    qed (use assms in \<open>simp add: on_ack_def\<close>)
    then show ?thesis using True AckArrives by (simp add: writer_step.simps)
  qed (use True in \<open>simp_all add: writer_step.simps\<close>)
next
  case False
  then have "writer_step p w event = w" by (cases "wr_phase w") (simp_all add: writer_step.simps)
  with assms(1) show ?thesis by simp
qed

lemma writer_start_ok:
  assumes "pipeline_ok p"
  shows "writer_ok source p (trouble = None \<and> \<not> gone) (writer_start p source pick trouble gone)"
proof -
  let ?w = "\<lparr>wr_source = source, wr_in_flight = [], wr_current_offset = 0, wr_eof_reached = False, wr_bytes_done = 0,
               wr_remote = [], wr_throttle = throttle_new 10, wr_progress = [], wr_phase = WriterWaiting\<rparr>"
  have "writer_core source p [] ?w" by (simp add: writer_core_def split: option.splits)
  then have "writer_ok source p (trouble = None \<and> \<not> gone) (writer_head p pick trouble gone ?w)"
    using writer_head_ok(1)[OF _ assms] by simp
  then show ?thesis
    by (auto simp: writer_start_def Let_def writer_finish_def) (simp add: writer_ok_def big_enough_def uploaded_def)
qed

interpretation upload: state_machine
  "\<lambda>(p, w). \<exists>pick trouble gone. pipeline_ok p \<and> w = writer_start p source pick trouble gone"
  "\<lambda>(p, w) event. (p, writer_step p w event)" "\<lambda>(p, w). pipeline_ok p \<and> writer_ok source p False w"
  for source
  by unfold_locales (auto intro: writer_step_ok writer_ok_weaken[OF writer_start_ok])

primrec calm_run :: "Pipeline \<Rightarrow> Writer \<Rightarrow> Ack list \<Rightarrow> bool" where
  "calm_run p w [] = True"
| "calm_run p w (a # as) =
     (wr_phase w = WriterWaiting \<and> ak_index a < length (wr_in_flight w) \<and> ack_quiet w a \<and>
      calm_run p (writer_step p w (AckArrives a)) as)"

abbreviation acknowledged :: "Pipeline \<Rightarrow> Writer \<Rightarrow> Ack list \<Rightarrow> Writer" where
  "acknowledged p \<equiv> foldl (\<lambda>w a. writer_step p w (AckArrives a))"

lemma core_bytes_bound:
  "writer_core source p [] w \<Longrightarrow> wr_in_flight w \<noteq> [] \<Longrightarrow> wr_bytes_done w < length (uploaded source p)"
proof (cases "wr_in_flight w")
  case (Cons chunk rest)
  obtain off data where chunk: "chunk = (off, data)" by fastforce
  assume core: "writer_core source p [] w"
  then have "0 < length data" "wr_bytes_done w + (length data + unacked rest) = wr_current_offset w"
    using Cons by (simp_all add: writer_core_def chunk_ok_def chunk)
  moreover have "wr_current_offset w \<le> length (uploaded source p)"
    using core by (auto simp: writer_core_def uploaded_def split: option.splits)
  ultimately show ?thesis by linarith
qed simp

lemma calm_run_ok:
  "writer_ok source p True w \<Longrightarrow> pipeline_ok p \<Longrightarrow> calm_run p w as \<Longrightarrow>
   writer_ok source p True (acknowledged p w as) \<and>
   (as \<noteq> [] \<longrightarrow> wr_bytes_done w + length as \<le> length (uploaded source p))"
proof (induction as arbitrary: w)
  case (Cons a as)
  have phase: "wr_phase w = WriterWaiting" and k: "ak_index a < length (wr_in_flight w)" and quiet: "ack_quiet w a"
    using Cons.prems(3) by simp_all
  let ?w = "on_ack p w a"
  have e: "writer_step p w (AckArrives a) = ?w" using phase by (simp add: writer_step.simps)
  have step: "writer_ok source p True ?w" "wr_phase ?w = WriterWaiting \<Longrightarrow> wr_bytes_done w < wr_bytes_done ?w"
    using ack_ok[OF Cons.prems(1,2) phase k] quiet by simp_all
  have run: "calm_run p ?w as" using Cons.prems(3) by (simp only: calm_run.simps e)
  note ih = Cons.IH[OF step(1) Cons.prems(2) run]
  have bound: "wr_bytes_done w < length (uploaded source p)"
    using core_bytes_bound Cons.prems(1) phase by (auto simp: writer_ok_def)
  have "wr_bytes_done w + length (a # as) \<le> length (uploaded source p)"
  proof (cases as)
    case Nil
    with bound show ?thesis by simp
  next
    case (Cons b bs)
    then have "wr_phase ?w = WriterWaiting" using run by simp
    with ih step(2) Cons show ?thesis by simp
  qed
  with ih show ?case by (simp only: foldl_Cons e) simp
qed simp

section \<open>Properties\<close>

text \<open>
  C26 (pipelined_upload_delivers): with any chunk size and window, however few bytes each local read gives and
  in whatever order the writes are acknowledged, an upload of a source that is not shorter than announced
  needs at most one acknowledgement per byte; until it is over a write is in flight, and it ends with the
  remote file equal to the source (up to the announced size) and the size of it as result.
\<close>

theorem pipelined_upload_delivers:
  assumes "pipeline_ok p" and "case pl_bytes_total p of Some t \<Rightarrow> unat t \<le> length source | None \<Rightarrow> True"
    and "calm_run p (writer_start p source pick None False) as"
    and "w = foldl (\<lambda>w a. writer_step p w (AckArrives a)) (writer_start p source pick None False) as"
  shows "length as \<le> length source \<and>
         (wr_phase w = WriterWaiting \<and> wr_in_flight w \<noteq> [] \<or>
          wr_phase w = WriterFinished (Inr (length (wr_remote w))) \<and>
          wr_remote w = (case pl_bytes_total p of Some t \<Rightarrow> take (unat t) source | None \<Rightarrow> source))"
proof -
  have big: "big_enough source p" using assms(2) by (simp add: big_enough_def)
  have start: "writer_ok source p True (writer_start p source pick None False)"
    using writer_start_ok[OF assms(1), of source None False pick] by simp
  note run = calm_run_ok[OF start assms(1,3)]
  have "length (uploaded source p) \<le> length source" by (simp add: uploaded_def split: option.splits)
  then have "length as \<le> length source" using run by (cases as) auto
  moreover have "writer_ok source p True w" using run assms(4) by simp
  ultimately show ?thesis
    using big by (auto simp: writer_ok_def uploaded_def split: WriterPhase.splits sum.splits)
qed

definition demo_upload :: Pipeline where
  "demo_upload = \<lparr>pl_chunk_size = 2, pl_window_capacity = 2, pl_bytes_total = Some 5\<rparr>"

definition demo_ack :: "nat \<Rightarrow> Ack" where
  "demo_ack k = \<lparr>ak_index = k, ak_reply = WriteOk, ak_pick = (\<lambda>_. 1), ak_trouble = None, ak_now = 0, ak_receiver_gone = False\<rparr>"

theorem pipelined_upload_delivers_witness:
  "wr_remote (foldl (\<lambda>w a. writer_step demo_upload w (AckArrives a))
     (writer_start demo_upload [1, 2, 3, 4, 5] (\<lambda>_. 1) None False) [demo_ack 1, demo_ack 1, demo_ack 0]) = [1, 2, 3, 4, 5]"
proof -
  let ?s = "writer_start demo_upload [1, 2, 3, 4, 5] (\<lambda>_. 1) None False"
    and ?as = "[demo_ack 1, demo_ack 1, demo_ack 0]"
  have run: "calm_run demo_upload ?s ?as" by code_simp
  have phase: "wr_phase (acknowledged demo_upload ?s ?as) \<noteq> WriterWaiting" by code_simp
  have ok: "pipeline_ok demo_upload" by (simp add: pipeline_ok_def demo_upload_def)
  have size: "case pl_bytes_total demo_upload of Some t \<Rightarrow> unat t \<le> length ([1, 2, 3, 4, 5] :: bytes) | None \<Rightarrow> True"
    by (simp add: demo_upload_def)
  from pipelined_upload_delivers[OF ok size run refl] phase show ?thesis by (simp add: demo_upload_def)
qed

text \<open>
  C27 (upload_success_is_complete): whatever happens, refused or failing writes, failing local reads, failing
  tasks, cancels, a listener that is gone, a source that changed its size: if the upload reports success, the
  remote file is the source up to the announced size and the source was not shorter than that.
\<close>

theorem upload_success_is_complete:
  assumes "pipeline_ok p" and "w = foldl (writer_step p) (writer_start p source pick trouble gone) events"
    and "wr_phase w = WriterFinished (Inr n)"
  shows "wr_remote w = (case pl_bytes_total p of Some t \<Rightarrow> take (unat t) source | None \<Rightarrow> source) \<and>
         n = length (wr_remote w) \<and> (\<forall>t. pl_bytes_total p = Some t \<longrightarrow> unat t = n)"
proof -
  have fold: "foldl (\<lambda>(p, w) event. (p, writer_step p w event)) (p, w0) events = (p, foldl (writer_step p) w0 events)" for w0
    by (induction events arbitrary: w0) simp_all
  have "writer_ok source p False w"
    using upload.reachable_inv[of source "(p, writer_start p source pick trouble gone)" events] assms(1,2) by (auto simp: fold)
  with assms(3) show ?thesis by (auto simp: writer_ok_def uploaded_def big_enough_def split: option.splits)
qed

theorem upload_success_is_complete_witness:
  "wr_remote (foldl (writer_step demo_upload) (writer_start demo_upload [1, 2, 3, 4, 5, 6] (\<lambda>_. 3) None False)
     (map AckArrives [demo_ack 0, demo_ack 0, demo_ack 0])) = [1, 2, 3, 4, 5]"
proof -
  have ok: "pipeline_ok demo_upload" by (simp add: pipeline_ok_def demo_upload_def)
  have phase: "wr_phase (foldl (writer_step demo_upload) (writer_start demo_upload [1, 2, 3, 4, 5, 6] (\<lambda>_. 3) None False)
     (map AckArrives [demo_ack 0, demo_ack 0, demo_ack 0])) = WriterFinished (Inr 5)" by code_simp
  from upload_success_is_complete[OF ok refl phase] show ?thesis by (simp add: demo_upload_def)
qed

end
