(* ===== verification/Download_Paths.thy ===== *)
theory Download_Paths
  imports Protocol Pipeline
begin

text \<open>
  Where a transfer may write (\<open>crates/sftp/src/transfer_job.rs\<close>): the local path of a remote entry, the new
  name of a conflicting destination, the name of the temporary file, and the check that a downloaded
  symbolic link points into the download folder.
\<close>

section \<open>Components\<close>

text \<open>\<open>Path::components\<close> on Unix: empty pieces and dots vanish, but a leading dot of a relative path stays.\<close>

datatype Component =
    RootDir
  | CurDir
  | ParentDir
  | Normal rstr

definition piece_components :: "rstr \<Rightarrow> Component list" where
  "piece_components piece =
     (if piece = [] \<or> piece = [dot] then [] else if piece = [dot, dot] then [ParentDir] else [Normal piece])"

definition components :: "rstr \<Rightarrow> Component list" where
  "components path =
     (if path \<noteq> [] \<and> hd path = slash then [RootDir] else if hd (split_on slash path) = [dot] then [CurDir] else []) @
     concat (map piece_components (split_on slash path))"

text \<open>\<open>Path::strip_prefix\<close> and \<open>Path::parent\<close>, on components.\<close>

fun strip_components :: "Component list \<Rightarrow> Component list \<Rightarrow> Component list option" where
  "strip_components [] path = Some path"
| "strip_components (c # base) (d # path) = (if c = d then strip_components base path else None)"
| "strip_components (c # base) [] = None"

definition parent_components :: "Component list \<Rightarrow> Component list option" where
  "parent_components path = (if path = [] \<or> last path = RootDir then None else Some (butlast path))"

section \<open>Destinations\<close>

definition unsafe_path_error :: UserFacingError where
  "unsafe_path_error =
     user_facing_error ErrorCode.Unknown (lit ''Download Preparation Failed'')
       (lit ''The remote directory contains an unsafe path. Refresh and try again.'')"

fun is_normal :: "Component \<Rightarrow> bool" where
  "is_normal (Normal _) = True"
| "is_normal _ = False"

definition local_download_destination :: "LocalPath \<Rightarrow> rstr \<Rightarrow> UserFacingError + LocalPath" where
  "local_download_destination destination_root relative =
     (if list_ex is_bidi_or_control relative \<or> list_ex (\<lambda>component. \<not> is_normal component) (components relative)
      then Inl unsafe_path_error
      else Inr (LocalPath (path_join (local_str destination_root) relative)))"

definition rsplit_once :: "rchar \<Rightarrow> rstr \<Rightarrow> (rstr \<times> rstr) option" where
  "rsplit_once c s = map_option (\<lambda>i. (take i s, drop (Suc i) s)) (rfind c s)"

definition invalid_name_error :: UserFacingError where
  "invalid_name_error =
     user_facing_error ErrorCode.NotFound (lit ''Invalid destination name'')
       (lit ''Choose a non-empty file name without path separators or parent-directory names.'')"

definition parent_or_empty :: "rstr \<Rightarrow> rstr" where
  "parent_or_empty path = (case path_parent path of Some parent \<Rightarrow> parent | None \<Rightarrow> [])"

definition rename_destination :: "TransferJob \<Rightarrow> rstr \<Rightarrow> UserFacingError + TransferJob" where
  "rename_destination job new_name =
     (if new_name = [] \<or> new_name = [dot] \<or> new_name = [dot, dot] \<or> slash \<in> set new_name then Inl invalid_name_error
      else Inr (job\<lparr>job_destination :=
        (case job_destination job of
           TransferEndpoint.Remote path \<Rightarrow>
             let parent = (case rsplit_once slash (remote_str path) of Some (parent, _) \<Rightarrow> parent | None \<Rightarrow> [])
             in TransferEndpoint.Remote (RemotePath (if parent = [] then new_name else parent @ slash # new_name))
         | TransferEndpoint.Local path \<Rightarrow>
             TransferEndpoint.Local (LocalPath (path_join (parent_or_empty (local_str path)) new_name)))\<rparr>))"

definition copy_name_for_destination :: "TransferEndpoint \<Rightarrow> rstr" where
  "copy_name_for_destination destination =
     (let name = last (split_on slash (endpoint_as_str destination))
      in case rsplit_once dot name of
           Some (stem, extension) \<Rightarrow>
             if stem \<noteq> [] then stem @ lit '' (copy).'' @ extension else name @ lit '' (copy)''
         | None \<Rightarrow> name @ lit '' (copy)'')"

definition remote_temporary_path :: "RemotePath \<Rightarrow> TransferId \<Rightarrow> RemotePath" where
  "remote_temporary_path destination transfer_id =
     (let (parent, name) = (case rsplit_once slash (remote_str destination) of
            Some split \<Rightarrow> split | None \<Rightarrow> ([], remote_str destination));
          temporary_name = dot # name @ lit ''.macsftp-part-'' @ decimal (unat (transfer_raw transfer_id))
      in RemotePath (if parent = [] then temporary_name
                     else if parent = [slash] then slash # temporary_name
                     else parent @ slash # temporary_name))"

definition local_temporary_path :: "LocalPath \<Rightarrow> TransferId \<Rightarrow> LocalPath" where
  "local_temporary_path destination transfer_id =
     (let name = (case path_file_name (local_str destination) of Some name \<Rightarrow> name | None \<Rightarrow> lit ''download'')
      in LocalPath (path_join (parent_or_empty (local_str destination))
           (dot # name @ lit ''.macsftp-part-'' @ decimal (unat (transfer_raw transfer_id)))))"

section \<open>Links\<close>

definition relative_link_dir :: "rstr \<Rightarrow> rstr \<Rightarrow> Component list option" where
  "relative_link_dir destination_root destination =
     (if components destination = components destination_root then Some []
      else case strip_components (components destination_root) (components destination) of
             None \<Rightarrow> None
           | Some relative \<Rightarrow> if relative = [] then Some [] else parent_components relative)"

text \<open>The stack of directories below the root; \<open>None\<close> is the early return.\<close>

fun push_component :: "rstr list option \<Rightarrow> Component \<Rightarrow> rstr list option" where
  "push_component None _ = None"
| "push_component (Some stack) (Normal name) = Some (stack @ [name])"
| "push_component (Some stack) CurDir = Some stack"
| "push_component (Some stack) _ = None"

fun follow_piece :: "rstr list option \<Rightarrow> rstr \<Rightarrow> rstr list option" where
  "follow_piece None _ = None"
| "follow_piece (Some stack) piece =
     (if piece = [] \<or> piece = [dot] then Some stack
      else if piece = [dot, dot] then (if stack = [] then None else Some (butlast stack))
      else Some (stack @ [piece]))"

definition symlink_target_escapes_root :: "Component list \<Rightarrow> rstr \<Rightarrow> bool" where
  "symlink_target_escapes_root relative_dir target \<longleftrightarrow>
     foldl follow_piece (foldl push_component (Some []) relative_dir) (split_on slash target) = None"

definition unsafe_link_error :: UserFacingError where
  "unsafe_link_error =
     user_facing_error ErrorCode.UnsupportedSymlink (lit ''Unsafe Link Target'')
       (lit ''The remote symlink target cannot be recreated safely inside the download folder.'')"

abbreviation backslash :: rchar where
  "backslash \<equiv> 92"

definition is_ascii_alphabetic :: "rchar \<Rightarrow> bool" where
  "is_ascii_alphabetic c \<longleftrightarrow> 65 \<le> c \<and> c \<le> 90 \<or> 97 \<le> c \<and> c \<le> 122"

definition is_windows_drive_prefix :: "rstr \<Rightarrow> bool" where
  "is_windows_drive_prefix target = (case target of a # b # _ \<Rightarrow> b = 58 \<and> is_ascii_alphabetic a | _ \<Rightarrow> False)"

definition validate_download_symlink_target :: "LocalPath option \<Rightarrow> LocalPath \<Rightarrow> rstr \<Rightarrow> UserFacingError + unit" where
  "validate_download_symlink_target destination_root destination target =
     (if target = [] \<or> hd target = slash \<or> hd target = backslash \<or> hd target = 126 \<or> backslash \<in> set target \<or>
         is_windows_drive_prefix target \<or> list_ex is_bidi_or_control target
      then Inl unsafe_link_error
      else let root_path = (case destination_root of Some root \<Rightarrow> local_str root | None \<Rightarrow> local_str destination)
           in case relative_link_dir root_path (local_str destination) of
                None \<Rightarrow> Inl unsafe_link_error
              | Some relative_dir \<Rightarrow>
                  if symlink_target_escapes_root relative_dir target then Inl unsafe_link_error else Inr ())"

end
