(* ===== verification/Transfer_Planner.thy ===== *)
theory Transfer_Planner
  imports Download_Paths
begin

text \<open>
  Planning an upload (\<open>crates/sftp/src/transfer_planner.rs\<close>): the local tree is walked, every entry becomes a
  child job, and the jobs are reported in batches.

  Two things outside the planner can change while it works. The cancellation token may be set:
  \<open>pn_cancel = Some n\<close> lets \<open>n\<close> more checks pass. The receiver of the events may go away: \<open>pn_receiver = Some n\<close>
  lets \<open>n\<close> more sends succeed. The counter of transfer ids is shared with other planners: \<open>pn_ids k\<close> is what
  this planner gets for its \<open>k\<close>-th job.
\<close>

section \<open>State\<close>

definition PLAN_PROGRESS_BATCH_SIZE :: usize where
  "PLAN_PROGRESS_BATCH_SIZE = 128"

record Planner =
  pn_command :: StartTransferCommand
  pn_plan_id :: TransferPlanId
  pn_created_at :: Timestamp
  pn_planned_count :: usize
  pn_total_bytes :: "u64 option"
  pn_child_jobs :: "TransferJob list"
  pn_pending_progress :: "TransferJob list"
  pn_events :: "AppEvent list"
  pn_ids :: "nat \<Rightarrow> TransferId"
  pn_cancel :: "nat option"
  pn_receiver :: "nat option"

definition planner_new ::
  "StartTransferCommand \<Rightarrow> TransferPlanId \<Rightarrow> Timestamp \<Rightarrow> (nat \<Rightarrow> TransferId) \<Rightarrow> nat option \<Rightarrow> nat option \<Rightarrow> Planner" where
  "planner_new command plan created_at ids cancel receiver =
     \<lparr>pn_command = command, pn_plan_id = plan, pn_created_at = created_at, pn_planned_count = 0,
      pn_total_bytes = Some 0, pn_child_jobs = [], pn_pending_progress = [], pn_events = [],
      pn_ids = ids, pn_cancel = cancel, pn_receiver = receiver\<rparr>"

text \<open>An operation of the planner answers a value or the error that its \<open>?\<close> passes on.\<close>

type_synonym 'a outcome = "(UserFacingError + 'a) \<times> Planner"

definition and_then :: "'a outcome \<Rightarrow> ('a \<Rightarrow> Planner \<Rightarrow> 'b outcome) \<Rightarrow> 'b outcome" where
  "and_then r f = (case r of (Inl error, p) \<Rightarrow> (Inl error, p) | (Inr x, p) \<Rightarrow> f x p)"

lemma and_then_simps [simp]:
  "and_then (Inl error, p) f = (Inl error, p)"
  "and_then (Inr x, p) f = f x p"
  by (simp_all add: and_then_def)

section \<open>Cancellation and events\<close>

definition is_cancelled :: "Planner \<Rightarrow> bool \<times> Planner" where
  "is_cancelled p = (pn_cancel p = Some 0, p\<lparr>pn_cancel := map_option (\<lambda>n. n - 1) (pn_cancel p)\<rparr>)"

definition send_event :: "Planner \<Rightarrow> AppEvent \<Rightarrow> bool \<times> Planner" where
  "send_event p event =
     (if pn_receiver p = Some 0 then (False, p)
      else (True, p\<lparr>pn_events := pn_events p @ [event], pn_receiver := map_option (\<lambda>n. n - 1) (pn_receiver p)\<rparr>))"

definition preparation_cancelled_error :: UserFacingError where
  "preparation_cancelled_error =
     user_facing_error ErrorCode.Cancelled (lit ''Preparation Cancelled'') (lit ''Transfer preparation was cancelled.'')"

definition ensure_not_cancelled :: "UserFacingError \<Rightarrow> Planner \<Rightarrow> unit outcome" where
  "ensure_not_cancelled error p =
     (let (cancelled, p') = is_cancelled p in (if cancelled then Inl error else Inr (), p'))"

definition preparation_stopped_error :: UserFacingError where
  "preparation_stopped_error =
     user_facing_error ErrorCode.ChannelClosed (lit ''Preparation Stopped'')
       (lit ''Transfer preparation updates stopped arriving.'')"

definition progress_event :: "Planner \<Rightarrow> AppEvent" where
  "progress_event p =
     AppEvent.TransferPlanProgress
       \<lparr>tpp_plan_id = pn_plan_id p, tpp_child_jobs = pn_pending_progress p,
        tpp_planned_count = pn_planned_count p, tpp_total_bytes = pn_total_bytes p\<rparr>"

definition flush_progress :: "Planner \<Rightarrow> unit outcome" where
  "flush_progress p =
     (if pn_pending_progress p = [] then (Inr (), p)
      else let (sent, p') = send_event (p\<lparr>pn_pending_progress := []\<rparr>) (progress_event p)
           in (if sent then Inr () else Inl preparation_stopped_error, p'))"

text \<open>\<open>flush\<close> is \<open>flush_progress\<close> here, and its asynchronous twin for the download planner.\<close>

definition queue_progress :: "(Planner \<Rightarrow> unit outcome) \<Rightarrow> TransferJob \<Rightarrow> Planner \<Rightarrow> unit outcome" where
  "queue_progress flush child_job p =
     (let p' = p\<lparr>pn_child_jobs := pn_child_jobs p @ [child_job], pn_pending_progress := pn_pending_progress p @ [child_job]\<rparr>
      in if pn_planned_count p' = 1 \<or> PLAN_PROGRESS_BATCH_SIZE \<le> length (pn_pending_progress p')
         then flush p' else (Inr (), p'))"

text \<open>The number of jobs made so far selects the next id.\<close>

definition child_job :: "Planner \<Rightarrow> TransferDirection \<Rightarrow> TransferEndpoint \<Rightarrow> TransferEndpoint \<Rightarrow> TransferJob" where
  "child_job p direction source destination =
     \<lparr>job_id = pn_ids p (length (pn_child_jobs p)), job_direction = direction, job_source = source,
      job_destination = destination, job_state = TransferState.Queued,
      job_metadata_policy = stc_metadata_policy (pn_command p),
      job_conflict_policy = stc_conflict_policy (pn_command p),
      job_warnings = [], job_created_at = pn_created_at p\<rparr>"

definition checked_add :: "u64 \<Rightarrow> u64 \<Rightarrow> u64 option" where
  "checked_add a b = (if uint a + uint b < 2 ^ 64 then Some (a + b) else None)"

lemma checked_add_unat: "checked_add a b = (if unat a + unat b < 2 ^ 64 then Some (a + b) else None)"
proof -
  have "uint a + uint b < 2 ^ 64 \<longleftrightarrow> int (unat a + unat b) < int (2 ^ 64)" by simp
  then show ?thesis unfolding checked_add_def of_nat_less_iff by simp
qed

definition emit_child :: "rstr \<Rightarrow> RemotePath \<Rightarrow> u64 \<Rightarrow> Planner \<Rightarrow> unit outcome" where
  "emit_child source destination size_bytes p =
     and_then (ensure_not_cancelled preparation_cancelled_error p) (\<lambda>_ p.
       let p' = p\<lparr>pn_planned_count := pn_planned_count p + 1,
                  pn_total_bytes := Option.bind (pn_total_bytes p) (\<lambda>total. checked_add total size_bytes)\<rparr>
       in queue_progress flush_progress
            (child_job p' TransferDirection.Upload (TransferEndpoint.Local (LocalPath source)) (TransferEndpoint.Remote destination))
            p')"

definition plan_cancelled :: "Planner \<Rightarrow> Planner" where
  "plan_cancelled p = snd (send_event p (AppEvent.TransferPlanCancelled (pn_plan_id p)))"

definition plan_fail :: "UserFacingError \<Rightarrow> Planner \<Rightarrow> Planner" where
  "plan_fail error p = snd (send_event p (AppEvent.TransferPlanFailed (pn_plan_id p) error))"

definition finish_error :: "UserFacingError \<Rightarrow> Planner \<Rightarrow> Planner" where
  "finish_error error p = (if ufe_code error = ErrorCode.Cancelled then plan_cancelled p else plan_fail error p)"

definition plan_finish :: "(Planner \<Rightarrow> unit outcome) \<Rightarrow> Planner \<Rightarrow> bool \<times> Planner" where
  "plan_finish flush p =
     (let (cancelled, p1) = is_cancelled p
      in if cancelled then (False, plan_cancelled p1)
         else (case flush p1 of
                 (Inl error, p2) \<Rightarrow> (False, finish_error error p2)
               | (Inr _, p2) \<Rightarrow>
                   let (cancelled, p3) = is_cancelled p2
                   in if cancelled then (False, plan_cancelled p3)
                      else send_event p3 (AppEvent.TransferPlanCompleted (pn_plan_id p3))))"

definition conclude :: "(Planner \<Rightarrow> unit outcome) \<Rightarrow> unit outcome \<Rightarrow> TransferJob list option \<times> Planner" where
  "conclude flush r =
     (case r of
        (Inl error, p) \<Rightarrow> (None, finish_error error p)
      | (Inr _, p) \<Rightarrow>
          let (completed, p') = plan_finish flush p
          in (if completed then Some (pn_child_jobs p') else None, p'))"

section \<open>The local file system\<close>

text \<open>Names are what \<open>to_string_lossy\<close> makes of them.\<close>

datatype FileType = DirType | SymlinkType | OtherType

record FileMetadata =
  fm_file_type :: FileType
  fm_len :: u64

record DirEntry =
  de_file_name :: rstr
  de_file_type :: "IoError + FileType"
  de_metadata :: "IoError + FileMetadata"

record LocalFs =
  fs_symlink_metadata :: "rstr \<Rightarrow> IoError + FileMetadata"
  fs_read_dir :: "rstr \<Rightarrow> IoError + (IoError + DirEntry) list"

definition planning_io_error :: "rstr \<Rightarrow> IoError \<Rightarrow> UserFacingError" where
  "planning_io_error title error =
     (with_retryable (user_facing_error
        (case io_kind error of
           NotFoundIo \<Rightarrow> ErrorCode.NotFound
         | PermissionDeniedIo \<Rightarrow> ErrorCode.PermissionDenied
         | OtherIo \<Rightarrow> ErrorCode.Unknown)
        title (lit ''Check the source files and permissions, then try again.'')) True)\<lparr>ufe_detail := Some (io_text error)\<rparr>"

definition join_remote_child :: "RemotePath \<Rightarrow> rstr \<Rightarrow> RemotePath" where
  "join_remote_child parent file_name = remote_join parent file_name"

definition entry_file_type :: "LocalFs \<Rightarrow> rstr \<Rightarrow> DirEntry \<Rightarrow> IoError + FileType" where
  "entry_file_type fs path entry =
     (case de_file_type entry of
        Inr ft \<Rightarrow> Inr ft
      | Inl _ \<Rightarrow> map_sum id fm_file_type (fs_symlink_metadata fs path))"

definition entry_metadata :: "LocalFs \<Rightarrow> rstr \<Rightarrow> DirEntry \<Rightarrow> IoError + FileMetadata" where
  "entry_metadata fs path entry = (case de_metadata entry of Inr m \<Rightarrow> Inr m | Inl _ \<Rightarrow> fs_symlink_metadata fs path)"

section \<open>Walking the tree\<close>

definition unsafe_name_error :: "rstr \<Rightarrow> rstr \<Rightarrow> UserFacingError" where
  "unsafe_name_error title message = user_facing_error ErrorCode.Unknown title message"

text \<open>The entries of one directory; the answer is its subdirectories, in order.\<close>

fun plan_entries ::
  "LocalFs \<Rightarrow> rstr \<Rightarrow> RemotePath \<Rightarrow> (IoError + DirEntry) list \<Rightarrow> Planner \<Rightarrow> (rstr \<times> RemotePath) list outcome" where
  "plan_entries fs dir dest [] p = (Inr [], p)"
| "plan_entries fs dir dest (entry # entries) p =
     and_then (ensure_not_cancelled preparation_cancelled_error p) (\<lambda>_ p.
       case entry of
         Inl error \<Rightarrow> (Inl (planning_io_error (lit ''Item Couldn'' @ apostrophe # lit ''t Be Read'') error), p)
       | Inr entry \<Rightarrow>
           if list_ex is_bidi_or_control (de_file_name entry)
           then (Inl (unsafe_name_error (lit ''Unsafe File Name'')
                   (lit ''The folder contains an item with an unsafe name that cannot be uploaded safely.'')), p)
           else let destination = join_remote_child dest (de_file_name entry); path = path_join dir (de_file_name entry)
                in (case entry_file_type fs path entry of
                      Inl error \<Rightarrow> (Inl (planning_io_error (lit ''Item Couldn'' @ apostrophe # lit ''t Be Checked'') error), p)
                    | Inr DirType \<Rightarrow>
                        and_then (emit_child path destination 0 p) (\<lambda>_ p.
                          and_then (plan_entries fs dir dest entries p) (\<lambda>subdirectories p.
                            (Inr ((path, destination) # subdirectories), p)))
                    | Inr SymlinkType \<Rightarrow>
                        and_then (emit_child path destination 0 p) (\<lambda>_. plan_entries fs dir dest entries)
                    | Inr OtherType \<Rightarrow>
                        (case entry_metadata fs path entry of
                           Inl error \<Rightarrow> (Inl (planning_io_error (lit ''Item Couldn'' @ apostrophe # lit ''t Be Checked'') error), p)
                         | Inr metadata \<Rightarrow>
                             and_then (emit_child path destination (fm_len metadata) p) (\<lambda>_. plan_entries fs dir dest entries))))"

definition plan_one_directory ::
  "LocalFs \<Rightarrow> rstr \<Rightarrow> RemotePath \<Rightarrow> Planner \<Rightarrow> (rstr \<times> RemotePath) list outcome" where
  "plan_one_directory fs dir dest p =
     and_then (ensure_not_cancelled preparation_cancelled_error p) (\<lambda>_ p.
       case fs_read_dir fs dir of
         Inl error \<Rightarrow> (Inl (planning_io_error (lit ''Folder Couldn'' @ apostrophe # lit ''t Be Read'') error), p)
       | Inr entries \<Rightarrow> plan_entries fs dir dest entries p)"

text \<open>The head of the stack is its top. \<open>fuel\<close> counts the directories read; \<open>None\<close> means that it was not enough.\<close>

fun plan_directory :: "nat \<Rightarrow> LocalFs \<Rightarrow> (rstr \<times> RemotePath) list \<Rightarrow> Planner \<Rightarrow> unit outcome option" where
  "plan_directory fuel fs [] p = Some (Inr (), p)"
| "plan_directory 0 fs (d # dir_stack) p = None"
| "plan_directory (Suc fuel) fs ((dir, dest) # dir_stack) p =
     (case plan_one_directory fs dir dest p of
        (Inl error, p') \<Rightarrow> Some (Inl error, p')
      | (Inr subdirectories, p') \<Rightarrow> plan_directory fuel fs (subdirectories @ dir_stack) p')"

definition no_name_error :: "rstr \<Rightarrow> rstr \<Rightarrow> UserFacingError" where
  "no_name_error title message = user_facing_error ErrorCode.NotFound title message"

definition plan_source :: "nat \<Rightarrow> LocalFs \<Rightarrow> rstr \<Rightarrow> RemotePath \<Rightarrow> Planner \<Rightarrow> unit outcome option" where
  "plan_source fuel fs source destination_root p =
     (case ensure_not_cancelled preparation_cancelled_error p of
        (Inl error, p) \<Rightarrow> Some (Inl error, p)
      | (Inr _, p) \<Rightarrow>
          (case fs_symlink_metadata fs source of
             Inl error \<Rightarrow> Some (Inl (planning_io_error (lit ''Upload Item Unavailable'') error), p)
           | Inr metadata \<Rightarrow>
               if fm_file_type metadata = DirType
               then (case path_file_name source of
                       None \<Rightarrow> Some (Inl (no_name_error (lit ''Folder Has No Name'')
                                  (lit ''Choose a folder with a valid name and try again.'')), p)
                     | Some name \<Rightarrow>
                         if list_ex is_bidi_or_control name
                         then Some (Inl (unsafe_name_error (lit ''Unsafe Folder Name'')
                                     (lit ''The folder has an unsafe name that cannot be uploaded safely.'')), p)
                         else let directory_destination = join_remote_child destination_root name
                              in (case emit_child source directory_destination 0 p of
                                    (Inl error, p) \<Rightarrow> Some (Inl error, p)
                                  | (Inr _, p) \<Rightarrow> plan_directory fuel fs [(source, directory_destination)] p))
               else let size_bytes = (if fm_file_type metadata = SymlinkType then 0 else fm_len metadata)
                    in if length (stc_sources (pn_command p)) = 1
                       then (case path_file_name source of
                               Some name \<Rightarrow>
                                 if list_ex is_bidi_or_control name
                                 then Some (Inl (unsafe_name_error (lit ''Unsafe File Name'')
                                             (lit ''The file has an unsafe name that cannot be uploaded safely.'')), p)
                                 else Some (emit_child source destination_root size_bytes p)
                             | None \<Rightarrow> Some (emit_child source destination_root size_bytes p))
                       else (case path_file_name source of
                               None \<Rightarrow> Some (Inl (no_name_error (lit ''Item Has No Name'')
                                          (lit ''Choose a file or folder with a valid name and try again.'')), p)
                             | Some name \<Rightarrow>
                                 if list_ex is_bidi_or_control name
                                 then Some (Inl (unsafe_name_error (lit ''Unsafe Item Name'')
                                             (lit ''The item has an unsafe name that cannot be uploaded safely.'')), p)
                                 else Some (emit_child source (join_remote_child destination_root name) size_bytes p))))"

definition invalid_upload_source_error :: UserFacingError where
  "invalid_upload_source_error =
     user_facing_error ErrorCode.Unknown (lit ''Invalid Upload Source'') (lit ''Select files or folders on your Mac to upload.'')"

fun plan_sources :: "nat \<Rightarrow> LocalFs \<Rightarrow> TransferEndpoint list \<Rightarrow> RemotePath \<Rightarrow> Planner \<Rightarrow> unit outcome option" where
  "plan_sources fuel fs [] destination_root p = Some (Inr (), p)"
| "plan_sources fuel fs (source # sources) destination_root p =
     (case source of
        TransferEndpoint.Remote _ \<Rightarrow> Some (Inl invalid_upload_source_error, p)
      | TransferEndpoint.Local path \<Rightarrow>
          (case plan_source fuel fs (local_str path) destination_root p of
             None \<Rightarrow> None
           | Some (Inl error, p) \<Rightarrow> Some (Inl error, p)
           | Some (Inr _, p) \<Rightarrow> plan_sources fuel fs sources destination_root p))"

definition plan_single_download :: "Planner \<Rightarrow> unit outcome" where
  "plan_single_download p =
     and_then (ensure_not_cancelled preparation_cancelled_error p) (\<lambda>_ p.
       case stc_sources (pn_command p) of
         [source] \<Rightarrow>
           (case (source, stc_destination (pn_command p)) of
              (TransferEndpoint.Remote source, TransferEndpoint.Local destination) \<Rightarrow>
                let p' = p\<lparr>pn_planned_count := 1, pn_total_bytes := None\<rparr>
                in queue_progress flush_progress (child_job p' TransferDirection.Download (TransferEndpoint.Remote source)
                     (TransferEndpoint.Local destination)) p'
            | _ \<Rightarrow> (Inl (user_facing_error ErrorCode.Unknown (lit ''Invalid download source or destination'')
                      (lit ''Downloads require a remote source file and local destination file.'')), p))
       | _ \<Rightarrow> (Inl (user_facing_error ErrorCode.Unknown (lit ''Choose one file to download'')
                 (lit ''Multi-file and directory downloads are not available yet.'')), p))"

definition plan_local_upload :: "nat \<Rightarrow> LocalFs \<Rightarrow> Planner \<Rightarrow> (TransferJob list option \<times> Planner) option" where
  "plan_local_upload fuel fs p =
     (if stc_direction (pn_command p) = TransferDirection.Download
      then Some (conclude flush_progress (plan_single_download p))
      else (case stc_destination (pn_command p) of
              TransferEndpoint.Local _ \<Rightarrow>
                Some (None, plan_fail (user_facing_error ErrorCode.Unknown (lit ''Invalid Upload Destination'')
                  (lit ''Choose a destination folder on the server.'')) p)
            | TransferEndpoint.Remote destination_root \<Rightarrow>
                if stc_sources (pn_command p) = []
                then Some (None, plan_fail (user_facing_error ErrorCode.NotFound (lit ''Nothing Selected'')
                       (lit ''Select at least one file or folder on your Mac and try again.'')) p)
                else map_option (conclude flush_progress)
                       (plan_sources fuel fs (stc_sources (pn_command p)) destination_root p)))"

definition new_plan :: "StartTransferCommand \<Rightarrow> TransferPlanId \<Rightarrow> TransferId \<Rightarrow> Timestamp \<Rightarrow> TransferPlan \<times> TransferJob" where
  "new_plan command plan root_job_id created_at =
     (let source_root = (case stc_sources command of source # _ \<Rightarrow> source | [] \<Rightarrow> TransferEndpoint.Local (LocalPath []))
      in (\<lparr>plan_id = plan, plan_root_job_id = root_job_id, plan_source_root = source_root,
           plan_destination_root = stc_destination command, plan_state = TransferPlanState.Planning,
           plan_planned_count = 0, plan_total_bytes = Some 0, plan_child_jobs = [],
           plan_conflict_policy = stc_conflict_policy command\<rparr>,
          \<lparr>job_id = root_job_id, job_direction = stc_direction command, job_source = source_root,
           job_destination = stc_destination command, job_state = TransferState.Planning,
           job_metadata_policy = stc_metadata_policy command, job_conflict_policy = stc_conflict_policy command,
           job_warnings = [], job_created_at = created_at\<rparr>))"

end
