(* ===== verification/Download_Planner.thy ===== *)
theory Download_Planner
  imports Transfer_Planner
begin

text \<open>
  Planning a download (\<open>RemoteDownloadPlanner\<close> of \<open>crates/sftp/src/transfer_job.rs\<close>): up to eight directory
  listings are in flight, their answers come in any order, and every entry becomes a child job.
\<close>

section \<open>Server errors\<close>

datatype StatusCode =
    StatusOk | Eof | NoSuchFile | PermissionDenied | Failure | BadMessage | NoConnection | ConnectionLost | OpUnsupported

datatype SftpError =
    Status StatusCode
  | OtherSftpError

fun sftp_status_guidance :: "SftpError \<Rightarrow> rstr" where
  "sftp_status_guidance (Status code) =
     (case code of
        NoSuchFile \<Rightarrow> lit ''The remote file or folder does not exist.''
      | PermissionDenied \<Rightarrow> lit ''The server denied permission for this path.''
      | Failure \<Rightarrow> lit ''The server reported an error processing this request.''
      | BadMessage \<Rightarrow> lit ''The server received or sent an invalid SFTP message.''
      | NoConnection \<Rightarrow> lit ''The SFTP connection was closed or lost.''
      | ConnectionLost \<Rightarrow> lit ''The SFTP connection was closed or lost.''
      | OpUnsupported \<Rightarrow> lit ''The server does not support this SFTP operation.''
      | _ \<Rightarrow> lit ''Check the remote server status and permissions.'')"
| "sftp_status_guidance OtherSftpError = lit ''The SFTP connection encountered a protocol or communication error.''"

definition remote_planning_error :: "rstr \<Rightarrow> SftpError \<Rightarrow> UserFacingError" where
  "remote_planning_error title error =
     transfer_error
       (case error of
          Status NoSuchFile \<Rightarrow> ErrorCode.NotFound
        | Status PermissionDenied \<Rightarrow> ErrorCode.PermissionDenied
        | _ \<Rightarrow> ErrorCode.Unknown)
       title (lit ''Check the remote source and permissions, then try again.'') (sftp_status_guidance error)"

section \<open>Jobs and batches\<close>

text \<open>Sending a batch waits for the receiver or for the cancellation, whichever comes first.\<close>

definition remote_flush_progress :: "Planner \<Rightarrow> unit outcome" where
  "remote_flush_progress p =
     (if pn_pending_progress p = [] then (Inr (), p)
      else let (cancelled, p') = is_cancelled (p\<lparr>pn_pending_progress := []\<rparr>)
           in if cancelled then (Inl cancelled_transfer_error, p')
              else let (sent, p'') = send_event p' (progress_event p)
                   in (if sent then Inr () else Inl preparation_stopped_error, p''))"

definition remote_emit_child :: "RemotePath \<Rightarrow> LocalPath \<Rightarrow> u64 option \<Rightarrow> Planner \<Rightarrow> unit outcome" where
  "remote_emit_child source destination size_bytes p =
     and_then (ensure_not_cancelled cancelled_transfer_error p) (\<lambda>_ p.
       let p' = p\<lparr>pn_planned_count := pn_planned_count p + 1,
                  pn_total_bytes := (case (pn_total_bytes p, size_bytes) of
                    (Some t, Some n) \<Rightarrow> checked_add t n | _ \<Rightarrow> None)\<rparr>
       in queue_progress remote_flush_progress
            (child_job p' TransferDirection.Download (TransferEndpoint.Remote source) (TransferEndpoint.Local destination)) p')"

section \<open>Entries of a listing\<close>

record RemoteDirEntry =
  rde_path :: RemotePath
  rde_is_dir :: bool
  rde_size :: "u64 option"

definition strip_prefix :: "rstr \<Rightarrow> rstr \<Rightarrow> rstr option" where
  "strip_prefix pre s = (if take (length pre) s = pre then Some (drop (length pre) s) else None)"

definition relative_path :: "RemotePath \<Rightarrow> RemotePath \<Rightarrow> rstr option" where
  "relative_path root path =
     (case strip_prefix (remote_str root) (remote_str path) of
        None \<Rightarrow> None
      | Some rest \<Rightarrow> let relative = trim_start_matches slash rest in if relative = [] then None else Some relative)"

definition directory_changed_error :: UserFacingError where
  "directory_changed_error =
     user_facing_error ErrorCode.Unknown (lit ''Download Preparation Failed'')
       (lit ''The remote directory changed while it was being scanned. Try again.'')"

text \<open>The answer is the directories found, in the order they are pushed.\<close>

fun scan_entries :: "RemotePath \<Rightarrow> LocalPath \<Rightarrow> RemoteDirEntry list \<Rightarrow> Planner \<Rightarrow> RemotePath list outcome" where
  "scan_entries root destination_root [] p = (Inr [], p)"
| "scan_entries root destination_root (entry # entries) p =
     and_then (ensure_not_cancelled cancelled_transfer_error p) (\<lambda>_ p.
       case relative_path root (rde_path entry) of
         None \<Rightarrow> (Inl directory_changed_error, p)
       | Some relative \<Rightarrow>
           (case local_download_destination destination_root relative of
              Inl error \<Rightarrow> (Inl error, p)
            | Inr destination \<Rightarrow>
                and_then (remote_emit_child (rde_path entry) destination (if rde_is_dir entry then Some 0 else rde_size entry) p) (\<lambda>_ p.
                  and_then (scan_entries root destination_root entries p) (\<lambda>directories p.
                    (Inr (if rde_is_dir entry then rde_path entry # directories else directories), p)))))"

section \<open>The scan\<close>

definition MAX_CONCURRENT_DIR_SCANS :: usize where
  "MAX_CONCURRENT_DIR_SCANS = 8"

record Scan =
  sn_planner :: Planner
  sn_root :: RemotePath
  sn_destination_root :: LocalPath
  sn_pending_directories :: "RemotePath list"
  sn_in_flight :: "RemotePath list"
  sn_result :: "TransferJob list option option"

definition close_scan :: "Scan \<Rightarrow> unit outcome \<Rightarrow> Scan" where
  "close_scan s r =
     (let (result, p) = conclude remote_flush_progress r
      in s\<lparr>sn_planner := p, sn_in_flight := [], sn_result := Some result\<rparr>)"

function fill_scans :: "Scan \<Rightarrow> Scan" where
  "fill_scans s =
     (if length (sn_in_flight s) < MAX_CONCURRENT_DIR_SCANS \<and> sn_pending_directories s \<noteq> []
      then fill_scans (s\<lparr>sn_in_flight := sn_in_flight s @ [last (sn_pending_directories s)],
                         sn_pending_directories := butlast (sn_pending_directories s)\<rparr>)
      else s)"
  by pat_completeness auto
termination
  by (relation "measure (\<lambda>s. length (sn_pending_directories s))") auto

declare fill_scans.simps [simp del]

definition scan_head :: "Scan \<Rightarrow> Scan" where
  "scan_head s =
     (case ensure_not_cancelled cancelled_transfer_error (sn_planner s) of
        (Inl error, p) \<Rightarrow> close_scan s (Inl error, p)
      | (Inr _, p) \<Rightarrow>
          let s' = fill_scans (s\<lparr>sn_planner := p\<rparr>)
          in if sn_in_flight s' = [] then close_scan s' (Inr (), sn_planner s') else s')"

datatype ScanEvent =
    ListingArrives nat "SftpError + RemoteDirEntry list"
  | ListingTaskFails bool
  | ScanCancelled

definition listing_task_error :: UserFacingError where
  "listing_task_error =
     user_facing_error ErrorCode.Unknown (lit ''Download Preparation Failed'') (lit ''The directory listing task failed.'')"

definition on_listing :: "Scan \<Rightarrow> nat \<Rightarrow> SftpError + RemoteDirEntry list \<Rightarrow> Scan" where
  "on_listing s k answer =
     (if k < length (sn_in_flight s)
      then let s' = s\<lparr>sn_in_flight := remove_at k (sn_in_flight s)\<rparr>
           in (case answer of
                 Inl error \<Rightarrow> close_scan s' (Inl (remote_planning_error (lit ''Server Folder Unavailable'') error), sn_planner s')
               | Inr entries \<Rightarrow>
                   (case scan_entries (sn_root s') (sn_destination_root s') entries (sn_planner s') of
                      (Inl error, p) \<Rightarrow> close_scan s' (Inl error, p)
                    | (Inr directories, p) \<Rightarrow>
                        scan_head (s'\<lparr>sn_planner := p, sn_pending_directories := sn_pending_directories s' @ directories\<rparr>)))
      else s)"

fun scan_step :: "Scan \<Rightarrow> ScanEvent \<Rightarrow> Scan" where
  "scan_step s event =
     (case sn_result s of
        Some _ \<Rightarrow> s
      | None \<Rightarrow>
          (case event of
             ListingArrives k answer \<Rightarrow> on_listing s k answer
           | ListingTaskFails cancelled \<Rightarrow>
               close_scan s (Inl (if cancelled then cancelled_transfer_error else listing_task_error), sn_planner s)
           | ScanCancelled \<Rightarrow> close_scan s (Inl cancelled_transfer_error, sn_planner s)))"

declare scan_step.simps [simp del]

section \<open>The beginning\<close>

text \<open>\<open>metadata\<close> is the server's answer about the source: whether it is a directory, and its size.\<close>

definition download_preconditions :: "Planner \<Rightarrow> UserFacingError + RemotePath \<times> LocalPath" where
  "download_preconditions p =
     (if stc_direction (pn_command p) \<noteq> TransferDirection.Download
      then Inl (user_facing_error ErrorCode.Unknown (lit ''Invalid download plan'') (lit ''The requested transfer is not a download.''))
      else case stc_sources (pn_command p) of
        [TransferEndpoint.Remote source] \<Rightarrow>
          (case stc_destination (pn_command p) of
             TransferEndpoint.Local destination \<Rightarrow> Inr (source, destination)
           | TransferEndpoint.Remote _ \<Rightarrow>
               Inl (user_facing_error ErrorCode.Unknown (lit ''Invalid download destination'') (lit ''Downloads require a local destination.'')))
      | [TransferEndpoint.Local _] \<Rightarrow>
          Inl (user_facing_error ErrorCode.Unknown (lit ''Invalid download source'') (lit ''Downloads require a remote file or directory.''))
      | _ \<Rightarrow>
          Inl (user_facing_error ErrorCode.Unknown (lit ''Choose one download source'') (lit ''Select one remote file or directory and try again.'')))"

definition remote_metadata :: "SftpError + bool \<times> u64 option \<Rightarrow> Planner \<Rightarrow> (bool \<times> u64 option) outcome" where
  "remote_metadata answer p =
     (let (cancelled, p') = is_cancelled p
      in (if cancelled then Inl cancelled_transfer_error
          else map_sum (remote_planning_error (lit ''Server Item Unavailable'')) id answer, p'))"

definition plan_remote_download :: "SftpError + bool \<times> u64 option \<Rightarrow> Planner \<Rightarrow> Scan" where
  "plan_remote_download metadata p =
     (let scan = (\<lambda>p root destination.
            \<lparr>sn_planner = p, sn_root = root, sn_destination_root = destination, sn_pending_directories = [root],
             sn_in_flight = [], sn_result = None\<rparr>);
          closed = (\<lambda>r. close_scan (scan p (RemotePath []) (LocalPath [])) r)
      in case ensure_not_cancelled cancelled_transfer_error p of
           (Inl error, p1) \<Rightarrow> closed (Inl error, p1)
         | (Inr _, p1) \<Rightarrow>
             (case download_preconditions p1 of
                Inl error \<Rightarrow> closed (Inl error, p1)
              | Inr (source, destination) \<Rightarrow>
                  (case remote_metadata metadata p1 of
                     (Inl error, p2) \<Rightarrow> closed (Inl error, p2)
                   | (Inr (is_dir, size_bytes), p2) \<Rightarrow>
                       if is_dir
                       then (case remote_emit_child source destination (Some 0) p2 of
                               (Inl error, p3) \<Rightarrow> closed (Inl error, p3)
                             | (Inr _, p3) \<Rightarrow> scan_head (scan p3 source destination))
                       else closed (remote_emit_child source destination size_bytes p2))))"

end
