(* ===== verification/Transfer_Planner_Laws.thy ===== *)
theory Transfer_Planner_Laws
  imports Transfer_Planner
begin

text \<open>
  What a planner reports: whatever the file system answers, whenever it is cancelled or the receiver leaves,
  the batches it sends are the jobs it made, in order and without gaps, and the plan is reported complete
  exactly when the planner hands its jobs out.
\<close>

section \<open>Reports\<close>

fun reports :: "TransferPlanId \<Rightarrow> nat \<Rightarrow> AppEvent list \<Rightarrow> bool" where
  "reports plan n [] = True"
| "reports plan n (AppEvent.TransferPlanProgress g # events) \<longleftrightarrow>
     tpp_plan_id g = plan \<and> tpp_child_jobs g \<noteq> [] \<and> length (tpp_child_jobs g) \<le> PLAN_PROGRESS_BATCH_SIZE \<and>
     tpp_planned_count g = n + length (tpp_child_jobs g) \<and> reports plan (n + length (tpp_child_jobs g)) events"
| "reports plan n (_ # events) = False"

fun batch_of :: "AppEvent \<Rightarrow> TransferJob list" where
  "batch_of (AppEvent.TransferPlanProgress g) = tpp_child_jobs g"
| "batch_of _ = []"

definition reported :: "AppEvent list \<Rightarrow> TransferJob list" where
  "reported events = concat (map batch_of events)"

lemma reported_simps [simp]:
  "reported [] = []" "reported (e # es) = batch_of e @ reported es" "reported (es @ fs) = reported es @ reported fs"
  by (simp_all add: reported_def)

lemma reports_append:
  "reports plan n (es @ fs) \<longleftrightarrow> reports plan n es \<and> reports plan (n + length (reported es)) fs"
  by (induction plan n es rule: reports.induct) (auto simp: add.assoc)

text \<open>\<open>planning\<close> holds while the planner works, \<open>stopped\<close> after an operation failed.\<close>

definition numbered :: "(nat \<Rightarrow> TransferId) \<Rightarrow> TransferJob list \<Rightarrow> bool" where
  "numbered ids jobs \<longleftrightarrow> map job_id jobs = map ids [0..<length jobs]"

definition stopped :: "TransferPlanId \<Rightarrow> (nat \<Rightarrow> TransferId) \<Rightarrow> Planner \<Rightarrow> bool" where
  "stopped plan ids p \<longleftrightarrow>
     pn_plan_id p = plan \<and> pn_ids p = ids \<and> numbered ids (pn_child_jobs p) \<and>
     reports plan 0 (pn_events p) \<and> (\<exists>rest. pn_child_jobs p = reported (pn_events p) @ rest)"

definition planning :: "TransferPlanId \<Rightarrow> (nat \<Rightarrow> TransferId) \<Rightarrow> Planner \<Rightarrow> bool" where
  "planning plan ids p \<longleftrightarrow>
     pn_plan_id p = plan \<and> pn_ids p = ids \<and> numbered ids (pn_child_jobs p) \<and> reports plan 0 (pn_events p) \<and>
     pn_child_jobs p = reported (pn_events p) @ pn_pending_progress p \<and>
     pn_planned_count p = length (pn_child_jobs p) \<and> length (pn_pending_progress p) < PLAN_PROGRESS_BATCH_SIZE"

lemma planning_stopped: "planning plan ids p \<Longrightarrow> stopped plan ids p"
  by (auto simp: planning_def stopped_def)

definition outcome_ok :: "(Planner \<Rightarrow> bool) \<Rightarrow> (Planner \<Rightarrow> bool) \<Rightarrow> 'a outcome \<Rightarrow> bool" where
  "outcome_ok I F r = (case r of (Inl _, p) \<Rightarrow> F p | (Inr _, p) \<Rightarrow> I p)"

lemma outcome_ok_simps [simp]:
  "outcome_ok I F (Inl error, p) = F p" "outcome_ok I F (Inr x, p) = I p"
  by (simp_all add: outcome_ok_def)

lemma and_then_ok:
  "outcome_ok I F r \<Longrightarrow> (\<And>x p. I p \<Longrightarrow> outcome_ok J F (f x p)) \<Longrightarrow> outcome_ok J F (and_then r f)"
  by (cases r; cases "fst r") auto

abbreviation well_planned :: "TransferPlanId \<Rightarrow> (nat \<Rightarrow> TransferId) \<Rightarrow> 'a outcome \<Rightarrow> bool" where
  "well_planned plan ids \<equiv> outcome_ok (planning plan ids) (stopped plan ids)"

section \<open>Operations\<close>

lemma cancel_planning [simp]:
  "planning plan ids (p\<lparr>pn_cancel := c\<rparr>) = planning plan ids p" "stopped plan ids (p\<lparr>pn_cancel := c\<rparr>) = stopped plan ids p"
  by (simp_all add: planning_def stopped_def)

lemma ensure_ok: "planning plan ids p \<Longrightarrow> well_planned plan ids (ensure_not_cancelled error p)"
  by (auto simp: ensure_not_cancelled_def is_cancelled_def Let_def planning_stopped)

text \<open>Before a job is queued there is one more than is counted in the list.\<close>

definition about_to_queue :: "TransferPlanId \<Rightarrow> (nat \<Rightarrow> TransferId) \<Rightarrow> TransferJob \<Rightarrow> Planner \<Rightarrow> bool" where
  "about_to_queue plan ids j p \<longleftrightarrow>
     planning plan ids (p\<lparr>pn_planned_count := pn_planned_count p - 1\<rparr>) \<and> pn_planned_count p = length (pn_child_jobs p) + 1 \<and>
     job_id j = ids (length (pn_child_jobs p))"

lemma numbered_snoc: "numbered ids (js @ [j]) \<longleftrightarrow> numbered ids js \<and> job_id j = ids (length js)"
  by (simp add: numbered_def)

lemma outcome_weaken: "outcome_ok I F r \<Longrightarrow> (\<And>p. I p \<Longrightarrow> J p) \<Longrightarrow> outcome_ok J F r"
  by (cases r; cases "fst r") auto

text \<open>The state a flush may start from: one job more than between two operations.\<close>

definition flushable :: "TransferPlanId \<Rightarrow> (nat \<Rightarrow> TransferId) \<Rightarrow> Planner \<Rightarrow> bool" where
  "flushable plan ids p \<longleftrightarrow>
     pn_plan_id p = plan \<and> pn_ids p = ids \<and> numbered ids (pn_child_jobs p) \<and> reports plan 0 (pn_events p) \<and>
     pn_child_jobs p = reported (pn_events p) @ pn_pending_progress p \<and>
     pn_planned_count p = length (pn_child_jobs p) \<and> length (pn_pending_progress p) \<le> PLAN_PROGRESS_BATCH_SIZE"

definition flushed :: "TransferPlanId \<Rightarrow> (nat \<Rightarrow> TransferId) \<Rightarrow> Planner \<Rightarrow> bool" where
  "flushed plan ids p \<longleftrightarrow> planning plan ids p \<and> pn_pending_progress p = []"

lemma planning_flushable: "planning plan ids p \<Longrightarrow> flushable plan ids p"
  by (auto simp: planning_def flushable_def)

text \<open>How a plan ended, as the receiver of its events sees it.\<close>

definition closed_report ::
  "TransferPlanId \<Rightarrow> (nat \<Rightarrow> TransferId) \<Rightarrow> TransferJob list option \<Rightarrow> AppEvent list \<Rightarrow> bool" where
  "closed_report plan ids result events \<longleftrightarrow>
     (\<exists>es tail. events = es @ tail \<and> reports plan 0 es \<and>
        (case result of
           Some jobs \<Rightarrow> tail = [AppEvent.TransferPlanCompleted plan] \<and> reported es = jobs \<and> numbered ids jobs
         | None \<Rightarrow> tail = [] \<or> tail = [AppEvent.TransferPlanCancelled plan] \<or>
                   (\<exists>error. tail = [AppEvent.TransferPlanFailed plan error])))"

lemma stopped_closed: "stopped plan ids p \<Longrightarrow> closed_report plan ids None (pn_events p)"
  unfolding closed_report_def stopped_def by (intro exI[of _ "pn_events p"] exI[of _ "[]"]) simp

lemma cancelled_closed: "stopped plan ids p \<Longrightarrow> closed_report plan ids None (pn_events (plan_cancelled p))"
  using stopped_closed[of plan ids p]
  by (auto simp: plan_cancelled_def send_event_def) (auto simp: closed_report_def stopped_def)

lemma failed_closed: "stopped plan ids p \<Longrightarrow> closed_report plan ids None (pn_events (plan_fail error p))"
  using stopped_closed[of plan ids p]
  by (auto simp: plan_fail_def send_event_def) (auto simp: closed_report_def stopped_def)

lemma finish_error_closed: "stopped plan ids p \<Longrightarrow> closed_report plan ids None (pn_events (finish_error error p))"
  by (simp add: finish_error_def cancelled_closed failed_closed)

lemma closing_jobs [simp]:
  "pn_child_jobs (snd (send_event p event)) = pn_child_jobs p"
  "pn_child_jobs (plan_cancelled p) = pn_child_jobs p" "pn_child_jobs (plan_fail error p) = pn_child_jobs p"
  "pn_child_jobs (finish_error error p) = pn_child_jobs p"
  by (simp_all add: send_event_def plan_cancelled_def plan_fail_def finish_error_def)

text \<open>
  What a planner needs of the way it sends a batch: after it, nothing is left to send, or the planner stops
  with everything it reported being a beginning of its jobs.
\<close>

locale batch_sender =
  fixes flush :: "Planner \<Rightarrow> unit outcome"
  assumes flush_ok: "flushable plan ids p \<Longrightarrow> outcome_ok (flushed plan ids) (stopped plan ids) (flush p)"
    and flush_jobs: "pn_child_jobs (snd (flush p)) = pn_child_jobs p"
begin

lemma queue_jobs: "pn_child_jobs (snd (queue_progress flush j p)) = pn_child_jobs p @ [j]"
  by (simp add: queue_progress_def Let_def flush_jobs)

lemma finish_jobs: "pn_child_jobs (snd (plan_finish flush p)) = pn_child_jobs p"
proof -
  let ?p = "p\<lparr>pn_cancel := map_option (\<lambda>n. n - 1) (pn_cancel p)\<rparr>"
  obtain e q where q: "flush ?p = (e, q)" by fastforce
  have "pn_child_jobs q = pn_child_jobs p" using flush_jobs[of ?p] q by simp
  then show ?thesis by (cases e) (simp_all add: plan_finish_def is_cancelled_def Let_def q[simplified])
qed

lemma conclude_jobs:
  assumes "conclude flush r = (result, p)"
  shows "pn_child_jobs p = pn_child_jobs (snd r)" and "result = Some jobs \<Longrightarrow> jobs = pn_child_jobs p"
  using assms finish_jobs[of "snd r"]
  by (auto simp: conclude_def split: prod.splits sum.splits if_splits)

lemma queue_ok:
  assumes "about_to_queue plan ids j p"
  shows "well_planned plan ids (queue_progress flush j p)"
proof -
  let ?p = "p\<lparr>pn_child_jobs := pn_child_jobs p @ [j], pn_pending_progress := pn_pending_progress p @ [j]\<rparr>"
  have "numbered ids (pn_child_jobs p)" "job_id j = ids (length (pn_child_jobs p))"
    using assms unfolding about_to_queue_def planning_def by auto
  then have num: "numbered ids (pn_child_jobs ?p)" by (simp add: numbered_snoc)
  show ?thesis
  proof (cases "pn_planned_count ?p = 1 \<or> PLAN_PROGRESS_BATCH_SIZE \<le> length (pn_pending_progress ?p)")
    case True
    have "flushable plan ids ?p" using assms num by (auto simp: about_to_queue_def planning_def flushable_def)
    then have "well_planned plan ids (flush ?p)"
      by (rule outcome_weaken[OF flush_ok]) (simp add: flushed_def)
    then show ?thesis using True by (simp add: queue_progress_def Let_def)
  next
    case False
    then show ?thesis using assms num
      by (auto simp: queue_progress_def Let_def about_to_queue_def planning_def)
  qed
qed

lemma finish_closed:
  assumes "planning plan ids p" and "plan_finish flush p = (completed, p')"
  shows "closed_report plan ids (if completed then Some (pn_child_jobs p') else None) (pn_events p')"
proof -
  have f: "outcome_ok (flushed plan ids) (stopped plan ids) (flush (p\<lparr>pn_cancel := c\<rparr>))" for c
    using flush_ok[OF planning_flushable] assms(1) by simp
  have cancelled: "closed_report plan ids None (pn_events (plan_cancelled (p\<lparr>pn_cancel := c\<rparr>)))" for c
    using assms(1) by (simp add: cancelled_closed planning_stopped)
  show ?thesis
  proof (cases "fst (is_cancelled p)")
    case True
    then show ?thesis using assms(2) cancelled by (auto simp: plan_finish_def is_cancelled_def)
  next
    case False
    obtain e q where q: "flush (snd (is_cancelled p)) = (e, q)" by fastforce
    show ?thesis
    proof (cases e)
      case (Inl error)
      then show ?thesis
        using f[of "map_option (\<lambda>n. n - 1) (pn_cancel p)"] q False assms(2)
        by (auto simp: plan_finish_def is_cancelled_def finish_error_closed)
    next
      case (Inr u)
      then have fl: "flushed plan ids q"
        using f[of "map_option (\<lambda>n. n - 1) (pn_cancel p)"] q by (simp add: is_cancelled_def)
      then have "stopped plan ids (snd (is_cancelled q))" by (simp add: is_cancelled_def flushed_def planning_stopped)
      with fl Inr q False assms(2) show ?thesis
        by (auto simp: plan_finish_def split_def Let_def cancelled_closed send_event_def stopped_closed split: if_splits)
           (auto simp: is_cancelled_def flushed_def planning_def closed_report_def)
    qed
  qed
qed

lemma conclude_closed:
  assumes "well_planned plan ids r" and "conclude flush r = (result, p)"
  shows "closed_report plan ids result (pn_events p)"
proof (cases r)
  case (Pair e q)
  show ?thesis
  proof (cases e)
    case (Inl error)
    then show ?thesis using assms Pair by (auto simp: conclude_def finish_error_closed)
  next
    case (Inr u)
    then show ?thesis
      using assms Pair finish_closed[of plan ids q] by (auto simp: conclude_def split_def Let_def)
  qed
qed

end

interpretation local_sender: batch_sender flush_progress
  by unfold_locales
     (auto simp: flush_progress_def send_event_def progress_event_def Let_def flushable_def flushed_def planning_def
       stopped_def reports_append PLAN_PROGRESS_BATCH_SIZE_def)

lemma emit_ok: "planning plan ids p \<Longrightarrow> well_planned plan ids (emit_child source destination n p)"
  unfolding emit_child_def
  by (rule and_then_ok[OF ensure_ok], assumption)
     (auto intro!: local_sender.queue_ok simp: Let_def about_to_queue_def child_job_def planning_def)

lemma single_download_ok:
  "planning plan ids p \<Longrightarrow> pn_child_jobs p = [] \<Longrightarrow> well_planned plan ids (plan_single_download p)"
  unfolding plan_single_download_def
  by (rule and_then_ok[where I = "\<lambda>p. planning plan ids p \<and> pn_child_jobs p = []"])
     (auto simp: ensure_not_cancelled_def is_cancelled_def Let_def planning_stopped about_to_queue_def child_job_def planning_def
       intro!: local_sender.queue_ok split: list.splits TransferEndpoint.splits)

section \<open>The tree\<close>

lemma entries_ok: "planning plan ids p \<Longrightarrow> well_planned plan ids (plan_entries fs dir dest entries p)"
proof (induction entries arbitrary: p)
  case (Cons entry entries)
  have after: "well_planned plan ids (and_then (plan_entries fs dir dest entries q) (\<lambda>subdirectories p. (Inr (d # subdirectories), p)))"
    if "planning plan ids q" for q d by (rule and_then_ok[OF Cons.IH[OF that]]) simp
  have rest: "well_planned plan ids (and_then (emit_child source destination n q) (\<lambda>_. plan_entries fs dir dest entries))"
    "well_planned plan ids (and_then (emit_child source destination n q) (\<lambda>_ p.
       and_then (plan_entries fs dir dest entries p) (\<lambda>subdirectories p. (Inr (d # subdirectories), p))))"
    if "planning plan ids q" for q source destination n d
    by (rule and_then_ok[OF emit_ok[OF that]], erule Cons.IH) (rule and_then_ok[OF emit_ok[OF that]], erule after)
  show ?case
    unfolding plan_entries.simps
    by (rule and_then_ok[OF ensure_ok[OF Cons.prems]])
       (auto simp: Let_def planning_stopped rest split: sum.splits FileType.splits)
qed simp

lemma one_directory_ok: "planning plan ids p \<Longrightarrow> well_planned plan ids (plan_one_directory fs dir dest p)"
  unfolding plan_one_directory_def
  by (rule and_then_ok[OF ensure_ok], assumption) (auto simp: planning_stopped entries_ok split: sum.splits)

lemma directory_ok:
  "planning plan ids p \<Longrightarrow> plan_directory fuel fs dir_stack p = Some r \<Longrightarrow> well_planned plan ids r"
proof (induction fuel fs dir_stack p arbitrary: r rule: plan_directory.induct)
  case (3 fuel fs dir dest dir_stack p)
  show ?case using 3 one_directory_ok[OF 3(2), of fs dir dest] by (auto split: prod.splits sum.splits)
qed auto

lemma source_ok:
  assumes "planning plan ids p" and "plan_source fuel fs source destination_root p = Some r"
  shows "well_planned plan ids r"
proof (cases "ensure_not_cancelled preparation_cancelled_error p")
  case (Pair e q)
  then show ?thesis
  proof (cases e)
    case (Inl error)
    then show ?thesis
      using assms(2) ensure_ok[OF assms(1), of preparation_cancelled_error] unfolding Pair by (auto simp: plan_source_def Pair)
  next
    case (Inr u)
    then have q: "planning plan ids q"
      using ensure_ok[OF assms(1), of preparation_cancelled_error] unfolding Pair by simp
    have emit: "well_planned plan ids (emit_child s d n q)" for s d n using emit_ok[OF q] .
    have tree: "plan_directory fuel fs st q' = Some r \<Longrightarrow> emit_child s d n q = (Inr u, q') \<Longrightarrow> well_planned plan ids r"
      for st q' s d n u using directory_ok emit[of s d n] by auto
    show ?thesis
      using assms(2) Pair Inr emit q
      by (auto simp: plan_source_def Let_def planning_stopped split: sum.splits if_splits option.splits prod.splits dest: tree)
  qed
qed

lemma sources_ok:
  "planning plan ids p \<Longrightarrow> plan_sources fuel fs sources destination_root p = Some r \<Longrightarrow> well_planned plan ids r"
proof (induction sources arbitrary: p)
  case (Cons source sources)
  show ?case
  proof (cases source)
    case (Local path)
    then show ?thesis
      using Cons source_ok[OF Cons.prems(1)] by (auto split: option.splits prod.splits sum.splits) (metis outcome_ok_simps)+
  qed (use Cons in \<open>auto simp: planning_stopped\<close>)
qed auto

lemma planner_new_planning: "planning plan ids (planner_new command plan created_at ids cancel receiver)"
  by (simp add: planning_def planner_new_def numbered_def PLAN_PROGRESS_BATCH_SIZE_def)

section \<open>Properties\<close>

text \<open>
  upload_plan_report: for every command, file system, moment of a cancel and moment at which the receiver
  leaves: the progress events of a planner carry at most 128 jobs each and the number of jobs reported so
  far; one closing event at most follows them; and the planner hands its jobs to the transfer manager exactly
  when it has reported the plan complete, after reporting precisely these jobs in this order.
\<close>

theorem upload_plan_report:
  assumes "plan_local_upload fuel fs (planner_new command plan created_at ids cancel receiver) = Some (result, p)"
  shows "\<exists>es tail. pn_events p = es @ tail \<and> reports plan 0 es \<and>
           (case result of
              Some jobs \<Rightarrow> tail = [AppEvent.TransferPlanCompleted plan] \<and> reported es = jobs \<and>
                map job_id jobs = map ids [0..<length jobs]
            | None \<Rightarrow> tail = [] \<or> tail = [AppEvent.TransferPlanCancelled plan] \<or>
                (\<exists>error. tail = [AppEvent.TransferPlanFailed plan error]))"
proof -
  let ?p = "planner_new command plan created_at ids cancel receiver"
  note start = planner_new_planning[of plan ids command created_at cancel receiver]
  have "closed_report plan ids result (pn_events p)"
  proof (cases "stc_direction command = TransferDirection.Download")
    case True
    have "pn_child_jobs ?p = []" by (simp add: planner_new_def)
    then show ?thesis
      using local_sender.conclude_closed[OF single_download_ok[OF start]] assms True
      by (auto simp: plan_local_upload_def planner_new_def)
  next
    case False
    then show ?thesis
      using assms local_sender.conclude_closed[OF sources_ok[OF start]] failed_closed[OF planning_stopped[OF start]]
      by (auto simp: plan_local_upload_def planner_new_def split: TransferEndpoint.splits if_splits)
  qed
  then show ?thesis unfolding closed_report_def numbered_def .
qed

end
