(* ===== verification/Transfer_Planner_Tree.thy ===== *)
theory Transfer_Planner_Tree
  imports Transfer_Planner_Laws
begin

text \<open>
  What a planner finds: a folder that is on the disk as a tree becomes one job per node, parents before
  their children, with the destination that mirrors the tree.
\<close>

section \<open>Trees\<close>

datatype Node = FileNode u64 | LinkNode | FolderNode "(rstr \<times> Node) list"

type_synonym item = "rstr \<times> RemotePath \<times> u64"

fun node_size :: "Node \<Rightarrow> u64" where
  "node_size (FileNode n) = n"
| "node_size _ = 0"

fun node_type :: "Node \<Rightarrow> FileType" where
  "node_type (FileNode _) = OtherType"
| "node_type LinkNode = SymlinkType"
| "node_type (FolderNode _) = DirType"

fun children :: "Node \<Rightarrow> (rstr \<times> Node) list" where
  "children (FolderNode es) = es"
| "children _ = []"

fun node_items :: "rstr \<Rightarrow> RemotePath \<Rightarrow> Node \<Rightarrow> item list" where
  "node_items path dest (FolderNode es) =
     map (\<lambda>(name, node). (path_join path name, join_remote_child dest name, node_size node)) es @
     concat (map (\<lambda>(name, node). node_items (path_join path name) (join_remote_child dest name) node) es)"
| "node_items path dest _ = []"

fun folders :: "Node \<Rightarrow> nat" where
  "folders (FolderNode es) = 1 + sum_list (map (\<lambda>(name, node). folders node) es)"
| "folders _ = 0"

fun safe_names :: "Node \<Rightarrow> bool" where
  "safe_names (FolderNode es) = list_all (\<lambda>(name, node). \<not> list_ex is_bidi_or_control name \<and> safe_names node) es"
| "safe_names _ = True"

fun entry_shows :: "LocalFs \<Rightarrow> rstr \<Rightarrow> IoError + DirEntry \<Rightarrow> rstr \<times> Node \<Rightarrow> bool" where
  "entry_shows fs dir (Inl _) _ = False"
| "entry_shows fs dir (Inr e) (name, node) \<longleftrightarrow>
     de_file_name e = name \<and> entry_file_type fs (path_join dir name) e = Inr (node_type node) \<and>
     (node_type node = OtherType \<longrightarrow>
        (case entry_metadata fs (path_join dir name) e of Inr m \<Rightarrow> fm_len m = node_size node | Inl _ \<Rightarrow> False))"

fun on_disk :: "LocalFs \<Rightarrow> rstr \<Rightarrow> Node \<Rightarrow> bool" where
  "on_disk fs path (FolderNode es) \<longleftrightarrow>
     (case fs_read_dir fs path of Inr entries \<Rightarrow> list_all2 (entry_shows fs path) entries es | Inl _ \<Rightarrow> False) \<and>
     list_all (\<lambda>(name, node). on_disk fs (path_join path name) node) es"
| "on_disk fs path _ = True"

section \<open>Undisturbed planning\<close>

definition calm :: "Planner \<Rightarrow> bool" where
  "calm p \<longleftrightarrow> pn_cancel p = None \<and> pn_receiver p = None"

definition add_bytes :: "u64 option \<Rightarrow> u64 \<Rightarrow> u64 option" where
  "add_bytes t n = Option.bind t (\<lambda>t. checked_add t n)"

definition upload_ends :: "item \<Rightarrow> TransferEndpoint \<times> TransferEndpoint" where
  "upload_ends i = (TransferEndpoint.Local (LocalPath (fst i)), TransferEndpoint.Remote (fst (snd i)))"

definition job_ends :: "TransferJob \<Rightarrow> TransferEndpoint \<times> TransferEndpoint" where
  "job_ends j = (job_source j, job_destination j)"

definition extends :: "Planner \<Rightarrow> item list \<Rightarrow> Planner \<Rightarrow> bool" where
  "extends p items p' \<longleftrightarrow>
     calm p' \<and> pn_command p' = pn_command p \<and>
     map job_ends (pn_child_jobs p') = map job_ends (pn_child_jobs p) @ map upload_ends items \<and>
     pn_total_bytes p' = foldl add_bytes (pn_total_bytes p) (map (snd \<circ> snd) items)"

lemma extends_refl: "calm p \<Longrightarrow> extends p [] p"
  by (simp add: extends_def)

lemma extends_trans: "extends p xs q \<Longrightarrow> extends q ys r \<Longrightarrow> extends p (xs @ ys) r"
  by (simp add: extends_def)

lemma extends_calm: "extends p xs q \<Longrightarrow> calm q"
  by (simp add: extends_def)

lemma ensure_calm: "calm p \<Longrightarrow> ensure_not_cancelled error p = (Inr (), p)"
  by (simp add: ensure_not_cancelled_def is_cancelled_def calm_def)

lemma flush_calm:
  assumes "calm p"
  shows "\<exists>p'. flush_progress p = (Inr (), p') \<and> calm p' \<and> pn_command p' = pn_command p \<and>
    pn_child_jobs p' = pn_child_jobs p \<and> pn_total_bytes p' = pn_total_bytes p \<and> pn_plan_id p' = pn_plan_id p"
  using assms by (auto simp: flush_progress_def send_event_def Let_def calm_def)

lemma emit_calm:
  assumes "calm p"
  shows "\<exists>p'. emit_child source destination n p = (Inr (), p') \<and> extends p [(source, destination, n)] p'"
proof -
  let ?p = "p\<lparr>pn_planned_count := pn_planned_count p + 1, pn_total_bytes := add_bytes (pn_total_bytes p) n\<rparr>"
  let ?j = "child_job ?p TransferDirection.Upload (TransferEndpoint.Local (LocalPath source)) (TransferEndpoint.Remote destination)"
  let ?q = "?p\<lparr>pn_child_jobs := pn_child_jobs ?p @ [?j], pn_pending_progress := pn_pending_progress ?p @ [?j]\<rparr>"
  have q: "extends p [(source, destination, n)] ?q"
    using assms by (simp add: extends_def calm_def upload_ends_def job_ends_def child_job_def)
  have e: "emit_child source destination n p = queue_progress flush_progress ?j ?p"
    using assms by (simp add: emit_child_def ensure_calm add_bytes_def Let_def)
  obtain q' where q': "flush_progress ?q = (Inr (), q')" "extends p [(source, destination, n)] q'"
    using flush_calm[OF extends_calm[OF q]] q by (auto simp: extends_def)
  show ?thesis unfolding e queue_progress_def Let_def using q q' by auto
qed

section \<open>Directories\<close>

definition node_item :: "rstr \<Rightarrow> RemotePath \<Rightarrow> rstr \<times> Node \<Rightarrow> item" where
  "node_item dir dest e = (path_join dir (fst e), join_remote_child dest (fst e), node_size (snd e))"

text \<open>The folders among the entries of a directory, with where they are and where they go.\<close>

definition subfolders :: "rstr \<Rightarrow> RemotePath \<Rightarrow> (rstr \<times> Node) list \<Rightarrow> (rstr \<times> RemotePath \<times> Node) list" where
  "subfolders dir dest es =
     map (\<lambda>(name, node). (path_join dir name, join_remote_child dest name, node)) (filter (\<lambda>e. node_type (snd e) = DirType) es)"

lemma entries_calm:
  assumes "calm p" and "list_all2 (entry_shows fs dir) entries es"
    and "list_all (\<lambda>e. \<not> list_ex is_bidi_or_control (fst e)) es"
  shows "\<exists>p'. plan_entries fs dir dest entries p = (Inr (map (\<lambda>(s, d, _). (s, d)) (subfolders dir dest es)), p') \<and>
           extends p (map (node_item dir dest) es) p'"
  using assms(2,1,3)
proof (induction arbitrary: p rule: list_all2_induct)
  case Nil
  then show ?case by (simp add: subfolders_def extends_refl)
next
  case (Cons entry entries e es)
  obtain name node where e: "e = (name, node)" by fastforce
  obtain d where d: "entry = Inr d" using Cons.hyps(1) by (cases entry) (auto simp: e)
  obtain q where q: "emit_child (path_join dir name) (join_remote_child dest name) (node_size node) p = (Inr (), q)"
      "extends p [node_item dir dest e] q"
    using emit_calm[OF Cons.prems(1)] by (fastforce simp: node_item_def e)
  obtain r where r: "plan_entries fs dir dest entries q = (Inr (map (\<lambda>(s, d, _). (s, d)) (subfolders dir dest es)), r)"
      "extends q (map (node_item dir dest) es) r"
    using Cons.IH[OF extends_calm[OF q(2)]] Cons.prems(2) by auto
  have "extends p (map (node_item dir dest) (e # es)) r" using extends_trans[OF q(2) r(2)] by simp
  moreover have "plan_entries fs dir dest (entry # entries) p =
      (Inr (map (\<lambda>(s, d, _). (s, d)) (subfolders dir dest (e # es))), r)"
    using Cons.hyps(1) Cons.prems q(1) r(1)
    by (cases node) (auto simp: d e ensure_calm Let_def subfolders_def split: sum.splits)
  ultimately show ?case by blast
qed

lemma node_items_subfolders:
  "node_items dir dest (FolderNode es) =
     map (node_item dir dest) es @ concat (map (\<lambda>(s, d, node). node_items s d node) (subfolders dir dest es))"
proof -
  have "concat (map (\<lambda>(name, node). node_items (path_join dir name) (join_remote_child dest name) node) es) =
      concat (map (\<lambda>(s, d, node). node_items s d node) (subfolders dir dest es))"
    unfolding subfolders_def
  proof (induction es)
    case (Cons e es)
    then show ?case by (cases e; cases "snd e") auto
  qed simp
  then show ?thesis by (simp add: node_item_def split_def)
qed

definition ready :: "LocalFs \<Rightarrow> rstr \<times> RemotePath \<times> Node \<Rightarrow> bool" where
  "ready fs f = (case f of (dir, dest, node) \<Rightarrow> node_type node = DirType \<and> on_disk fs dir node \<and> safe_names node)"

lemma subfolders_ready:
  assumes "ready fs (dir, dest, FolderNode es)"
  shows "list_all (ready fs) (subfolders dir dest es)"
    and "folders (FolderNode es) = Suc (sum_list (map (\<lambda>(s, d, node). folders node) (subfolders dir dest es)))"
proof -
  show "list_all (ready fs) (subfolders dir dest es)"
    using assms by (auto simp: ready_def subfolders_def list_all_iff)
  show "folders (FolderNode es) = Suc (sum_list (map (\<lambda>(s, d, node). folders node) (subfolders dir dest es)))"
    unfolding subfolders_def
  proof (induction es)
    case (Cons e es)
    then show ?case by (cases e; cases "snd e") auto
  qed simp
qed

lemma directory_calm:
  assumes "calm p" and "list_all (ready fs) stack" and "sum_list (map (\<lambda>(s, d, node). folders node) stack) \<le> fuel"
  shows "\<exists>p'. plan_directory fuel fs (map (\<lambda>(s, d, _). (s, d)) stack) p = Some (Inr (), p') \<and>
           extends p (concat (map (\<lambda>(s, d, node). node_items s d node) stack)) p'"
  using assms
proof (induction fuel arbitrary: stack p)
  case 0
  have "stack = []"
  proof (rule ccontr)
    assume "stack \<noteq> []"
    then obtain dir dest node rest where "stack = (dir, dest, node) # rest" by (cases stack) auto
    with 0 show False by (cases node) (auto simp: ready_def)
  qed
  then show ?case using 0(1) by (simp add: extends_refl)
next
  case (Suc fuel)
  show ?case
  proof (cases stack)
    case Nil
    then show ?thesis using Suc.prems(1) by (simp add: extends_refl)
  next
    case (Cons f rest)
    obtain dir dest es where f: "f = (dir, dest, FolderNode es)" "ready fs f"
      using Suc.prems(2) Cons by (cases f; cases "snd (snd f)") (auto simp: ready_def)
    obtain entries where entries: "fs_read_dir fs dir = Inr entries" "list_all2 (entry_shows fs dir) entries es"
      using f by (auto simp: ready_def split: sum.splits)
    have names: "list_all (\<lambda>e. \<not> list_ex is_bidi_or_control (fst e)) es" using f by (auto simp: ready_def list_all_iff)
    obtain q where q: "plan_entries fs dir dest entries p = (Inr (map (\<lambda>(s, d, _). (s, d)) (subfolders dir dest es)), q)"
        "extends p (map (node_item dir dest) es) q"
      using entries_calm[OF Suc.prems(1) entries(2) names] by blast
    let ?stack = "subfolders dir dest es @ rest"
    have "sum_list (map (\<lambda>(s, d, node). folders node) ?stack) \<le> fuel"
      using Suc.prems(3) subfolders_ready(2)[of fs dir dest es] f unfolding Cons by simp
    moreover have "list_all (ready fs) ?stack" using subfolders_ready(1) f Suc.prems(2) Cons by simp
    ultimately obtain r where r: "plan_directory fuel fs (map (\<lambda>(s, d, _). (s, d)) ?stack) q = Some (Inr (), r)"
        "extends q (concat (map (\<lambda>(s, d, node). node_items s d node) ?stack)) r"
      using Suc.IH[OF extends_calm[OF q(2)]] by blast
    have "plan_directory (Suc fuel) fs (map (\<lambda>(s, d, _). (s, d)) stack) p = Some (Inr (), r)"
      using q(1) r(1) Suc.prems(1) entries(1) by (simp add: Cons f plan_one_directory_def ensure_calm)
    moreover have "concat (map (\<lambda>(s, d, node). node_items s d node) stack) =
        map (node_item dir dest) es @ concat (map (\<lambda>(s, d, node). node_items s d node) ?stack)"
      unfolding Cons f(1) by (simp add: node_items_subfolders del: node_items.simps)
    ultimately show ?thesis using extends_trans[OF q(2) r(2)] by auto
  qed
qed

lemma finish_calm:
  assumes "calm p"
  shows "\<exists>p'. conclude flush_progress (Inr (), p) = (Some (pn_child_jobs p), p') \<and> pn_total_bytes p' = pn_total_bytes p"
proof -
  obtain q where q: "flush_progress p = (Inr (), q)" "calm q" "pn_child_jobs q = pn_child_jobs p" "pn_total_bytes q = pn_total_bytes p"
    using flush_calm[OF assms] by blast
  have c: "is_cancelled p = (False, p)" "is_cancelled q = (False, q)"
    using assms q(2) by (simp_all add: is_cancelled_def calm_def)
  show ?thesis using q c by (simp add: conclude_def plan_finish_def send_event_def calm_def)
qed

lemma add_bytes_sum:
  "foldl add_bytes (if s < 2 ^ 64 then Some (of_nat s) else None) ns =
   (let n = s + sum_list (map unat ns) in if n < 2 ^ 64 then Some (of_nat n) else None)"
proof (induction ns arbitrary: s)
  case (Cons n ns)
  have "add_bytes (if s < 2 ^ 64 then Some (of_nat s) else None) n =
      (if s + unat n < 2 ^ 64 then Some (of_nat (s + unat n)) else None)"
    by (auto simp: add_bytes_def checked_add_unat unsigned_of_nat take_bit_eq_mod)
  then show ?case using Cons.IH[of "s + unat n"] by (simp add: add.assoc)
qed simp

section \<open>Properties\<close>

text \<open>
  C30 (upload_plan_mirrors_tree): planning the upload of one folder, undisturbed and on a disk that holds it as
  a finite tree with acceptable names, ends after reading each of its folders once. It makes one job for the
  folder and one for every node below it, a directory before what it contains, each with the destination
  that mirrors its place; and the announced size is the sum of the file sizes, or unknown if that does not
  fit into 64 bits.
\<close>

theorem upload_plan_mirrors_tree:
  assumes "on_disk fs source (FolderNode es)" and "safe_names (FolderNode es)" and "folders (FolderNode es) \<le> fuel"
    and "fs_symlink_metadata fs source = Inr metadata" and "fm_file_type metadata = DirType"
    and "path_file_name source = Some name" and "\<not> list_ex is_bidi_or_control name"
    and "stc_direction command = TransferDirection.Upload" and "stc_destination command = TransferEndpoint.Remote root"
    and "stc_sources command = [TransferEndpoint.Local (LocalPath source)]"
    and "items = (source, join_remote_child root name, 0) # node_items source (join_remote_child root name) (FolderNode es)"
  shows "\<exists>jobs p. plan_local_upload fuel fs (planner_new command plan created_at ids None None) = Some (Some jobs, p) \<and>
    map job_ends jobs = map upload_ends items \<and>
    pn_total_bytes p = (let n = sum_list (map (unat \<circ> snd \<circ> snd) items) in if n < 2 ^ 64 then Some (of_nat n) else None)"
proof -
  let ?p = "planner_new command plan created_at ids None None" and ?dest = "join_remote_child root name"
  have calm: "calm ?p" by (simp add: calm_def planner_new_def)
  obtain q where q: "emit_child source ?dest 0 ?p = (Inr (), q)" "extends ?p [(source, ?dest, 0)] q"
    using emit_calm[OF calm] by blast
  have "list_all (ready fs) [(source, ?dest, FolderNode es)]" using assms(1,2) by (simp add: ready_def)
  then obtain r where r: "plan_directory fuel fs [(source, ?dest)] q = Some (Inr (), r)"
      "extends q (node_items source ?dest (FolderNode es)) r"
    using directory_calm[OF extends_calm[OF q(2)], of fs "[(source, ?dest, FolderNode es)]" fuel] assms(3)
    by (auto simp del: node_items.simps)
  have ext: "extends ?p items r" using extends_trans[OF q(2) r(2)] unfolding assms(11) by simp
  obtain p' where fin: "conclude flush_progress (Inr (), r) = (Some (pn_child_jobs r), p')" "pn_total_bytes p' = pn_total_bytes r"
    using finish_calm[OF extends_calm[OF ext]] by blast
  have "plan_source fuel fs source root ?p = Some (Inr (), r)"
    using assms(4-7) q(1) r(1) by (simp add: plan_source_def ensure_calm[OF calm] Let_def)
  moreover have "pn_command ?p = command" by (simp add: planner_new_def)
  ultimately have "plan_local_upload fuel fs ?p = Some (Some (pn_child_jobs r), p')"
    using assms(8-10) fin(1) by (simp add: plan_local_upload_def)
  moreover have "map job_ends (pn_child_jobs r) = map upload_ends items" "pn_total_bytes r = foldl add_bytes (Some 0) (map (snd \<circ> snd) items)"
    using ext by (simp_all add: extends_def planner_new_def)
  ultimately show ?thesis using fin(2) add_bytes_sum[of 0 "map (snd \<circ> snd) items"] by (auto simp: comp_assoc)
qed

definition demo_command :: "TransferDirection \<Rightarrow> TransferEndpoint \<Rightarrow> TransferEndpoint \<Rightarrow> StartTransferCommand" where
  "demo_command direction source destination =
     \<lparr>stc_tab_id = TabId 1, stc_session_epoch = 1, stc_profile_id = ProfileId 1, stc_direction = direction,
      stc_sources = [source], stc_destination = destination, stc_metadata_policy = metadata_policy_default,
      stc_conflict_policy = ConflictPolicy.Ask\<rparr>"

text \<open>A folder with a file and a folder that holds a link.\<close>

definition demo_node :: Node where
  "demo_node = FolderNode [(lit ''a'', FileNode 5), (lit ''s'', FolderNode [(lit ''l'', LinkNode)])]"

definition demo_entry :: "rstr \<Rightarrow> FileType \<Rightarrow> u64 \<Rightarrow> IoError + DirEntry" where
  "demo_entry name ft n = Inr \<lparr>de_file_name = name, de_file_type = Inr ft, de_metadata = Inr \<lparr>fm_file_type = ft, fm_len = n\<rparr>\<rparr>"

definition demo_fs :: LocalFs where
  "demo_fs = \<lparr>fs_symlink_metadata = (\<lambda>_. Inr \<lparr>fm_file_type = DirType, fm_len = 0\<rparr>),
     fs_read_dir = (\<lambda>dir. if dir = lit ''/d'' then Inr [demo_entry (lit ''a'') OtherType 5, demo_entry (lit ''s'') DirType 0]
                          else if dir = lit ''/d/s'' then Inr [demo_entry (lit ''l'') SymlinkType 0]
                          else Inr [])\<rparr>"

lemmas demo_disk = demo_node_def demo_fs_def demo_entry_def entry_file_type_def entry_metadata_def path_join_def lit_def
  is_bidi_or_control_def is_control_def

theorem upload_plan_mirrors_tree_witness:
  "\<exists>jobs p. plan_local_upload 2 demo_fs
     (planner_new (demo_command TransferDirection.Upload (TransferEndpoint.Local (LocalPath (lit ''/d'')))
        (TransferEndpoint.Remote (RemotePath (lit ''/up'')))) (TransferPlanId 1) 0 (\<lambda>k. TransferId (of_nat k)) None None) = Some (Some jobs, p) \<and>
   length jobs = 4 \<and> pn_total_bytes p = Some 5"
proof -
  let ?c = "demo_command TransferDirection.Upload (TransferEndpoint.Local (LocalPath (lit ''/d''))) (TransferEndpoint.Remote (RemotePath (lit ''/up'')))"
  have disk: "on_disk demo_fs (lit ''/d'') (FolderNode (children demo_node))" by (simp add: demo_disk)
  have safe: "safe_names (FolderNode (children demo_node))" by (simp add: demo_disk)
  have count: "folders (FolderNode (children demo_node)) \<le> 2" by (simp add: demo_disk)
  have meta: "fs_symlink_metadata demo_fs (lit ''/d'') = Inr \<lparr>fm_file_type = DirType, fm_len = 0\<rparr>" by (simp add: demo_fs_def)
  have name: "path_file_name (lit ''/d'') = Some (lit ''d'')" "\<not> list_ex is_bidi_or_control (lit ''d'')"
    by (simp_all add: path_file_name_def skipped_piece_def demo_disk)
  have ty: "fm_file_type \<lparr>fm_file_type = DirType, fm_len = 0 :: u64\<rparr> = DirType" by simp
  have cmd: "stc_direction ?c = TransferDirection.Upload" "stc_destination ?c = TransferEndpoint.Remote (RemotePath (lit ''/up''))"
    "stc_sources ?c = [TransferEndpoint.Local (LocalPath (lit ''/d''))]"
    by (simp_all add: demo_command_def)
  from upload_plan_mirrors_tree[OF disk safe count meta ty name cmd refl]
  obtain jobs p where j: "plan_local_upload 2 demo_fs (planner_new ?c (TransferPlanId 1) 0 (\<lambda>k. TransferId (of_nat k)) None None) = Some (Some jobs, p)"
    "map job_ends jobs = map upload_ends ((lit ''/d'', join_remote_child (RemotePath (lit ''/up'')) (lit ''d''), 0) #
       node_items (lit ''/d'') (join_remote_child (RemotePath (lit ''/up'')) (lit ''d'')) (FolderNode (children demo_node)))"
    "pn_total_bytes p = Some 5"
    by (fastforce simp: demo_node_def)
  have "length jobs = 4" using arg_cong[OF j(2), of length] by (simp add: demo_node_def)
  with j show ?thesis by blast
qed

text \<open>The other property of upload plans, on the plan of a single file.\<close>

theorem upload_plan_report_witness:
  "\<exists>p es jobs. plan_local_upload 0 demo_fs
       (planner_new (demo_command TransferDirection.Download (TransferEndpoint.Remote (RemotePath (lit ''/r'')))
          (TransferEndpoint.Local (LocalPath (lit ''/l'')))) (TransferPlanId 1) 0 (\<lambda>k. TransferId (of_nat k)) None None) = Some (Some jobs, p) \<and>
     pn_events p = es @ [AppEvent.TransferPlanCompleted (TransferPlanId 1)] \<and> reported es = jobs \<and> length jobs = 1"
proof -
  let ?p = "planner_new (demo_command TransferDirection.Download (TransferEndpoint.Remote (RemotePath (lit ''/r'')))
    (TransferEndpoint.Local (LocalPath (lit ''/l'')))) (TransferPlanId 1) 0 (\<lambda>k. TransferId (of_nat k)) None None"
  have "\<exists>jobs p. plan_local_upload 0 demo_fs ?p = Some (Some jobs, p) \<and> length jobs = 1"
    by (simp add: plan_local_upload_def demo_command_def planner_new_def plan_single_download_def ensure_not_cancelled_def
        is_cancelled_def queue_progress_def flush_progress_def send_event_def conclude_def plan_finish_def Let_def child_job_def)
  then obtain jobs p where j: "plan_local_upload 0 demo_fs ?p = Some (Some jobs, p)" "length jobs = 1" by blast
  from upload_plan_report[OF j(1)] obtain es where
    "pn_events p = es @ [AppEvent.TransferPlanCompleted (TransferPlanId 1)] \<and> reported es = jobs" by auto
  with j show ?thesis by blast
qed

end
