(* ===== verification/Download_Path_Laws.thy ===== *)
theory Download_Path_Laws
  imports Download_Paths
begin

text \<open>
  The paths a transfer writes to: destinations of a folder download lie below the folder, the link check
  accepts exactly the targets whose path never leaves the folder, temporary files of different transfers
  differ, and where these guarantees end.
\<close>

section \<open>Components\<close>

lemma hd_split_on_append: "hd (split_on c (a @ c # b)) = hd (split_on c a)"
  by (simp add: split_on_concat)

lemma components_append:
  assumes "a \<noteq> []"
  shows "components (a @ slash # b) = components a @ concat (map piece_components (split_on slash b))"
  using assms by (simp add: components_def split_on_concat hd_split_on_append)

lemma piece_components_empty [simp]: "piece_components [] = []" "piece_components [dot] = []"
  by (simp_all add: piece_components_def)

text \<open>A relative path without special components is the list of its pieces.\<close>

lemma normal_components:
  assumes "list_all is_normal (components b)"
  shows "components b = concat (map piece_components (split_on slash b))" and "b = [] \<or> hd b \<noteq> slash"
  using assms by (auto simp: components_def split: if_splits)

lemma components_join:
  assumes "list_all is_normal (components b)"
  shows "components (path_join a b) = components a @ components b"
proof -
  note b = normal_components[OF assms]
  consider "a = []" | c where "a = c @ [slash]" | "a \<noteq> []" "last a \<noteq> slash"
    by (metis append_butlast_last_id)
  then show ?thesis
  proof cases
    case 1
    then show ?thesis using b(2) by (auto simp: path_join_def components_def)
  next
    case (2 c)
    have e: "path_join (c @ [slash]) b = c @ slash # b" using b(2) by (auto simp: path_join_def)
    show ?thesis
    proof (cases "c = []")
      case True
      then show ?thesis unfolding 2 e b(1) by (simp add: components_def)
    next
      case False
      then show ?thesis unfolding 2 e b(1) by (simp add: components_append[of c b] components_append[of c "[]"])
    qed
  next
    case 3
    then have e: "path_join a b = a @ slash # b" using b(2) by (auto simp: path_join_def)
    show ?thesis unfolding e b(1) using components_append[OF 3(1), of b] .
  qed
qed

text \<open>The destination of an entry is the root followed by ordinary names only.\<close>

lemma download_destination_inside:
  assumes "local_download_destination root relative = Inr destination"
  shows "components (local_str destination) = components (local_str root) @ components relative \<and>
         list_all is_normal (components relative)"
proof -
  have "list_all is_normal (components relative)" "destination = LocalPath (path_join (local_str root) relative)"
    using assms by (auto simp: local_download_destination_def list_ex_iff list_all_iff split: if_splits)
  then show ?thesis using components_join by simp
qed

section \<open>Following a link\<close>

text \<open>One step of a path from an absolute directory, where the parent of the file-system root is the root.\<close>

definition walk :: "rstr list \<Rightarrow> rstr \<Rightarrow> rstr list" where
  "walk dir piece =
     (if piece = [] \<or> piece = [dot] then dir else if piece = [dot, dot] then butlast dir else dir @ [piece])"

definition stays_below :: "rstr list \<Rightarrow> rstr list \<Rightarrow> rstr list \<Rightarrow> bool" where
  "stays_below root dir pieces \<longleftrightarrow> (\<forall>k \<le> length pieces. \<exists>below. foldl walk dir (take k pieces) = root @ below)"

lemma stays_below_Cons:
  "stays_below root dir (piece # pieces) \<longleftrightarrow> (\<exists>below. dir = root @ below) \<and> stays_below root (walk dir piece) pieces"
proof -
  have "(\<forall>k \<le> length (piece # pieces). P k) \<longleftrightarrow> P 0 \<and> (\<forall>k \<le> length pieces. P (Suc k))" for P
    by (metis Suc_le_mono bot_nat_0.extremum length_Cons not0_implies_Suc)
  from this[of "\<lambda>k. \<exists>below. foldl walk dir (take k (piece # pieces)) = root @ below"]
  show ?thesis unfolding stays_below_def by simp
qed

lemma foldl_follow_None [simp]: "foldl follow_piece None pieces = None"
  by (induction pieces) simp_all

lemma follow_iff_below:
  assumes "root \<noteq> []"
  shows "foldl follow_piece (Some stack) pieces \<noteq> None \<longleftrightarrow> stays_below root (root @ stack) pieces"
proof (induction pieces arbitrary: stack)
  case Nil
  then show ?case by (simp add: stays_below_def)
next
  case (Cons piece pieces)
  show ?case
  proof (cases "piece = [dot, dot] \<and> stack = []")
    case True
    have "\<not> (\<exists>below. butlast root = root @ below)"
    proof
      assume "\<exists>below. butlast root = root @ below"
      then obtain below where "butlast root = root @ below" ..
      then have "length (butlast root) = length (root @ below)" by simp
      with assms show False by (simp add: length_butlast diff_Suc less_eq_Suc_le split: nat.splits)
    qed
    moreover have "stays_below root (butlast root) pieces \<Longrightarrow> \<exists>below. butlast root = root @ below"
      unfolding stays_below_def by (drule spec[of _ 0]) simp
    ultimately have "\<not> stays_below root (root @ stack) (piece # pieces)"
      using True by (auto simp: stays_below_Cons walk_def)
    with True show ?thesis by simp
  next
    case False
    obtain stack' where s: "follow_piece (Some stack) piece = Some stack'" "walk (root @ stack) piece = root @ stack'"
      using False by (cases "piece = [] \<or> piece = [dot]"; cases "piece = [dot, dot]") (auto simp: walk_def butlast_append)
    show ?thesis unfolding stays_below_Cons foldl_Cons s using Cons.IH[of stack'] by blast
  qed
qed

lemma strip_components_append [simp]: "strip_components base (base @ path) = Some path"
  by (induction base) simp_all

lemma push_normals [simp]: "foldl push_component (Some stack) (map Normal names) = Some (stack @ names)"
  by (induction names arbitrary: stack) simp_all

text \<open>The characters a target may not have, whatever it means.\<close>

definition odd_target :: "rstr \<Rightarrow> bool" where
  "odd_target target \<longleftrightarrow>
     target = [] \<or> hd target = slash \<or> hd target = backslash \<or> hd target = 126 \<or> backslash \<in> set target \<or>
     is_windows_drive_prefix target \<or> list_ex is_bidi_or_control target"

lemma relative_link_dir_below:
  assumes "components destination = components root @ map Normal (names @ [name])"
  shows "relative_link_dir root destination = Some (map Normal names)"
  using assms by (simp add: relative_link_dir_def parent_components_def)

lemmas path_eval = lit_def components_def piece_components_def validate_download_symlink_target_def relative_link_dir_def
  symlink_target_escapes_root_def is_windows_drive_prefix_def is_ascii_alphabetic_def is_bidi_or_control_def is_control_def
  parent_components_def

lemma link_check_below:
  assumes "components root = RootDir # map Normal roots" and "roots \<noteq> []"
    and "components destination = components root @ map Normal (names @ [name])"
  shows "validate_download_symlink_target (Some (LocalPath root)) (LocalPath destination) target =
    (if odd_target target \<or> \<not> stays_below roots (roots @ names) (split_on slash target) then Inl unsafe_link_error else Inr ())"
  using follow_iff_below[OF assms(2), of names "split_on slash target"] relative_link_dir_below[OF assms(3)]
  by (auto simp: validate_download_symlink_target_def odd_target_def symlink_target_escapes_root_def)

section \<open>Names\<close>

lemma rfind_None: "c \<notin> set s \<Longrightarrow> rfind c s = None"
  by (auto simp: rfind_def position_None_iff)

lemma rsplit_once_simps:
  "c \<notin> set name \<Longrightarrow> rsplit_once c (parent @ c # name) = Some (parent, name)"
  "c \<notin> set name \<Longrightarrow> rsplit_once c name = None"
  by (simp_all add: rsplit_once_def rfind_None)

lemma decimal_digits: "c \<in> set (decimal n) \<Longrightarrow> 48 \<le> c \<and> c \<le> 57"
proof (induction n rule: decimal.induct)
  case (1 n)
  then show ?case by (cases "n < 10") (auto simp: decimal.simps[of n])
qed

abbreviation hyphen :: rchar where
  "hyphen \<equiv> 45"

lemma last_number_inject:
  assumes "a @ hyphen # decimal m = b @ hyphen # decimal n"
  shows "m = n"
proof -
  have "hyphen \<notin> set (decimal k)" for k using decimal_digits[of hyphen k] by auto
  then have "rsplit_once hyphen (a @ hyphen # decimal m) = Some (a, decimal m)"
    "rsplit_once hyphen (b @ hyphen # decimal n) = Some (b, decimal n)" by (simp_all add: rsplit_once_simps)
  with assms have "Some (a, decimal m) = Some (b, decimal n)" by metis
  then show ?thesis by (simp add: decimal_inject)
qed

lemma lit_part: "lit ''.macsftp-part-'' = lit ''.macsftp-part'' @ [hyphen]"
  by (simp add: lit_def)

lemma path_join_ends: "b \<noteq> [] \<Longrightarrow> hd b \<noteq> slash \<Longrightarrow> \<exists>a'. path_join a b = a' @ b"
  by (auto simp: path_join_def)

definition temporary_name :: "rstr \<Rightarrow> TransferId \<Rightarrow> rstr" where
  "temporary_name name transfer_id = dot # name @ lit ''.macsftp-part-'' @ decimal (unat (transfer_raw transfer_id))"

lemma temporary_paths_end:
  "\<exists>a name. remote_str (remote_temporary_path destination i) = a @ temporary_name name i"
  "\<exists>a name. local_str (local_temporary_path destination' i) = a @ temporary_name name i"
proof -
  show "\<exists>a name. remote_str (remote_temporary_path destination i) = a @ temporary_name name i"
    by (auto simp: remote_temporary_path_def Let_def temporary_name_def[symmetric] split: prod.splits option.splits)
       (metis append_Nil append_Cons append.assoc)+
  let ?name = "case path_file_name (local_str destination') of Some name \<Rightarrow> name | None \<Rightarrow> lit ''download''"
  have "\<exists>a. path_join (parent_or_empty (local_str destination')) (temporary_name ?name i) = a @ temporary_name ?name i"
    by (rule path_join_ends) (simp_all add: temporary_name_def)
  then show "\<exists>a name. local_str (local_temporary_path destination' i) = a @ temporary_name name i"
    by (auto simp: local_temporary_path_def Let_def temporary_name_def)
qed

lemma temporary_name_inject: "a @ temporary_name m i = b @ temporary_name n j \<Longrightarrow> i = j"
proof -
  assume "a @ temporary_name m i = b @ temporary_name n j"
  then have "(a @ dot # m @ lit ''.macsftp-part'') @ hyphen # decimal (unat (transfer_raw i)) =
      (b @ dot # n @ lit ''.macsftp-part'') @ hyphen # decimal (unat (transfer_raw j))"
    by (simp add: temporary_name_def lit_part)
  then have "unat (transfer_raw i) = unat (transfer_raw j)" by (rule last_number_inject)
  then show "i = j" by (cases i; cases j) (simp add: word_unat_eq_iff)
qed

section \<open>Properties\<close>

text \<open>
  C31 (link_check_exact): a link below an absolute download folder is recreated exactly when its target has
  none of the suspicious characters and, read piece by piece from the directory of the link, never leaves
  the folder, not even on the way.
\<close>

theorem link_check_exact:
  assumes "components root = RootDir # map Normal roots" and "roots \<noteq> []"
    and "components destination = components root @ map Normal (names @ [name])"
  shows "validate_download_symlink_target (Some (LocalPath root)) (LocalPath destination) target = Inr () \<longleftrightarrow>
    \<not> odd_target target \<and>
    (\<forall>k \<le> length (split_on slash target).
       \<exists>below. foldl walk (roots @ names) (take k (split_on slash target)) = roots @ below)"
  using link_check_below[OF assms, of target] by (auto simp: stays_below_def)

theorem link_check_exact_witness:
  "validate_download_symlink_target (Some (LocalPath (lit ''/dl''))) (LocalPath (lit ''/dl/sub/link'')) (lit ''../other/file'') = Inr () \<and>
   (\<exists>below. foldl walk ([lit ''dl''] @ [lit ''sub'']) (take 2 (split_on slash (lit ''../other/file''))) = [lit ''dl''] @ below)"
proof -
  have root: "components (lit ''/dl'') = RootDir # map Normal [lit ''dl'']" by (simp add: path_eval)
  have dest: "components (lit ''/dl/sub/link'') = components (lit ''/dl'') @ map Normal ([lit ''sub''] @ [lit ''link''])" by (simp add: path_eval)
  have ok: "validate_download_symlink_target (Some (LocalPath (lit ''/dl''))) (LocalPath (lit ''/dl/sub/link'')) (lit ''../other/file'') = Inr ()"
    by (simp add: path_eval)
  have len: "2 \<le> length (split_on slash (lit ''../other/file''))" by (simp add: path_eval)
  have "[lit ''dl''] \<noteq> []" by simp
  from link_check_exact[OF root this dest, of "lit ''../other/file''"] ok len show ?thesis by blast
qed

text \<open>
  temporary_files_unique: the temporary files of two different transfers never have the same path,
  whatever their destinations, neither remotely nor locally.
\<close>

theorem temporary_files_unique:
  assumes "i \<noteq> j"
  shows "remote_temporary_path destination i \<noteq> remote_temporary_path destination' j \<and>
         local_temporary_path target i \<noteq> local_temporary_path target' j"
  using temporary_paths_end(1)[of destination i] temporary_paths_end(1)[of destination' j]
    temporary_paths_end(2)[of target i] temporary_paths_end(2)[of target' j] temporary_name_inject assms by metis

theorem temporary_files_unique_witness:
  "remote_temporary_path (RemotePath (lit ''/srv/a'')) (TransferId 1) \<noteq> remote_temporary_path (RemotePath (lit ''/srv/a'')) (TransferId 11)"
  using temporary_files_unique[of "TransferId 1" "TransferId 11"] by simp

text \<open>
  root_level_names_become_relative: renaming a conflicting upload keeps its directory, and its temporary
  file lies in that directory, unless the directory is the root of the server: then both are paths relative
  to the login directory.
\<close>

theorem root_level_names_become_relative:
  assumes "slash \<notin> set name" and "new_name \<noteq> []" and "new_name \<noteq> [dot]" and "new_name \<noteq> [dot, dot]" and "slash \<notin> set new_name"
  shows "rename_destination (job\<lparr>job_destination := TransferEndpoint.Remote (RemotePath (parent @ slash # name))\<rparr>) new_name =
      Inr (job\<lparr>job_destination := TransferEndpoint.Remote
        (RemotePath (if parent = [] then new_name else parent @ slash # new_name))\<rparr>) \<and>
    (parent \<noteq> [slash] \<longrightarrow> remote_temporary_path (RemotePath (parent @ slash # name)) i =
      RemotePath (if parent = [] then temporary_name name i else parent @ slash # temporary_name name i))"
  using assms by (simp add: rename_destination_def rsplit_once_simps remote_temporary_path_def temporary_name_def)

theorem root_level_names_become_relative_witness:
  "remote_temporary_path (RemotePath (lit ''/a'')) (TransferId 3) = RemotePath (lit ''.a.macsftp-part-3'')"
proof -
  have "slash \<notin> set (lit ''a'')" "lit ''b'' \<noteq> []" "lit ''b'' \<noteq> [dot]" "lit ''b'' \<noteq> [dot, dot]" "slash \<notin> set (lit ''b'')"
    by (simp_all add: lit_def)
  from root_level_names_become_relative[OF this, where parent = "[]" and i = "TransferId 3"]
  have "remote_temporary_path (RemotePath ([] @ slash # lit ''a'')) (TransferId 3) = RemotePath (temporary_name (lit ''a'') (TransferId 3))"
    by simp
  moreover have "[] @ slash # lit ''a'' = lit ''/a''" "temporary_name (lit ''a'') (TransferId 3) = lit ''.a.macsftp-part-3''"
    by (simp_all add: lit_def temporary_name_def decimal.simps)
  ultimately show ?thesis by simp
qed

section \<open>Links that pass through links\<close>

text \<open>What the file system does with the links of a folder, each relative to where it lies; \<open>fuel\<close> bounds the
  links followed, as the system does.\<close>

function resolve_links :: "nat \<Rightarrow> (rstr list \<Rightarrow> rstr option) \<Rightarrow> rstr list \<Rightarrow> rstr list \<Rightarrow> rstr list option" where
  "resolve_links fuel links dir [] = Some dir"
| "resolve_links fuel links dir (piece # pieces) =
     (if piece = [] \<or> piece = [dot] then resolve_links fuel links dir pieces
      else if piece = [dot, dot] then resolve_links fuel links (butlast dir) pieces
      else case links (dir @ [piece]) of
             None \<Rightarrow> resolve_links fuel links (dir @ [piece]) pieces
           | Some target \<Rightarrow> if fuel = 0 then None else resolve_links (fuel - 1) links dir (split_on slash target @ pieces))"
  by pat_completeness auto
termination
  by (relation "measures [\<lambda>(fuel, links, dir, pieces). fuel, \<lambda>(fuel, links, dir, pieces). length pieces]") auto

text \<open>
  accepted_links_compose_outside: the check judges each link by its text. A link to its own directory
  and a link that climbs out through it are both accepted, and together they lead out of the folder.
\<close>

theorem accepted_links_compose_outside:
  "let links = [([lit ''home'', lit ''dl'', lit ''a''], lit ''.''), ([lit ''home'', lit ''dl'', lit ''b''], lit ''a/a/../../etc'')]
   in list_all (\<lambda>(place, target).
         validate_download_symlink_target (Some (LocalPath (lit ''/home/dl''))) (LocalPath (slash # join_with slash place)) target = Inr ()) links \<and>
      resolve_links 40 (map_of links) [lit ''home'', lit ''dl''] [lit ''b''] = Some [lit ''etc'']"
  by (simp add: path_eval)

end
