(* ===== verification/Download_Planner_Laws.thy ===== *)
theory Download_Planner_Laws
  imports Download_Planner Transfer_Planner_Tree Download_Path_Laws
begin

text \<open>
  What the download planner guarantees whatever the server answers (every job stays below the destination,
  and the report is complete), and what it finds on a server that holds a tree.
\<close>

section \<open>Reports\<close>

interpretation remote_sender: batch_sender remote_flush_progress
  by unfold_locales
     (auto simp: remote_flush_progress_def is_cancelled_def send_event_def progress_event_def Let_def flushable_def
       flushed_def planning_def stopped_def reports_append PLAN_PROGRESS_BATCH_SIZE_def)

lemma remote_emit_ok: "planning plan ids p \<Longrightarrow> well_planned plan ids (remote_emit_child source destination n p)"
  unfolding remote_emit_child_def
  by (rule and_then_ok[OF ensure_ok], assumption)
     (auto intro!: remote_sender.queue_ok simp: Let_def about_to_queue_def child_job_def planning_def)

lemma scan_entries_ok: "planning plan ids p \<Longrightarrow> well_planned plan ids (scan_entries root destination entries p)"
proof (induction entries arbitrary: p)
  case (Cons entry entries)
  have after: "well_planned plan ids (and_then (scan_entries root destination entries q) (\<lambda>directories p. (Inr (f directories), p)))"
    if "planning plan ids q" for q and f :: "RemotePath list \<Rightarrow> RemotePath list"
    by (rule and_then_ok[OF Cons.IH[OF that]]) simp
  show ?case
    unfolding scan_entries.simps
    by (rule and_then_ok[OF ensure_ok[OF Cons.prems]])
       (auto simp: planning_stopped intro!: and_then_ok[OF remote_emit_ok] after split: option.splits sum.splits)
qed simp

section \<open>Destinations\<close>

definition lands_inside :: "LocalPath \<Rightarrow> TransferJob \<Rightarrow> bool" where
  "lands_inside root j \<longleftrightarrow>
     (\<exists>path names. job_destination j = TransferEndpoint.Local path \<and>
        components (local_str path) = components (local_str root) @ map Normal names)"

definition all_inside :: "LocalPath \<Rightarrow> Planner \<Rightarrow> bool" where
  "all_inside root p \<longleftrightarrow> list_all (lands_inside root) (pn_child_jobs p)"

abbreviation keeps_inside :: "LocalPath \<Rightarrow> 'a outcome \<Rightarrow> bool" where
  "keeps_inside root \<equiv> outcome_ok (all_inside root) (all_inside root)"

lemma keeps_insideI: "all_inside root (snd r) \<Longrightarrow> keeps_inside root r"
  by (cases r; cases "fst r") auto

lemma ensure_inside: "all_inside root p \<Longrightarrow> keeps_inside root (ensure_not_cancelled error p)"
  by (simp add: keeps_insideI ensure_not_cancelled_def is_cancelled_def Let_def all_inside_def)

lemma remote_emit_inside:
  assumes "all_inside root p" and "components (local_str destination) = components (local_str root) @ map Normal names"
  shows "keeps_inside root (remote_emit_child source destination n p)"
  unfolding remote_emit_child_def
  by (rule and_then_ok[OF ensure_inside[OF assms(1)]], rule keeps_insideI)
     (use assms(2) in \<open>auto simp: Let_def all_inside_def remote_sender.queue_jobs lands_inside_def child_job_def\<close>)

lemma normal_names: "list_all is_normal cs \<Longrightarrow> \<exists>names. cs = map Normal names"
proof (induction cs)
  case (Cons c cs)
  then obtain names where "cs = map Normal names" by auto
  with Cons show ?case by (cases c) (auto intro: exI[of _ "_ # names"])
qed simp

lemma scan_entries_inside:
  "all_inside destination p \<Longrightarrow> keeps_inside destination (scan_entries root destination entries p)"
proof (induction entries arbitrary: p)
  case (Cons entry entries)
  have after: "keeps_inside destination (and_then (scan_entries root destination entries q) (\<lambda>directories p. (Inr (f directories), p)))"
    if "all_inside destination q" for q and f :: "RemotePath list \<Rightarrow> RemotePath list"
    by (rule and_then_ok[OF Cons.IH[OF that]]) simp
  have emit: "keeps_inside destination (remote_emit_child source d n q)"
    if "all_inside destination q" "local_download_destination destination relative = Inr d" for q source d n relative
    using download_destination_inside[OF that(2)] normal_names remote_emit_inside[OF that(1)] by metis
  show ?case
    unfolding scan_entries.simps
    by (rule and_then_ok[OF ensure_inside[OF Cons.prems]])
       (auto intro!: and_then_ok[OF emit] after split: option.splits sum.splits)
qed simp

section \<open>The scan\<close>

definition scan_ok :: "TransferPlanId \<Rightarrow> (nat \<Rightarrow> TransferId) \<Rightarrow> Scan \<Rightarrow> bool" where
  "scan_ok plan ids s \<longleftrightarrow>
     (case sn_result s of
        None \<Rightarrow> planning plan ids (sn_planner s) \<and> sn_in_flight s \<noteq> [] \<and> all_inside (sn_destination_root s) (sn_planner s)
      | Some result \<Rightarrow> closed_report plan ids result (pn_events (sn_planner s)) \<and>
          (\<forall>jobs. result = Some jobs \<longrightarrow> jobs = pn_child_jobs (sn_planner s)))"

lemma close_scan_ok: "well_planned plan ids r \<Longrightarrow> scan_ok plan ids (close_scan s r)"
  using remote_sender.conclude_closed[of plan ids r] remote_sender.conclude_jobs(2)[of r]
  by (auto simp: close_scan_def scan_ok_def split: prod.splits)

lemma close_scan_jobs:
  "pn_child_jobs (sn_planner (close_scan s r)) = pn_child_jobs (snd r)" "sn_destination_root (close_scan s r) = sn_destination_root s"
  using remote_sender.conclude_jobs(1)[of r] by (auto simp: close_scan_def split: prod.splits)

lemma fill_scans_frame [simp]:
  "sn_planner (fill_scans s) = sn_planner s" "sn_destination_root (fill_scans s) = sn_destination_root s"
  "sn_root (fill_scans s) = sn_root s" "sn_result (fill_scans s) = sn_result s"
  by (induction s rule: fill_scans.induct; subst fill_scans.simps; simp)+

definition scan_safe :: "TransferPlanId \<Rightarrow> (nat \<Rightarrow> TransferId) \<Rightarrow> LocalPath \<Rightarrow> Scan \<Rightarrow> bool" where
  "scan_safe plan ids root s \<longleftrightarrow>
     scan_ok plan ids s \<and> all_inside root (sn_planner s) \<and> (sn_result s = None \<longrightarrow> sn_destination_root s = root)"

lemma close_scan_safe:
  "well_planned plan ids r \<Longrightarrow> all_inside root (snd r) \<Longrightarrow> scan_safe plan ids root (close_scan s r)"
  using close_scan_ok[of plan ids r s] close_scan_jobs(1)[of s r]
  by (auto simp: scan_safe_def all_inside_def close_scan_def split: prod.splits)

lemma scan_head_safe:
  assumes "planning plan ids (sn_planner s)" and "all_inside root (sn_planner s)" and "sn_destination_root s = root"
    and "sn_result s = None"
  shows "scan_safe plan ids root (scan_head s)"
proof -
  have r: "well_planned plan ids (ensure_not_cancelled cancelled_transfer_error (sn_planner s))"
    "keeps_inside root (ensure_not_cancelled cancelled_transfer_error (sn_planner s))"
    using ensure_ok[OF assms(1)] ensure_inside[OF assms(2)] .
  obtain e q where e: "ensure_not_cancelled cancelled_transfer_error (sn_planner s) = (e, q)" by fastforce
  show ?thesis
    using r assms(3,4) unfolding scan_head_def e
    by (cases e) (auto simp: Let_def intro!: close_scan_safe, auto simp: scan_safe_def scan_ok_def)
qed

lemma on_listing_safe:
  assumes "scan_safe plan ids root s" and "sn_result s = None"
  shows "scan_safe plan ids root (on_listing s k answer)"
proof (cases "k < length (sn_in_flight s)")
  case False
  then show ?thesis using assms by (simp add: on_listing_def)
next
  case True
  have s: "planning plan ids (sn_planner s)" "all_inside root (sn_planner s)" "sn_destination_root s = root"
    using assms by (auto simp: scan_safe_def scan_ok_def)
  show ?thesis
  proof (cases answer)
    case (Inl error)
    then show ?thesis using True s by (auto simp: on_listing_def Let_def planning_stopped intro!: close_scan_safe)
  next
    case (Inr entries)
    obtain e q where e: "scan_entries (sn_root s) root entries (sn_planner s) = (e, q)" by fastforce
    have r: "well_planned plan ids (e, q)" "keeps_inside root (e, q)"
      using scan_entries_ok[OF s(1)] scan_entries_inside[OF s(2)] unfolding e[symmetric] .
    show ?thesis
      using r True Inr e assms(2) s(3)
      by (cases e) (auto simp: on_listing_def Let_def intro!: close_scan_safe scan_head_safe)
  qed
qed

lemma scan_step_safe: "scan_safe plan ids root s \<Longrightarrow> scan_safe plan ids root (scan_step s event)"
  by (cases "sn_result s"; cases event)
     (auto simp: scan_step.simps on_listing_safe scan_safe_def[of _ _ _ s] scan_ok_def[of _ _ s] planning_stopped intro!: close_scan_safe)

lemma start_inside: "all_inside root (planner_new command plan created_at ids cancel receiver)"
  by (simp add: all_inside_def planner_new_def)

lemma plan_start_safe:
  fixes command :: StartTransferCommand
  defines "root \<equiv> LocalPath (endpoint_as_str (stc_destination command))"
  shows "scan_safe plan ids root (plan_remote_download metadata (planner_new command plan created_at ids cancel receiver))"
proof -
  let ?p = "planner_new command plan created_at ids cancel receiver"
  note p = planner_new_planning[of plan ids command created_at cancel receiver]
  have r: "well_planned plan ids (ensure_not_cancelled cancelled_transfer_error ?p)"
    "keeps_inside root (ensure_not_cancelled cancelled_transfer_error ?p)"
    using ensure_ok[OF p] ensure_inside[OF start_inside] .
  obtain e p1 where e: "ensure_not_cancelled cancelled_transfer_error ?p = (e, p1)" by fastforce
  have cmd: "pn_command p1 = command"
    using e by (auto simp: ensure_not_cancelled_def is_cancelled_def Let_def planner_new_def)
  show ?thesis
  proof (cases e)
    case (Inl error)
    then show ?thesis using r unfolding e by (simp add: plan_remote_download_def Let_def e close_scan_safe)
  next
    case (Inr u)
    then have p1: "planning plan ids p1" "all_inside root p1" using r unfolding e by simp_all
    show ?thesis
    proof (cases "download_preconditions p1")
      case (Inl error)
      then show ?thesis using Inr p1 by (simp add: plan_remote_download_def Let_def e close_scan_safe planning_stopped)
    next
      case pre: (Inr ends)
      then obtain source where ends: "ends = (source, root)"
        by (auto simp: download_preconditions_def cmd root_def split: if_splits list.splits TransferEndpoint.splits)
      obtain m p2 where m: "remote_metadata metadata p1 = (m, p2)" by fastforce
      have p2: "planning plan ids p2" "all_inside root p2"
        using m p1 by (auto simp: remote_metadata_def is_cancelled_def Let_def all_inside_def)
      have emit: "well_planned plan ids (remote_emit_child source root n p2)" "keeps_inside root (remote_emit_child source root n p2)" for n
        using remote_emit_ok[OF p2(1)] remote_emit_inside[OF p2(2), of root "[]"] by simp_all
      have all: "all_inside root (snd (remote_emit_child source root n p2))" for n
        using emit(2)[of n] by (cases "remote_emit_child source root n p2"; cases "fst (remote_emit_child source root n p2)") auto
      show ?thesis
      proof (cases m)
        case (Inl error)
        then show ?thesis using Inr pre ends m p2
          by (simp add: plan_remote_download_def Let_def e close_scan_safe planning_stopped)
      next
        case meta: (Inr md)
        obtain is_dir n where md: "md = (is_dir, n)" by fastforce
        obtain e3 p3 where e3: "remote_emit_child source root (Some 0) p2 = (e3, p3)" by fastforce
        show ?thesis
        proof (cases is_dir)
          case False
          then show ?thesis using Inr pre ends m meta md emit(1) all
            by (simp add: plan_remote_download_def Let_def e close_scan_safe)
        next
          case True
          then show ?thesis
            using Inr pre ends m meta md e3 emit[of "Some 0"] unfolding e3
            by (cases e3) (auto simp: plan_remote_download_def Let_def e e3 intro!: close_scan_safe scan_head_safe)
        qed
      qed
    qed
  qed
qed

interpretation download_scan: state_machine
  "\<lambda>s. \<exists>metadata created_at cancel receiver. s = plan_remote_download metadata (planner_new command plan created_at ids cancel receiver)"
  scan_step "scan_safe plan ids (LocalPath (endpoint_as_str (stc_destination command)))"
  for command plan ids
  by unfold_locales (auto intro: plan_start_safe scan_step_safe)

section \<open>A server that holds a tree\<close>

text \<open>Every node carries the path the server lists it under.\<close>

datatype RNode = RFile (rpath: RemotePath) "u64 option" | RFolder (rpath: RemotePath) "RNode list"

fun is_folder :: "RNode \<Rightarrow> bool" where
  "is_folder (RFolder _ _) = True"
| "is_folder (RFile _ _) = False"

fun rsize :: "RNode \<Rightarrow> u64 option" where
  "rsize (RFile _ n) = n"
| "rsize (RFolder _ _) = Some 0"

fun below :: "RNode \<Rightarrow> RNode list" where
  "below (RFolder _ nodes) = nodes @ concat (map below nodes)"
| "below (RFile _ _) = []"

fun rfolders :: "RNode \<Rightarrow> nat" where
  "rfolders (RFolder _ nodes) = 1 + sum_list (map rfolders nodes)"
| "rfolders (RFile _ _) = 0"

fun served :: "(RemotePath \<Rightarrow> RemoteDirEntry list) \<Rightarrow> RNode \<Rightarrow> bool" where
  "served ls (RFolder path nodes) \<longleftrightarrow>
     ls path = map (\<lambda>n. \<lparr>rde_path = rpath n, rde_is_dir = is_folder n, rde_size = rsize n\<rparr>) nodes \<and> list_all (served ls) nodes"
| "served ls (RFile _ _) = True"

definition place :: "RemotePath \<Rightarrow> LocalPath \<Rightarrow> RNode \<Rightarrow> LocalPath option" where
  "place root destination n =
     (case relative_path root (rpath n) of
        None \<Rightarrow> None
      | Some relative \<Rightarrow> (case local_download_destination destination relative of Inl _ \<Rightarrow> None | Inr d \<Rightarrow> Some d))"

definition download_ends :: "RemotePath \<Rightarrow> LocalPath \<Rightarrow> RNode \<Rightarrow> TransferEndpoint \<times> TransferEndpoint" where
  "download_ends root destination n =
     (TransferEndpoint.Remote (rpath n), TransferEndpoint.Local (the (place root destination n)))"

definition add_known :: "u64 option \<Rightarrow> u64 option \<Rightarrow> u64 option" where
  "add_known t n = (case (t, n) of (Some t, Some n) \<Rightarrow> checked_add t n | _ \<Rightarrow> None)"

text \<open>\<open>found p ends sizes p'\<close>: from \<open>p\<close> to \<open>p'\<close> jobs between these ends and of these sizes were planned.\<close>

definition found :: "Planner \<Rightarrow> (TransferEndpoint \<times> TransferEndpoint) list \<Rightarrow> u64 option list \<Rightarrow> Planner \<Rightarrow> bool" where
  "found p ends sizes p' \<longleftrightarrow>
     calm p' \<and> pn_command p' = pn_command p \<and>
     map job_ends (pn_child_jobs p') = map job_ends (pn_child_jobs p) @ ends \<and>
     pn_total_bytes p' = foldl add_known (pn_total_bytes p) sizes"

lemma found_refl: "calm p \<Longrightarrow> found p [] [] p"
  by (simp add: found_def)

lemma found_trans: "found p xs ms q \<Longrightarrow> found q ys ns r \<Longrightarrow> found p (xs @ ys) (ms @ ns) r"
  by (simp add: found_def)

lemma remote_emit_calm:
  assumes "calm p"
  shows "\<exists>p'. remote_emit_child source destination n p = (Inr (), p') \<and>
    found p [(TransferEndpoint.Remote source, TransferEndpoint.Local destination)] [n] p'"
proof -
  let ?p = "p\<lparr>pn_planned_count := pn_planned_count p + 1, pn_total_bytes := add_known (pn_total_bytes p) n\<rparr>"
  let ?j = "child_job ?p TransferDirection.Download (TransferEndpoint.Remote source) (TransferEndpoint.Local destination)"
  let ?q = "?p\<lparr>pn_child_jobs := pn_child_jobs ?p @ [?j], pn_pending_progress := pn_pending_progress ?p @ [?j]\<rparr>"
  let ?found = "found p [(TransferEndpoint.Remote source, TransferEndpoint.Local destination)] [n]"
  have q: "?found ?q" using assms by (simp add: found_def calm_def job_ends_def child_job_def)
  have e: "remote_emit_child source destination n p = queue_progress remote_flush_progress ?j ?p"
    using assms by (simp add: remote_emit_child_def ensure_calm add_known_def Let_def)
  obtain q' where "remote_flush_progress ?q = (Inr (), q')" "?found q'"
    using assms q by (auto simp: remote_flush_progress_def is_cancelled_def send_event_def Let_def calm_def found_def)
  with q show ?thesis unfolding e queue_progress_def Let_def by auto
qed

lemma scan_entries_calm:
  assumes "calm p" and "list_all (\<lambda>n. place root destination n \<noteq> None) nodes"
  shows "\<exists>p'. scan_entries root destination
             (map (\<lambda>n. \<lparr>rde_path = rpath n, rde_is_dir = is_folder n, rde_size = rsize n\<rparr>) nodes) p =
           (Inr (map rpath (filter is_folder nodes)), p') \<and>
           found p (map (download_ends root destination) nodes) (map rsize nodes) p'"
  using assms
proof (induction nodes arbitrary: p)
  case Nil
  then show ?case by (simp add: found_refl)
next
  case (Cons n nodes)
  obtain relative d where d: "relative_path root (rpath n) = Some relative"
      "local_download_destination destination relative = Inr d" "place root destination n = Some d"
    using Cons.prems(2) by (auto simp: place_def split: option.splits sum.splits)
  obtain q where q: "remote_emit_child (rpath n) d (rsize n) p = (Inr (), q)"
      "found p [download_ends root destination n] [rsize n] q"
    using remote_emit_calm[OF Cons.prems(1)] d(3) by (fastforce simp: download_ends_def)
  obtain r where r: "scan_entries root destination
        (map (\<lambda>n. \<lparr>rde_path = rpath n, rde_is_dir = is_folder n, rde_size = rsize n\<rparr>) nodes) q =
        (Inr (map rpath (filter is_folder nodes)), r)"
      "found q (map (download_ends root destination) nodes) (map rsize nodes) r"
    using Cons.IH[of q] Cons.prems(2) q(2) by (auto simp: found_def)
  show ?case
    using found_trans[OF q(2) r(2)] q(1) r(1) d Cons.prems(1) by (cases n) (auto simp: ensure_calm)
qed

lemma perm_sum:
  fixes g :: "'a \<Rightarrow> 'b::comm_monoid_add"
  shows "mset xs = mset ys \<Longrightarrow> sum_list (map g xs) = sum_list (map g ys)"
  by (metis mset_map sum_mset_sum_list)

text \<open>Filling the window moves folders from the stack into it.\<close>

lemma fill_tree:
  assumes "sn_in_flight s = map rpath flight" and "sn_pending_directories s = map rpath pending"
  shows "\<exists>flight' pending'. sn_in_flight (fill_scans s) = map rpath flight' \<and>
           sn_pending_directories (fill_scans s) = map rpath pending' \<and>
           mset flight' + mset pending' = mset flight + mset pending \<and> (flight' = [] \<longrightarrow> pending' = [])"
  using assms
proof (induction s arbitrary: flight pending rule: fill_scans.induct)
  case (1 s)
  show ?case
  proof (cases "length (sn_in_flight s) < MAX_CONCURRENT_DIR_SCANS \<and> sn_pending_directories s \<noteq> []")
    case True
    let ?s = "s\<lparr>sn_in_flight := sn_in_flight s @ [last (sn_pending_directories s)],
      sn_pending_directories := butlast (sn_pending_directories s)\<rparr>"
    have ne: "pending \<noteq> []" using True 1(3) by auto
    have "fill_scans s = fill_scans ?s" using True by (subst fill_scans.simps) simp
    moreover have "sn_in_flight ?s = map rpath (flight @ [last pending])" "sn_pending_directories ?s = map rpath (butlast pending)"
      using 1(2,3) ne by (simp_all add: last_map map_butlast)
    moreover have "mset (flight @ [last pending]) + mset (butlast pending) = mset flight + mset pending"
      using ne by (cases pending rule: rev_cases) simp_all
    ultimately show ?thesis using 1(1)[OF True] by metis
  next
    case False
    then have "fill_scans s = s" by (subst fill_scans.simps) (simp only: if_False)
    moreover have "flight = [] \<longrightarrow> pending = []" using False 1(2,3) by (simp add: MAX_CONCURRENT_DIR_SCANS_def)
    ultimately show ?thesis using 1(2,3) by metis
  qed
qed

definition ends_of :: "RemotePath \<Rightarrow> LocalPath \<Rightarrow> RNode list \<Rightarrow> (TransferEndpoint \<times> TransferEndpoint) list" where
  "ends_of root destination nodes =
     (TransferEndpoint.Remote root, TransferEndpoint.Local destination) # map (download_ends root destination) nodes"

text \<open>
  \<open>seen\<close> are the nodes planned so far, \<open>todo\<close> the folders still to be read; together they are
  the tree.
\<close>

definition scan_state ::
  "(RemotePath \<Rightarrow> RemoteDirEntry list) \<Rightarrow> RNode \<Rightarrow> LocalPath \<Rightarrow> Planner \<Rightarrow> RNode list \<Rightarrow> RNode list \<Rightarrow> Scan \<Rightarrow> bool" where
  "scan_state ls tree destination p0 seen todo s \<longleftrightarrow>
     sn_root s = rpath tree \<and> sn_destination_root s = destination \<and> sn_result s = None \<and>
     found p0 (ends_of (rpath tree) destination seen) (Some 0 # map rsize seen) (sn_planner s) \<and>
     list_all (\<lambda>n. is_folder n \<and> served ls n \<and> list_all (\<lambda>m. place (rpath tree) destination m \<noteq> None) (below n)) todo \<and>
     mset seen + mset (concat (map below todo)) = mset (below tree)"

definition in_progress ::
  "(RemotePath \<Rightarrow> RemoteDirEntry list) \<Rightarrow> RNode \<Rightarrow> LocalPath \<Rightarrow> Planner \<Rightarrow> nat \<Rightarrow> Scan \<Rightarrow> bool" where
  "in_progress ls tree destination p0 n s \<longleftrightarrow>
     (\<exists>seen flight pending. scan_state ls tree destination p0 seen (flight @ pending) s \<and>
        sn_in_flight s = map rpath flight \<and> sn_pending_directories s = map rpath pending \<and> flight \<noteq> [] \<and>
        sum_list (map rfolders (flight @ pending)) = n)"

definition all_planned :: "RNode \<Rightarrow> LocalPath \<Rightarrow> Planner \<Rightarrow> Scan \<Rightarrow> bool" where
  "all_planned tree destination p0 s \<longleftrightarrow>
     (\<exists>seen jobs. sn_result s = Some (Some jobs) \<and> mset seen = mset (below tree) \<and>
        map job_ends jobs = map job_ends (pn_child_jobs p0) @ ends_of (rpath tree) destination seen \<and>
        pn_total_bytes (sn_planner s) = foldl add_known (pn_total_bytes p0) (Some 0 # map rsize seen))"

lemma close_calm:
  assumes "calm p"
  shows "\<exists>p'. close_scan s (Inr (), p) = s\<lparr>sn_planner := p', sn_in_flight := [], sn_result := Some (Some (pn_child_jobs p))\<rparr> \<and>
    pn_total_bytes p' = pn_total_bytes p"
  using assms
  by (auto simp: close_scan_def conclude_def plan_finish_def is_cancelled_def remote_flush_progress_def send_event_def Let_def calm_def)

lemma scan_head_tree:
  assumes state: "scan_state ls tree destination p0 seen (flight @ pending) s"
    and "sn_in_flight s = map rpath flight" and "sn_pending_directories s = map rpath pending"
    and n: "sum_list (map rfolders (flight @ pending)) = n"
  shows "in_progress ls tree destination p0 n (scan_head s) \<or> n = 0 \<and> all_planned tree destination p0 (scan_head s)"
proof -
  have calm: "calm (sn_planner s)" using state by (simp add: scan_state_def found_def)
  have head: "scan_head s = (let s' = fill_scans s in if sn_in_flight s' = [] then close_scan s' (Inr (), sn_planner s') else s')"
    by (simp add: scan_head_def ensure_calm[OF calm])
  obtain flight' pending' where f: "sn_in_flight (fill_scans s) = map rpath flight'"
      "sn_pending_directories (fill_scans s) = map rpath pending'"
      "mset flight' + mset pending' = mset flight + mset pending" "flight' = [] \<longrightarrow> pending' = []"
    using fill_tree[OF assms(2,3)] by blast
  have m: "mset (flight' @ pending') = mset (flight @ pending)" using f(3) by simp
  then have same: "set (flight' @ pending') = set (flight @ pending)" by (rule mset_eq_setD)
  have folds: "sum_list (map g (flight' @ pending')) = sum_list (map g (flight @ pending))" for g :: "RNode \<Rightarrow> nat"
    by (rule perm_sum[OF m])
  have cat: "mset (concat (map below (flight' @ pending'))) = mset (concat (map below (flight @ pending)))"
    using perm_sum[OF m, of "mset \<circ> below"] by (simp only: mset_concat map_map)
  have state': "scan_state ls tree destination p0 seen (flight' @ pending') (fill_scans s)"
    using state cat same unfolding scan_state_def list_all_iff by simp
  show ?thesis
  proof (cases "flight' = []")
    case False
    then have "in_progress ls tree destination p0 n (scan_head s)"
      using state' f(1,2) folds[of rfolders] n unfolding in_progress_def head
      by (intro exI[of _ seen] exI[of _ flight'] exI[of _ pending']) simp
    then show ?thesis ..
  next
    case True
    then have empty: "flight' @ pending' = []" using f(4) by simp
    then have "n = 0" using folds[of rfolders] n by (simp only: list.map sum_list.Nil)
    have seen: "mset seen = mset (below tree)" using state' unfolding empty scan_state_def by simp
    obtain p' where p': "close_scan (fill_scans s) (Inr (), sn_planner (fill_scans s)) =
        (fill_scans s)\<lparr>sn_planner := p', sn_in_flight := [], sn_result := Some (Some (pn_child_jobs (sn_planner s)))\<rparr>"
        "pn_total_bytes p' = pn_total_bytes (sn_planner s)"
      using close_calm[of "sn_planner (fill_scans s)" "fill_scans s"] calm by auto
    have "all_planned tree destination p0 (scan_head s)"
      using state seen p' True f(1) unfolding head all_planned_def by (auto simp: scan_state_def found_def)
    with \<open>n = 0\<close> show ?thesis by simp
  qed
qed

lemma only_folders_count:
  "sum_list (map rfolders nodes) = sum_list (map rfolders (filter is_folder nodes))"
  "mset (concat (map below nodes)) = mset (concat (map below (filter is_folder nodes)))"
proof (induction nodes)
  case (Cons n nodes)
  { case 1 show ?case using Cons by (cases n) simp_all }
  { case 2 show ?case using Cons by (cases n) simp_all }
qed simp_all

lemma mset_remove_nth: "k < length xs \<Longrightarrow> mset xs = add_mset (xs ! k) (mset (remove_at k xs))"
  by (subst id_take_nth_drop[of k xs]) (simp_all add: remove_at_def)

lemma map_remove_at: "map f (remove_at k xs) = remove_at k (map f xs)"
  by (simp add: remove_at_def take_map drop_map)

abbreviation answer_scan :: "(RemotePath \<Rightarrow> RemoteDirEntry list) \<Rightarrow> Scan \<Rightarrow> nat \<Rightarrow> Scan" where
  "answer_scan ls s k \<equiv> scan_step s (ListingArrives k (Inr (ls (sn_in_flight s ! k))))"

lemma scan_step_tree:
  assumes prog: "in_progress ls tree destination p0 n s" and k: "k < length (sn_in_flight s)"
  shows "in_progress ls tree destination p0 (n - 1) (answer_scan ls s k) \<or> n = 1 \<and> all_planned tree destination p0 (answer_scan ls s k)"
    and "0 < n"
proof -
  obtain seen flight pending where st: "scan_state ls tree destination p0 seen (flight @ pending) s"
      "sn_in_flight s = map rpath flight" "sn_pending_directories s = map rpath pending"
      "sum_list (map rfolders (flight @ pending)) = n"
    using prog by (auto simp: in_progress_def)
  have k': "k < length flight" using k st(2) by simp
  then have "flight ! k \<in> set (flight @ pending)" by simp
  then have ready: "is_folder (flight ! k)" "served ls (flight ! k)"
      "list_all (\<lambda>m. place (rpath tree) destination m \<noteq> None) (below (flight ! k))"
    using st(1) unfolding scan_state_def list_all_iff by auto
  then obtain path nodes where node: "flight ! k = RFolder path nodes" by (cases "flight ! k") auto
  let ?dirs = "filter is_folder nodes" and ?rest = "remove_at k flight"
  have ls: "ls (sn_in_flight s ! k) = map (\<lambda>n. \<lparr>rde_path = rpath n, rde_is_dir = is_folder n, rde_size = rsize n\<rparr>) nodes"
    using ready(2) k' by (simp add: st(2) node)
  have calm: "calm (sn_planner s)" using st(1) by (simp add: scan_state_def found_def)
  have places: "list_all (\<lambda>m. place (rpath tree) destination m \<noteq> None) nodes" using ready(3) by (simp add: node)
  obtain q where q: "scan_entries (rpath tree) destination (ls (sn_in_flight s ! k)) (sn_planner s) = (Inr (map rpath ?dirs), q)"
      "found (sn_planner s) (map (download_ends (rpath tree) destination) nodes) (map rsize nodes) q"
    using scan_entries_calm[OF calm places] unfolding ls by blast
  have before: "found p0 (ends_of (rpath tree) destination seen) (Some 0 # map rsize seen) (sn_planner s)"
    using st(1) by (simp add: scan_state_def)
  let ?s = "s\<lparr>sn_in_flight := remove_at k (sn_in_flight s), sn_planner := q,
    sn_pending_directories := sn_pending_directories s @ map rpath ?dirs\<rparr>"
  have e: "answer_scan ls s k = scan_head ?s"
    using st(1) k q(1) by (simp add: scan_state_def scan_step.simps on_listing_def)
  have flight: "mset flight = add_mset (RFolder path nodes) (mset ?rest)" using mset_remove_nth[OF k'] node by simp
  have todo: "mset (flight @ pending) = add_mset (RFolder path nodes) (mset (?rest @ pending))" using flight by simp
  have sums: "sum_list (map g (flight @ pending)) = g (RFolder path nodes) + sum_list (map g (?rest @ pending))"
    for g :: "RNode \<Rightarrow> 'm::comm_monoid_add"
    using perm_sum[of "flight @ pending" "RFolder path nodes # ?rest @ pending" g] todo by simp
  have n: "n = Suc (sum_list (map rfolders (?rest @ pending @ ?dirs)))"
    using sums[of rfolders] st(4) only_folders_count(1)[of nodes] by simp
  then show "0 < n" by simp
  have cat: "mset (concat (map below (flight @ pending))) = mset nodes + mset (concat (map below (?rest @ pending @ ?dirs)))"
    using sums[of "mset \<circ> below"] only_folders_count(2)[of nodes] by (simp add: mset_concat comp_def ac_simps)
  have "list_all (\<lambda>n. is_folder n \<and> served ls n \<and> list_all (\<lambda>m. place (rpath tree) destination m \<noteq> None) (below n)) (?rest @ pending @ ?dirs)"
    using st(1) ready(2,3) unfolding scan_state_def list_all_iff node
    by (auto simp: remove_at_def list_all_iff dest: in_set_takeD in_set_dropD)
  moreover have "found p0 (ends_of (rpath tree) destination (seen @ nodes)) (Some 0 # map rsize (seen @ nodes)) q"
    using found_trans[OF before q(2)] by (simp add: ends_of_def)
  ultimately have "scan_state ls tree destination p0 (seen @ nodes) (?rest @ pending @ ?dirs) ?s"
    using st(1) cat by (simp add: scan_state_def ac_simps)
  from scan_head_tree[OF this, of "n - 1"] n
  show "in_progress ls tree destination p0 (n - 1) (answer_scan ls s k) \<or> n = 1 \<and> all_planned tree destination p0 (answer_scan ls s k)"
    unfolding e by (auto simp: st(2,3) map_remove_at)
qed

primrec answered :: "(RemotePath \<Rightarrow> RemoteDirEntry list) \<Rightarrow> Scan \<Rightarrow> nat list \<Rightarrow> bool" where
  "answered ls s [] = True"
| "answered ls s (k # ks) = (sn_result s = None \<and> k < length (sn_in_flight s) \<and> answered ls (answer_scan ls s k) ks)"

lemma answered_tree:
  "in_progress ls tree destination p0 n s \<Longrightarrow> answered ls s ks \<Longrightarrow>
   length ks < n \<and> in_progress ls tree destination p0 (n - length ks) (foldl (answer_scan ls) s ks) \<or>
   length ks = n \<and> all_planned tree destination p0 (foldl (answer_scan ls) s ks)"
proof (induction ks arbitrary: s n)
  case Nil
  then have "sn_in_flight s \<noteq> []" by (auto simp: in_progress_def)
  then have "0 < n" using scan_step_tree(2)[OF Nil(1), of 0] by simp
  with Nil show ?case by simp
next
  case (Cons k ks)
  have k: "k < length (sn_in_flight s)" using Cons.prems(2) by simp
  note step = scan_step_tree[OF Cons.prems(1) k]
  show ?case
  proof (cases "in_progress ls tree destination p0 (n - 1) (answer_scan ls s k)")
    case True
    then show ?thesis using Cons.IH[OF True] Cons.prems(2) step(2) by auto
  next
    case False
    then have fin: "n = 1" "all_planned tree destination p0 (answer_scan ls s k)" using step(1) by auto
    then have "ks = []" using Cons.prems(2) by (cases ks) (auto simp: all_planned_def)
    with fin show ?thesis by simp
  qed
qed

lemma start_tree:
  assumes command: "stc_direction command = TransferDirection.Download" "stc_sources command = [TransferEndpoint.Remote root]"
      "stc_destination command = TransferEndpoint.Local destination"
    and tree: "tree = RFolder root nodes" "served ls tree" "list_all (\<lambda>m. place root destination m \<noteq> None) (below tree)"
  shows "in_progress ls tree destination (planner_new command plan created_at ids None None) (rfolders tree)
    (plan_remote_download (Inr (True, size_bytes)) (planner_new command plan created_at ids None None))"
proof -
  let ?p = "planner_new command plan created_at ids None None"
  have calm: "calm ?p" by (simp add: calm_def planner_new_def)
  have cmd: "pn_command ?p = command" by (simp add: planner_new_def)
  have pre: "download_preconditions ?p = Inr (root, destination)"
    using command by (simp add: download_preconditions_def cmd)
  have meta: "remote_metadata (Inr (True, size_bytes)) ?p = (Inr (True, size_bytes), ?p)"
    by (simp add: remote_metadata_def is_cancelled_def planner_new_def)
  obtain q where q: "remote_emit_child root destination (Some 0) ?p = (Inr (), q)"
      "found ?p [(TransferEndpoint.Remote root, TransferEndpoint.Local destination)] [Some 0] q"
    using remote_emit_calm[OF calm] by blast
  let ?s = "\<lparr>sn_planner = q, sn_root = root, sn_destination_root = destination, sn_pending_directories = [root],
    sn_in_flight = [], sn_result = None\<rparr>"
  have e: "plan_remote_download (Inr (True, size_bytes)) ?p = scan_head ?s"
    by (simp add: plan_remote_download_def Let_def ensure_calm[OF calm] pre meta q(1))
  have "scan_state ls tree destination ?p [] ([] @ [tree]) ?s"
    using q(2) tree by (simp add: scan_state_def ends_of_def)
  then show ?thesis
    unfolding e using scan_head_tree[of ls tree destination ?p "[]" "[]" "[tree]" ?s "rfolders tree"] tree(1) by simp
qed

lemma add_known_sum:
  "foldl add_known (if known \<and> s < 2 ^ 64 then Some (of_nat s) else None) ns =
   (let n = s + sum_list (map (unat \<circ> the) ns)
    in if known \<and> list_all (\<lambda>n. n \<noteq> None) ns \<and> n < 2 ^ 64 then Some (of_nat n) else None)"
proof (induction ns arbitrary: s known)
  case (Cons n ns)
  have "add_known (if known \<and> s < 2 ^ 64 then Some (of_nat s) else None) n =
      (if (known \<and> n \<noteq> None) \<and> s + unat (the n) < 2 ^ 64 then Some (of_nat (s + unat (the n))) else None)"
    by (auto simp: add_known_def checked_add_unat unsigned_of_nat take_bit_eq_mod split: option.splits)
  then show ?case using Cons.IH[of "known \<and> n \<noteq> None" "s + unat (the n)"] by (simp add: add.assoc conj_ac)
qed simp

section \<open>Properties\<close>

text \<open>
  C28 (download_plan_stays_inside): whatever the server lists (names with slashes, parent references, absolute
  paths, changing directories), in whatever order and with whatever errors and cancels, every job the planner
  makes writes below the chosen destination: its local path is the destination followed by ordinary names.
  When the planner is finished its progress events report the jobs in order, and it hands jobs out exactly
  if it reported the plan complete.
\<close>

theorem download_plan_stays_inside:
  assumes "s = foldl scan_step (plan_remote_download metadata (planner_new command plan created_at ids cancel receiver)) events"
  shows "(\<forall>j \<in> set (pn_child_jobs (sn_planner s)).
            (\<exists>path names. job_destination j = TransferEndpoint.Local path \<and>
               components (local_str path) = components (endpoint_as_str (stc_destination command)) @ map Normal names)) \<and>
         (\<forall>result. sn_result s = Some result \<longrightarrow> closed_report plan ids result (pn_events (sn_planner s)))"
proof -
  have "scan_safe plan ids (LocalPath (endpoint_as_str (stc_destination command))) s"
    unfolding assms by (rule download_scan.reachable_inv) blast
  then show ?thesis
    by (auto simp: scan_safe_def scan_ok_def all_inside_def lands_inside_def list_all_iff)
qed

text \<open>
  C29 (download_plan_mirrors_tree): on a server that holds a finite tree of acceptable names and in the absence of
  errors, a folder download is planned after exactly one answer per folder, in whatever order the answers come:
  until then a listing is in flight; then the jobs are the folder and every node below it exactly once, each at
  the place that mirrors it, and the announced size is the sum of the sizes if all are known and it fits.
\<close>

theorem download_plan_mirrors_tree:
  assumes "stc_direction command = TransferDirection.Download" and "stc_sources command = [TransferEndpoint.Remote root]"
    and "stc_destination command = TransferEndpoint.Local destination"
    and "tree = RFolder root nodes" and "served ls tree" and "list_all (\<lambda>m. place root destination m \<noteq> None) (below tree)"
    and "s0 = plan_remote_download (Inr (True, size_bytes)) (planner_new command plan created_at ids None None)"
    and "answered ls s0 ks"
    and "s = foldl (\<lambda>s k. scan_step s (ListingArrives k (Inr (ls (sn_in_flight s ! k))))) s0 ks"
  shows "length ks < rfolders tree \<and> sn_result s = None \<and> sn_in_flight s \<noteq> [] \<or>
    length ks = rfolders tree \<and>
    (\<exists>jobs. sn_result s = Some (Some jobs) \<and>
       mset (map job_ends jobs) = add_mset (TransferEndpoint.Remote root, TransferEndpoint.Local destination)
         (mset (map (download_ends root destination) (below tree))) \<and>
       pn_total_bytes (sn_planner s) =
         (let n = sum_list (map (unat \<circ> the \<circ> rsize) (below tree))
          in if list_all (\<lambda>m. rsize m \<noteq> None) (below tree) \<and> n < 2 ^ 64 then Some (of_nat n) else None))"
proof -
  let ?p = "planner_new command plan created_at ids None None"
  have start: "in_progress ls tree destination ?p (rfolders tree) s0"
    unfolding assms(7) by (rule start_tree[OF assms(1-6)])
  from answered_tree[OF start assms(8)] show ?thesis
  proof (elim disjE conjE)
    assume "length ks < rfolders tree" "in_progress ls tree destination ?p (rfolders tree - length ks) (foldl (answer_scan ls) s0 ks)"
    then show ?thesis using assms(9) by (auto simp: in_progress_def scan_state_def)
  next
    assume len: "length ks = rfolders tree" and "all_planned tree destination ?p (foldl (answer_scan ls) s0 ks)"
    then obtain seen jobs where j: "sn_result s = Some (Some jobs)" "mset seen = mset (below tree)"
        "map job_ends jobs = ends_of root destination seen"
        "pn_total_bytes (sn_planner s) = foldl add_known (Some 0) (Some 0 # map rsize seen)"
      using assms(4,9) by (auto simp: all_planned_def planner_new_def)
    have "mset (map job_ends jobs) = add_mset (TransferEndpoint.Remote root, TransferEndpoint.Local destination)
        (mset (map (download_ends root destination) (below tree)))"
      using j(2) unfolding j(3) ends_of_def by simp
    moreover have "sum_list (map (unat \<circ> the \<circ> rsize) seen) = sum_list (map (unat \<circ> the \<circ> rsize) (below tree))"
      by (rule perm_sum[OF j(2)])
    moreover have "list_all (\<lambda>m. rsize m \<noteq> None) seen \<longleftrightarrow> list_all (\<lambda>m. rsize m \<noteq> None) (below tree)"
      using mset_eq_setD[OF j(2)] by (simp add: list_all_iff)
    moreover have "pn_total_bytes (sn_planner s) = (let n = sum_list (map (unat \<circ> the \<circ> rsize) seen)
        in if list_all (\<lambda>m. rsize m \<noteq> None) seen \<and> n < 2 ^ 64 then Some (of_nat n) else None)"
      using j(4) add_known_sum[of True 0 "Some 0 # map rsize seen"] by (simp add: comp_def list_all_iff)
    ultimately show ?thesis using len j(1) by auto
  qed
qed

definition demo_download :: Planner where
  "demo_download = planner_new (demo_command TransferDirection.Download (TransferEndpoint.Remote (RemotePath (lit ''/r'')))
     (TransferEndpoint.Local (LocalPath (lit ''/dl'')))) (TransferPlanId 1) 0 (\<lambda>k. TransferId (of_nat k)) None None"

definition demo_tree :: RNode where
  "demo_tree = RFolder (RemotePath (lit ''/r''))
     [RFolder (RemotePath (lit ''/r/s'')) [RFile (RemotePath (lit ''/r/s/b'')) (Some 7)], RFile (RemotePath (lit ''/r/a'')) (Some 5)]"

definition demo_listing :: "RemotePath \<Rightarrow> RemoteDirEntry list" where
  "demo_listing path =
     (if path = RemotePath (lit ''/r'')
      then [\<lparr>rde_path = RemotePath (lit ''/r/s''), rde_is_dir = True, rde_size = Some 0\<rparr>,
            \<lparr>rde_path = RemotePath (lit ''/r/a''), rde_is_dir = False, rde_size = Some 5\<rparr>]
      else if path = RemotePath (lit ''/r/s'')
      then [\<lparr>rde_path = RemotePath (lit ''/r/s/b''), rde_is_dir = False, rde_size = Some 7\<rparr>] else [])"

text \<open>A listing that tries to climb out of the folder ends the plan; the folder's own job stays where it belongs.\<close>

definition hostile_listing :: ScanEvent where
  "hostile_listing = ListingArrives 0 (Inr [\<lparr>rde_path = RemotePath (lit ''/r/../etc''), rde_is_dir = False, rde_size = Some 1\<rparr>])"

theorem download_plan_stays_inside_witness:
  "\<exists>path names. job_destination (hd (pn_child_jobs (sn_planner (foldl scan_step (plan_remote_download (Inr (True, None)) demo_download)
       [hostile_listing])))) = TransferEndpoint.Local path \<and>
     components (local_str path) = components (lit ''/dl'') @ map Normal names"
proof -
  let ?s = "foldl scan_step (plan_remote_download (Inr (True, None)) demo_download) [hostile_listing]"
  have "pn_child_jobs (sn_planner ?s) \<noteq> []" by code_simp
  then have "hd (pn_child_jobs (sn_planner ?s)) \<in> set (pn_child_jobs (sn_planner ?s))" by simp
  moreover have "stc_destination (demo_command TransferDirection.Download (TransferEndpoint.Remote (RemotePath (lit ''/r'')))
      (TransferEndpoint.Local (LocalPath (lit ''/dl'')))) = TransferEndpoint.Local (LocalPath (lit ''/dl''))" by (simp add: demo_command_def)
  ultimately show ?thesis
    using download_plan_stays_inside[OF refl, of "Inr (True, None)"
      "demo_command TransferDirection.Download (TransferEndpoint.Remote (RemotePath (lit ''/r''))) (TransferEndpoint.Local (LocalPath (lit ''/dl'')))"
      "TransferPlanId 1" 0 "\<lambda>k. TransferId (of_nat k)" None None "[hostile_listing]"]
    unfolding demo_download_def[symmetric] by simp
qed

lemmas demo_places = place_def relative_path_def strip_prefix_def trim_start_matches_def local_download_destination_def
  path_join_def path_eval

theorem download_plan_mirrors_tree_witness:
  "\<exists>jobs s. s = foldl (\<lambda>s k. scan_step s (ListingArrives k (Inr (demo_listing (sn_in_flight s ! k)))))
       (plan_remote_download (Inr (True, None)) demo_download) [0, 0] \<and>
     sn_result s = Some (Some jobs) \<and> size (mset (map job_ends jobs)) = 4 \<and> pn_total_bytes (sn_planner s) = Some 12"
proof -
  let ?c = "demo_command TransferDirection.Download (TransferEndpoint.Remote (RemotePath (lit ''/r''))) (TransferEndpoint.Local (LocalPath (lit ''/dl'')))"
  let ?s0 = "plan_remote_download (Inr (True, None)) demo_download"
  let ?answer = "\<lambda>s k. scan_step s (ListingArrives k (Inr (demo_listing (sn_in_flight s ! k))))"
  have cmd: "stc_direction ?c = TransferDirection.Download" "stc_sources ?c = [TransferEndpoint.Remote (RemotePath (lit ''/r''))]"
    "stc_destination ?c = TransferEndpoint.Local (LocalPath (lit ''/dl''))"
    by (simp_all add: demo_command_def)
  have served: "served demo_listing demo_tree" by (simp add: demo_tree_def demo_listing_def lit_def)
  have place: "list_all (\<lambda>m. place (RemotePath (lit ''/r'')) (LocalPath (lit ''/dl'')) m \<noteq> None) (below demo_tree)"
    by (simp add: demo_tree_def demo_places)
  have two: "rfolders demo_tree = 2" by (simp add: demo_tree_def)
  have start: "?s0 = plan_remote_download (Inr (True, None)) (planner_new ?c (TransferPlanId 1) 0 (\<lambda>k. TransferId (of_nat k)) None None)"
    by (simp only: demo_download_def)
  note run = download_plan_mirrors_tree[OF cmd demo_tree_def served place start _ refl, unfolded two]
  have a0: "sn_result ?s0 = None \<and> sn_in_flight ?s0 \<noteq> []" using run[of "[]"] by simp
  have a1: "sn_result (?answer ?s0 0) = None \<and> sn_in_flight (?answer ?s0 0) \<noteq> []" using run[of "[0]"] a0 by simp
  have "answered demo_listing ?s0 [0, 0]" using a0 a1 by simp
  from run[OF this] obtain jobs where "sn_result (foldl ?answer ?s0 [0, 0]) = Some (Some jobs)"
    "mset (map job_ends jobs) = add_mset (TransferEndpoint.Remote (RemotePath (lit ''/r'')), TransferEndpoint.Local (LocalPath (lit ''/dl'')))
       (mset (map (download_ends (RemotePath (lit ''/r'')) (LocalPath (lit ''/dl''))) (below demo_tree)))"
    "pn_total_bytes (sn_planner (foldl ?answer ?s0 [0, 0])) = Some 12"
    by (fastforce simp: demo_tree_def)
  moreover from this(2) have "size (mset (map job_ends jobs)) = 4" by (simp only: size_add_mset size_mset length_map) (simp add: demo_tree_def)
  ultimately show ?thesis by blast
qed

end
