(* ===== verification/Rust_Utf8.thy ===== *)
theory Rust_Utf8
  imports Paths
begin

text \<open>
  UTF-8 as the standard library encodes and decodes it: \<open>str::as_bytes\<close>, \<open>String::from_utf8_lossy\<close> and
  \<open>str::lines\<close>, and \<open>char::is_whitespace\<close>, with the lemmas that a text survives the trip through bytes and that a line appended to a
  file is read back as that line.
\<close>

section \<open>Encoding\<close>

text \<open>A \<open>char\<close> is a Unicode scalar value: below the surrogates or above them.\<close>

definition scalar :: "rchar \<Rightarrow> bool" where
  "scalar c \<longleftrightarrow> c < 0xD800 \<or> 0xE000 \<le> c \<and> c < 0x110000"

definition encode_char :: "rchar \<Rightarrow> nat list" where
  "encode_char c =
     (if c < 0x80 then [c]
      else if c < 0x800 then [0xC0 + c div 64, 0x80 + c mod 64]
      else if c < 0x10000 then [0xE0 + c div 4096, 0x80 + c div 64 mod 64, 0x80 + c mod 64]
      else [0xF0 + c div 262144, 0x80 + c div 4096 mod 64, 0x80 + c div 64 mod 64, 0x80 + c mod 64])"

definition as_bytes :: "rstr \<Rightarrow> u8 list" where
  "as_bytes s = map of_nat (concat (map encode_char s))"

section \<open>Lossy decoding\<close>

text \<open>
  Every maximal piece that starts no scalar value is replaced by one U+FFFD; a byte that cannot continue
  a sequence is looked at again as the start of the next one.
\<close>

abbreviation replacement :: rchar where
  "replacement \<equiv> 0xFFFD"

definition continuation :: "nat \<Rightarrow> bool" where
  "continuation b \<longleftrightarrow> 0x80 \<le> b \<and> b \<le> 0xBF"

definition second_of_three :: "nat \<Rightarrow> nat \<Rightarrow> bool" where
  "second_of_three a b \<longleftrightarrow>
     continuation b \<and> (a = 0xE0 \<longrightarrow> 0xA0 \<le> b) \<and> (a = 0xED \<longrightarrow> b \<le> 0x9F)"

definition second_of_four :: "nat \<Rightarrow> nat \<Rightarrow> bool" where
  "second_of_four a b \<longleftrightarrow>
     continuation b \<and> (a = 0xF0 \<longrightarrow> 0x90 \<le> b) \<and> (a = 0xF4 \<longrightarrow> b \<le> 0x8F)"

text \<open>The next character behind a lead byte, and the bytes it leaves unread.\<close>

definition next_char :: "nat \<Rightarrow> nat list \<Rightarrow> rchar \<times> nat list" where
  "next_char a as =
     (if a < 0x80 then (a, as)
      else if 0xC2 \<le> a \<and> a \<le> 0xDF then
        (case as of
           b # bs \<Rightarrow> if continuation b then ((a - 0xC0) * 64 + (b - 0x80), bs) else (replacement, as)
         | [] \<Rightarrow> (replacement, as))
      else if 0xE0 \<le> a \<and> a \<le> 0xEF then
        (case as of
           b # bs \<Rightarrow>
             if \<not> second_of_three a b then (replacement, as)
             else (case bs of
                     c # cs \<Rightarrow>
                       if continuation c then ((a - 0xE0) * 4096 + (b - 0x80) * 64 + (c - 0x80), cs)
                       else (replacement, bs)
                   | [] \<Rightarrow> (replacement, bs))
         | [] \<Rightarrow> (replacement, as))
      else if 0xF0 \<le> a \<and> a \<le> 0xF4 then
        (case as of
           b # bs \<Rightarrow>
             if \<not> second_of_four a b then (replacement, as)
             else (case bs of
                     c # cs \<Rightarrow>
                       if \<not> continuation c then (replacement, bs)
                       else (case cs of
                               d # ds \<Rightarrow>
                                 if continuation d
                                 then ((a - 0xF0) * 262144 + (b - 0x80) * 4096 + (c - 0x80) * 64 + (d - 0x80), ds)
                                 else (replacement, cs)
                             | [] \<Rightarrow> (replacement, cs))
                   | [] \<Rightarrow> (replacement, bs))
         | [] \<Rightarrow> (replacement, as))
      else (replacement, as))"

lemma next_char_shorter [simp]: "length (snd (next_char a as)) \<le> length as"
  by (auto simp: next_char_def split: list.split)

function decode_lossy :: "nat list \<Rightarrow> rstr" where
  "decode_lossy [] = []"
| "decode_lossy (a # as) = fst (next_char a as) # decode_lossy (snd (next_char a as))"
  by pat_completeness auto
termination
  by (relation "measure length") (simp_all add: less_Suc_eq_le)

definition from_utf8_lossy :: "u8 list \<Rightarrow> rstr" where
  "from_utf8_lossy bytes = decode_lossy (map unat bytes)"

section \<open>Lines\<close>

abbreviation newline :: rchar where
  "newline \<equiv> 10"

abbreviation carriage_return :: rchar where
  "carriage_return \<equiv> 13"

definition strip_carriage_return :: "rstr \<Rightarrow> rstr" where
  "strip_carriage_return line = (if line \<noteq> [] \<and> last line = carriage_return then butlast line else line)"

definition str_lines :: "rstr \<Rightarrow> rstr list" where
  "str_lines s =
     (let pieces = split_on newline s
      in map strip_carriage_return (butlast pieces) @ (if last pieces = [] then [] else [last pieces]))"

section \<open>White space\<close>

text \<open>The Unicode property \<open>White_Space\<close>.\<close>

definition is_whitespace :: "rchar \<Rightarrow> bool" where
  "is_whitespace ch \<longleftrightarrow>
     (9 \<le> ch \<and> ch \<le> 13) \<or> ch = 32 \<or> ch = 0x85 \<or> ch = 0xA0 \<or> ch = 0x1680 \<or> (0x2000 \<le> ch \<and> ch \<le> 0x200A) \<or>
     ch = 0x2028 \<or> ch = 0x2029 \<or> ch = 0x202F \<or> ch = 0x205F \<or> ch = 0x3000"

section \<open>Decoding what was encoded\<close>

lemma encode_char_byte: "scalar c \<Longrightarrow> b \<in> set (encode_char c) \<Longrightarrow> b < 256"
  by (auto simp: encode_char_def scalar_def split: if_splits)

lemma decode_encode_char:
  assumes "scalar c"
  shows "decode_lossy (encode_char c @ bs) = c # decode_lossy bs"
proof -
  have div: "c div 4096 = c div 64 div 64" "c div 262144 = c div 64 div 64 div 64"
    by (simp_all add: div_mult2_eq[symmetric])
  have two: "c = c div 64 * 64 + c mod 64" by simp
  have three: "c = c div 4096 * 4096 + c div 64 mod 64 * 64 + c mod 64"
    using two div_mult_mod_eq[of "c div 64" 64] unfolding div by linarith
  have four: "c = c div 262144 * 262144 + c div 4096 mod 64 * 4096 + c div 64 mod 64 * 64 + c mod 64"
    using three div_mult_mod_eq[of "c div 64 div 64" 64] unfolding div by linarith
  consider "c < 0x80" | "0x80 \<le> c" "c < 0x800" | "0x800 \<le> c" "c < 0x10000" | "0x10000 \<le> c" by linarith
  then show ?thesis
  proof cases
    case 1
    then show ?thesis by (simp add: encode_char_def next_char_def)
  next
    case 2
    then have "2 \<le> c div 64" "c div 64 \<le> 31" "c mod 64 \<le> 63" by (auto simp: less_Suc_eq_le[symmetric])
    with 2 show ?thesis by (simp add: encode_char_def next_char_def continuation_def)
  next
    case 3
    then have "c div 4096 \<le> 15" "c div 64 mod 64 \<le> 63" "c mod 64 \<le> 63"
      by (auto simp: less_Suc_eq_le[symmetric])
    moreover have "c div 4096 = 0 \<Longrightarrow> 32 \<le> c div 64 mod 64" using 3(1) three by linarith
    moreover have "c div 4096 = 13 \<Longrightarrow> c div 64 mod 64 \<le> 31" using 3(2) assms three
      unfolding scalar_def by linarith
    ultimately show ?thesis using 3 three[symmetric]
      by (simp add: encode_char_def next_char_def continuation_def second_of_three_def)
  next
    case 4
    with assms have "c div 262144 \<le> 4" "c div 4096 mod 64 \<le> 63" "c div 64 mod 64 \<le> 63" "c mod 64 \<le> 63"
      by (auto simp: scalar_def less_Suc_eq_le[symmetric])
    moreover have "c div 262144 = 0 \<Longrightarrow> 16 \<le> c div 4096 mod 64" using 4 four by linarith
    moreover have "c div 262144 = 4 \<Longrightarrow> c div 4096 mod 64 \<le> 15" using 4 assms four
      unfolding scalar_def by linarith
    ultimately show ?thesis using 4 four[symmetric]
      by (simp add: encode_char_def next_char_def continuation_def second_of_four_def)
  qed
qed

lemma decode_encode:
  "list_all scalar s \<Longrightarrow> decode_lossy (concat (map encode_char s) @ bs) = s @ decode_lossy bs"
  by (induction s) (simp_all add: decode_encode_char)

lemma unat_as_bytes:
  "list_all scalar s \<Longrightarrow> map unat (as_bytes s) = concat (map encode_char s)"
  unfolding as_bytes_def
proof (induction s)
  case (Cons c s)
  have "map unat (map of_nat (encode_char c) :: u8 list) = encode_char c"
    using encode_char_byte[of c] Cons.prems by (intro map_idI[THEN trans[OF map_map]]) (auto simp: unat_of_nat)
  with Cons show ?case by simp
qed simp

text \<open>A byte below 128 ends every unfinished sequence before it.\<close>

lemma next_char_ascii:
  assumes "b < 0x80"
  shows "next_char a (as @ b # bs) = (fst (next_char a as), snd (next_char a as) @ b # bs)"
proof -
  have no: "\<not> continuation b" "\<not> second_of_three a b" "\<not> second_of_four a b"
    using assms by (auto simp: continuation_def second_of_three_def second_of_four_def)
  consider "as = []" | c where "as = [c]" | c d where "as = [c, d]" | c d e r where "as = c # d # e # r"
    by (metis list.exhaust)
  then show ?thesis by cases (simp_all add: next_char_def no)
qed

lemma decode_lossy_ascii:
  "b < 0x80 \<Longrightarrow> decode_lossy (as @ b # bs) = decode_lossy as @ b # decode_lossy bs"
proof (induction as rule: decode_lossy.induct)
  case 1
  then show ?case by (simp add: next_char_def)
next
  case (2 a as)
  then show ?case by (simp add: next_char_ascii)
qed

section \<open>Appending a line\<close>

lemma str_lines_append:
  assumes "s = [] \<or> last s = newline" "newline \<notin> set line"
  shows "str_lines (s @ line @ [newline]) = str_lines s @ [strip_carriage_return line]"
proof (cases s rule: rev_cases)
  case Nil
  then show ?thesis using assms split_on_concat[of newline line "[]"]
    by (simp add: str_lines_def split_on_word)
next
  case (snoc t c)
  with assms have s: "s = t @ newline # []" by auto
  show ?thesis
    using split_on_concat[of newline t "line @ [newline]"] split_on_concat[of newline line "[]"]
      split_on_concat[of newline t "[]"] assms(2)
    by (simp add: s str_lines_def split_on_word butlast_append)
qed

text \<open>What a file shows as text after a line is appended to bytes that are empty or end with a newline.\<close>

lemma from_utf8_lossy_append:
  assumes "content = [] \<or> last content = 10" "list_all scalar line"
  shows "from_utf8_lossy (content @ as_bytes line @ [10]) = from_utf8_lossy content @ line @ [newline]"
    and "from_utf8_lossy content = [] \<or> last (from_utf8_lossy content) = newline"
proof -
  have tail: "decode_lossy (map unat (as_bytes line @ [10])) = line @ [newline]"
    using decode_encode[OF assms(2), of "[newline]"] by (simp add: unat_as_bytes[OF assms(2)] next_char_def)
  have ends: "decode_lossy (a @ [newline] @ bs) = decode_lossy a @ newline # decode_lossy bs" for a bs
    using decode_lossy_ascii[of newline a bs] by simp
  show "from_utf8_lossy (content @ as_bytes line @ [10]) = from_utf8_lossy content @ line @ [newline]"
    "from_utf8_lossy content = [] \<or> last (from_utf8_lossy content) = newline"
    using assms(1) tail ends ends[where bs = "[]"]
    by (cases content rule: rev_cases; auto simp: from_utf8_lossy_def)+
qed

end
