(* ===== verification/Atomic_File.thy ===== *)
theory Atomic_File
  imports Paths Rust_Format Rust_Utf8
begin

text \<open>
  Durable replacement of the application's own files (\<open>crates/storage/src/atomic_file.rs\<close> and the lock of
  \<open>crates/storage/src/file_lock.rs\<close>).

  A machine is the directory tree a process sees, the directory entries that are known to have reached the
  disk, and the process's counter for temporary names. Every system call may fail: the calls take their
  failure, if any, from a record of faults, and a routine returns its result together with every state the
  machine goes through, so that a crash between any two calls can be spoken about. A path names a file by
  its string; the empty path names none.
\<close>

section \<open>Errors\<close>

datatype io_kind = NotFound | AlreadyExists | NotADirectory | IsADirectory | InvalidInput | OtherKind nat

record io_error =
  io_kind :: io_kind
  io_text :: rstr

definition os_error :: "io_kind \<Rightarrow> io_error" where
  "os_error kind = \<lparr>io_kind = kind, io_text =
     (case kind of
        NotFound \<Rightarrow> lit ''No such file or directory''
      | AlreadyExists \<Rightarrow> lit ''File exists''
      | NotADirectory \<Rightarrow> lit ''Not a directory''
      | IsADirectory \<Rightarrow> lit ''Is a directory''
      | InvalidInput \<Rightarrow> lit ''Invalid argument''
      | OtherKind _ \<Rightarrow> lit ''Input/output error'')\<rparr>"

datatype AtomicWriteError =
    NotCommitted io_error
  | ReplacedButNotDurable io_error

fun display_atomic_write_error :: "AtomicWriteError \<Rightarrow> rstr" where
  "display_atomic_write_error (NotCommitted error) =
     lit ''replacement was not committed: '' @ io_text error"
| "display_atomic_write_error (ReplacedButNotDurable error) =
     lit ''contents were replaced but durability is unproven: '' @ io_text error"

section \<open>The machine\<close>

text \<open>A regular file has its bytes, whether they have been synced, and its permission bits.\<close>

datatype node =
    Directory
  | RegularFile "u8 list" bool nat

record machine =
  m_live :: "rstr \<rightharpoonup> node"
  m_durable :: "rstr \<rightharpoonup> node"
  m_sequence :: u64

definition fs_lookup :: "machine \<Rightarrow> rstr \<Rightarrow> node option" where
  "fs_lookup m path = (if path = [] then None else m_live m path)"

fun node_contents :: "node option \<Rightarrow> u8 list option" where
  "node_contents (Some (RegularFile data _ _)) = Some data"
| "node_contents _ = None"

abbreviation contents_at :: "machine \<Rightarrow> rstr \<Rightarrow> u8 list option" where
  "contents_at m path \<equiv> node_contents (m_live m path)"

text \<open>
  After a crash a name shows the entry that was durable or the one that was live; bytes that were never
  synced may have become anything.
\<close>

fun node_survives :: "node option \<Rightarrow> u8 list option \<Rightarrow> bool" where
  "node_survives (Some (RegularFile data synced _)) found =
     (case found of None \<Rightarrow> False | Some bytes \<Rightarrow> synced \<longrightarrow> bytes = data)"
| "node_survives _ found \<longleftrightarrow> found = None"

definition may_be_found :: "machine \<Rightarrow> rstr \<Rightarrow> u8 list option \<Rightarrow> bool" where
  "may_be_found m path found \<longleftrightarrow>
     node_survives (m_live m path) found \<or> node_survives (m_durable m path) found"

text \<open>A name is settled when its entry is durable and the bytes behind it are synced.\<close>

definition settled :: "machine \<Rightarrow> rstr \<Rightarrow> bool" where
  "settled m path \<longleftrightarrow>
     m_durable m path = m_live m path \<and>
     (case m_live m path of
        None \<Rightarrow> True
      | Some Directory \<Rightarrow> True
      | Some (RegularFile _ synced _) \<Rightarrow> synced)"

section \<open>System calls\<close>

definition set_live :: "rstr \<Rightarrow> node option \<Rightarrow> machine \<Rightarrow> machine" where
  "set_live path n m = m\<lparr>m_live := (m_live m)(path := n)\<rparr>"

text \<open>The permission bits \<open>0o600\<close>.\<close>

definition private_mode :: nat where
  "private_mode = 6 * 8 * 8"

definition open_directory :: "io_error option \<Rightarrow> rstr \<Rightarrow> machine \<Rightarrow> io_error + unit" where
  "open_directory fault path m =
     (case fault of
        Some error \<Rightarrow> Inl error
      | None \<Rightarrow> (case fs_lookup m path of None \<Rightarrow> Inl (os_error NotFound) | Some _ \<Rightarrow> Inr ()))"

text \<open>\<open>OpenOptions::new().write(true).create_new(true).mode(0o600).open(path)\<close> in a directory.\<close>

definition create_new :: "io_error option \<Rightarrow> rstr \<Rightarrow> rstr \<Rightarrow> machine \<Rightarrow> (io_error + unit) \<times> machine" where
  "create_new fault parent path m =
     (case fault of
        Some error \<Rightarrow> (Inl error, m)
      | None \<Rightarrow>
          if fs_lookup m parent \<noteq> Some Directory then (Inl (os_error NotADirectory), m)
          else if fs_lookup m path \<noteq> None then (Inl (os_error AlreadyExists), m)
          else (Inr (), set_live path (Some (RegularFile [] False private_mode)) m))"

text \<open>
  \<open>write_all\<close> may reach the file in any number of pieces: the states after each byte stand for all of
  them. A failing write has stored the given number of bytes.
\<close>

definition write_all :: "(nat \<times> io_error) option \<Rightarrow> rstr \<Rightarrow> u8 list \<Rightarrow> machine \<Rightarrow> (io_error + unit) \<times> machine list" where
  "write_all fault path data m =
     (let states = (\<lambda>n. map (\<lambda>k. set_live path (Some (RegularFile (take k data) False private_mode)) m) [0..<Suc n])
      in case fault of
           Some (written, error) \<Rightarrow> (Inl error, states (min written (length data)))
         | None \<Rightarrow> (Inr (), states (length data)))"

definition sync_file :: "io_error option \<Rightarrow> rstr \<Rightarrow> machine \<Rightarrow> (io_error + unit) \<times> machine" where
  "sync_file fault path m =
     (case fault of
        Some error \<Rightarrow> (Inl error, m)
      | None \<Rightarrow>
          (Inr (), case m_live m path of
             Some (RegularFile data _ mode) \<Rightarrow> set_live path (Some (RegularFile data True mode)) m
           | _ \<Rightarrow> m))"

definition rename_file :: "io_error option \<Rightarrow> rstr \<Rightarrow> rstr \<Rightarrow> machine \<Rightarrow> (io_error + unit) \<times> machine" where
  "rename_file fault from_path to_path m =
     (case fault of
        Some error \<Rightarrow> (Inl error, m)
      | None \<Rightarrow>
          if to_path = [] \<or> fs_lookup m from_path = None then (Inl (os_error NotFound), m)
          else if fs_lookup m to_path = Some Directory then (Inl (os_error IsADirectory), m)
          else (Inr (), set_live from_path None (set_live to_path (m_live m from_path) m)))"

definition remove_file :: "io_error option \<Rightarrow> rstr \<Rightarrow> machine \<Rightarrow> (io_error + unit) \<times> machine" where
  "remove_file fault path m =
     (case fault of
        Some error \<Rightarrow> (Inl error, m)
      | None \<Rightarrow>
          (case fs_lookup m path of
             None \<Rightarrow> (Inl (os_error NotFound), m)
           | Some Directory \<Rightarrow> (Inl (os_error (OtherKind 1)), m)
           | Some (RegularFile _ _ _) \<Rightarrow> (Inr (), set_live path None m)))"

definition parent_or_here :: "rstr \<Rightarrow> rstr" where
  "parent_or_here path = (case path_parent path of Some parent \<Rightarrow> parent | None \<Rightarrow> [dot])"

text \<open>\<open>File::sync_all\<close> on a directory: the entries of that directory become durable.\<close>

definition sync_directory :: "io_error option \<Rightarrow> rstr \<Rightarrow> machine \<Rightarrow> (io_error + unit) \<times> machine" where
  "sync_directory fault directory m =
     (case fault of
        Some error \<Rightarrow> (Inl error, m)
      | None \<Rightarrow>
          (Inr (), m\<lparr>m_durable := (\<lambda>p. if parent_or_here p = directory then m_live m p else m_durable m p)\<rparr>))"

definition read_file :: "io_error option \<Rightarrow> rstr \<Rightarrow> machine \<Rightarrow> io_error + u8 list" where
  "read_file fault path m =
     (case fault of
        Some error \<Rightarrow> Inl error
      | None \<Rightarrow>
          (case fs_lookup m path of
             None \<Rightarrow> Inl (os_error NotFound)
           | Some Directory \<Rightarrow> Inl (os_error IsADirectory)
           | Some (RegularFile data _ _) \<Rightarrow> Inr data))"

section \<open>Atomic replacement\<close>

record write_faults =
  wf_open_parent :: "io_error option"
  wf_open_temp :: "io_error option"
  wf_write :: "(nat \<times> io_error) option"
  wf_sync_temp :: "io_error option"
  wf_rename :: "io_error option"
  wf_remove :: "io_error option"
  wf_sync_parent :: "io_error option"

definition no_write_faults :: write_faults where
  "no_write_faults = \<lparr>wf_open_parent = None, wf_open_temp = None, wf_write = None, wf_sync_temp = None,
     wf_rename = None, wf_remove = None, wf_sync_parent = None\<rparr>"

text \<open>\<open>Path::with_file_name\<close>: the last name is popped when there is one, and the new one pushed.\<close>

definition with_file_name :: "rstr \<Rightarrow> rstr \<Rightarrow> rstr" where
  "with_file_name path name =
     path_join (case path_file_name path of
                  Some _ \<Rightarrow> (case path_parent path of Some parent \<Rightarrow> parent | None \<Rightarrow> path)
                | None \<Rightarrow> path) name"

definition temp_path_for :: "u32 \<Rightarrow> rstr \<Rightarrow> machine \<Rightarrow> rstr \<times> machine" where
  "temp_path_for pid path m =
     (let file_name = (case path_file_name path of Some name \<Rightarrow> name | None \<Rightarrow> lit ''macsftp-data'')
      in (with_file_name path
            (dot # file_name @ lit ''.tmp-'' @ decimal (unat pid) @ lit ''-'' @ decimal (unat (m_sequence m))),
          m\<lparr>m_sequence := m_sequence m + 1\<rparr>))"

definition stage_temp_file :: "write_faults \<Rightarrow> rstr \<Rightarrow> rstr \<Rightarrow> u8 list \<Rightarrow> machine \<Rightarrow> (io_error + unit) \<times> machine list" where
  "stage_temp_file f parent temp_path contents m =
     (case create_new (wf_open_temp f) parent temp_path m of
        (Inl error, _) \<Rightarrow> (Inl error, [m])
      | (Inr _, opened) \<Rightarrow>
          (case write_all (wf_write f) temp_path contents opened of
             (Inl error, states) \<Rightarrow> (Inl error, m # states)
           | (Inr _, states) \<Rightarrow>
               (case sync_file (wf_sync_temp f) temp_path (last states) of
                  (Inl error, _) \<Rightarrow> (Inl error, m # states)
                | (Inr _, synced) \<Rightarrow> (Inr (), m # states @ [synced]))))"

definition discard_temp_file :: "io_error option \<Rightarrow> rstr \<Rightarrow> io_error \<Rightarrow> machine \<Rightarrow> AtomicWriteError \<times> machine" where
  "discard_temp_file fault temp_path failure m =
     (case remove_file fault temp_path m of
        (Inr _, removed) \<Rightarrow> (NotCommitted failure, removed)
      | (Inl remove_error, kept) \<Rightarrow>
          (if io_kind remove_error = NotFound then (NotCommitted failure, kept)
           else (NotCommitted \<lparr>io_kind = io_kind failure, io_text =
                   io_text failure @ lit ''; could not remove temporary file '' @ temp_path @ lit '': '' @
                   io_text remove_error\<rparr>, kept)))"

definition write_phased_with_parent_sync ::
  "write_faults \<Rightarrow> u32 \<Rightarrow> rstr \<Rightarrow> u8 list \<Rightarrow> machine \<Rightarrow> (AtomicWriteError + unit) \<times> machine list" where
  "write_phased_with_parent_sync f pid path contents m =
     (let parent = parent_or_here path; (temp_path, m0) = temp_path_for pid path m
      in case open_directory (wf_open_parent f) parent m0 of
           Inl error \<Rightarrow> (Inl (NotCommitted error), [m0])
         | Inr _ \<Rightarrow>
             (case stage_temp_file f parent temp_path contents m0 of
                (Inl error, states) \<Rightarrow>
                  (let (failure, discarded) = discard_temp_file (wf_remove f) temp_path error (last states)
                   in (Inl failure, states @ [discarded]))
              | (Inr _, states) \<Rightarrow>
                  (case rename_file (wf_rename f) temp_path path (last states) of
                     (Inl rename_error, _) \<Rightarrow>
                       (let (failure, discarded) = discard_temp_file (wf_remove f) temp_path rename_error (last states)
                        in (Inl failure, states @ [discarded]))
                   | (Inr _, renamed) \<Rightarrow>
                       (case sync_directory (wf_sync_parent f) parent renamed of
                          (Inl error, _) \<Rightarrow> (Inl (ReplacedButNotDurable error), states @ [renamed])
                        | (Inr _, synced) \<Rightarrow> (Inr (), states @ [renamed, synced])))))"

definition write_private_file_atomically ::
  "write_faults \<Rightarrow> u32 \<Rightarrow> rstr \<Rightarrow> u8 list \<Rightarrow> machine \<Rightarrow> (io_error + unit) \<times> machine list" where
  "write_private_file_atomically f pid path contents m =
     (case write_phased_with_parent_sync f pid path contents m of
        (Inr _, states) \<Rightarrow> (Inr (), states)
      | (Inl (NotCommitted error), states) \<Rightarrow> (Inl error, states)
      | (Inl (ReplacedButNotDurable error), states) \<Rightarrow>
          (Inl \<lparr>io_kind = io_kind error, io_text =
             display_atomic_write_error (ReplacedButNotDurable error) @ lit '' (at '' @ path @ lit '')''\<rparr>, states))"

section \<open>Appending a line\<close>

record append_faults =
  af_open_lock :: "io_error option"
  af_flock :: "io_error option"
  af_read :: "io_error option"
  af_write :: write_faults

text \<open>The lock lives in a file beside the data that is created empty and never truncated.\<close>

definition lock_path_for :: "rstr \<Rightarrow> rstr" where
  "lock_path_for path = path @ lit ''.lock''"

definition file_lock_acquire :: "append_faults \<Rightarrow> rstr \<Rightarrow> machine \<Rightarrow> (io_error + unit) \<times> machine" where
  "file_lock_acquire f file_path m =
     (let lock_path = lock_path_for file_path
      in case af_open_lock f of
           Some error \<Rightarrow> (Inl error, m)
         | None \<Rightarrow>
             (case fs_lookup m lock_path of
                Some Directory \<Rightarrow> (Inl (os_error IsADirectory), m)
              | found \<Rightarrow>
                  let opened = (if found = None then set_live lock_path (Some (RegularFile [] False private_mode)) m else m)
                  in (case af_flock f of Some error \<Rightarrow> (Inl error, opened) | None \<Rightarrow> (Inr (), opened))))"

text \<open>A last line without its newline is completed before the new one is added.\<close>

definition completed :: "u8 list \<Rightarrow> u8 list" where
  "completed content = (if content \<noteq> [] \<and> last content \<noteq> 10 then content @ [10] else content)"

definition appended :: "u8 list \<Rightarrow> rstr \<Rightarrow> u8 list" where
  "appended content line = completed content @ as_bytes line @ [10]"

definition newline_error :: io_error where
  "newline_error = \<lparr>io_kind = InvalidInput, io_text = lit ''line cannot contain newline characters''\<rparr>"

definition append_private_line_atomically ::
  "append_faults \<Rightarrow> u32 \<Rightarrow> rstr \<Rightarrow> rstr \<Rightarrow> machine \<Rightarrow> (io_error + unit) \<times> machine list" where
  "append_private_line_atomically f pid path line m =
     (if newline \<in> set line \<or> carriage_return \<in> set line then (Inl newline_error, [m])
      else case file_lock_acquire f path m of
             (Inl error, m1) \<Rightarrow> (Inl error, [m, m1])
           | (Inr _, m1) \<Rightarrow>
               (case read_file (af_read f) path m1 of
                  Inr content \<Rightarrow>
                    (let (result, states) = write_private_file_atomically (af_write f) pid path (appended content line) m1
                     in (result, m # m1 # states))
                | Inl error \<Rightarrow>
                    if io_kind error = NotFound then
                      (let (result, states) = write_private_file_atomically (af_write f) pid path (appended [] line) m1
                       in (result, m # m1 # states))
                    else (Inl error, [m, m1])))"

end
