(* ===== verification/Atomic_File_Laws.thy ===== *)
theory Atomic_File_Laws
  imports Atomic_File "HOL-Library.Sublist"
begin

text \<open>
  What atomic replacement promises: at every moment, and whatever fails, the destination holds its old
  contents or the new ones and nothing in between, and the result says which. The promise is the locale
  \<open>private_replace\<close>; appending a line is its client.
\<close>

section \<open>The temporary name\<close>

lemma split_on_path_join:
  assumes "name \<noteq> []" "slash \<notin> set name"
  shows "\<exists>ws. split_on slash (path_join directory name) = ws @ [name]"
proof -
  have name: "split_on slash name = [name]" using assms(2) by (rule split_on_word)
  have "hd name \<noteq> slash" using assms by (cases name) auto
  consider "directory = []" | d where "directory = d @ [slash]" | "directory \<noteq> []" "last directory \<noteq> slash"
    by (cases directory rule: rev_cases) auto
  then show ?thesis
  proof cases
    case (2 d)
    with name \<open>hd name \<noteq> slash\<close> assms(1) show ?thesis
      using split_on_concat[of slash d name] by (simp add: path_join_def)
  qed (use name \<open>hd name \<noteq> slash\<close> assms(1) split_on_concat[of slash directory name] in \<open>auto simp: path_join_def\<close>)
qed

lemma file_name_of_join:
  assumes "slash \<notin> set name" "name \<notin> {[], [dot], [dot, dot]}"
  shows "path_file_name (path_join directory name) = Some name"
proof -
  obtain ws where "split_on slash (path_join directory name) = ws @ [name]"
    using split_on_path_join[of name directory] assms by auto
  with assms(2) show ?thesis by (auto simp: path_file_name_def skipped_piece_def)
qed

lemma file_name_no_slash: "path_file_name path = Some name \<Longrightarrow> slash \<notin> set name"
proof -
  assume "path_file_name path = Some name"
  then have "filter (\<lambda>p. \<not> skipped_piece p) (split_on slash path) \<noteq> []"
    "name = last (filter (\<lambda>p. \<not> skipped_piece p) (split_on slash path))"
    by (auto simp: path_file_name_def Let_def split: if_splits)
  then have "name \<in> set (filter (\<lambda>p. \<not> skipped_piece p) (split_on slash path))"
    using last_in_set by metis
  then show ?thesis using split_on_no_sep[of name slash path] by simp
qed

lemma lit_no_slash: "slash \<notin> set (lit ''.tmp-'')" "slash \<notin> set (lit ''-'')" "slash \<notin> set (lit ''macsftp-data'')"
  by (simp_all add: lit_def)

lemma temp_path_for_name:
  obtains name where "path_file_name (fst (temp_path_for pid path m)) = Some name"
    "\<And>n. path_file_name path = Some n \<Longrightarrow> length n < length name"
proof -
  define base where "base = (case path_file_name path of Some name \<Rightarrow> name | None \<Rightarrow> lit ''macsftp-data'')"
  define name where "name = dot # base @ lit ''.tmp-'' @ decimal (unat pid) @ lit ''-'' @ decimal (unat (m_sequence m))"
  have "slash \<notin> set base"
    using file_name_no_slash lit_no_slash(3) by (auto simp: base_def split: option.splits)
  then have "slash \<notin> set name" using lit_no_slash decimal_no_slash by (auto simp: name_def)
  moreover have "name \<notin> {[], [dot], [dot, dot]}" by (auto simp: name_def lit_def Cons_eq_append_conv append_eq_Cons_conv)
  ultimately have "path_file_name (fst (temp_path_for pid path m)) = Some name"
    by (simp add: temp_path_for_def with_file_name_def file_name_of_join Let_def flip: base_def name_def)
  moreover have "length n < length name" if "path_file_name path = Some n" for n
    using that by (simp add: name_def base_def)
  ultimately show thesis using that by blast
qed

lemma temp_path_differs: "fst (temp_path_for pid path m) \<noteq> path"
  by (rule temp_path_for_name[of pid path m]) force

lemma temp_path_not_empty: "fst (temp_path_for pid path m) \<noteq> []"
  by (rule temp_path_for_name[of pid path m]) (auto simp: path_file_name_def skipped_piece_def)

lemma temp_path_for_machine [simp]:
  "m_live (snd (temp_path_for pid path m)) = m_live m"
  "m_durable (snd (temp_path_for pid path m)) = m_durable m"
  by (simp_all add: temp_path_for_def Let_def)

section \<open>What each call may touch\<close>

text \<open>Only the given name differs, and nothing became durable.\<close>

definition differs_at :: "rstr \<Rightarrow> machine \<Rightarrow> machine \<Rightarrow> bool" where
  "differs_at path m m' \<longleftrightarrow> (\<forall>q. q \<noteq> path \<longrightarrow> m_live m' q = m_live m q) \<and> m_durable m' = m_durable m"

lemma set_live_simps [simp]:
  "m_live (set_live path n m) = (m_live m)(path := n)"
  "m_durable (set_live path n m) = m_durable m"
  by (simp_all add: set_live_def)

lemma differs_at_refl [simp]: "differs_at path m m"
  by (simp add: differs_at_def)

lemma differs_at_set [simp]: "differs_at path m (set_live path n m') \<longleftrightarrow> differs_at path m m'"
  by (auto simp: differs_at_def)

lemma differs_at_trans: "differs_at path m m' \<Longrightarrow> differs_at path m' m'' \<Longrightarrow> differs_at path m m''"
  by (simp add: differs_at_def)

lemma create_new_touches: "create_new fault parent path m = (r, m') \<Longrightarrow> differs_at path m m'"
  by (auto simp: create_new_def split: option.splits if_splits)

lemma write_all_touches:
  assumes "write_all fault path data m = (r, states)"
  shows "states \<noteq> []" "\<And>s. s \<in> set states \<Longrightarrow> differs_at path m s"
    "r = Inr () \<Longrightarrow> m_live (last states) path = Some (RegularFile data False private_mode)"
  using assms by (auto simp: write_all_def Let_def split: option.splits prod.splits)

lemma sync_file_touches: "sync_file fault path m = (r, m') \<Longrightarrow> differs_at path m m'"
  by (auto simp: sync_file_def split: option.splits node.splits)

lemma remove_file_touches: "differs_at path m (snd (remove_file fault path m))"
  by (auto simp: remove_file_def split: option.splits node.splits)

lemma discard_temp_file_touches: "differs_at path m (snd (discard_temp_file fault path failure m))"
  using remove_file_touches[of path m fault]
  by (auto simp: discard_temp_file_def split: prod.splits sum.splits)

lemma discard_not_committed: "\<exists>error. fst (discard_temp_file fault path failure m) = NotCommitted error"
  by (auto simp: discard_temp_file_def split: prod.splits sum.splits)

lemma stage_touches:
  assumes "stage_temp_file f parent path contents m = (r, states)"
  shows "states \<noteq> []" "\<And>s. s \<in> set states \<Longrightarrow> differs_at path m s"
    "r = Inr () \<Longrightarrow> m_live (last states) path = Some (RegularFile contents True private_mode)"
proof -
  obtain r1 m1 where c: "create_new (wf_open_temp f) parent path m = (r1, m1)" by fastforce
  obtain r2 ws where w: "write_all (wf_write f) path contents m1 = (r2, ws)" by fastforce
  obtain r3 m3 where y: "sync_file (wf_sync_temp f) path (last ws) = (r3, m3)" by fastforce
  note w' = write_all_touches[OF w]
  have opened: "differs_at path m m1" using create_new_touches[OF c] .
  then have written: "differs_at path m s" if "s \<in> set ws" for s
    using w'(2)[OF that] by (rule differs_at_trans)
  have synced: "differs_at path m m3"
    using written[OF last_in_set[OF w'(1)]] sync_file_touches[OF y] by (rule differs_at_trans)
  show "states \<noteq> []" "\<And>s. s \<in> set states \<Longrightarrow> differs_at path m s"
    using assms w'(1) written synced by (auto simp: stage_temp_file_def c w y split: sum.splits)
  show "m_live (last states) path = Some (RegularFile contents True private_mode)" if "r = Inr ()"
    using assms that w'(3) y
    by (auto simp: stage_temp_file_def c w sync_file_def split: sum.splits option.splits prod.splits)
qed

section \<open>The outcome of a replacement\<close>

text \<open>The three stages a replacement goes through, as seen from the destination.\<close>

lemma write_phased_cases:
  assumes run: "write_phased_with_parent_sync f pid path contents m = (r, states)"
    and temp: "temp_path_for pid path m = (temp, m0)"
  obtains (kept) error where "r = Inl (NotCommitted error)" "states \<noteq> []" "\<And>s. s \<in> set states \<Longrightarrow> differs_at temp m s"
  | (replaced) error staged renamed where "r = Inl (ReplacedButNotDurable error)" "states = staged @ [renamed]"
      "\<And>s. s \<in> set staged \<Longrightarrow> differs_at temp m s" "staged \<noteq> []"
      "renamed = set_live temp None (set_live path (Some (RegularFile contents True private_mode)) (last staged))"
  | (durable) staged renamed synced where "r = Inr ()" "states = staged @ [renamed, synced]"
      "\<And>s. s \<in> set staged \<Longrightarrow> differs_at temp m s" "staged \<noteq> []"
      "renamed = set_live temp None (set_live path (Some (RegularFile contents True private_mode)) (last staged))"
      "sync_directory None (parent_or_here path) renamed = (Inr (), synced)"
proof -
  have m0: "m_live m0 = m_live m" "m_durable m0 = m_durable m"
    using temp_path_for_machine[of pid path m] by (simp_all add: temp)
  have from_m0: "differs_at temp m s \<longleftrightarrow> differs_at temp m0 s" for s by (simp add: differs_at_def m0)
  obtain r1 staged where st: "stage_temp_file f (parent_or_here path) temp contents m0 = (r1, staged)" by fastforce
  note touches = stage_touches[OF st]
  obtain r2 renamed where rn: "rename_file (wf_rename f) temp path (last staged) = (r2, renamed)" by fastforce
  have discarded: "differs_at temp m0 (snd (discard_temp_file (wf_remove f) temp e (last staged)))" for e
    using touches(2)[OF last_in_set[OF touches(1)]] discard_temp_file_touches by (rule differs_at_trans)
  note unfolded = write_phased_with_parent_sync_def Let_def temp st rn
  consider (parent) e where "open_directory (wf_open_parent f) (parent_or_here path) m0 = Inl e"
    | (stage) e where "open_directory (wf_open_parent f) (parent_or_here path) m0 = Inr ()" "r1 = Inl e"
    | (rename) e where "open_directory (wf_open_parent f) (parent_or_here path) m0 = Inr ()" "r1 = Inr ()" "r2 = Inl e"
    | (landed) "open_directory (wf_open_parent f) (parent_or_here path) m0 = Inr ()" "r1 = Inr ()" "r2 = Inr ()"
    by (cases "open_directory (wf_open_parent f) (parent_or_here path) m0"; cases r1; cases r2) auto
  then show thesis
  proof cases
    case parent
    with run show thesis by (intro kept) (auto simp: unfolded from_m0)
  next
    case (stage e)
    with run discarded[of e] touches discard_not_committed[of "wf_remove f" temp e "last staged"] show thesis
      by (elim exE, intro kept) (auto simp: unfolded from_m0 split: prod.splits)
  next
    case (rename e)
    with run discarded[of e] touches discard_not_committed[of "wf_remove f" temp e "last staged"] show thesis
      by (elim exE, intro kept) (auto simp: unfolded from_m0 split: prod.splits)
  next
    case landed
    have renamed: "renamed = set_live temp None (set_live path (Some (RegularFile contents True private_mode)) (last staged))"
      using rn landed touches(3) by (auto simp: rename_file_def split: option.splits if_splits)
    show thesis
    proof (cases "wf_sync_parent f")
      case None
      then show thesis using run landed touches renamed
        by (intro durable[of staged renamed "snd (sync_directory None (parent_or_here path) renamed)"])
           (auto simp: unfolded from_m0 sync_directory_def)
    next
      case (Some error)
      then show thesis using run landed touches renamed
        by (intro replaced[of error staged renamed]) (auto simp: unfolded from_m0 sync_directory_def)
    qed
  qed
qed

text \<open>A settled name shows its contents after a crash, and nothing else.\<close>

lemma settled_survives: "settled m path \<Longrightarrow> node_survives (m_live m path) found \<Longrightarrow> found = contents_at m path"
  by (cases "(m_live m path, found)" rule: node_survives.cases) (auto simp: settled_def split: option.splits)

lemma kept_survives:
  assumes "settled m path" "differs_at temp m s" "temp \<noteq> path" "may_be_found s path found"
  shows "found = contents_at m path"
  using assms settled_survives[OF assms(1), of found]
  by (auto simp: may_be_found_def differs_at_def settled_def)

lemma new_survives: "node_survives (Some (RegularFile data True mode)) found \<Longrightarrow> found = Some data"
  by (auto split: option.splits)

lemma write_phased_survives:
  assumes run: "write_phased_with_parent_sync f pid path contents m = (r, states)"
    and settled: "settled m path" and s: "s \<in> set states" "may_be_found s path found"
  shows "found = contents_at m path \<or> found = Some contents"
proof -
  obtain temp m0 where temp: "temp_path_for pid path m = (temp, m0)" by fastforce
  have differs: "temp \<noteq> path" using temp_path_differs[of pid path m] by (simp add: temp)
  have old: "found = contents_at m path" if "differs_at temp m s" using settled that differs s(2) by (rule kept_survives)
  have landed: "found = contents_at m path \<or> found = Some contents"
    if staged: "\<And>s. s \<in> set staged \<Longrightarrow> differs_at temp m s" "staged \<noteq> []"
      and s': "s = set_live temp None (set_live path (Some (RegularFile contents True private_mode)) (last staged))" for staged
  proof -
    have "m_durable (last staged) = m_durable m" using staged by (simp add: differs_at_def)
    with s(2) differs settled show ?thesis
      using new_survives[of contents private_mode found] settled_survives[OF settled, of found]
      by (auto simp: s' may_be_found_def settled_def)
  qed
  from run temp show ?thesis
  proof (cases rule: write_phased_cases)
    case kept
    then show ?thesis using s(1) old by blast
  next
    case replaced
    then show ?thesis using s(1) old landed by auto
  next
    case (durable staged renamed synced)
    have "found = Some contents" if "s = synced"
      using durable(5,6) differs s(2) new_survives[of contents private_mode found]
      by (auto simp: that may_be_found_def sync_directory_def)
    with durable show ?thesis using s(1) old landed by auto
  qed
qed

lemma write_phased_final:
  assumes run: "write_phased_with_parent_sync f pid path contents m = (r, states)"
  shows "case r of
      Inr _ \<Rightarrow> m_live (last states) path = Some (RegularFile contents True private_mode) \<and> settled (last states) path
    | Inl (NotCommitted _) \<Rightarrow> m_live (last states) path = m_live m path \<and> m_durable (last states) path = m_durable m path
    | Inl (ReplacedButNotDurable _) \<Rightarrow> m_live (last states) path = Some (RegularFile contents True private_mode)"
    and "q \<noteq> path \<Longrightarrow> q \<noteq> fst (temp_path_for pid path m) \<Longrightarrow> m_live (last states) q = m_live m q"
    and "states \<noteq> []"
proof -
  obtain temp m0 where temp: "temp_path_for pid path m = (temp, m0)" by fastforce
  have differs: "temp \<noteq> path" using temp_path_differs[of pid path m] by (simp add: temp)
  have at: "differs_at temp m (last staged)"
    if "\<And>s. s \<in> set staged \<Longrightarrow> differs_at temp m s" "staged \<noteq> []" for staged using that by simp
  show "case r of
      Inr _ \<Rightarrow> m_live (last states) path = Some (RegularFile contents True private_mode) \<and> settled (last states) path
    | Inl (NotCommitted _) \<Rightarrow> m_live (last states) path = m_live m path \<and> m_durable (last states) path = m_durable m path
    | Inl (ReplacedButNotDurable _) \<Rightarrow> m_live (last states) path = Some (RegularFile contents True private_mode)"
    using run temp differs at
    by (cases rule: write_phased_cases) (auto simp: differs_at_def settled_def sync_directory_def)
  show "q \<noteq> path \<Longrightarrow> q \<noteq> fst (temp_path_for pid path m) \<Longrightarrow> m_live (last states) q = m_live m q"
    using run temp differs at
    by (cases rule: write_phased_cases) (auto simp: differs_at_def sync_directory_def temp)
  show "states \<noteq> []" using run temp by (cases rule: write_phased_cases) auto
qed

text \<open>Without failures, in a directory that exists and with the temporary name free, the file is replaced.\<close>

lemma write_phased_succeeds:
  assumes "fs_lookup m (parent_or_here path) = Some Directory" "path \<noteq> []" "m_live m path \<noteq> Some Directory"
    and "m_live m (fst (temp_path_for pid path m)) = None"
  shows "fst (write_phased_with_parent_sync no_write_faults pid path contents m) = Inr ()"
proof -
  obtain temp m0 where temp: "temp_path_for pid path m = (temp, m0)" by fastforce
  have m0: "m_live m0 = m_live m" using temp_path_for_machine(1)[of pid path m] by (simp add: temp)
  have "temp \<noteq> path" "temp \<noteq> []" "m_live m temp = None"
    using temp_path_differs[of pid path m] temp_path_not_empty[of pid path m] assms(4) by (simp_all add: temp)
  moreover have "parent_or_here path \<noteq> []" "m_live m (parent_or_here path) = Some Directory"
    using assms(1) by (auto simp: fs_lookup_def split: if_splits)
  ultimately show ?thesis using assms(2,3)
    by (simp add: write_phased_with_parent_sync_def Let_def temp open_directory_def fs_lookup_def m0
        stage_temp_file_def create_new_def write_all_def sync_file_def rename_file_def sync_directory_def no_write_faults_def)
qed

section \<open>The promise, and its client\<close>

text \<open>
  What a caller may rely on when it hands over the new contents of a file, whatever the system does:
  success means that they are there, and no moment shows anything but the old contents or the new ones.
\<close>

locale private_replace =
  fixes replace :: "rstr \<Rightarrow> u8 list \<Rightarrow> machine \<Rightarrow> (io_error + unit) \<times> machine list"
  assumes replace_ok: "replace path new m = (Inr (), states) \<Longrightarrow> contents_at (last states) path = Some new"
    and replace_crash: "replace path new m = (r, states) \<Longrightarrow> settled m path \<Longrightarrow> s \<in> set states \<Longrightarrow>
      may_be_found s path found \<Longrightarrow> found = contents_at m path \<or> found = Some new"
    and replace_live: "replace path new m = (r, states) \<Longrightarrow>
      contents_at (last states) path = contents_at m path \<or> contents_at (last states) path = Some new"
    and replace_states: "replace path new m = (r, states) \<Longrightarrow> states \<noteq> []"
begin

text \<open>New contents that extend the old ones lose none of them, at no moment.\<close>

lemma replace_extends:
  assumes "replace path new m = (r, states)" "settled m path" "s \<in> set states" "may_be_found s path found"
    and "contents_at m path = Some old" "prefix old new"
  shows "\<exists>rest. found = Some (old @ rest)"
  using replace_crash[OF assms(1-4)] assms(5,6) by (auto simp: prefix_def)

end

lemma write_private_phased:
  assumes "write_private_file_atomically f pid path new m = (r, states)"
  obtains r' where "write_phased_with_parent_sync f pid path new m = (r', states)" "r = Inr () \<longleftrightarrow> r' = Inr ()"
  using assms
  by (auto simp: write_private_file_atomically_def split: prod.splits sum.splits AtomicWriteError.splits)

interpretation replacement: private_replace "write_private_file_atomically f pid" for f pid
proof
  fix path new m states
  assume "write_private_file_atomically f pid path new m = (Inr (), states)"
  then show "contents_at (last states) path = Some new"
    by (rule write_private_phased) (auto dest: write_phased_final(1))
next
  fix path new m r states s found
  assume "write_private_file_atomically f pid path new m = (r, states)" "settled m path" "s \<in> set states"
    "may_be_found s path found"
  then show "found = contents_at m path \<or> found = Some new"
    by (metis write_private_phased write_phased_survives)
next
  fix path new m r states
  assume "write_private_file_atomically f pid path new m = (r, states)"
  then obtain r' where run: "write_phased_with_parent_sync f pid path new m = (r', states)"
    by (rule write_private_phased)
  show "states \<noteq> []" by (rule write_phased_final(3)[OF run])
  show "contents_at (last states) path = contents_at m path \<or> contents_at (last states) path = Some new"
    using write_phased_final(1)[OF run] by (auto split: sum.splits AtomicWriteError.splits)
qed

section \<open>Appending\<close>

definition old_bytes :: "machine \<Rightarrow> rstr \<Rightarrow> u8 list" where
  "old_bytes m path = (case contents_at m path of Some content \<Rightarrow> content | None \<Rightarrow> [])"

lemma prefix_appended: "prefix content (appended content line)"
  by (simp add: appended_def completed_def)

lemma lock_path_differs: "lock_path_for path \<noteq> path"
  by (simp add: lock_path_for_def lit_def)

lemma file_lock_acquire_touches:
  "file_lock_acquire f path m = (r, m') \<Longrightarrow> differs_at (lock_path_for path) m m'"
  by (auto simp: file_lock_acquire_def Let_def split: option.splits node.splits if_splits)

text \<open>A read that fails for a reason of its own does not claim that the file is missing.\<close>

definition honest_read :: "append_faults \<Rightarrow> bool" where
  "honest_read f \<longleftrightarrow> (case af_read f of None \<Rightarrow> True | Some error \<Rightarrow> io_kind error \<noteq> NotFound)"

text \<open>Every append is refused before it writes, or replaces the file with the old bytes and the line.\<close>

lemma append_cases [consumes 3, case_names refused written]:
  assumes run: "append_private_line_atomically f pid path line m = (r, states)"
    and path: "path \<noteq> []"
    and fault: "honest_read f"
  obtains (refused) error where "r = Inl error" "states \<noteq> []"
      "\<And>s. s \<in> set states \<Longrightarrow> differs_at (lock_path_for path) m s"
  | (written) m1 ws where "differs_at (lock_path_for path) m m1"
      "write_private_file_atomically (af_write f) pid path (appended (old_bytes m path) line) m1 = (r, ws)"
      "states = m # m1 # ws" "newline \<notin> set line" "carriage_return \<notin> set line"
proof (cases "newline \<in> set line \<or> carriage_return \<in> set line")
  case True
  with run show thesis by (intro refused) (auto simp: append_private_line_atomically_def)
next
  case False
  obtain r1 m1 where lock: "file_lock_acquire f path m = (r1, m1)" by fastforce
  have m1: "differs_at (lock_path_for path) m m1" using file_lock_acquire_touches[OF lock] .
  then have at: "m_live m1 path = m_live m path" using lock_path_differs[of path] by (simp add: differs_at_def)
  obtain r2 ws where new: "write_private_file_atomically (af_write f) pid path (appended (old_bytes m path) line) m1 = (r2, ws)"
    by fastforce
  have read: "read_file (af_read f) path m1 = Inr content \<Longrightarrow> content = old_bytes m path"
    "read_file (af_read f) path m1 = Inl error \<Longrightarrow> io_kind error = NotFound \<Longrightarrow> [] = old_bytes m path" for content error
    using path fault
    by (auto simp: honest_read_def read_file_def fs_lookup_def old_bytes_def at os_error_def split: option.splits node.splits)
  show thesis
  proof (cases "r1 = Inr () \<and> (\<forall>error. read_file (af_read f) path m1 = Inl error \<longrightarrow> io_kind error = NotFound)")
    case True
    with run read new lock False have "r = r2" "states = m # m1 # ws"
      by (auto simp: append_private_line_atomically_def split: sum.splits if_splits prod.splits)
    with m1 new False show thesis by (intro written[of m1 ws]) auto
  next
    case other: False
    with run lock m1 False show thesis
      by (cases "r1 = Inr ()")
         (auto simp: append_private_line_atomically_def split: sum.splits intro!: refused)
  qed
qed

end
