(* ===== verification/Atomic_File_Properties.thy ===== *)
theory Atomic_File_Properties
  imports Atomic_File_Laws
begin

text \<open>
  The properties of atomic replacement and of appending a line, with a small directory on which they are
  evaluated.
\<close>

section \<open>A directory with one file\<close>

definition demo_path :: rstr where
  "demo_path = lit ''/d/f''"

definition demo_machine :: machine where
  "demo_machine =
     (let entries = [lit ''/d'' \<mapsto> Directory, demo_path \<mapsto> RegularFile [35] True private_mode]
      in \<lparr>m_live = entries, m_durable = entries, m_sequence = 7\<rparr>)"

definition demo_faults :: write_faults where
  "demo_faults = no_write_faults\<lparr>wf_sync_parent := Some (os_error (OtherKind 5))\<rparr>"

definition demo_temp :: rstr where
  "demo_temp = lit ''/d/.f.tmp-3-7''"

lemma demo_settled: "settled demo_machine demo_path" "contents_at demo_machine demo_path = Some [35]"
  by (simp_all add: settled_def demo_machine_def Let_def)

lemma demo_names: "parent_or_here demo_path = lit ''/d''" "fst (temp_path_for 3 demo_path demo_machine) = demo_temp"
  by (simp_all add: parent_or_here_def demo_path_def demo_temp_def demo_machine_def path_parent_def temp_path_for_def
      drop_trailing_skipped_def skipped_piece_def path_file_name_def with_file_name_def path_join_def lit_def
      decimal.simps Let_def)

lemma demo_distinct: "lit ''/d'' \<noteq> demo_path" "demo_temp \<noteq> demo_path" "demo_temp \<noteq> lit ''/d''" "demo_path \<noteq> []" "demo_temp \<noteq> []"
    "lit ''/d'' \<noteq> []"
  by (simp_all add: demo_path_def demo_temp_def lit_def)

definition demo_written :: "write_faults \<Rightarrow> (AtomicWriteError + unit) \<times> machine list" where
  "demo_written f = write_phased_with_parent_sync f 3 demo_path [1, 2] demo_machine"

lemma demo_live:
  "m_live demo_machine (lit ''/d'') = Some Directory" "m_live demo_machine demo_temp = None"
  "m_live demo_machine demo_path = Some (RegularFile [35] True private_mode)"
  using demo_distinct by (simp_all add: demo_machine_def Let_def)

lemma demo_run: "fst (demo_written no_write_faults) = Inr ()"
  unfolding demo_written_def
  by (rule write_phased_succeeds) (simp_all add: demo_names demo_live demo_distinct fs_lookup_def)

section \<open>Properties\<close>

text \<open>
  C10 (replacement_all_or_nothing): whichever of its system calls fail, and at whichever of its states the machine
  crashes, a replacement leaves the destination with its old contents or with the new ones, complete.
\<close>

theorem replacement_all_or_nothing:
  assumes "settled m path" "write_phased_with_parent_sync f pid path contents m = (r, states)"
    and "s \<in> set states" "may_be_found s path found"
  shows "found = contents_at m path \<or> found = Some contents"
  using assms(2,1,3,4) by (rule write_phased_survives)

theorem replacement_all_or_nothing_witness:
  "\<exists>s found. s \<in> set (snd (demo_written demo_faults)) \<and> may_be_found s demo_path found \<and>
     (found = Some [35] \<or> found = Some [1, 2])"
proof -
  obtain r states where run: "demo_written demo_faults = (r, states)" by fastforce
  then have states: "states \<noteq> []" using write_phased_final(3) by (simp add: demo_written_def)
  have found: "may_be_found (last states) demo_path (contents_at (last states) demo_path)"
    by (cases "m_live (last states) demo_path" rule: node_contents.cases) (auto simp: may_be_found_def)
  show ?thesis
    using replacement_all_or_nothing[OF demo_settled(1) run[unfolded demo_written_def] last_in_set[OF states] found]
      demo_settled(2) found states run by (metis last_in_set snd_conv)
qed

text \<open>
  C37 (replacement_outcome): the result of a replacement says what happened. Success means that the new contents
  are in place with private permissions and survive a crash; \<open>NotCommitted\<close> means that the destination is
  untouched; \<open>ReplacedButNotDurable\<close> that the new contents are live. No other file changes but the
  temporary one. When nothing fails, the directory exists and the temporary name is free, it succeeds.
\<close>

theorem replacement_outcome:
  assumes "write_phased_with_parent_sync f pid path contents m = (r, states)"
  shows "(case r of
      Inr _ \<Rightarrow> m_live (last states) path = Some (RegularFile contents True private_mode) \<and> settled (last states) path
    | Inl (NotCommitted _) \<Rightarrow> m_live (last states) path = m_live m path \<and> m_durable (last states) path = m_durable m path
    | Inl (ReplacedButNotDurable _) \<Rightarrow> m_live (last states) path = Some (RegularFile contents True private_mode)) \<and>
    (\<forall>q. q \<noteq> path \<longrightarrow> q \<noteq> fst (temp_path_for pid path m) \<longrightarrow> m_live (last states) q = m_live m q) \<and>
    (f = no_write_faults \<and> fs_lookup m (parent_or_here path) = Some Directory \<and> path \<noteq> [] \<and>
     m_live m path \<noteq> Some Directory \<and> m_live m (fst (temp_path_for pid path m)) = None \<longrightarrow> r = Inr ())"
  using write_phased_final(1,2)[OF assms] write_phased_succeeds[of m path pid contents] assms by auto

theorem replacement_outcome_witness:
  "m_live (last (snd (demo_written no_write_faults))) demo_path = Some (RegularFile [1, 2] True private_mode) \<and>
   settled (last (snd (demo_written no_write_faults))) demo_path \<and>
   m_live (last (snd (demo_written no_write_faults))) (lit ''/d'') = Some Directory"
proof -
  obtain states where run: "demo_written no_write_faults = (Inr (), states)"
    using demo_run by (metis prod.collapse)
  show ?thesis
    using demo_live(1) replacement_outcome[OF run[unfolded demo_written_def]] demo_names(2) demo_distinct by (simp add: run)
qed

text \<open>
  C35 (append_keeps_every_byte): an append never loses a byte that was in the file, at no moment and whatever fails:
  what a crash leaves starts with the old bytes. When it succeeds, the file is the old bytes, a newline
  where the last one was missing, and the line.
\<close>

theorem append_keeps_every_byte:
  assumes run: "append_private_line_atomically f pid path line m = (r, states)"
    and path: "path \<noteq> []" "honest_read f" "settled m path" "contents_at m path = Some old"
  shows "(\<forall>s found. s \<in> set states \<longrightarrow> may_be_found s path found \<longrightarrow> (\<exists>rest. found = Some (old @ rest))) \<and>
    (r = Inr () \<longrightarrow> contents_at (last states) path = Some (appended old line))"
proof -
  have old: "old_bytes m path = old" using path(4) by (simp add: old_bytes_def)
  have same: "found = Some (old @ [])" if "differs_at (lock_path_for path) m s" "may_be_found s path found" for s found
    using kept_survives[OF path(3) that(1) lock_path_differs that(2)] path(4) by simp
  from run path(1,2) show ?thesis
  proof (cases rule: append_cases)
    case refused
    then show ?thesis using same by blast
  next
    case (written m1 ws)
    have m1: "settled m1 path" "contents_at m1 path = Some old"
      using written(1) path(3,4) lock_path_differs[of path] by (auto simp: differs_at_def settled_def)
    have new: "\<exists>rest. found = Some (old @ rest)" if "s \<in> set ws" "may_be_found s path found" for s found
      using replacement.replace_extends[OF written(2) m1(1) that m1(2)] prefix_appended[of old line] by (simp add: old)
    moreover have "r = Inr () \<Longrightarrow> contents_at (last states) path = Some (appended old line)"
      using replacement.replace_ok replacement.replace_states written(2,3) by (auto simp: old)
    moreover have "\<exists>rest. found = Some (old @ rest)" if "s \<in> set states" and found: "may_be_found s path found" for s found
    proof -
      from that(1) written(3) consider "s = m" | "s = m1" | "s \<in> set ws" by auto
      then show ?thesis using found same[of m found] same[of m1 found] new written(1) by cases auto
    qed
    ultimately show ?thesis by blast
  qed
qed

definition demo_append_faults :: append_faults where
  "demo_append_faults = \<lparr>af_open_lock = None, af_flock = None, af_read = None, af_write = demo_faults\<rparr>"

theorem append_keeps_every_byte_witness:
  "\<exists>rest. contents_at (last (snd (append_private_line_atomically demo_append_faults 3 demo_path (lit ''a'') demo_machine)))
     demo_path = Some (35 # rest)"
proof -
  obtain r states where run: "append_private_line_atomically demo_append_faults 3 demo_path (lit ''a'') demo_machine = (r, states)"
    by fastforce
  have honest: "honest_read demo_append_faults" by (simp add: honest_read_def demo_append_faults_def)
  note kept = append_keeps_every_byte[OF run demo_distinct(4) honest demo_settled]
  from run demo_distinct(4) honest have "states \<noteq> []" by (cases rule: append_cases) auto
  moreover have "may_be_found (last states) demo_path (contents_at (last states) demo_path)"
    by (cases "m_live (last states) demo_path" rule: node_contents.cases) (auto simp: may_be_found_def)
  ultimately have "\<exists>rest. contents_at (last states) demo_path = Some ([35] @ rest)" using kept last_in_set by blast
  then show ?thesis by (simp add: run)
qed

section \<open>A path without a directory\<close>

text \<open>
  The parent of a bare file name is the empty path, not none: the fallback to the current directory is
  not taken, and the replacement fails before it starts.
\<close>

lemma bare_name_never_written:
  assumes "slash \<notin> set path" "path \<noteq> []"
  shows "\<exists>error. fst (write_phased_with_parent_sync f pid path contents m) = Inl (NotCommitted error)"
proof -
  have "parent_or_here path = []"
    using assms by (simp add: parent_or_here_def path_parent_def split_on_word drop_trailing_skipped_def)
  then have "\<exists>error. open_directory (wf_open_parent f) (parent_or_here path) m0 = Inl error" for m0
    by (cases "wf_open_parent f") (simp_all add: open_directory_def fs_lookup_def)
  then show ?thesis
    by (auto simp: write_phased_with_parent_sync_def Let_def split: prod.splits sum.splits) (metis Inl_Inr_False)+
qed

end
