(* ===== verification/Append_Race.thy ===== *)
theory Append_Race
  imports Atomic_File_Properties
begin

text \<open>
  Several windows appending to one file (\<open>append_private_line_atomically\<close> under the lock of
  \<open>crates/storage/src/file_lock.rs\<close>). Each process takes the lock, reads, replaces the file and lets go; a
  failure lets go without replacing. The steps of the processes interleave freely. One run of the routine
  is such a sequence of steps, so what holds for the interleavings holds for the code.
\<close>

section \<open>Processes\<close>

datatype phase =
    Ready
  | Locked
  | HasRead "u8 list"
  | Replaced
  | Released

record race =
  race_file :: "u8 list"
  race_holder :: "nat option"
  race_phase :: "nat \<Rightarrow> phase"
  race_log :: "nat list"

definition set_phase :: "nat \<Rightarrow> phase \<Rightarrow> race \<Rightarrow> race" where
  "set_phase p ph s = s\<lparr>race_phase := (race_phase s)(p := ph)\<rparr>"

inductive race_step :: "(nat \<Rightarrow> rstr) \<Rightarrow> race \<Rightarrow> race \<Rightarrow> bool" for line :: "nat \<Rightarrow> rstr" where
  acquire: "race_phase s p = Ready \<Longrightarrow> race_holder s = None \<Longrightarrow>
    race_step line s (set_phase p Locked (s\<lparr>race_holder := Some p\<rparr>))"
| refuse: "race_phase s p = Ready \<Longrightarrow> race_step line s (set_phase p Released s)"
| read: "race_phase s p = Locked \<Longrightarrow> race_step line s (set_phase p (HasRead (race_file s)) s)"
| replace: "race_phase s p = HasRead content \<Longrightarrow>
    race_step line s (set_phase p Replaced
      (s\<lparr>race_file := appended content (line p), race_log := race_log s @ [p]\<rparr>))"
| release: "race_phase s p \<noteq> Ready \<Longrightarrow> race_holder s = Some p \<Longrightarrow>
    race_step line s (set_phase p Released (s\<lparr>race_holder := None\<rparr>))"

inductive_cases race_stepE: "race_step line s s'"

definition race_init :: "u8 list \<Rightarrow> race" where
  "race_init content = \<lparr>race_file = content, race_holder = None, race_phase = (\<lambda>_. Ready), race_log = []\<rparr>"

definition append_all :: "(nat \<Rightarrow> rstr) \<Rightarrow> u8 list \<Rightarrow> nat list \<Rightarrow> u8 list" where
  "append_all line content ps = foldl (\<lambda>c p. appended c (line p)) content ps"

section \<open>Mutual exclusion\<close>

definition race_inv :: "(nat \<Rightarrow> rstr) \<Rightarrow> u8 list \<Rightarrow> race \<Rightarrow> bool" where
  "race_inv line content s \<longleftrightarrow>
     race_file s = append_all line content (race_log s) \<and>
     (\<forall>p. race_phase s p \<in> {Ready, Released} \<or> race_holder s = Some p) \<and>
     (\<forall>p c. race_phase s p = HasRead c \<longrightarrow> c = race_file s) \<and>
     (\<forall>p. p \<in> set (race_log s) \<longrightarrow> race_phase s p \<in> {Replaced, Released}) \<and>
     distinct (race_log s)"

lemma race_inv_init: "race_inv line content (race_init content)"
  by (simp add: race_inv_def race_init_def append_all_def)

lemma append_all_snoc: "append_all line content (ps @ [p]) = appended (append_all line content ps) (line p)"
  by (simp add: append_all_def)

lemma race_inv_step: "race_step line s s' \<Longrightarrow> race_inv line content s \<Longrightarrow> race_inv line content s'"
proof (induction rule: race_step.induct)
  case (replace s p c)
  then have holder: "race_holder s = Some p" and "c = race_file s" and fresh: "p \<notin> set (race_log s)"
    by (auto simp: race_inv_def) (metis insert_iff phase.distinct singletonD)+
  moreover have "race_phase s q \<noteq> HasRead d" if "q \<noteq> p" for q d
    using replace(2) holder that by (auto simp: race_inv_def) (metis option.inject phase.distinct)
  ultimately show ?case using replace(2) by (auto simp: race_inv_def set_phase_def append_all_snoc)
next
  case (read s p)
  then have "race_holder s = Some p" by (auto simp: race_inv_def) (metis phase.distinct)
  with read show ?case by (auto simp: race_inv_def set_phase_def)
qed (auto simp: race_inv_def set_phase_def split: if_splits)

lemma race_inv_reachable: "(race_step line)\<^sup>*\<^sup>* (race_init content) s \<Longrightarrow> race_inv line content s"
  by (induction rule: rtranclp_induct) (auto intro: race_inv_init race_inv_step)

lemma prefix_append_all: "prefix content (append_all line content ps)"
proof (induction ps rule: rev_induct)
  case (snoc p ps)
  then show ?case using prefix_appended by (metis append_all_snoc prefix_order.trans)
qed (simp add: append_all_def)

section \<open>One run of the routine is a sequence of steps\<close>


lemma race_run_read:
  assumes "race_phase s p = Ready" "race_holder s = None"
  shows "(race_step line)\<^sup>*\<^sup>* s (set_phase p (HasRead (race_file s)) (s\<lparr>race_holder := Some p\<rparr>))"
proof -
  let ?s1 = "set_phase p Locked (s\<lparr>race_holder := Some p\<rparr>)"
  have "race_step line s ?s1" using assms by (intro race_step.acquire)
  moreover have "race_step line ?s1 (set_phase p (HasRead (race_file ?s1)) ?s1)"
    by (intro race_step.read) (simp add: set_phase_def)
  ultimately show ?thesis by (auto simp: set_phase_def)
qed

lemma race_run_replaced:
  assumes "race_phase s p = Ready" "race_holder s = None"
  shows "(race_step line)\<^sup>*\<^sup>* s
    (set_phase p Released (s\<lparr>race_file := appended (race_file s) (line p), race_log := race_log s @ [p]\<rparr>))"
proof -
  let ?s2 = "set_phase p (HasRead (race_file s)) (s\<lparr>race_holder := Some p\<rparr>)"
  let ?s3 = "set_phase p Replaced
      (?s2\<lparr>race_file := appended (race_file s) (line p), race_log := race_log ?s2 @ [p]\<rparr>)"
  have "race_step line ?s2 ?s3" by (rule race_step.replace) (simp add: set_phase_def)
  moreover have "race_step line ?s3 (set_phase p Released (?s3\<lparr>race_holder := None\<rparr>))"
    by (rule race_step.release) (simp_all add: set_phase_def)
  moreover have "set_phase p Released (?s3\<lparr>race_holder := None\<rparr>) =
      set_phase p Released (s\<lparr>race_file := appended (race_file s) (line p), race_log := race_log s @ [p]\<rparr>)"
    using assms(2) by (simp add: set_phase_def)
  ultimately show ?thesis using race_run_read[OF assms, of line] by (metis rtranclp.rtrancl_into_rtrancl)
qed

section \<open>Properties\<close>

text \<open>
  C33 (no_append_lost): however the appends of any number of windows interleave, and whichever of them fail,
  the file is what it was, followed by the lines of exactly the windows that replaced it, each once and in
  the order in which they did.
\<close>

theorem no_append_lost:
  assumes "(race_step line)\<^sup>*\<^sup>* (race_init content) s"
  shows "race_file s = append_all line content (race_log s) \<and> prefix content (race_file s) \<and>
    distinct (race_log s) \<and> (race_phase s p = HasRead c \<longrightarrow> c = race_file s \<and> race_holder s = Some p)"
  using race_inv_reachable[OF assms] prefix_append_all[of content line "race_log s"]
  by (auto simp: race_inv_def) (metis phase.distinct)+

definition two_lines :: "nat \<Rightarrow> rstr" where
  "two_lines p = (if p = 0 then lit ''a'' else lit ''b'')"

theorem no_append_lost_witness:
  "\<exists>s. (race_step two_lines)\<^sup>*\<^sup>* (race_init [35]) s \<and> race_file s = [35, 10, 98, 10, 97, 10] \<and> race_log s = [1, 0]"
proof -
  let ?s0 = "race_init [35]"
  let ?s1 = "set_phase 1 Released (?s0\<lparr>race_file := appended (race_file ?s0) (two_lines 1), race_log := race_log ?s0 @ [1]\<rparr>)"
  let ?s2 = "set_phase 0 Released (?s1\<lparr>race_file := appended (race_file ?s1) (two_lines 0), race_log := race_log ?s1 @ [0]\<rparr>)"
  have "(race_step two_lines)\<^sup>*\<^sup>* ?s0 ?s1" by (rule race_run_replaced) (simp_all add: race_init_def)
  moreover have "(race_step two_lines)\<^sup>*\<^sup>* ?s1 ?s2"
    by (rule race_run_replaced) (simp_all add: race_init_def set_phase_def)
  ultimately have run: "(race_step two_lines)\<^sup>*\<^sup>* ?s0 ?s2" by (rule rtranclp_trans)
  have log: "race_log ?s2 = [1, 0]" by (simp add: set_phase_def race_init_def)
  have "race_file ?s2 = append_all two_lines [35] (race_log ?s2)"
    using no_append_lost[OF run] by blast
  also have "\<dots> = [35, 10, 98, 10, 97, 10]"
    unfolding log by (simp add: append_all_def appended_def completed_def two_lines_def lit_def as_bytes_def encode_char_def)
  finally show ?thesis using run log by blast
qed



end
