(* ===== verification/Known_Hosts.thy ===== *)
theory Known_Hosts
  imports Core_Types Atomic_File_Properties
begin

text \<open>
  The store of trusted host keys (\<open>crates/sftp/src/known_hosts.rs\<close>). Entries, keys and their text come from
  the \<open>ssh_key\<close> crate and the keyed hash from \<open>hmac\<close>: a record of functions stands for them. Entries are
  seen through the accessors the code calls.
\<close>

section \<open>What the libraries provide\<close>

record PublicKey =
  pk_key_data :: "u8 list"
  pk_comment :: rstr

datatype Marker = CertAuthority | Revoked

datatype HostPatterns =
    Patterns "rstr list"
  | HashedName "u8 list" "u8 list"

record Entry =
  ent_marker :: "Marker option"
  ent_host_patterns :: HostPatterns
  ent_public_key :: PublicKey

text \<open>
  \<open>line.parse::<Entry>()\<close>; \<open>KnownHosts::new(line).next()\<close>, which has nothing for blank and comment lines;
  \<open>PublicKey::to_string\<close>; \<open>Hmac<Sha1>\<close>, which gives nothing for a salt it does not accept and else whether
  the hash verifies; and \<open>PublicKey::fingerprint(Sha256)\<close> as text.
\<close>

record ssh_library =
  parse_entry :: "rstr \<Rightarrow> Entry option"
  next_entry :: "rstr \<Rightarrow> (unit + Entry) option"
  key_to_string :: "PublicKey \<Rightarrow> rstr"
  hmac_verify :: "u8 list \<Rightarrow> u8 list \<Rightarrow> u8 list \<Rightarrow> bool option"
  key_fingerprint :: "PublicKey \<Rightarrow> rstr"

section \<open>The store\<close>

datatype HostKeyCheckResult = Match | NotFound | Mismatch

record KnownHostsStore =
  kh_app_entries :: "Entry list"
  kh_user_entries :: "Entry list"

datatype KnownHostsError =
    Io io_error
  | EntryFormat

definition kh_empty :: KnownHostsStore where
  "kh_empty = \<lparr>kh_app_entries = [], kh_user_entries = []\<rparr>"

definition entry_count :: "KnownHostsStore \<Rightarrow> nat" where
  "entry_count store = length (kh_app_entries store) + length (kh_user_entries store)"

definition host_pattern :: "rstr \<Rightarrow> u16 \<Rightarrow> rstr" where
  "host_pattern host port =
     (if port = 22 then host else lit ''['' @ host @ lit '']:'' @ decimal (unat port))"

fun host_patterns_match :: "ssh_library \<Rightarrow> HostPatterns \<Rightarrow> rstr \<Rightarrow> bool" where
  "host_patterns_match lib (Patterns patterns) pattern = list_ex (\<lambda>p. p = pattern) patterns"
| "host_patterns_match lib (HashedName salt hash) pattern =
     (case hmac_verify lib salt (as_bytes pattern) hash of None \<Rightarrow> False | Some verified \<Rightarrow> verified)"

definition entry_matches_host :: "ssh_library \<Rightarrow> Entry \<Rightarrow> rstr \<Rightarrow> bool" where
  "entry_matches_host lib entry pattern = host_patterns_match lib (ent_host_patterns entry) pattern"

fun check_loop :: "ssh_library \<Rightarrow> rstr \<Rightarrow> PublicKey \<Rightarrow> Entry list \<Rightarrow> bool \<Rightarrow> bool \<Rightarrow> HostKeyCheckResult" where
  "check_loop lib pattern key [] found_host found_matching_key =
     (if found_matching_key then Match else if found_host then Mismatch else HostKeyCheckResult.NotFound)"
| "check_loop lib pattern key (entry # entries) found_host found_matching_key =
     (if entry_matches_host lib entry pattern then
        if ent_marker entry = Some CertAuthority then
          check_loop lib pattern key entries found_host found_matching_key
        else
          (let key_matches = (pk_key_data (ent_public_key entry) = pk_key_data key)
           in if ent_marker entry = Some Revoked \<and> key_matches then Mismatch
              else check_loop lib pattern key entries True
                     (if ent_marker entry = None \<and> key_matches then True else found_matching_key))
      else check_loop lib pattern key entries found_host found_matching_key)"

definition check :: "ssh_library \<Rightarrow> KnownHostsStore \<Rightarrow> rstr \<Rightarrow> u16 \<Rightarrow> PublicKey \<Rightarrow> HostKeyCheckResult" where
  "check lib store host port key =
     check_loop lib (host_pattern host port) key (kh_app_entries store @ kh_user_entries store) False False"

definition expected_fingerprint :: "ssh_library \<Rightarrow> KnownHostsStore \<Rightarrow> rstr \<Rightarrow> u16 \<Rightarrow> rstr option" where
  "expected_fingerprint lib store host port =
     map_option (\<lambda>entry. key_fingerprint lib (ent_public_key entry))
       (find (\<lambda>entry. entry_matches_host lib entry (host_pattern host port))
         (kh_app_entries store @ kh_user_entries store))"

section \<open>Loading\<close>

definition line_entry :: "ssh_library \<Rightarrow> rstr \<Rightarrow> Entry option" where
  "line_entry lib line =
     (case next_entry lib line of Some (Inr entry) \<Rightarrow> Some entry | Some (Inl _) \<Rightarrow> None | None \<Rightarrow> None)"

definition file_entries :: "ssh_library \<Rightarrow> u8 list \<Rightarrow> Entry list" where
  "file_entries lib content = List.map_filter (line_entry lib) (str_lines (from_utf8_lossy content))"

definition load_file :: "ssh_library \<Rightarrow> io_error option \<Rightarrow> rstr \<Rightarrow> machine \<Rightarrow> Entry list" where
  "load_file lib fault path m =
     (case read_file fault path m of Inl _ \<Rightarrow> [] | Inr content \<Rightarrow> file_entries lib content)"

definition load_store :: "ssh_library \<Rightarrow> io_error option \<Rightarrow> io_error option \<Rightarrow> rstr \<Rightarrow> rstr option \<Rightarrow> machine \<Rightarrow> KnownHostsStore" where
  "load_store lib app_fault user_fault app_path user_path m =
     \<lparr>kh_app_entries = load_file lib app_fault app_path m,
      kh_user_entries = (case user_path of None \<Rightarrow> [] | Some path \<Rightarrow> load_file lib user_fault path m)\<rparr>"

section \<open>Trusting a key\<close>

definition trusted_line :: "ssh_library \<Rightarrow> rstr \<Rightarrow> u16 \<Rightarrow> PublicKey \<Rightarrow> rstr" where
  "trusted_line lib host port key = host_pattern host port @ lit '' '' @ key_to_string lib key"

definition add_trusted ::
  "ssh_library \<Rightarrow> append_faults \<Rightarrow> u32 \<Rightarrow> rstr \<Rightarrow> u16 \<Rightarrow> PublicKey \<Rightarrow> rstr \<Rightarrow> KnownHostsStore \<Rightarrow> machine \<Rightarrow>
   (KnownHostsError + unit) \<times> KnownHostsStore \<times> machine list" where
  "add_trusted lib f pid host port key app_path store m =
     (if host = [] \<or> list_ex (\<lambda>ch. is_whitespace ch \<or> is_bidi_or_control ch) host then (Inl EntryFormat, store, [m])
      else let line = trusted_line lib host port key
      in case parse_entry lib line of
           None \<Rightarrow> (Inl EntryFormat, store, [m])
         | Some entry \<Rightarrow>
             (case append_private_line_atomically f pid app_path line m of
                (Inl error, states) \<Rightarrow> (Inl (Io error), store, states)
              | (Inr _, states) \<Rightarrow> (Inr (), store\<lparr>kh_app_entries := kh_app_entries store @ [entry]\<rparr>, states)))"

section \<open>What a check decides\<close>

definition concerns :: "ssh_library \<Rightarrow> rstr \<Rightarrow> u16 \<Rightarrow> Entry \<Rightarrow> bool" where
  "concerns lib host port entry \<longleftrightarrow>
     entry_matches_host lib entry (host_pattern host port) \<and> ent_marker entry \<noteq> Some CertAuthority"

definition holds_key :: "PublicKey \<Rightarrow> Entry \<Rightarrow> bool" where
  "holds_key key entry \<longleftrightarrow> pk_key_data (ent_public_key entry) = pk_key_data key"


lemma check_loop_verdict:
  "check_loop lib (host_pattern host port) key entries found_host found_key =
     (if list_ex (\<lambda>e. concerns lib host port e \<and> ent_marker e = Some Revoked \<and> holds_key key e) entries then Mismatch
      else if found_key \<or> list_ex (\<lambda>e. concerns lib host port e \<and> ent_marker e = None \<and> holds_key key e) entries
      then Match
      else if found_host \<or> list_ex (concerns lib host port) entries then Mismatch
      else HostKeyCheckResult.NotFound)"
proof (induction entries arbitrary: found_host found_key)
  case (Cons e es)
  consider "\<not> concerns lib host port e"
    | "concerns lib host port e" "ent_marker e = None" | "concerns lib host port e" "ent_marker e = Some Revoked"
    by (cases "ent_marker e") (auto simp: concerns_def intro: Marker.exhaust)
  then show ?case
  proof cases
    case 1
    then show ?thesis using Cons.IH by (auto simp: concerns_def)
  next
    case 2
    then show ?thesis by (cases "holds_key key e") (simp_all add: Cons.IH concerns_def[of _ _ _ e] holds_key_def[of _ e])
  next
    case 3
    then show ?thesis by (cases "holds_key key e") (simp_all add: Cons.IH concerns_def[of _ _ _ e] holds_key_def[of _ e])
  qed
qed simp


lemma check_Match_iff:
  "check lib store host port key = Match \<longleftrightarrow>
     list_ex (\<lambda>e. concerns lib host port e \<and> ent_marker e = None \<and> holds_key key e)
       (kh_app_entries store @ kh_user_entries store) \<and>
     \<not> list_ex (\<lambda>e. concerns lib host port e \<and> ent_marker e = Some Revoked \<and> holds_key key e)
       (kh_app_entries store @ kh_user_entries store)"
  unfolding check_def check_loop_verdict by simp

end
