(* ===== verification/Known_Hosts_Properties.thy ===== *)
theory Known_Hosts_Properties
  imports Known_Hosts
begin

text \<open>
  A key that was trusted is found again, in memory and after the file is read back, and a failed attempt
  trusts nothing. At the end, two places where the store and its documentation differ.
\<close>

section \<open>Reading back a line\<close>

lemma map_filter_snoc: "List.map_filter g (xs @ [x]) = List.map_filter g xs @ (case g x of None \<Rightarrow> [] | Some y \<Rightarrow> [y])"
  by (simp add: List.map_filter_def split: option.splits)

lemma completed_ends: "completed content = [] \<or> last (completed content) = 10"
  by (simp add: completed_def)

lemma file_entries_appended:
  assumes "list_all scalar line" "newline \<notin> set line" "carriage_return \<notin> set line"
  shows "file_entries lib (appended content line) =
    file_entries lib (completed content) @ (case line_entry lib line of None \<Rightarrow> [] | Some entry \<Rightarrow> [entry])"
proof -
  note decoded = from_utf8_lossy_append[OF completed_ends[of content] assms(1)]
  have "strip_carriage_return line = line"
    using assms(3) last_in_set by (fastforce simp: strip_carriage_return_def)
  then show ?thesis
    using str_lines_append[OF decoded(2) assms(2)] by (simp add: file_entries_def appended_def decoded(1) map_filter_snoc)
qed

text \<open>
  What the code relies on of \<open>ssh_key\<close>: the line it writes for a host is read as one plain entry for that
  host with that key, by the parser and by the iterator over a file alike.
\<close>

definition reads_back :: "ssh_library \<Rightarrow> rstr \<Rightarrow> u16 \<Rightarrow> PublicKey \<Rightarrow> Entry \<Rightarrow> bool" where
  "reads_back lib host port key entry \<longleftrightarrow>
     parse_entry lib (trusted_line lib host port key) = Some entry \<and>
     next_entry lib (trusted_line lib host port key) = Some (Inr entry) \<and>
     ent_marker entry = None \<and> ent_host_patterns entry = Patterns [host_pattern host port] \<and>
     pk_key_data (ent_public_key entry) = pk_key_data key"

lemma reads_back_trusts: "reads_back lib host port key entry \<Longrightarrow> concerns lib host port entry \<and> holds_key key entry"
  by (simp add: reads_back_def concerns_def holds_key_def entry_matches_host_def)

lemma add_trusted_ok:
  assumes "add_trusted lib f pid host port key app_path store m = (Inr (), store', states)"
    and "reads_back lib host port key entry"
  shows "append_private_line_atomically f pid app_path (trusted_line lib host port key) m = (Inr (), states)"
    and "store' = store\<lparr>kh_app_entries := kh_app_entries store @ [entry]\<rparr>"
  using assms
  by (auto simp: add_trusted_def reads_back_def Let_def split: if_splits option.splits prod.splits sum.splits)

lemma append_ok:
  assumes run: "append_private_line_atomically f pid path line m = (Inr (), states)" "path \<noteq> []" "honest_read f"
  shows "contents_at (last states) path = Some (appended (old_bytes m path) line)"
    and "newline \<notin> set line" "carriage_return \<notin> set line"
proof -
  have "contents_at (last states) path = Some (appended (old_bytes m path) line) \<and>
    newline \<notin> set line \<and> carriage_return \<notin> set line"
    using run
  proof (cases rule: append_cases)
    case (written m1 ws)
    then show ?thesis using replacement.replace_ok[OF written(2)] replacement.replace_states[OF written(2)] by simp
  qed simp
  then show "contents_at (last states) path = Some (appended (old_bytes m path) line)"
    "newline \<notin> set line" "carriage_return \<notin> set line" by simp_all
qed

lemma load_file_contents: "path \<noteq> [] \<Longrightarrow> contents_at m path = Some content \<Longrightarrow> load_file lib None path m = file_entries lib content"
  by (cases "m_live m path" rule: node_contents.cases) (simp_all add: load_file_def read_file_def fs_lookup_def)

section \<open>Properties\<close>

text \<open>
  C34 (trusted_key_reloads): after a key was trusted successfully, a fresh start reads the application's file back
  to the entries it had, unreadable lines left out, followed by exactly the new one; and the key then
  matches for that host and port unless one of the files revokes it.
\<close>

theorem trusted_key_reloads:
  assumes run: "add_trusted lib f pid host port key app_path store m = (Inr (), store', states)"
    and lib: "reads_back lib host port key entry" "list_all scalar (trusted_line lib host port key)"
    and path: "app_path \<noteq> []" "honest_read f"
  shows "load_file lib None app_path (last states) = file_entries lib (completed (old_bytes m app_path)) @ [entry] \<and>
    (let reloaded = load_store lib None fault app_path user_path (last states)
     in check lib reloaded host port key =
       (if list_ex (\<lambda>e. concerns lib host port e \<and> ent_marker e = Some Revoked \<and> holds_key key e)
             (kh_app_entries reloaded @ kh_user_entries reloaded) then Mismatch else Match))"
proof -
  note add = add_trusted_ok[OF run lib(1)]
  note appends = append_ok[OF add(1) path]
  have "line_entry lib (trusted_line lib host port key) = Some entry"
    using lib(1) by (simp add: reads_back_def line_entry_def)
  then have load: "load_file lib None app_path (last states) = file_entries lib (completed (old_bytes m app_path)) @ [entry]"
    using load_file_contents[OF path(1) appends(1)] file_entries_appended[OF lib(2) appends(2,3)] by simp
  moreover have "concerns lib host port entry \<and> ent_marker entry = None \<and> holds_key key entry"
    using reads_back_trusts[OF lib(1)] lib(1) by (simp add: reads_back_def)
  ultimately show ?thesis unfolding check_def check_loop_verdict Let_def by (simp add: load_store_def)
qed

text \<open>
  failed_trust_changes_nothing: an attempt that fails leaves the store in memory as it was, and the bytes
  of the file as they were unless the line itself reached it; a host name that is empty or holds white
  space, control or bidirectional characters never gets as far as the file.
\<close>

theorem failed_trust_changes_nothing:
  assumes run: "add_trusted lib f pid host port key app_path store m = (Inl error, store', states)"
    and path: "app_path \<noteq> []" "honest_read f"
  shows "store' = store \<and>
    (old_bytes (last states) app_path = old_bytes m app_path \<or>
     old_bytes (last states) app_path = appended (old_bytes m app_path) (trusted_line lib host port key)) \<and>
    (host = [] \<or> list_ex (\<lambda>ch. is_whitespace ch \<or> is_bidi_or_control ch) host \<longrightarrow>
       error = EntryFormat \<and> states = [m])"
proof -
  consider (early) "states = [m]" "store' = store"
    | (io) e where "append_private_line_atomically f pid app_path (trusted_line lib host port key) m = (Inl e, states)"
        "store' = store" "\<not> (host = [] \<or> list_ex (\<lambda>ch. is_whitespace ch \<or> is_bidi_or_control ch) host)"
    using run by (auto simp: add_trusted_def Let_def split: if_splits option.splits prod.splits sum.splits)
  then show ?thesis
  proof cases
    case early
    then show ?thesis using run by (auto simp: add_trusted_def)
  next
    case io
    have "old_bytes (last states) app_path = old_bytes m app_path \<or>
      old_bytes (last states) app_path = appended (old_bytes m app_path) (trusted_line lib host port key)"
      using io(1) path
    proof (cases rule: append_cases)
      case refused
      then have "differs_at (lock_path_for app_path) m (last states)" by simp
      then show ?thesis using lock_path_differs[of app_path] by (simp add: old_bytes_def differs_at_def)
    next
      case (written m1 ws)
      have "contents_at m1 app_path = contents_at m app_path"
        using written(1) lock_path_differs[of app_path] by (simp add: differs_at_def)
      then show ?thesis
        using replacement.replace_live[OF written(2)] replacement.replace_states[OF written(2)] written(3)
        by (auto simp: old_bytes_def)
    qed
    with io(2,3) show ?thesis by blast
  qed
qed

section \<open>A small library\<close>

text \<open>An entry is two words: names separated by commas, and the bytes of the key as characters.\<close>

definition toy_parse :: "rstr \<Rightarrow> Entry option" where
  "toy_parse line =
     (case split_on 32 line of
        [names, key] \<Rightarrow>
          Some \<lparr>ent_marker = None, ent_host_patterns = Patterns (split_on 44 names),
                ent_public_key = \<lparr>pk_key_data = map of_nat key, pk_comment = []\<rparr>\<rparr>
      | _ \<Rightarrow> None)"

definition toy_library :: ssh_library where
  "toy_library =
     \<lparr>parse_entry = toy_parse,
      next_entry = (\<lambda>line. if line = [] \<or> hd line = 35 then None
                           else Some (case toy_parse line of None \<Rightarrow> Inl () | Some entry \<Rightarrow> Inr entry)),
      key_to_string = (\<lambda>key. map unat (pk_key_data key)),
      hmac_verify = (\<lambda>_ _ _. Some False),
      key_fingerprint = (\<lambda>key. map unat (pk_key_data key))\<rparr>"

definition toy_key :: PublicKey where
  "toy_key = \<lparr>pk_key_data = [65], pk_comment = []\<rparr>"

definition toy_entry :: Entry where
  "toy_entry = \<lparr>ent_marker = None, ent_host_patterns = Patterns [lit ''h''], ent_public_key = toy_key\<rparr>"

definition quiet_append :: append_faults where
  "quiet_append = \<lparr>af_open_lock = None, af_flock = None, af_read = None, af_write = no_write_faults\<rparr>"

lemma toy_reads_back: "reads_back toy_library (lit ''h'') 22 toy_key toy_entry"
  "list_all scalar (trusted_line toy_library (lit ''h'') 22 toy_key)"
  by (simp_all add: reads_back_def trusted_line_def host_pattern_def toy_library_def toy_parse_def toy_key_def
      toy_entry_def lit_def scalar_def)

lemma quiet_append_ok:
  assumes "newline \<notin> set line" "carriage_return \<notin> set line"
  shows "fst (append_private_line_atomically quiet_append 3 demo_path line demo_machine) = Inr ()"
proof -
  define m1 where "m1 = set_live (lock_path_for demo_path) (Some (RegularFile [] False private_mode)) demo_machine"
  have lock: "lock_path_for demo_path = lit ''/d/f.lock''" by (simp add: lock_path_for_def demo_path_def lit_def)
  have free: "m_live demo_machine (lock_path_for demo_path) = None" "lock_path_for demo_path \<noteq> []"
    unfolding lock by (simp_all add: demo_machine_def Let_def demo_path_def lit_def)
  have apart: "lock_path_for demo_path \<noteq> lit ''/d''" "lock_path_for demo_path \<noteq> demo_temp"
    unfolding lock by (simp_all add: demo_temp_def lit_def)
  have acquire: "file_lock_acquire quiet_append demo_path demo_machine = (Inr (), m1)"
    using free by (simp add: file_lock_acquire_def quiet_append_def fs_lookup_def m1_def Let_def)
  have live: "m_live m1 (lit ''/d'') = Some Directory" "m_live m1 demo_temp = None"
    "m_live m1 demo_path = Some (RegularFile [35] True private_mode)"
    using apart lock_path_differs[of demo_path] by (simp_all add: m1_def demo_live)
  have names: "fst (temp_path_for 3 demo_path m1) = demo_temp"
    using demo_names(2) by (simp add: temp_path_for_def m1_def set_live_def Let_def)
  have "fst (write_phased_with_parent_sync no_write_faults 3 demo_path new m1) = Inr ()" for new
    by (rule write_phased_succeeds) (simp_all add: demo_names(1) names live demo_distinct fs_lookup_def)
  then have "fst (write_private_file_atomically no_write_faults 3 demo_path new m1) = Inr ()" for new
    by (metis eq_fst_iff write_private_phased)
  moreover have "af_read quiet_append = None" "af_write quiet_append = no_write_faults" by (simp_all add: quiet_append_def)
  ultimately show ?thesis using assms live(3) demo_distinct(4)
    by (simp add: append_private_line_atomically_def acquire read_file_def fs_lookup_def Let_def split_beta)
qed

lemma toy_line: "trusted_line toy_library (lit ''h'') 22 toy_key = lit ''h A''"
  by (simp add: trusted_line_def host_pattern_def toy_library_def toy_key_def lit_def)

lemma toy_host: "lit ''h'' \<noteq> []" "\<not> list_ex (\<lambda>ch. is_whitespace ch \<or> is_bidi_or_control ch) (lit ''h'')"
  by (simp_all add: lit_def is_whitespace_def is_bidi_or_control_def is_control_def)

theorem trusted_key_reloads_witness:
  "\<exists>states store'. add_trusted toy_library quiet_append 3 (lit ''h'') 22 toy_key demo_path kh_empty demo_machine =
       (Inr (), store', states) \<and>
     load_file toy_library None demo_path (last states) = [toy_entry] \<and>
     check toy_library (load_store toy_library None None demo_path None (last states)) (lit ''h'') 22 toy_key = Match"
proof -
  have "fst (append_private_line_atomically quiet_append 3 demo_path (lit ''h A'') demo_machine) = Inr ()"
    by (rule quiet_append_ok) (simp_all add: lit_def)
  then obtain states where "append_private_line_atomically quiet_append 3 demo_path (lit ''h A'') demo_machine = (Inr (), states)"
    by (metis prod.collapse)
  moreover have "parse_entry toy_library (lit ''h A'') = Some toy_entry" using toy_reads_back(1) by (simp add: reads_back_def toy_line)
  ultimately obtain store' where run: "add_trusted toy_library quiet_append 3 (lit ''h'') 22 toy_key demo_path kh_empty demo_machine =
       (Inr (), store', states)" using toy_host by (simp add: add_trusted_def toy_line Let_def)
  have "honest_read quiet_append" by (simp add: honest_read_def quiet_append_def)
  note reload = trusted_key_reloads[OF run toy_reads_back demo_distinct(4) this, where fault = None and user_path = None]
  have "old_bytes demo_machine demo_path = [35]" by (simp add: old_bytes_def demo_live)
  moreover have "file_entries toy_library (completed [35]) = []"
    by (simp add: file_entries_def completed_def from_utf8_lossy_def next_char_def str_lines_def strip_carriage_return_def
        line_entry_def toy_library_def List.map_filter_def)
  ultimately have load: "load_file toy_library None demo_path (last states) = [toy_entry]" using reload by simp
  with reload have "check toy_library (load_store toy_library None None demo_path None (last states)) (lit ''h'') 22 toy_key = Match"
    by (simp add: load_store_def toy_entry_def Let_def)
  with run load show ?thesis by blast
qed

theorem failed_trust_changes_nothing_witness:
  "add_trusted toy_library quiet_append 3 (lit ''a b'') 22 toy_key demo_path kh_empty demo_machine =
     (Inl EntryFormat, kh_empty, [demo_machine]) \<and>
   old_bytes (last [demo_machine]) demo_path \<in> {[35], appended [35] (lit ''a b A'')}"
proof -
  have run: "add_trusted toy_library quiet_append 3 (lit ''a b'') 22 toy_key demo_path kh_empty demo_machine =
     (Inl EntryFormat, kh_empty, [demo_machine])"
    by (simp add: add_trusted_def lit_def is_whitespace_def)
  have "honest_read quiet_append" by (simp add: honest_read_def quiet_append_def)
  moreover have "trusted_line toy_library (lit ''a b'') 22 toy_key = lit ''a b A''" "old_bytes demo_machine demo_path = [35]"
    by (simp_all add: trusted_line_def host_pattern_def toy_library_def toy_key_def lit_def old_bytes_def demo_live)
  ultimately show ?thesis using failed_trust_changes_nothing[OF run demo_distinct(4)] run by simp
qed

section \<open>Where the documentation differs\<close>

definition other_key :: PublicKey where
  "other_key = \<lparr>pk_key_data = [66], pk_comment = []\<rparr>"

text \<open>A different key that is listed first does not end the scan: a later entry with the key still matches.\<close>

lemma later_match_wins:
  "check toy_library
     \<lparr>kh_app_entries = [toy_entry\<lparr>ent_public_key := other_key\<rparr>], kh_user_entries = [toy_entry]\<rparr> (lit ''h'') 22 toy_key = Match"
  by (simp add: check_def host_pattern_def entry_matches_host_def toy_entry_def toy_key_def other_key_def)

text \<open>
  The key shown as the expected one may be an authority's, which the check has skipped, or a revoked one,
  while the key that the host is pinned to stands further down.
\<close>

lemma expected_key_not_the_pinned_one:
  fixes store
  defines "store \<equiv> \<lparr>kh_app_entries = [toy_entry\<lparr>ent_marker := Some CertAuthority, ent_public_key := other_key\<rparr>, toy_entry],
    kh_user_entries = []\<rparr>"
  shows "check toy_library store (lit ''h'') 22 toy_key = Match \<and>
    check toy_library store (lit ''h'') 22 other_key = Mismatch \<and>
    expected_fingerprint toy_library store (lit ''h'') 22 = Some (key_fingerprint toy_library other_key)"
  by (simp add: store_def check_def expected_fingerprint_def host_pattern_def entry_matches_host_def toy_entry_def
      toy_key_def other_key_def)

end
