(* ===== verification/Profile_File.thy ===== *)
theory Profile_File
  imports Core_Types Atomic_File_Properties
begin

text \<open>
  The file of connection profiles (\<open>crates/storage/src/profile_file.rs\<close>): its checks, the migration of old
  versions, saving a profile, loading and the phased write. The JSON encoding is derived by \<open>serde\<close> and is a
  pair of functions. An error about corrupt data carries its reason in place of the message that is
  formatted from it. Arithmetic on identifiers wraps, as in a release build.
\<close>

section \<open>Errors\<close>

datatype corruption =
    DuplicateId
  | RevisionZero
  | PortZero
  | InvalidHost
  | InvalidUsername
  | WrongSecretRef rstr
  | RefWithoutPassphrase
  | InvalidProxyCommand
  | JumpsToItself
  | MissingJump ProfileId
  | NonDirectJump ProfileId

datatype StorageError =
    RevisionOverflow ProfileId
  | RecoveryRequired rstr
  | UnsupportedVersion u32 u32
  | Corrupt "ProfileId option" corruption
  | Io rstr rstr
  | Parse rstr
  | ConcurrentModification ProfileId
  | ProfileInUse ProfileId

datatype PhasedSaveError =
    NotCommitted StorageError
  | ReplacedButNotDurable StorageError

section \<open>Profiles\<close>

record ProfilesFile =
  pf_version :: u32
  pf_profiles :: "ConnectionProfile list"
  pf_next_profile_id :: "u64 option"

definition CURRENT_VERSION :: u32 where
  "CURRENT_VERSION = 5"

definition profiles_file_new :: ProfilesFile where
  "profiles_file_new = \<lparr>pf_version = CURRENT_VERSION, pf_profiles = [], pf_next_profile_id = None\<rparr>"

fun profile_raw :: "ProfileId \<Rightarrow> u64" where
  "profile_raw (ProfileId n) = n"

definition find_profile :: "ProfilesFile \<Rightarrow> ProfileId \<Rightarrow> ConnectionProfile option" where
  "find_profile file profile_id = find (\<lambda>profile. prof_id profile = profile_id) (pf_profiles file)"

definition save_profile :: "ConnectionProfile \<Rightarrow> ProfilesFile \<Rightarrow> StorageError + (ConnectionProfile \<times> ProfilesFile)" where
  "save_profile profile file =
     (case position (\<lambda>stored. prof_id stored = prof_id profile) (pf_profiles file) of
        Some index \<Rightarrow>
          (let revision = prof_revision (pf_profiles file ! index)
           in if revision = - 1 then Inl (RevisionOverflow (prof_id profile))
              else let saved = profile\<lparr>prof_revision := revision + 1\<rparr>
                   in Inr (saved, file\<lparr>pf_profiles := (pf_profiles file)[index := saved]\<rparr>))
      | None \<Rightarrow>
          (let saved = profile\<lparr>prof_revision := 1\<rparr>
           in Inr (saved, file\<lparr>pf_profiles := pf_profiles file @ [saved]\<rparr>)))"

definition next_profile_high_water :: "ProfilesFile \<Rightarrow> u64" where
  "next_profile_high_water file =
     (case pf_next_profile_id file of
        Some mark \<Rightarrow> mark
      | None \<Rightarrow> foldl max 0 (map (\<lambda>profile. profile_raw (prof_id profile)) (pf_profiles file)) + 1)"

section \<open>Validation\<close>

definition keychain_ref :: "ProfileId \<Rightarrow> rstr \<Rightarrow> SecretRef" where
  "keychain_ref profile_id kind =
     SecretRef (lit ''keychain:macsftp:'' @ decimal (unat (profile_raw profile_id)) @ lit '':'' @ kind)"

definition check_ref :: "ProfileId \<Rightarrow> SecretRef \<Rightarrow> rstr \<Rightarrow> StorageError + unit" where
  "check_ref profile_id secret_ref kind =
     (if secret_ref \<noteq> keychain_ref profile_id kind then Inl (Corrupt (Some profile_id) (WrongSecretRef kind)) else Inr ())"

fun validate_auth :: "AuthMethod \<Rightarrow> ProfileId \<Rightarrow> StorageError + unit" where
  "validate_auth (AuthMethod.Password secret_ref) profile_id = check_ref profile_id secret_ref (lit ''password'')"
| "validate_auth (AuthMethod.PrivateKey _ has_passphrase passphrase_ref) profile_id =
     (case (case passphrase_ref of None \<Rightarrow> Inr () | Some secret_ref \<Rightarrow> check_ref profile_id secret_ref (lit ''passphrase'')) of
        Inl error \<Rightarrow> Inl error
      | Inr _ \<Rightarrow>
          if \<not> has_passphrase \<and> passphrase_ref \<noteq> None then Inl (Corrupt (Some profile_id) RefWithoutPassphrase)
          else Inr ())"
| "validate_auth AuthMethod.KeyboardInteractive profile_id = Inr ()"
| "validate_auth (AuthMethod.SshAgent _) profile_id = Inr ()"

definition bad_name :: "rstr \<Rightarrow> bool" where
  "bad_name name \<longleftrightarrow> name = [] \<or> list_ex (\<lambda>c. is_whitespace c \<or> is_bidi_or_control c) name"

definition bad_proxy_command :: "rstr \<Rightarrow> bool" where
  "bad_proxy_command command \<longleftrightarrow>
     list_all is_whitespace command \<or> 0 \<in> set command \<or> list_ex is_bidi_or_control command"

text \<open>
  The check of a route, for a profile of the given name against the profiles of a file; a request and a
  stored profile are checked by the same rules.
\<close>

fun route_fault :: "ProfilesFile \<Rightarrow> ProfileId \<Rightarrow> ConnectionRoute \<Rightarrow> corruption option" where
  "route_fault file profile_id ConnectionRoute.Direct = None"
| "route_fault file profile_id (ConnectionRoute.ProxyCommand command) =
     (if bad_proxy_command command then Some InvalidProxyCommand else None)"
| "route_fault file profile_id (ConnectionRoute.JumpHost jump_id) =
     (if jump_id = profile_id then Some JumpsToItself
      else case find_profile file jump_id of
             None \<Rightarrow> Some (MissingJump jump_id)
           | Some jump \<Rightarrow> if prof_route jump \<noteq> ConnectionRoute.Direct then Some (NonDirectJump jump_id) else None)"

definition validate_profile :: "ProfilesFile \<Rightarrow> ConnectionProfile \<Rightarrow> StorageError + unit" where
  "validate_profile file profile =
     (let corrupt = (\<lambda>reason. Inl (Corrupt (Some (prof_id profile)) reason))
      in if prof_revision profile = 0 then corrupt RevisionZero
         else if prof_port profile = 0 then corrupt PortZero
         else if bad_name (prof_host profile) then corrupt InvalidHost
         else if bad_name (prof_username profile) then corrupt InvalidUsername
         else case validate_auth (prof_auth profile) (prof_id profile) of
                Inl error \<Rightarrow> Inl error
              | Inr _ \<Rightarrow>
                  (case route_fault file (prof_id profile) (prof_route profile) of
                     Some reason \<Rightarrow> corrupt reason
                   | None \<Rightarrow> Inr ()))"

fun validate_from :: "ProfilesFile \<Rightarrow> ConnectionProfile list \<Rightarrow> StorageError + unit" where
  "validate_from file [] = Inr ()"
| "validate_from file (profile # rest) =
     (case find (\<lambda>other. prof_id other = prof_id profile) rest of
        Some duplicate \<Rightarrow> Inl (Corrupt (Some (prof_id duplicate)) DuplicateId)
      | None \<Rightarrow>
          (case validate_profile file profile of
             Inl error \<Rightarrow> Inl error
           | Inr _ \<Rightarrow> validate_from file rest))"

definition validate :: "ProfilesFile \<Rightarrow> StorageError + unit" where
  "validate file = validate_from file (pf_profiles file)"

section \<open>Reading and writing\<close>

record serde =
  from_json :: "rstr \<Rightarrow> rstr + ProfilesFile"
  to_json :: "ProfilesFile \<Rightarrow> rstr + rstr"

fun migrate_auth :: "AuthMethod \<Rightarrow> AuthMethod" where
  "migrate_auth (AuthMethod.PrivateKey key_path has_passphrase (Some secret_ref)) =
     AuthMethod.PrivateKey key_path True (Some secret_ref)"
| "migrate_auth auth = auth"

definition parse :: "serde \<Rightarrow> rstr \<Rightarrow> StorageError + ProfilesFile" where
  "parse json contents =
     (case from_json json contents of
        Inl message \<Rightarrow> Inl (Parse message)
      | Inr parsed \<Rightarrow>
          if pf_version parsed = 0 \<or> pf_version parsed > CURRENT_VERSION
          then Inl (UnsupportedVersion (pf_version parsed) CURRENT_VERSION)
          else let file = (if pf_version parsed < 3
                           then parsed\<lparr>pf_profiles := map (\<lambda>p. p\<lparr>prof_auth := migrate_auth (prof_auth p)\<rparr>) (pf_profiles parsed)\<rparr>
                           else parsed)
               in case validate file of
                    Inl error \<Rightarrow> Inl error
                  | Inr _ \<Rightarrow>
                      Inr (file\<lparr>pf_next_profile_id := Some (next_profile_high_water file), pf_version := CURRENT_VERSION\<rparr>))"

text \<open>\<open>std::fs::read_to_string\<close>: bytes that are no UTF-8 are an error.\<close>

definition from_utf8 :: "u8 list \<Rightarrow> rstr option" where
  "from_utf8 bytes = (let s = from_utf8_lossy bytes in if as_bytes s = bytes then Some s else None)"

definition read_to_string :: "io_error option \<Rightarrow> rstr \<Rightarrow> machine \<Rightarrow> io_error + rstr" where
  "read_to_string fault path m =
     (case read_file fault path m of
        Inl error \<Rightarrow> Inl error
      | Inr bytes \<Rightarrow>
          (case from_utf8 bytes of
             None \<Rightarrow> Inl \<lparr>io_kind = OtherKind 0, io_text = lit ''stream did not contain valid UTF-8''\<rparr>
           | Some s \<Rightarrow> Inr s))"

definition load_profiles :: "serde \<Rightarrow> io_error option \<Rightarrow> rstr \<Rightarrow> machine \<Rightarrow> StorageError + ProfilesFile" where
  "load_profiles json fault path m =
     (case read_to_string fault path m of
        Inr contents \<Rightarrow> parse json contents
      | Inl error \<Rightarrow> if io_kind error = NotFound then Inr profiles_file_new else Inl (Io path (io_text error)))"

definition serialize_profiles :: "serde \<Rightarrow> ProfilesFile \<Rightarrow> StorageError + rstr" where
  "serialize_profiles json file =
     (case validate file of
        Inl error \<Rightarrow> Inl error
      | Inr _ \<Rightarrow> (case to_json json file of Inl message \<Rightarrow> Inl (Parse message) | Inr s \<Rightarrow> Inr s))"

fun phased_error :: "rstr \<Rightarrow> AtomicWriteError \<Rightarrow> PhasedSaveError" where
  "phased_error path (AtomicWriteError.NotCommitted error) = PhasedSaveError.NotCommitted (Io path (io_text error))"
| "phased_error path (AtomicWriteError.ReplacedButNotDurable error) =
     PhasedSaveError.ReplacedButNotDurable (Io path (io_text error))"

definition save_phased :: "serde \<Rightarrow> write_faults \<Rightarrow> u32 \<Rightarrow> rstr \<Rightarrow> ProfilesFile \<Rightarrow> machine \<Rightarrow> (PhasedSaveError + unit) \<times> machine" where
  "save_phased json f pid path file m =
     (case serialize_profiles json file of
        Inl error \<Rightarrow> (Inl (PhasedSaveError.NotCommitted error), m)
      | Inr s \<Rightarrow>
          (case write_phased_with_parent_sync f pid path (as_bytes s) m of
             (Inl error, states) \<Rightarrow> (Inl (phased_error path error), last states)
           | (Inr _, states) \<Rightarrow> (Inr (), last states)))"

section \<open>What a valid file is\<close>

definition profile_ok :: "ProfilesFile \<Rightarrow> ConnectionProfile \<Rightarrow> bool" where
  "profile_ok file p \<longleftrightarrow>
     prof_revision p \<noteq> 0 \<and> prof_port p \<noteq> 0 \<and> \<not> bad_name (prof_host p) \<and> \<not> bad_name (prof_username p) \<and>
     (case prof_auth p of
        AuthMethod.Password secret_ref \<Rightarrow> secret_ref = keychain_ref (prof_id p) (lit ''password'')
      | AuthMethod.PrivateKey _ has_passphrase passphrase_ref \<Rightarrow>
          passphrase_ref = None \<or> has_passphrase \<and> passphrase_ref = Some (keychain_ref (prof_id p) (lit ''passphrase''))
      | _ \<Rightarrow> True) \<and>
     (case prof_route p of
        ConnectionRoute.Direct \<Rightarrow> True
      | ConnectionRoute.ProxyCommand command \<Rightarrow> \<not> bad_proxy_command command
      | ConnectionRoute.JumpHost jump \<Rightarrow>
          jump \<noteq> prof_id p \<and> (\<exists>q \<in> set (pf_profiles file). prof_id q = jump \<and> prof_route q = ConnectionRoute.Direct))"

definition file_ok :: "ProfilesFile \<Rightarrow> bool" where
  "file_ok file \<longleftrightarrow>
     distinct (map prof_id (pf_profiles file)) \<and> (\<forall>p \<in> set (pf_profiles file). profile_ok file p)"

lemma find_profile_distinct:
  "distinct (map prof_id (pf_profiles file)) \<Longrightarrow>
   find_profile file i = Some p \<longleftrightarrow> p \<in> set (pf_profiles file) \<and> prof_id p = i"
  unfolding find_profile_def by (rule find_key_Some_iff)

lemma validate_from_iff:
  "validate_from file ps = Inr () \<longleftrightarrow>
     distinct (map prof_id ps) \<and> (\<forall>p \<in> set ps. validate_profile file p = Inr ())"
proof (induction ps)
  case (Cons p ps)
  show ?case
  proof (cases "find (\<lambda>other. prof_id other = prof_id p) ps")
    case None
    then have "prof_id p \<notin> prof_id ` set ps" by (auto simp: find_None_mem)
    then show ?thesis using Cons.IH None by (cases "validate_profile file p") auto
  next
    case (Some q)
    then have "prof_id p \<in> prof_id ` set ps" using find_Some_mem[OF Some] by (metis image_eqI)
    then show ?thesis using Some by simp
  qed
qed simp

lemma validate_auth_iff:
  "validate_auth auth i = Inr () \<longleftrightarrow>
     (case auth of
        AuthMethod.Password secret_ref \<Rightarrow> secret_ref = keychain_ref i (lit ''password'')
      | AuthMethod.PrivateKey _ has_passphrase passphrase_ref \<Rightarrow>
          passphrase_ref = None \<or> has_passphrase \<and> passphrase_ref = Some (keychain_ref i (lit ''passphrase''))
      | _ \<Rightarrow> True)"
  by (cases auth) (auto simp: check_ref_def split: option.splits sum.splits)

lemma route_fault_iff:
  assumes "distinct (map prof_id (pf_profiles file))"
  shows "route_fault file i route = None \<longleftrightarrow>
    (case route of
       ConnectionRoute.Direct \<Rightarrow> True
     | ConnectionRoute.ProxyCommand command \<Rightarrow> \<not> bad_proxy_command command
     | ConnectionRoute.JumpHost jump \<Rightarrow>
         jump \<noteq> i \<and> (\<exists>q \<in> set (pf_profiles file). prof_id q = jump \<and> prof_route q = ConnectionRoute.Direct))"
proof (cases route)
  case (JumpHost jump)
  show ?thesis
  proof (cases "find_profile file jump")
    case None
    then have "\<forall>q \<in> set (pf_profiles file). prof_id q \<noteq> jump" by (simp add: find_profile_def find_None_mem)
    then show ?thesis using JumpHost None by auto
  next
    case (Some q)
    then have q: "q \<in> set (pf_profiles file)" "prof_id q = jump"
      "\<And>r. r \<in> set (pf_profiles file) \<Longrightarrow> prof_id r = jump \<Longrightarrow> r = q"
      using find_profile_distinct[OF assms, of jump] by (metis option.inject)+
    then have "(\<exists>r \<in> set (pf_profiles file). prof_id r = jump \<and> prof_route r = ConnectionRoute.Direct) \<longleftrightarrow>
        prof_route q = ConnectionRoute.Direct" by metis
    with Some JumpHost show ?thesis by simp
  qed
qed auto

lemma validate_iff: "validate file = Inr () \<longleftrightarrow> file_ok file"
proof -
  have "validate_profile file p = Inr () \<longleftrightarrow> profile_ok file p" if "distinct (map prof_id (pf_profiles file))" for p
    using validate_auth_iff[of "prof_auth p" "prof_id p"] route_fault_iff[OF that, of "prof_id p" "prof_route p"]
    unfolding validate_profile_def profile_ok_def Let_def
    by (cases "validate_auth (prof_auth p) (prof_id p)"; cases "route_fault file (prof_id p) (prof_route p)") auto
  then show ?thesis unfolding validate_def validate_from_iff file_ok_def by blast
qed

section \<open>Reading back what was written\<close>

text \<open>What is relied on of \<open>serde_json\<close>: a text it printed for a file is read as that file.\<close>

definition faithful_json :: "serde \<Rightarrow> bool" where
  "faithful_json json \<longleftrightarrow> (\<forall>file s. to_json json file = Inr s \<longrightarrow> from_json json s = Inr file \<and> list_all scalar s)"

text \<open>A file in its current form: what loading yields, and saving keeps.\<close>

definition current :: "ProfilesFile \<Rightarrow> bool" where
  "current file \<longleftrightarrow> file_ok file \<and> pf_version file = CURRENT_VERSION \<and> pf_next_profile_id file \<noteq> None"

lemma from_utf8_as_bytes: "list_all scalar s \<Longrightarrow> from_utf8 (as_bytes s) = Some s"
  using decode_encode[of s "[]"] by (simp add: from_utf8_def from_utf8_lossy_def unat_as_bytes)

lemma parse_current:
  assumes "parse json contents = Inr file"
  shows "current file"
proof -
  have ok: "file_ok (f\<lparr>pf_next_profile_id := n, pf_version := v\<rparr>) \<longleftrightarrow> file_ok f" for f n v
    by (simp add: file_ok_def profile_ok_def cong: ConnectionRoute.case_cong)
  show ?thesis using assms
    by (auto simp: parse_def current_def Let_def ok validate_iff split: sum.splits if_splits)
qed

lemma parse_serialized:
  assumes "faithful_json json" "current file" "serialize_profiles json file = Inr s"
  shows "parse json s = Inr file" "list_all scalar s"
proof -
  have json: "from_json json s = Inr file" "list_all scalar s"
    using assms(1,3) by (auto simp: faithful_json_def serialize_profiles_def split: sum.splits)
  then show "list_all scalar s" by simp
  show "parse json s = Inr file"
    using json(1) assms(2)
    by (cases "file")
       (auto simp: parse_def current_def CURRENT_VERSION_def validate_iff[THEN iffD2] next_profile_high_water_def)
qed

lemma load_contents:
  assumes "path \<noteq> []" "contents_at m path = Some (as_bytes s)" "list_all scalar s"
  shows "load_profiles json None path m = parse json s"
  using assms from_utf8_as_bytes[OF assms(3)]
  by (cases "m_live m path" rule: node_contents.cases)
     (simp_all add: load_profiles_def read_to_string_def read_file_def fs_lookup_def)

lemma load_same_node: "m_live m' path = m_live m path \<Longrightarrow> load_profiles json fault path m' = load_profiles json fault path m"
  by (cases fault) (simp_all add: load_profiles_def read_to_string_def read_file_def fs_lookup_def)

text \<open>The outcome of a phased save, as a later load sees it.\<close>

lemma save_phased_outcome:
  assumes run: "save_phased json f pid path file m = (r, m')" and json: "faithful_json json" and path: "path \<noteq> []"
    and mark: "pf_version file = CURRENT_VERSION" "pf_next_profile_id file \<noteq> None"
  shows "case r of
      Inl (PhasedSaveError.NotCommitted _) \<Rightarrow> m_live m' path = m_live m path
    | _ \<Rightarrow> current file \<and> load_profiles json None path m' = Inr file"
proof (cases "serialize_profiles json file")
  case (Inl error)
  with run show ?thesis by (auto simp: save_phased_def)
next
  case (Inr s)
  have "validate file = Inr ()" using Inr by (auto simp: serialize_profiles_def split: sum.splits)
  then have cur: "current file" using mark by (simp add: current_def validate_iff)
  obtain r' states where w: "write_phased_with_parent_sync f pid path (as_bytes s) m = (r', states)" by fastforce
  note reads = load_contents[OF path _ parse_serialized(2)[OF json cur Inr], of "last states" json]
    parse_serialized(1)[OF json cur Inr]
  show ?thesis using run write_phased_final(1)[OF w] reads cur
    by (auto simp: save_phased_def Inr w split: sum.splits AtomicWriteError.splits)
qed

end
