(* ===== verification/Profile_Store.thy ===== *)
theory Profile_Store
  imports Profile_File
begin

text \<open>
  The store of connection profiles (\<open>crates/storage/src/profiles.rs\<close>): write transactions on the profile file
  under its lock, and their coordination with the credentials in the Keychain (\<open>keychain.rs\<close>). Several
  stores may work on one file and one Keychain; both are passed in and out. Every call to them may fail.
\<close>

section \<open>The Keychain\<close>

datatype KeychainError = NotFound | Os rstr

type_synonym keychain = "SecretRef \<rightharpoonup> rstr"

definition keychain_store :: "KeychainError option \<Rightarrow> SecretRef \<Rightarrow> rstr \<Rightarrow> keychain \<Rightarrow> (KeychainError + unit) \<times> keychain" where
  "keychain_store fault secret_ref secret k =
     (case fault of Some error \<Rightarrow> (Inl error, k) | None \<Rightarrow> (Inr (), k(secret_ref \<mapsto> secret)))"

definition keychain_load :: "KeychainError option \<Rightarrow> SecretRef \<Rightarrow> keychain \<Rightarrow> KeychainError + rstr option" where
  "keychain_load fault secret_ref k = (case fault of Some error \<Rightarrow> Inl error | None \<Rightarrow> Inr (k secret_ref))"

definition keychain_delete :: "KeychainError option \<Rightarrow> SecretRef \<Rightarrow> keychain \<Rightarrow> (KeychainError + unit) \<times> keychain" where
  "keychain_delete fault secret_ref k =
     (case fault of Some error \<Rightarrow> (Inl error, k) | None \<Rightarrow> (Inr (), k(secret_ref := None)))"

record keychain_faults =
  kf_load :: "KeychainError option"
  kf_store :: "KeychainError option"
  kf_rollback :: "KeychainError option"
  kf_delete :: "SecretRef \<Rightarrow> KeychainError option"

section \<open>Requests and results\<close>

datatype PrivateKeyPassphraseUpdate =
    KeepExisting
  | NoPassphrase
  | NotRemembered rstr
  | Remember rstr

datatype ProfileAuthUpdate =
    Password "rstr option"
  | PrivateKey LocalPath PrivateKeyPassphraseUpdate
  | KeyboardInteractive
  | SshAgent "LocalPath option"

record ProfileSaveRequest =
  req_profile_id :: ProfileId
  req_name :: rstr
  req_host :: rstr
  req_port :: u16
  req_username :: rstr
  req_auth :: ProfileAuthUpdate
  req_route :: ConnectionRoute
  req_default_remote_path :: "RemotePath option"

datatype ProfileMutationError =
    Storage StorageError
  | Keychain KeychainError
  | ProfileNotFound ProfileId
  | ProfileIdOverflow
  | CredentialRequired AuthMethodKind
  | InvalidRoute ProfileId rstr
  | StorageRollback StorageError KeychainError

datatype StorageWarning =
    DurabilityNotProven StorageError
  | TempCleanup rstr rstr
  | Keychain KeychainError

datatype TransactionKind =
    Save ConnectionProfile
  | Delete ProfileId

datatype TransactionOutcome =
    Committed "StorageWarning list"
  | Unchanged

section \<open>Opening\<close>

record ProfileStore =
  ps_path :: rstr
  ps_profiles :: ProfilesFile
  ps_initial_error :: "StorageError option"

definition open_store :: "serde \<Rightarrow> io_error option \<Rightarrow> rstr \<Rightarrow> machine \<Rightarrow> StorageError + ProfileStore" where
  "open_store json fault path m =
     (case load_profiles json fault path m of
        Inl error \<Rightarrow> Inl error
      | Inr profiles \<Rightarrow> Inr \<lparr>ps_path = path, ps_profiles = profiles, ps_initial_error = None\<rparr>)"

definition open_or_empty :: "serde \<Rightarrow> io_error option \<Rightarrow> rstr \<Rightarrow> machine \<Rightarrow> ProfileStore" where
  "open_or_empty json fault path m =
     (case open_store json fault path m of
        Inr store \<Rightarrow> store
      | Inl error \<Rightarrow> \<lparr>ps_path = path, ps_profiles = profiles_file_new, ps_initial_error = Some error\<rparr>)"

definition ensure_writable :: "ProfileStore \<Rightarrow> StorageError + unit" where
  "ensure_writable store = (if ps_initial_error store \<noteq> None then Inl (RecoveryRequired (ps_path store)) else Inr ())"

definition next_profile_id :: "ProfileStore \<Rightarrow> ProfileId" where
  "next_profile_id store = ProfileId (next_profile_high_water (ps_profiles store))"

abbreviation store_find :: "ProfileStore \<Rightarrow> ProfileId \<Rightarrow> ConnectionProfile option" where
  "store_find store \<equiv> find_profile (ps_profiles store)"

section \<open>Transactions\<close>

text \<open>
  The surroundings of a transaction: the JSON encoding, the process id, the failures of lock, read and
  write, and what listing the directory yields, each name with the failure of its removal.
\<close>

record transaction_env =
  te_json :: serde
  te_pid :: u32
  te_faults :: append_faults
  te_listing :: "io_error + (rstr \<times> io_error option) list"

definition starts_with :: "rstr \<Rightarrow> rstr \<Rightarrow> bool" where
  "starts_with pre s \<longleftrightarrow> take (length pre) s = pre"

fun remove_stale :: "rstr \<Rightarrow> rstr \<Rightarrow> (rstr \<times> io_error option) list \<Rightarrow> machine \<Rightarrow> StorageWarning list \<times> machine" where
  "remove_stale pre parent [] m = ([], m)"
| "remove_stale pre parent ((candidate, fault) # entries) m =
     (if \<not> starts_with pre candidate then remove_stale pre parent entries m
      else case remove_file fault (path_join parent candidate) m of
             (Inr _, m') \<Rightarrow> remove_stale pre parent entries m'
           | (Inl error, m') \<Rightarrow>
               (let (warnings, m'') = remove_stale pre parent entries m'
                in (TempCleanup (path_join parent candidate) (io_text error) # warnings, m'')))"

definition cleanup_stale_temp_files ::
  "io_error + (rstr \<times> io_error option) list \<Rightarrow> rstr \<Rightarrow> machine \<Rightarrow> StorageWarning list \<times> machine" where
  "cleanup_stale_temp_files listing path m =
     (case path_file_name path of
        None \<Rightarrow> ([], m)
      | Some file_name \<Rightarrow>
          (case listing of
             Inl _ \<Rightarrow> ([], m)
           | Inr entries \<Rightarrow> remove_stale (dot # file_name @ lit ''.tmp-'') (parent_or_here path) entries m))"

text \<open>
  The change a transaction makes to the file that was read again under the lock; nothing when there is
  nothing to delete.
\<close>

fun apply_transaction :: "TransactionKind \<Rightarrow> ProfilesFile \<Rightarrow> ProfilesFile \<Rightarrow> StorageError + ProfilesFile option" where
  "apply_transaction (Save profile) snapshot fresh =
     (if find_profile snapshot (prof_id profile) = None \<and> find_profile fresh (prof_id profile) \<noteq> None
      then Inl (ConcurrentModification (prof_id profile))
      else if find_profile fresh (prof_id profile) = None \<and>
              profile_raw (prof_id profile) < next_profile_high_water fresh
      then Inl (ConcurrentModification (prof_id profile))
      else let marked = (if find_profile fresh (prof_id profile) = None
                         then fresh\<lparr>pf_next_profile_id := Some (profile_raw (prof_id profile) + 1)\<rparr> else fresh)
           in case save_profile profile marked of
                Inl error \<Rightarrow> Inl error
              | Inr (_, next_profiles) \<Rightarrow> Inr (Some next_profiles))"
| "apply_transaction (Delete profile_id) snapshot fresh =
     (if find_profile fresh profile_id = None then Inr None
      else if list_ex (\<lambda>profile. prof_route profile = ConnectionRoute.JumpHost profile_id) (pf_profiles fresh)
      then Inl (ProfileInUse profile_id)
      else Inr (Some (fresh\<lparr>pf_profiles := filter (\<lambda>profile. prof_id profile \<noteq> profile_id) (pf_profiles fresh)\<rparr>)))"

definition commit_save ::
  "transaction_env \<Rightarrow> rstr \<Rightarrow> ProfilesFile \<Rightarrow> StorageWarning list \<Rightarrow> machine \<Rightarrow>
   ((StorageError \<times> StorageWarning list) + StorageWarning list) \<times> machine" where
  "commit_save env path next_profiles warnings m =
     (case save_phased (te_json env) (af_write (te_faults env)) (te_pid env) path next_profiles m of
        (Inr _, m') \<Rightarrow> (Inr warnings, m')
      | (Inl (PhasedSaveError.NotCommitted error), m') \<Rightarrow> (Inl (error, warnings), m')
      | (Inl (PhasedSaveError.ReplacedButNotDurable error), m') \<Rightarrow>
          (Inr (warnings @ [DurabilityNotProven error]), m'))"

definition commit_transaction ::
  "transaction_env \<Rightarrow> TransactionKind \<Rightarrow> ProfileStore \<Rightarrow> machine \<Rightarrow>
   ((StorageError \<times> StorageWarning list) + TransactionOutcome) \<times> ProfileStore \<times> machine" where
  "commit_transaction env transaction store m =
     (case file_lock_acquire (te_faults env) (ps_path store) m of
        (Inl error, m1) \<Rightarrow> (Inl (Io (lock_path_for (ps_path store)) (io_text error), []), store, m1)
      | (Inr _, m1) \<Rightarrow>
          (case load_profiles (te_json env) (af_read (te_faults env)) (ps_path store) m1 of
             Inl error \<Rightarrow> (Inl (error, []), store, m1)
           | Inr fresh \<Rightarrow>
               (let (warnings, m2) = cleanup_stale_temp_files (te_listing env) (ps_path store) m1
                in case apply_transaction transaction (ps_profiles store) fresh of
                     Inl error \<Rightarrow> (Inl (error, warnings), store, m2)
                   | Inr None \<Rightarrow> (Inr Unchanged, store, m2)
                   | Inr (Some next_profiles) \<Rightarrow>
                       (case commit_save env (ps_path store) next_profiles warnings m2 of
                          (Inl failure, m3) \<Rightarrow> (Inl failure, store, m3)
                        | (Inr warnings, m3) \<Rightarrow>
                            (Inr (Committed warnings), store\<lparr>ps_profiles := next_profiles\<rparr>, m3)))))"

section \<open>Saving a profile with its credential\<close>

definition request_fault :: "ProfileSaveRequest \<Rightarrow> ProfileStore \<Rightarrow> StorageError option" where
  "request_fault request store =
     (if req_port request = 0 then Some (Corrupt None PortZero)
      else if bad_name (req_host request) then Some (Corrupt None InvalidHost)
      else if bad_name (req_username request) then Some (Corrupt None InvalidUsername)
      else map_option (Corrupt (Some (req_profile_id request)))
             (route_fault (ps_profiles store) (req_profile_id request) (req_route request)))"

fun secret_refs_for_auth :: "AuthMethod \<Rightarrow> SecretRef list" where
  "secret_refs_for_auth (AuthMethod.Password secret_ref) = [secret_ref]"
| "secret_refs_for_auth (AuthMethod.PrivateKey _ _ passphrase_ref) =
     (case passphrase_ref of None \<Rightarrow> [] | Some secret_ref \<Rightarrow> [secret_ref])"
| "secret_refs_for_auth AuthMethod.KeyboardInteractive = []"
| "secret_refs_for_auth (AuthMethod.SshAgent _) = []"

text \<open>The auth method of the saved profile, and the secret to store under its reference, if any.\<close>

definition resolve_auth ::
  "ProfileSaveRequest \<Rightarrow> ConnectionProfile option \<Rightarrow> ProfileMutationError + (AuthMethod \<times> (SecretRef \<times> rstr) option)" where
  "resolve_auth request previous =
     (case req_auth request of
        ProfileAuthUpdate.Password (Some password) \<Rightarrow>
          (let secret_ref = keychain_ref (req_profile_id request) (lit ''password'')
           in Inr (AuthMethod.Password secret_ref, Some (secret_ref, password)))
      | ProfileAuthUpdate.Password None \<Rightarrow>
          (case map_option prof_auth previous of
             Some (AuthMethod.Password secret_ref) \<Rightarrow> Inr (AuthMethod.Password secret_ref, None)
           | _ \<Rightarrow> Inl (CredentialRequired AuthMethodKind.Password))
      | ProfileAuthUpdate.PrivateKey key_path passphrase \<Rightarrow>
          (let previous_passphrase =
             (case map_option prof_auth previous of
                Some (AuthMethod.PrivateKey _ has_passphrase passphrase_ref) \<Rightarrow> Some (has_passphrase, passphrase_ref)
              | _ \<Rightarrow> None);
               (has_passphrase, passphrase_ref, secret_update) =
             (case passphrase of
                KeepExisting \<Rightarrow>
                  (case previous_passphrase of
                     Some (kept_has_passphrase, kept_ref) \<Rightarrow> (kept_has_passphrase, kept_ref, None)
                   | None \<Rightarrow> (False, None, None))
              | NoPassphrase \<Rightarrow> (False, None, None)
              | NotRemembered _ \<Rightarrow> (True, None, None)
              | Remember secret \<Rightarrow>
                  (let secret_ref = keychain_ref (req_profile_id request) (lit ''passphrase'')
                   in (True, Some secret_ref, Some (secret_ref, secret))))
           in Inr (AuthMethod.PrivateKey key_path has_passphrase passphrase_ref, secret_update))
      | ProfileAuthUpdate.KeyboardInteractive \<Rightarrow> Inr (AuthMethod.KeyboardInteractive, None)
      | ProfileAuthUpdate.SshAgent socket_path \<Rightarrow> Inr (AuthMethod.SshAgent socket_path, None))"

text \<open>
  What is in hand when the transaction starts: the profile as it was, the new auth method, the secret that
  was stored and the one it replaced.
\<close>

record prepared =
  pr_previous :: "ConnectionProfile option"
  pr_auth :: AuthMethod
  pr_update :: "(SecretRef \<times> rstr) option"
  pr_previous_secret :: "rstr option"

definition prepare_save ::
  "keychain_faults \<Rightarrow> ProfileSaveRequest \<Rightarrow> ProfileStore \<Rightarrow> keychain \<Rightarrow> (ProfileMutationError + prepared) \<times> keychain" where
  "prepare_save kf request store k =
     (case ensure_writable store of
        Inl error \<Rightarrow> (Inl (Storage error), k)
      | Inr _ \<Rightarrow>
          (case request_fault request store of
             Some error \<Rightarrow> (Inl (Storage error), k)
           | None \<Rightarrow>
               (let previous = store_find store (req_profile_id request)
                in case resolve_auth request previous of
                     Inl error \<Rightarrow> (Inl error, k)
                   | Inr (auth, None) \<Rightarrow>
                       (Inr \<lparr>pr_previous = previous, pr_auth = auth, pr_update = None, pr_previous_secret = None\<rparr>, k)
                   | Inr (auth, Some (secret_ref, secret)) \<Rightarrow>
                       (case keychain_load (kf_load kf) secret_ref k of
                          Inl error \<Rightarrow> (Inl (ProfileMutationError.Keychain error), k)
                        | Inr previous_secret \<Rightarrow>
                            (case keychain_store (kf_store kf) secret_ref secret k of
                               (Inl error, k') \<Rightarrow> (Inl (ProfileMutationError.Keychain error), k')
                             | (Inr _, k') \<Rightarrow>
                                 (Inr \<lparr>pr_previous = previous, pr_auth = auth, pr_update = Some (secret_ref, secret),
                                       pr_previous_secret = previous_secret\<rparr>, k'))))))"

definition requested_profile :: "ProfileSaveRequest \<Rightarrow> AuthMethod \<Rightarrow> ConnectionProfile" where
  "requested_profile request auth =
     (connection_profile_new (req_profile_id request) (req_name request) (req_host request) (req_username request) auth)
       \<lparr>prof_port := req_port request, prof_default_remote_path := req_default_remote_path request,
        prof_route := req_route request\<rparr>"

definition roll_back :: "keychain_faults \<Rightarrow> prepared \<Rightarrow> StorageError \<Rightarrow> keychain \<Rightarrow> ProfileMutationError \<times> keychain" where
  "roll_back kf prep storage_error k =
     (case pr_update prep of
        None \<Rightarrow> (Storage storage_error, k)
      | Some (secret_ref, _) \<Rightarrow>
          (case (case pr_previous_secret prep of
                   Some secret \<Rightarrow> keychain_store (kf_rollback kf) secret_ref secret k
                 | None \<Rightarrow> keychain_delete (kf_rollback kf) secret_ref k) of
             (Inl rollback, k') \<Rightarrow> (StorageRollback storage_error rollback, k')
           | (Inr _, k') \<Rightarrow> (Storage storage_error, k')))"

fun remove_refs :: "(SecretRef \<Rightarrow> KeychainError option) \<Rightarrow> SecretRef list \<Rightarrow> keychain \<Rightarrow> KeychainError list \<times> keychain" where
  "remove_refs faults [] k = ([], k)"
| "remove_refs faults (secret_ref # refs) k =
     (case keychain_delete (faults secret_ref) secret_ref k of
        (Inr _, k') \<Rightarrow> remove_refs faults refs k'
      | (Inl error, k') \<Rightarrow> (let (errors, k'') = remove_refs faults refs k' in (error # errors, k'')))"

definition conclude_save ::
  "keychain_faults \<Rightarrow> ProfileSaveRequest \<Rightarrow> prepared \<Rightarrow> (StorageError \<times> StorageWarning list) + TransactionOutcome \<Rightarrow>
   ProfileStore \<Rightarrow> keychain \<Rightarrow> (ProfileMutationError + (ConnectionProfile \<times> StorageWarning list)) \<times> keychain" where
  "conclude_save kf request prep outcome store k =
     (case outcome of
        Inl (storage_error, _) \<Rightarrow> (let (error, k') = roll_back kf prep storage_error k in (Inl error, k'))
      | Inr Unchanged \<Rightarrow> (Inl (ProfileNotFound (req_profile_id request)), k)
      | Inr (Committed warnings) \<Rightarrow>
          (case store_find store (req_profile_id request) of
             None \<Rightarrow> (Inl (ProfileNotFound (req_profile_id request)), k)
           | Some saved \<Rightarrow>
               (let orphans = (case pr_previous prep of
                      None \<Rightarrow> []
                    | Some previous \<Rightarrow>
                        filter (\<lambda>orphan. orphan \<notin> set (secret_refs_for_auth (prof_auth saved)))
                          (secret_refs_for_auth (prof_auth previous)));
                    (errors, k') = remove_refs (kf_delete kf) orphans k
                in (Inr (saved, warnings @ map StorageWarning.Keychain errors), k'))))"

definition save_request ::
  "transaction_env \<Rightarrow> keychain_faults \<Rightarrow> ProfileSaveRequest \<Rightarrow> ProfileStore \<Rightarrow> machine \<Rightarrow> keychain \<Rightarrow>
   (ProfileMutationError + (ConnectionProfile \<times> StorageWarning list)) \<times> ProfileStore \<times> machine \<times> keychain" where
  "save_request env kf request store m k =
     (case prepare_save kf request store k of
        (Inl error, k') \<Rightarrow> (Inl error, store, m, k')
      | (Inr prep, k') \<Rightarrow>
          (let (outcome, store', m') = commit_transaction env (Save (requested_profile request (pr_auth prep))) store m;
               (result, k'') = conclude_save kf request prep outcome store' k'
           in (result, store', m', k'')))"

section \<open>Deleting\<close>

definition delete_profile ::
  "transaction_env \<Rightarrow> ProfileId \<Rightarrow> ProfileStore \<Rightarrow> machine \<Rightarrow> (StorageError + unit) \<times> ProfileStore \<times> machine" where
  "delete_profile env profile_id store m =
     (case ensure_writable store of
        Inl error \<Rightarrow> (Inl error, store, m)
      | Inr _ \<Rightarrow>
          (case commit_transaction env (Delete profile_id) store m of
             (Inl (error, _), store', m') \<Rightarrow> (Inl error, store', m')
           | (Inr _, store', m') \<Rightarrow> (Inr (), store', m')))"

definition delete_profile_and_credentials ::
  "transaction_env \<Rightarrow> keychain_faults \<Rightarrow> ProfileId \<Rightarrow> ProfileStore \<Rightarrow> machine \<Rightarrow> keychain \<Rightarrow>
   (ProfileMutationError + (bool \<times> KeychainError list)) \<times> ProfileStore \<times> machine \<times> keychain" where
  "delete_profile_and_credentials env kf profile_id store m k =
     (case store_find store profile_id of
        None \<Rightarrow> (Inr (False, []), store, m, k)
      | Some previous \<Rightarrow>
          (case delete_profile env profile_id store m of
             (Inl error, store', m') \<Rightarrow> (Inl (Storage error), store', m', k)
           | (Inr _, store', m') \<Rightarrow>
               (let (errors, k') = remove_refs (kf_delete kf) (secret_refs_for_auth (prof_auth previous)) k
                in (Inr (True, errors), store', m', k'))))"

section \<open>Connecting\<close>

fun load_credential :: "(SecretRef \<Rightarrow> KeychainError option) \<Rightarrow> keychain \<Rightarrow> AuthMethod \<Rightarrow> ProfileMutationError + AuthCredential" where
  "load_credential faults k (AuthMethod.Password secret_ref) =
     (case keychain_load (faults secret_ref) secret_ref k of
        Inl error \<Rightarrow> Inl (ProfileMutationError.Keychain error)
      | Inr None \<Rightarrow> Inl (CredentialRequired AuthMethodKind.Password)
      | Inr (Some password) \<Rightarrow> Inr (AuthCredential.Password password))"
| "load_credential faults k (AuthMethod.PrivateKey key_path _ None) =
     Inr (AuthCredential.PrivateKey (local_str key_path) None)"
| "load_credential faults k (AuthMethod.PrivateKey key_path _ (Some secret_ref)) =
     (case keychain_load (faults secret_ref) secret_ref k of
        Inl error \<Rightarrow> Inl (ProfileMutationError.Keychain error)
      | Inr None \<Rightarrow> Inl (CredentialRequired AuthMethodKind.PrivateKey)
      | Inr (Some passphrase) \<Rightarrow> Inr (AuthCredential.PrivateKey (local_str key_path) (Some passphrase)))"
| "load_credential faults k AuthMethod.KeyboardInteractive = Inr AuthCredential.KeyboardInteractive"
| "load_credential faults k (AuthMethod.SshAgent socket_path) =
     Inr (AuthCredential.SshAgent (map_option local_str socket_path))"

text \<open>
  The settings of a connection; a jump host is resolved in turn, with the profiles on the way remembered.
  The recursion ends because every step adds a stored profile to them.
\<close>

function load_connection_settings_inner ::
  "(SecretRef \<Rightarrow> KeychainError option) \<Rightarrow> ProfileStore \<Rightarrow> keychain \<Rightarrow> ProfileId \<Rightarrow> ProfileId list \<Rightarrow>
   ProfileMutationError + ConnectionSettings" where
  "load_connection_settings_inner faults store k profile_id visited =
     (if profile_id \<in> set visited then Inl (InvalidRoute profile_id (lit ''jump-host cycle detected''))
      else case store_find store profile_id of
             None \<Rightarrow> Inl (ProfileNotFound profile_id)
           | Some profile \<Rightarrow>
               (case load_credential faults k (prof_auth profile) of
                  Inl error \<Rightarrow> Inl error
                | Inr auth \<Rightarrow>
                    (case (case prof_route profile of
                             ConnectionRoute.Direct \<Rightarrow> Inr ResolvedConnectionRoute.Direct
                           | ConnectionRoute.ProxyCommand command \<Rightarrow>
                               if list_all is_whitespace command
                               then Inl (InvalidRoute profile_id (lit ''ProxyCommand is empty''))
                               else Inr (ResolvedConnectionRoute.ProxyCommand command)
                           | ConnectionRoute.JumpHost jump_id \<Rightarrow>
                               (case store_find store jump_id of
                                  None \<Rightarrow> Inl (InvalidRoute profile_id (lit ''jump-host profile was not found''))
                                | Some jump \<Rightarrow>
                                    if prof_route jump \<noteq> ConnectionRoute.Direct
                                    then Inl (InvalidRoute profile_id (lit ''jump-host profiles must use a direct route''))
                                    else case load_connection_settings_inner faults store k jump_id (visited @ [profile_id]) of
                                           Inl error \<Rightarrow> Inl error
                                         | Inr settings \<Rightarrow> Inr (ResolvedConnectionRoute.JumpHost settings))) of
                       Inl error \<Rightarrow> Inl error
                     | Inr route \<Rightarrow>
                         Inr (ConnectionSettings (prof_host profile) (prof_port profile) (prof_username profile) auth route))))"
  by pat_completeness auto

termination
proof (relation "measure (\<lambda>(_, store, _, _, visited). card (prof_id ` set (pf_profiles (ps_profiles store)) - set visited))")
  fix faults :: "SecretRef \<Rightarrow> KeychainError option" and store :: ProfileStore and k :: keychain
    and profile_id visited profile jump_id
  assume "profile_id \<notin> set visited" "store_find store profile_id = Some profile"
  then have "profile_id \<in> prof_id ` set (pf_profiles (ps_profiles store)) - set visited"
    using find_Some_mem[of _ "pf_profiles (ps_profiles store)" profile] by (auto simp: find_profile_def)
  moreover have "A - set (visited @ [profile_id]) = A - set visited - {profile_id}" for A by auto
  ultimately show "((faults, store, k, jump_id, visited @ [profile_id]), (faults, store, k, profile_id, visited)) \<in>
    measure (\<lambda>(_, store, _, _, visited). card (prof_id ` set (pf_profiles (ps_profiles store)) - set visited))"
    using card_Diff1_less[of "prof_id ` set (pf_profiles (ps_profiles store)) - set visited" profile_id]
    by (simp del: set_append)
qed simp

declare load_connection_settings_inner.simps [simp del]

definition load_connection_settings ::
  "(SecretRef \<Rightarrow> KeychainError option) \<Rightarrow> ProfileStore \<Rightarrow> keychain \<Rightarrow> ProfileId \<Rightarrow> ProfileMutationError + ConnectionSettings" where
  "load_connection_settings faults store k profile_id = load_connection_settings_inner faults store k profile_id []"

definition has_saved_secret ::
  "(SecretRef \<Rightarrow> KeychainError option) \<Rightarrow> ProfileStore \<Rightarrow> keychain \<Rightarrow> ProfileId \<Rightarrow> ProfileMutationError + bool" where
  "has_saved_secret faults store k profile_id =
     (case store_find store profile_id of
        None \<Rightarrow> Inl (ProfileNotFound profile_id)
      | Some profile \<Rightarrow>
          (case (case prof_auth profile of
                   AuthMethod.Password secret_ref \<Rightarrow> Some secret_ref
                 | AuthMethod.PrivateKey _ _ passphrase_ref \<Rightarrow> passphrase_ref
                 | _ \<Rightarrow> None) of
             None \<Rightarrow> Inr False
           | Some secret_ref \<Rightarrow>
               (case keychain_load (faults secret_ref) secret_ref k of
                  Inl error \<Rightarrow> Inl (ProfileMutationError.Keychain error)
                | Inr secret \<Rightarrow> Inr (secret \<noteq> None))))"

text \<open>The identity of a saved profile for the connection pool; the digest of the key path is a parameter.\<close>

definition auth_fingerprint :: "(rstr \<Rightarrow> rstr) \<Rightarrow> ProfileStore \<Rightarrow> ProfileId \<Rightarrow> AuthFingerprint option" where
  "auth_fingerprint sha256_hex store profile_id =
     (case store_find store profile_id of
        None \<Rightarrow> None
      | Some profile \<Rightarrow>
          (let fingerprint = with_saved_profile
             (case prof_auth profile of
                AuthMethod.Password secret_ref \<Rightarrow> fingerprint_password secret_ref (prof_revision profile)
              | AuthMethod.PrivateKey key_path _ passphrase_ref \<Rightarrow>
                  fingerprint_private_key (sha256_hex (local_str key_path)) passphrase_ref (prof_revision profile)
              | AuthMethod.KeyboardInteractive \<Rightarrow> fingerprint_keyboard_interactive (prof_revision profile)
              | AuthMethod.SshAgent _ \<Rightarrow> fingerprint_ssh_agent (prof_revision profile)) profile_id
           in case prof_route profile of
                ConnectionRoute.JumpHost jump_id \<Rightarrow>
                  map_option (\<lambda>jump. with_jump_profile fingerprint jump_id (prof_revision jump)) (store_find store jump_id)
              | _ \<Rightarrow> Some fingerprint))"

end
