(* ===== verification/Profile_Store_Laws.thy ===== *)
theory Profile_Store_Laws
  imports Profile_Store
begin

text \<open>
  What a write transaction promises, as a locale, and what the profile store makes of it: the file and the
  store in memory change together or not at all, credentials follow the file, and identifiers are never
  used twice.
\<close>

section \<open>Temporary files and the file itself\<close>

text \<open>Names that a directory listing yields have no separator in them.\<close>

definition honest_listing :: "transaction_env \<Rightarrow> bool" where
  "honest_listing env \<longleftrightarrow>
     (case te_listing env of Inl _ \<Rightarrow> True | Inr entries \<Rightarrow> list_all (\<lambda>(name, _). slash \<notin> set name) entries)"

lemma stale_name_differs:
  assumes "path_file_name path = Some file_name" "starts_with (dot # file_name @ lit ''.tmp-'') name" "slash \<notin> set name"
  shows "path_join parent name \<noteq> path"
proof -
  obtain r where r: "name = (dot # file_name @ lit ''.tmp-'') @ r"
    using assms(2) unfolding starts_with_def by (metis append_take_drop_id)
  then have "name \<notin> {[], [dot], [dot, dot]}" by (auto simp: lit_def append_eq_Cons_conv)
  from file_name_of_join[OF assms(3) this, of parent] assms(1) r show ?thesis by (auto simp: lit_def)
qed

lemma remove_stale_keeps:
  assumes "list_all (\<lambda>(name, _). starts_with pre name \<longrightarrow> path_join parent name \<noteq> path) entries"
  shows "m_live (snd (remove_stale pre parent entries m)) path = m_live m path"
  using assms
proof (induction pre parent entries m rule: remove_stale.induct)
  case (2 pre parent candidate fault entries m)
  show ?case
  proof (cases "starts_with pre candidate")
    case True
    obtain r m' where remove: "remove_file fault (path_join parent candidate) m = (r, m')" by fastforce
    have "m_live m' path = m_live m path"
      using remove_file_touches[of "path_join parent candidate" m fault] 2(4) True
      by (auto simp: differs_at_def remove)
    then show ?thesis using 2 True remove by (cases r) (simp_all add: split_beta)
  qed (use 2 in simp)
qed simp

lemma cleanup_keeps:
  assumes "honest_listing env"
  shows "m_live (snd (cleanup_stale_temp_files (te_listing env) path m)) path = m_live m path"
proof (cases "path_file_name path")
  case (Some file_name)
  show ?thesis
  proof (cases "te_listing env")
    case (Inr entries)
    then have "list_all (\<lambda>(name, _). starts_with (dot # file_name @ lit ''.tmp-'') name \<longrightarrow>
        path_join (parent_or_here path) name \<noteq> path) entries"
      using assms stale_name_differs[OF Some] by (fastforce simp: honest_listing_def list_all_iff)
    from remove_stale_keeps[OF this] show ?thesis by (simp add: cleanup_stale_temp_files_def Some Inr)
  qed (simp add: cleanup_stale_temp_files_def Some)
qed (simp add: cleanup_stale_temp_files_def)

section \<open>The promise of a transaction\<close>

lemma save_profile_result:
  assumes "save_profile profile file = Inr (saved, file')"
  shows "saved \<in> set (pf_profiles file')" "\<exists>revision. saved = profile\<lparr>prof_revision := revision\<rparr>"
    "pf_version file' = pf_version file" "pf_next_profile_id file' = pf_next_profile_id file"
proof -
  have "saved \<in> set (pf_profiles file') \<and> (\<exists>revision. saved = profile\<lparr>prof_revision := revision\<rparr>) \<and>
    pf_version file' = pf_version file \<and> pf_next_profile_id file' = pf_next_profile_id file"
  proof (cases "position (\<lambda>stored. prof_id stored = prof_id profile) (pf_profiles file)")
    case None
    with assms show ?thesis by (auto simp: save_profile_def Let_def)
  next
    case (Some i)
    then have "i < length (pf_profiles file)" using position_Some_nth by metis
    with Some assms show ?thesis by (auto simp: save_profile_def Let_def set_update_memI split: if_splits)
  qed
  then show "saved \<in> set (pf_profiles file')" "\<exists>revision. saved = profile\<lparr>prof_revision := revision\<rparr>"
    "pf_version file' = pf_version file" "pf_next_profile_id file' = pf_next_profile_id file" by blast+
qed

text \<open>The file in which a save replaces or adds the profile.\<close>

definition marked_for :: "ConnectionProfile \<Rightarrow> ProfilesFile \<Rightarrow> ProfilesFile" where
  "marked_for profile fresh =
     (if find_profile fresh (prof_id profile) = None
      then fresh\<lparr>pf_next_profile_id := Some (profile_raw (prof_id profile) + 1)\<rparr> else fresh)"

lemma apply_save:
  assumes "apply_transaction (Save profile) snapshot fresh = Inr (Some next_profiles)"
  obtains saved where "save_profile profile (marked_for profile fresh) = Inr (saved, next_profiles)"
    "find_profile fresh (prof_id profile) = None \<longrightarrow> next_profile_high_water fresh \<le> profile_raw (prof_id profile)"
  using assms by (auto simp: marked_for_def Let_def not_less split: if_splits sum.splits)

definition sound_env :: "transaction_env \<Rightarrow> ProfileStore \<Rightarrow> bool" where
  "sound_env env store \<longleftrightarrow>
     faithful_json (te_json env) \<and> honest_listing env \<and> honest_read (te_faults env) \<and> ps_path store \<noteq> []"

definition stored :: "transaction_env \<Rightarrow> ProfileStore \<Rightarrow> machine \<Rightarrow> StorageError + ProfilesFile" where
  "stored env store m = load_profiles (te_json env) None (ps_path store) m"

locale profile_transactions =
  fixes commit :: "transaction_env \<Rightarrow> TransactionKind \<Rightarrow> ProfileStore \<Rightarrow> machine \<Rightarrow>
      ((StorageError \<times> StorageWarning list) + TransactionOutcome) \<times> ProfileStore \<times> machine"
    and sound :: "transaction_env \<Rightarrow> ProfileStore \<Rightarrow> bool"
    and on_disk :: "transaction_env \<Rightarrow> ProfileStore \<Rightarrow> machine \<Rightarrow> StorageError + ProfilesFile"
  assumes committed: "sound env store \<Longrightarrow> commit env t store m = (Inr (Committed warnings), store', m') \<Longrightarrow>
      \<exists>fresh next_profiles. on_disk env store m = Inr fresh \<and>
        apply_transaction t (ps_profiles store) fresh = Inr (Some next_profiles) \<and> current next_profiles \<and>
        store' = store\<lparr>ps_profiles := next_profiles\<rparr> \<and> on_disk env store m' = Inr next_profiles"
    and untouched: "sound env store \<Longrightarrow> commit env t store m = (r, store', m') \<Longrightarrow> (\<And>warnings. r \<noteq> Inr (Committed warnings)) \<Longrightarrow>
      store' = store \<and> on_disk env store m' = on_disk env store m"
begin

text \<open>A saved profile is found in memory and on disk with the fields it was saved with.\<close>

lemma saved_is_found:
  assumes "sound env store" "commit env (Save profile) store m = (Inr (Committed warnings), store', m')"
  shows "\<exists>revision. store_find store' (prof_id profile) = Some (profile\<lparr>prof_revision := revision\<rparr>) \<and>
    on_disk env store m' = Inr (ps_profiles store')"
proof -
  obtain fresh next_profiles where run: "apply_transaction (Save profile) (ps_profiles store) fresh = Inr (Some next_profiles)"
    "current next_profiles" "store' = store\<lparr>ps_profiles := next_profiles\<rparr>" "on_disk env store m' = Inr next_profiles"
    using committed[OF assms] by blast
  from run(1) obtain saved where "save_profile profile (marked_for profile fresh) = Inr (saved, next_profiles)"
    by (rule apply_save)
  from save_profile_result(1,2)[OF this] obtain revision
    where "profile\<lparr>prof_revision := revision\<rparr> \<in> set (pf_profiles next_profiles)" by auto
  then have "find_profile next_profiles (prof_id profile) = Some (profile\<lparr>prof_revision := revision\<rparr>)"
    using run(2) find_profile_distinct[of next_profiles] by (simp add: current_def file_ok_def)
  with run(3,4) show ?thesis by auto
qed

end

lemma load_fault:
  assumes "honest_read f" "load_profiles json (af_read f) path m = Inr fresh"
  shows "load_profiles json None path m = Inr fresh"
  using assms by (cases "af_read f") (simp_all add: honest_read_def load_profiles_def read_to_string_def read_file_def)

lemma load_form:
  assumes "load_profiles json fault path m = Inr fresh"
  shows "pf_version fresh = CURRENT_VERSION" "pf_next_profile_id fresh = None \<Longrightarrow> pf_profiles fresh = []"
  using assms parse_current[of json _ fresh]
  by (auto simp: load_profiles_def profiles_file_new_def current_def split: sum.splits if_splits)

lemma apply_form:
  assumes "apply_transaction t snapshot fresh = Inr (Some next_profiles)" "pf_version fresh = CURRENT_VERSION"
    and "pf_next_profile_id fresh = None \<Longrightarrow> pf_profiles fresh = []"
  shows "pf_version next_profiles = CURRENT_VERSION" "pf_next_profile_id next_profiles \<noteq> None"
proof -
  have "pf_version next_profiles = CURRENT_VERSION \<and> pf_next_profile_id next_profiles \<noteq> None"
  proof (cases t)
    case (Save profile)
    from assms(1)[unfolded Save] obtain saved where "save_profile profile (marked_for profile fresh) = Inr (saved, next_profiles)"
      by (rule apply_save)
    from save_profile_result(3,4)[OF this] assms(2,3) show ?thesis
      by (cases "pf_profiles fresh = []") (auto simp: marked_for_def find_profile_def)
  next
    case (Delete i)
    with assms show ?thesis
      by (cases "pf_next_profile_id fresh") (auto simp: find_profile_def split: if_splits)
  qed
  then show "pf_version next_profiles = CURRENT_VERSION" "pf_next_profile_id next_profiles \<noteq> None" by simp_all
qed

text \<open>The end of a transaction: the new file is in place and will be read as such, or nothing has changed.\<close>

lemma commit_save_cases:
  assumes run: "commit_save env path next_profiles warnings m = (r, m')"
    and env: "faithful_json (te_json env)" "path \<noteq> []"
    and form: "pf_version next_profiles = CURRENT_VERSION" "pf_next_profile_id next_profiles \<noteq> None"
  obtains (kept) failure where "r = Inl failure" "m_live m' path = m_live m path"
  | (replaced) warnings' where "r = Inr warnings'" "current next_profiles"
      "load_profiles (te_json env) None path m' = Inr next_profiles"
proof -
  obtain r3 m3 where save: "save_phased (te_json env) (af_write (te_faults env)) (te_pid env) path next_profiles m = (r3, m3)"
    by fastforce
  note outcome = save_phased_outcome[OF save env form]
  consider "r3 = Inr ()" | error where "r3 = Inl (PhasedSaveError.NotCommitted error)"
    | error where "r3 = Inl (PhasedSaveError.ReplacedButNotDurable error)"
    by (cases r3) (auto intro: PhasedSaveError.exhaust)
  then show thesis
    by cases (use run outcome kept replaced in \<open>auto simp: commit_save_def save\<close>)
qed

lemma commit_transaction_cases:
  assumes sound: "sound_env env store" and run: "commit_transaction env t store m = (r, store', m')"
  obtains (kept) "\<And>warnings. r \<noteq> Inr (Committed warnings)" "store' = store" "m_live m' (ps_path store) = m_live m (ps_path store)"
  | (replaced) fresh next_profiles warnings where "r = Inr (Committed warnings)" "stored env store m = Inr fresh"
      "apply_transaction t (ps_profiles store) fresh = Inr (Some next_profiles)" "current next_profiles"
      "store' = store\<lparr>ps_profiles := next_profiles\<rparr>" "stored env store m' = Inr next_profiles"
proof -
  let ?path = "ps_path store" and ?json = "te_json env"
  have env: "faithful_json ?json" "?path \<noteq> []" "honest_read (te_faults env)" "honest_listing env"
    using sound by (simp_all add: sound_env_def)
  obtain r1 m1 where lock: "file_lock_acquire (te_faults env) ?path m = (r1, m1)" by fastforce
  obtain ws m2 where clean: "cleanup_stale_temp_files (te_listing env) ?path m1 = (ws, m2)" by fastforce
  have m1: "m_live m1 ?path = m_live m ?path"
    using file_lock_acquire_touches[OF lock] lock_path_differs[of ?path] by (simp add: differs_at_def)
  have m2: "m_live m2 ?path = m_live m ?path"
    using cleanup_keeps[OF env(4), of ?path m1] m1 by (simp add: clean)
  note unfolded = commit_transaction_def lock clean
  consider (unread) "r1 \<noteq> Inr () \<or> (\<exists>error. load_profiles ?json (af_read (te_faults env)) ?path m1 = Inl error)"
    | (refused) fresh where "r1 = Inr ()" "load_profiles ?json (af_read (te_faults env)) ?path m1 = Inr fresh"
        "\<And>next_profiles. apply_transaction t (ps_profiles store) fresh \<noteq> Inr (Some next_profiles)"
    | (applied) fresh next_profiles where "r1 = Inr ()" "load_profiles ?json (af_read (te_faults env)) ?path m1 = Inr fresh"
        "apply_transaction t (ps_profiles store) fresh = Inr (Some next_profiles)"
    by (cases r1; cases "load_profiles ?json (af_read (te_faults env)) ?path m1") auto
  then show thesis
  proof cases
    case unread
    with run m1 show thesis by (intro kept) (auto simp: unfolded split: sum.splits)
  next
    case refused
    with run m2 show thesis by (intro kept) (auto simp: unfolded split: sum.splits option.splits)
  next
    case applied
    have fresh: "stored env store m = Inr fresh"
      using load_fault[OF env(3) applied(2)] load_same_node[OF m1] by (simp add: stored_def)
    obtain r3 m3 where save: "commit_save env ?path next_profiles ws m2 = (r3, m3)" by fastforce
    have "pf_version next_profiles = CURRENT_VERSION" "pf_next_profile_id next_profiles \<noteq> None"
      using apply_form[OF applied(3) load_form[OF applied(2)]] by simp_all
    with save env(1,2) show thesis
    proof (cases rule: commit_save_cases)
      case (kept failure)
      with run applied save m2 show thesis by (intro that(1)) (auto simp: unfolded)
    next
      case (replaced warnings)
      with run applied save fresh show thesis by (intro that(2)) (auto simp: unfolded stored_def)
    qed
  qed
qed

interpretation transactions: profile_transactions commit_transaction sound_env stored
proof
  fix env store t m warnings store' m'
  assume "sound_env env store" "commit_transaction env t store m = (Inr (Committed warnings), store', m')"
  then show "\<exists>fresh next_profiles. stored env store m = Inr fresh \<and>
      apply_transaction t (ps_profiles store) fresh = Inr (Some next_profiles) \<and> current next_profiles \<and>
      store' = store\<lparr>ps_profiles := next_profiles\<rparr> \<and> stored env store m' = Inr next_profiles"
    by (cases rule: commit_transaction_cases) auto
next
  fix env store t m r store' m'
  assume run: "sound_env env store" "commit_transaction env t store m = (r, store', m')"
    and other: "\<And>warnings. r \<noteq> Inr (Committed warnings)"
  from run show "store' = store \<and> stored env store m' = stored env store m"
  proof (cases rule: commit_transaction_cases)
    case kept
    then show ?thesis using load_same_node[of m' "ps_path store" m] by (simp add: stored_def)
  qed (use other in blast)
qed

end
