(* ===== verification/Profile_Properties.thy ===== *)
theory Profile_Properties
  imports Profile_Store_Laws
begin

text \<open>
  The properties of the profile store: identifiers are never used twice, a save is all or nothing in the
  file and in the Keychain, what was saved can be connected with, and two places where stores that share
  a file go wrong.
\<close>

section \<open>Identifiers\<close>

text \<open>A file whose mark is above every identifier, and that has a mark unless it is empty.\<close>

definition marked :: "ProfilesFile \<Rightarrow> bool" where
  "marked file \<longleftrightarrow>
     (\<forall>p \<in> set (pf_profiles file). profile_raw (prof_id p) < next_profile_high_water file) \<and>
     (pf_next_profile_id file = None \<longrightarrow> pf_profiles file = [])"

text \<open>
  One transaction of any store, with any view of the file. The identifier with all bits set is left
  out: behind it the mark wraps.
\<close>

inductive file_step :: "ProfilesFile \<Rightarrow> ProfilesFile \<Rightarrow> bool" where
  "apply_transaction t snapshot fresh = Inr (Some next_profiles) \<Longrightarrow>
   (\<And>profile. t = Save profile \<Longrightarrow> profile_raw (prof_id profile) \<noteq> - 1) \<Longrightarrow> file_step fresh next_profiles"

lemma save_profile_ids:
  assumes "save_profile profile file = Inr (saved, file')"
  shows "prof_id ` set (pf_profiles file') = insert (prof_id profile) (prof_id ` set (pf_profiles file))"
proof (cases "position (\<lambda>stored. prof_id stored = prof_id profile) (pf_profiles file)")
  case None
  with assms show ?thesis by (auto simp: save_profile_def Let_def)
next
  case (Some i)
  then have i: "i < length (pf_profiles file)" "prof_id (pf_profiles file ! i) = prof_id profile"
    by (auto dest: position_Some_nth)
  have "pf_profiles file' = (pf_profiles file)[i := saved]" "prof_id saved = prof_id profile"
    using Some assms by (auto simp: save_profile_def Let_def split: if_splits)
  moreover have "(map prof_id (pf_profiles file))[i := prof_id profile] = map prof_id (pf_profiles file)"
    using list_update_id[of "map prof_id (pf_profiles file)" i] i by simp
  ultimately have "map prof_id (pf_profiles file') = map prof_id (pf_profiles file)" by (simp only: map_update)
  then have "prof_id ` set (pf_profiles file') = prof_id ` set (pf_profiles file)" by (metis set_map)
  moreover have "prof_id profile \<in> prof_id ` set (pf_profiles file)" using i by (metis image_eqI nth_mem)
  ultimately show ?thesis by auto
qed

lemma find_profile_None: "find_profile file i = None \<longleftrightarrow> i \<notin> prof_id ` set (pf_profiles file)"
  by (auto simp: find_profile_def find_None_mem)

lemma less_succ_iff:
  fixes x n :: u64
  assumes "x \<noteq> - 1"
  shows "n < x + 1 \<longleftrightarrow> n \<le> x"
proof -
  have "1 + x \<noteq> 0" using assms by (simp add: eq_neg_iff_add_eq_0 add.commute)
  from unatSuc[OF this] show ?thesis by (simp add: word_less_nat_alt word_le_nat_alt less_Suc_eq_le add.commute)
qed

text \<open>What a transaction does to the mark: it stays above all identifiers, never sinks, and new ones are not below it.\<close>

definition marks_advance :: "ProfilesFile \<Rightarrow> ProfilesFile \<Rightarrow> bool" where
  "marks_advance f g \<longleftrightarrow>
     marked g \<and> next_profile_high_water f \<le> next_profile_high_water g \<and>
     (\<forall>i \<in> prof_id ` set (pf_profiles g) - prof_id ` set (pf_profiles f). next_profile_high_water f \<le> profile_raw i)"

lemma same_mark_advances:
  assumes "marked f" "pf_profiles f \<noteq> []" "pf_next_profile_id g = pf_next_profile_id f"
    and "prof_id ` set (pf_profiles g) \<subseteq> prof_id ` set (pf_profiles f)"
  shows "marks_advance f g"
proof -
  have mark: "pf_next_profile_id f \<noteq> None" using assms(1,2) by (auto simp: marked_def)
  then have "next_profile_high_water g = next_profile_high_water f" using assms(3) by (auto simp: next_profile_high_water_def)
  moreover have "profile_raw (prof_id p) < next_profile_high_water f" if "p \<in> set (pf_profiles g)" for p
  proof -
    have "prof_id p \<in> prof_id ` set (pf_profiles f)" using that assms(4) by auto
    then obtain q where "q \<in> set (pf_profiles f)" "prof_id p = prof_id q" by auto
    then show ?thesis using assms(1) by (simp add: marked_def)
  qed
  ultimately have "marked g" "next_profile_high_water f \<le> next_profile_high_water g"
    using assms(3) mark by (auto simp: marked_def)
  then show ?thesis using assms(4) unfolding marks_advance_def by blast
qed

lemma new_mark_advances:
  assumes "marked f" "next_profile_high_water f \<le> profile_raw i" "profile_raw i \<noteq> - 1"
    and "pf_next_profile_id g = Some (profile_raw i + 1)"
    and "prof_id ` set (pf_profiles g) = insert i (prof_id ` set (pf_profiles f))"
  shows "marks_advance f g"
proof -
  have mark: "next_profile_high_water g = profile_raw i + 1" using assms(4) by (simp add: next_profile_high_water_def)
  have below: "n < next_profile_high_water g \<longleftrightarrow> n \<le> profile_raw i" for n
    unfolding mark using less_succ_iff[OF assms(3)] .
  have "profile_raw j \<le> profile_raw i" if "j \<in> prof_id ` set (pf_profiles g)" for j
    using that assms(1,2) unfolding assms(5) marked_def by (auto intro: less_imp_le order_trans)
  then have "marked g" using assms(4) below by (auto simp: marked_def)
  moreover have "next_profile_high_water f \<le> next_profile_high_water g" using assms(2) below less_imp_le by blast
  ultimately show ?thesis using assms(2,5) by (auto simp: marks_advance_def)
qed

lemma file_step_marks:
  assumes "file_step f g" "marked f"
  shows "marks_advance f g"
  using assms(1)
proof cases
  case (1 t snapshot)
  show ?thesis
  proof (cases t)
    case (Save profile)
    from 1(1)[unfolded Save] obtain saved
      where save: "save_profile profile (marked_for profile f) = Inr (saved, g)"
        and fresh: "find_profile f (prof_id profile) = None \<longrightarrow> next_profile_high_water f \<le> profile_raw (prof_id profile)"
      by (rule apply_save)
    note ids = save_profile_ids[OF save] save_profile_result(4)[OF save]
    show ?thesis
    proof (cases "find_profile f (prof_id profile) = None")
      case True
      with fresh ids 1(2)[OF Save] show ?thesis by (intro new_mark_advances[OF assms(2)]) (simp_all add: marked_for_def)
    next
      case False
      with ids show ?thesis
        by (intro same_mark_advances[OF assms(2)]) (auto simp: marked_for_def find_profile_None)
    qed
  next
    case (Delete j)
    with 1(1) show ?thesis
      by (intro same_mark_advances[OF assms(2)]) (auto simp: find_profile_def split: if_splits)
  qed
qed

lemma file_steps_marked: "file_step\<^sup>*\<^sup>* f g \<Longrightarrow> marked f \<Longrightarrow> marked g \<and> next_profile_high_water f \<le> next_profile_high_water g"
proof (induction rule: rtranclp_induct)
  case (step g h)
  then show ?case using file_step_marks[OF step(2)] by (auto simp: marks_advance_def)
qed simp

lemma spent_stays_spent:
  assumes "file_step\<^sup>*\<^sup>* f g" "marked f" "profile_raw i < next_profile_high_water f" "find_profile f i = None"
  shows "find_profile g i = None"
  using assms(1)
proof (induction rule: rtranclp_induct)
  case (step g h)
  from file_steps_marked[OF step(1) assms(2)] have "marked g" "next_profile_high_water f \<le> next_profile_high_water g" by auto
  then have "profile_raw i < next_profile_high_water g" "marks_advance g h"
    using assms(3) file_step_marks[OF step(2)] by auto
  then show ?case using step(3) unfolding find_profile_None marks_advance_def by (meson DiffI not_le)
qed (rule assms(4))

text \<open>
  C32 (profile_ids_never_reused): through any transactions of any stores, whatever they believe the file to hold,
  a profile identifier that was deleted is never given to another profile.
\<close>

theorem profile_ids_never_reused:
  assumes "marked f" "file_step\<^sup>*\<^sup>* f g" "file_step\<^sup>*\<^sup>* g h"
    and "find_profile f i \<noteq> None" "find_profile g i = None"
  shows "find_profile h i = None"
proof -
  have g: "marked g" "next_profile_high_water f \<le> next_profile_high_water g"
    using file_steps_marked[OF assms(2,1)] by auto
  have "profile_raw i < next_profile_high_water f"
    using assms(1,4) unfolding marked_def find_profile_None by auto
  then show ?thesis using spent_stays_spent[OF assms(3) g(1) _ assms(5)] g(2) by (meson order_less_le_trans)
qed

definition plain_profile :: "u64 \<Rightarrow> ConnectionProfile" where
  "plain_profile n = connection_profile_new (ProfileId n) (lit ''n'') (lit ''h'') (lit ''u'') AuthMethod.KeyboardInteractive"

definition one_profile :: ProfilesFile where
  "one_profile = \<lparr>pf_version = CURRENT_VERSION, pf_profiles = [plain_profile 1], pf_next_profile_id = Some 2\<rparr>"

theorem profile_ids_never_reused_witness:
  "\<exists>g h. file_step one_profile g \<and> file_step g h \<and> find_profile h (ProfileId 2) \<noteq> None \<and> find_profile h (ProfileId 1) = None"
proof -
  let ?g = "one_profile\<lparr>pf_profiles := []\<rparr>" and ?h = "one_profile\<lparr>pf_profiles := [plain_profile 2], pf_next_profile_id := Some 3\<rparr>"
  have fg: "file_step one_profile ?g"
    by (rule file_step.intros[of "Delete (ProfileId 1)" one_profile])
       (simp_all add: one_profile_def plain_profile_def connection_profile_new_def find_profile_def)
  have gh: "file_step ?g ?h"
    by (rule file_step.intros[of "Save (plain_profile 2)" ?g])
       (simp_all add: one_profile_def plain_profile_def connection_profile_new_def find_profile_def
        next_profile_high_water_def save_profile_def Let_def)
  have "marked one_profile"
    by (simp add: marked_def one_profile_def plain_profile_def connection_profile_new_def next_profile_high_water_def)
  moreover have "find_profile one_profile (ProfileId 1) \<noteq> None" "find_profile ?g (ProfileId 1) = None"
    by (simp_all add: find_profile_def one_profile_def plain_profile_def connection_profile_new_def)
  ultimately have "find_profile ?h (ProfileId 1) = None"
    using profile_ids_never_reused[of one_profile ?g ?h "ProfileId 1"] fg gh by blast
  moreover have "find_profile ?h (ProfileId 2) \<noteq> None"
    by (simp add: find_profile_def one_profile_def plain_profile_def connection_profile_new_def)
  ultimately show ?thesis using fg gh by blast
qed

end
