(* ===== verification/Profile_Save.thy ===== *)
theory Profile_Save
  imports Profile_Properties
begin

text \<open>
  Saving and deleting a profile together with its credential: what the file, the store in memory and the
  Keychain hold afterwards, on every path.
\<close>

section \<open>The Keychain around a transaction\<close>

lemma remove_refs_other: "secret_ref \<notin> set refs \<Longrightarrow> snd (remove_refs faults refs k) secret_ref = k secret_ref"
proof (induction faults refs k rule: remove_refs.induct)
  case (2 faults removed refs k)
  then show ?case by (cases "faults removed") (auto simp: keychain_delete_def split_beta fun_upd_def)
qed simp

lemma prepare_save_keychain:
  assumes "prepare_save kf request store k = (r, k')"
  shows "case r of
      Inl _ \<Rightarrow> k' = k
    | Inr prep \<Rightarrow>
        resolve_auth request (store_find store (req_profile_id request)) = Inr (pr_auth prep, pr_update prep) \<and>
        (case pr_update prep of
           None \<Rightarrow> k' = k
         | Some (secret_ref, secret) \<Rightarrow> k' = k(secret_ref \<mapsto> secret) \<and> pr_previous_secret prep = k secret_ref)"
  using assms
  by (auto simp: prepare_save_def Let_def keychain_load_def keychain_store_def split: sum.splits option.splits prod.splits)

text \<open>A rollback that succeeds leaves the Keychain as it was before the save.\<close>

lemma roll_back_restores:
  assumes "roll_back kf prep error k' = (failure, k'')"
    and "case pr_update prep of
        None \<Rightarrow> k' = k
      | Some (secret_ref, secret) \<Rightarrow> k' = k(secret_ref \<mapsto> secret) \<and> pr_previous_secret prep = k secret_ref"
  shows "failure = Storage error \<and> k'' = k \<or> (\<exists>rollback. failure = StorageRollback error rollback)"
  using assms
  by (auto simp: roll_back_def keychain_store_def keychain_delete_def fun_upd_idem_iff split: option.splits prod.splits sum.splits)

lemma resolved_ref_current:
  assumes "resolve_auth request previous = Inr (auth, Some (secret_ref, secret))"
  shows "secret_ref \<in> set (secret_refs_for_auth auth)"
  using assms
  by (auto simp: resolve_auth_def Let_def split: ProfileAuthUpdate.splits option.splits AuthMethod.splits
      PrivateKeyPassphraseUpdate.splits prod.splits)

lemma save_never_unchanged:
  "commit_transaction env (Save profile) store m \<noteq> (Inr Unchanged, store', m')"
  by (auto simp: commit_transaction_def Let_def split: sum.splits prod.splits option.splits if_splits)

text \<open>Concluding a committed save keeps the secret that was stored for it.\<close>

lemma conclude_committed:
  assumes conclude: "conclude_save kf request prep (Inr (Committed warnings)) store k = (result, k')"
    and found: "store_find store (req_profile_id request) = Some saved" "prof_auth saved = pr_auth prep"
    and resolved: "resolve_auth request previous = Inr (pr_auth prep, pr_update prep)"
    and secret: "pr_update prep = Some (secret_ref, secret) \<Longrightarrow> k secret_ref = Some secret"
  shows "\<exists>warnings'. result = Inr (saved, warnings')"
    and "pr_update prep = Some (secret_ref, secret) \<Longrightarrow> k' secret_ref = Some secret"
proof -
  let ?orphans = "case pr_previous prep of None \<Rightarrow> [] | Some previous \<Rightarrow>
      filter (\<lambda>orphan. orphan \<notin> set (secret_refs_for_auth (prof_auth saved))) (secret_refs_for_auth (prof_auth previous))"
  have k': "k' = snd (remove_refs (kf_delete kf) ?orphans k)"
    and result: "\<exists>warnings'. result = Inr (saved, warnings')"
    using conclude by (auto simp: conclude_save_def found(1) Let_def split_beta)
  show "\<exists>warnings'. result = Inr (saved, warnings')" by (rule result)
  assume update: "pr_update prep = Some (secret_ref, secret)"
  have "secret_ref \<in> set (secret_refs_for_auth (prof_auth saved))"
    using resolved_ref_current[of request previous "pr_auth prep"] resolved update found(2) by simp
  then have "secret_ref \<notin> set ?orphans" by (auto split: option.splits)
  then show "k' secret_ref = Some secret" unfolding k' using remove_refs_other secret[OF update] by metis
qed

section \<open>The outcome of a save\<close>

lemma save_request_outcome:
  assumes sound: "sound_env env store" and run: "save_request env kf request store m k = (result, store', m', k')"
  shows "case result of
      Inr (saved, _) \<Rightarrow>
        (\<exists>auth update revision.
           resolve_auth request (store_find store (req_profile_id request)) = Inr (auth, update) \<and>
           saved = (requested_profile request auth)\<lparr>prof_revision := revision\<rparr> \<and>
           store_find store' (req_profile_id request) = Some saved \<and> stored env store m' = Inr (ps_profiles store') \<and>
           (case update of None \<Rightarrow> True | Some (secret_ref, secret) \<Rightarrow> k' secret_ref = Some secret))
    | Inl error \<Rightarrow>
        store' = store \<and> stored env store m' = stored env store m \<and>
        (k' = k \<or> (\<exists>storage rollback. error = StorageRollback storage rollback))"
proof -
  obtain r k1 where prep: "prepare_save kf request store k = (r, k1)" by fastforce
  from prepare_save_keychain[OF prep] consider (early) error where "r = Inl error" "k1 = k"
    | (ready) prep where "r = Inr prep"
        "resolve_auth request (store_find store (req_profile_id request)) = Inr (pr_auth prep, pr_update prep)"
        "case pr_update prep of
           None \<Rightarrow> k1 = k
         | Some (secret_ref, secret) \<Rightarrow> k1 = k(secret_ref \<mapsto> secret) \<and> pr_previous_secret prep = k secret_ref"
    by (cases r) auto
  then show ?thesis
  proof cases
    case early
    with run prep show ?thesis by (auto simp: save_request_def)
  next
    case (ready p)
    let ?profile = "requested_profile request (pr_auth p)"
    have id: "prof_id ?profile = req_profile_id request" by (simp add: requested_profile_def connection_profile_new_def)
    obtain outcome where commit: "commit_transaction env (Save ?profile) store m = (outcome, store', m')"
      and conclude: "conclude_save kf request p outcome store' k1 = (result, k')"
      using run by (auto simp: save_request_def prep ready(1) Let_def split: prod.splits)
    consider (failed) error ws where "outcome = Inl (error, ws)" | (committed) ws where "outcome = Inr (Committed ws)"
      using commit save_never_unchanged[of env ?profile store m store' m']
      by (cases outcome) (auto intro: TransactionOutcome.exhaust)
    then show ?thesis
    proof cases
      case failed
      then have "store' = store \<and> stored env store m' = stored env store m"
        using transactions.untouched[OF sound commit] by simp
      then show ?thesis using failed conclude roll_back_restores[OF _ ready(3)]
        by (fastforce simp: conclude_save_def split: prod.splits)
    next
      case committed
      from transactions.saved_is_found[OF sound commit[unfolded committed]] obtain revision
        where found: "store_find store' (req_profile_id request) = Some (?profile\<lparr>prof_revision := revision\<rparr>)"
          "stored env store m' = Inr (ps_profiles store')" by (auto simp: id)
      have auth: "prof_auth (?profile\<lparr>prof_revision := revision\<rparr>) = pr_auth p"
        by (simp add: requested_profile_def connection_profile_new_def)
      have secret: "k1 secret_ref = Some secret" if "pr_update p = Some (secret_ref, secret)" for secret_ref secret
        using ready(3) that by simp
      note concluded = conclude_committed[OF conclude[unfolded committed] found(1) auth ready(2) secret]
      have "case pr_update p of None \<Rightarrow> True | Some (secret_ref, secret) \<Rightarrow> k' secret_ref = Some secret"
        using concluded(2) by (simp split: option.split)
      with concluded(1) ready(2) found show ?thesis by auto
    qed
  qed
qed

section \<open>A first profile\<close>

definition toy_request :: ProfileSaveRequest where
  "toy_request = \<lparr>req_profile_id = ProfileId 1, req_name = lit ''n'', req_host = lit ''h'', req_port = 22,
     req_username = lit ''u'', req_auth = ProfileAuthUpdate.Password (Some (lit ''s'')), req_route = ConnectionRoute.Direct,
     req_default_remote_path = None\<rparr>"

definition password_ref :: SecretRef where
  "password_ref = keychain_ref (ProfileId 1) (lit ''password'')"

definition toy_profile :: ConnectionProfile where
  "toy_profile = connection_profile_new (ProfileId 1) (lit ''n'') (lit ''h'') (lit ''u'') (AuthMethod.Password password_ref)"

definition toy_file :: ProfilesFile where
  "toy_file = \<lparr>pf_version = CURRENT_VERSION, pf_profiles = [toy_profile], pf_next_profile_id = Some 2\<rparr>"

definition toy_json :: serde where
  "toy_json = \<lparr>from_json = (\<lambda>s. if s = lit ''1'' then Inr toy_file else Inl (lit ''?'')),
     to_json = (\<lambda>f. if f = toy_file then Inr (lit ''1'') else Inl (lit ''?''))\<rparr>"

definition toy_env :: transaction_env where
  "toy_env = \<lparr>te_json = toy_json, te_pid = 3,
     te_faults = \<lparr>af_open_lock = None, af_flock = None, af_read = None, af_write = no_write_faults\<rparr>, te_listing = Inr []\<rparr>"

definition toy_store :: ProfileStore where
  "toy_store = \<lparr>ps_path = demo_path, ps_profiles = profiles_file_new, ps_initial_error = None\<rparr>"

definition quiet_keychain :: keychain_faults where
  "quiet_keychain = \<lparr>kf_load = None, kf_store = None, kf_rollback = None, kf_delete = (\<lambda>_. None)\<rparr>"

definition empty_directory :: machine where
  "empty_directory = \<lparr>m_live = [lit ''/d'' \<mapsto> Directory], m_durable = [lit ''/d'' \<mapsto> Directory], m_sequence = 7\<rparr>"

lemma toy_sound: "sound_env toy_env toy_store"
  by (simp add: sound_env_def toy_env_def toy_store_def faithful_json_def toy_json_def honest_listing_def honest_read_def
      demo_distinct lit_def scalar_def)

lemma toy_valid: "validate toy_file = Inr ()"
  by (simp add: validate_def toy_file_def validate_profile_def toy_profile_def connection_profile_new_def bad_name_def
      lit_def is_whitespace_def is_bidi_or_control_def is_control_def check_ref_def password_ref_def)

lemma toy_save: "save_profile toy_profile (marked_for toy_profile profiles_file_new) = Inr (toy_profile, toy_file)"
  by (simp add: save_profile_def marked_for_def find_profile_def profiles_file_new_def toy_profile_def
      connection_profile_new_def toy_file_def Let_def)

lemma toy_apply: "apply_transaction (Save toy_profile) profiles_file_new profiles_file_new = Inr (Some toy_file)"
  using toy_save
  by (simp add: marked_for_def find_profile_def profiles_file_new_def toy_profile_def connection_profile_new_def
      next_profile_high_water_def Let_def)

lemma toy_commit:
  obtains m' where "commit_transaction toy_env (Save toy_profile) toy_store empty_directory =
    (Inr (Committed []), toy_store\<lparr>ps_profiles := toy_file\<rparr>, m')"
proof -
  define m1 where "m1 = set_live (lock_path_for demo_path) (Some (RegularFile [] False private_mode)) empty_directory"
  have lock: "lock_path_for demo_path = lit ''/d/f.lock''" by (simp add: lock_path_for_def demo_path_def lit_def)
  have apart: "lock_path_for demo_path \<noteq> lit ''/d''" "lock_path_for demo_path \<noteq> demo_temp" "lock_path_for demo_path \<noteq> []"
    "lock_path_for demo_path \<noteq> demo_path"
    unfolding lock by (simp_all add: demo_temp_def demo_path_def lit_def)
  have live: "m_live m1 (lit ''/d'') = Some Directory" "m_live m1 demo_temp = None" "m_live m1 demo_path = None"
    using apart demo_distinct by (simp_all add: m1_def empty_directory_def)
  have "file_lock_acquire (te_faults toy_env) demo_path empty_directory = (Inr (), m1)"
    using apart by (simp add: file_lock_acquire_def toy_env_def fs_lookup_def m1_def empty_directory_def Let_def)
  moreover have "load_profiles toy_json None demo_path m1 = Inr profiles_file_new"
    by (simp add: load_profiles_def read_to_string_def read_file_def fs_lookup_def live os_error_def)
  moreover have "cleanup_stale_temp_files (te_listing toy_env) demo_path m1 = ([], m1)"
    by (simp add: cleanup_stale_temp_files_def toy_env_def split: option.split)
  moreover obtain m' where "save_phased toy_json no_write_faults 3 demo_path toy_file m1 = (Inr (), m')"
  proof -
    have names: "fst (temp_path_for 3 demo_path m1) = demo_temp"
      using demo_names(2) by (simp add: temp_path_for_def m1_def set_live_def empty_directory_def demo_machine_def Let_def)
    have "fst (write_phased_with_parent_sync no_write_faults 3 demo_path (as_bytes (lit ''1'')) m1) = Inr ()"
      by (rule write_phased_succeeds) (simp_all add: demo_names(1) names live demo_distinct fs_lookup_def)
    then show thesis
      using that by (cases "write_phased_with_parent_sync no_write_faults 3 demo_path (as_bytes (lit ''1'')) m1")
        (simp add: save_phased_def serialize_profiles_def toy_valid toy_json_def)
  qed
  ultimately have "commit_transaction toy_env (Save toy_profile) toy_store empty_directory =
    (Inr (Committed []), toy_store\<lparr>ps_profiles := toy_file\<rparr>, m')"
    using toy_apply by (simp add: commit_transaction_def commit_save_def toy_env_def toy_store_def)
  then show thesis by (rule that)
qed

lemma toy_prepare:
  "prepare_save quiet_keychain (toy_request\<lparr>req_auth := ProfileAuthUpdate.Password (Some secret)\<rparr>) toy_store k =
     (Inr \<lparr>pr_previous = None, pr_auth = AuthMethod.Password password_ref, pr_update = Some (password_ref, secret),
           pr_previous_secret = k password_ref\<rparr>, k(password_ref \<mapsto> secret))"
  by (simp add: prepare_save_def ensure_writable_def toy_store_def request_fault_def toy_request_def bad_name_def lit_def
      is_whitespace_def is_bidi_or_control_def is_control_def find_profile_def profiles_file_new_def resolve_auth_def
      password_ref_def keychain_load_def keychain_store_def quiet_keychain_def Let_def)

lemma toy_found: "find_profile toy_file (ProfileId 1) = Some toy_profile"
  by (simp add: find_profile_def toy_file_def toy_profile_def connection_profile_new_def)

lemma toy_run:
  obtains m' where "save_request toy_env quiet_keychain toy_request toy_store empty_directory (\<lambda>_. None) =
    (Inr (toy_profile, []), toy_store\<lparr>ps_profiles := toy_file\<rparr>, m', [password_ref \<mapsto> lit ''s''])"
proof -
  have prep: "prepare_save quiet_keychain toy_request toy_store (\<lambda>_. None) =
      (Inr \<lparr>pr_previous = None, pr_auth = AuthMethod.Password password_ref, pr_update = Some (password_ref, lit ''s''),
            pr_previous_secret = None\<rparr>, [password_ref \<mapsto> lit ''s''])"
    using toy_prepare[of "lit ''s''" "\<lambda>_. None"] by (simp add: toy_request_def)
  have profile: "requested_profile toy_request (AuthMethod.Password password_ref) = toy_profile"
    by (simp add: requested_profile_def toy_request_def toy_profile_def connection_profile_new_def)
  have requested: "req_profile_id toy_request = ProfileId 1" by (simp add: toy_request_def)
  obtain m' where "commit_transaction toy_env (Save toy_profile) toy_store empty_directory =
    (Inr (Committed []), toy_store\<lparr>ps_profiles := toy_file\<rparr>, m')" by (rule toy_commit)
  then show thesis by (intro that[of m']) (simp add: save_request_def prep profile conclude_save_def toy_found requested)
qed

section \<open>Properties\<close>

text \<open>
  C12 (profile_save_all_or_nothing): a save that succeeds has put the requested profile into the file and into
  memory, both the same, and the secret it names under its reference in the Keychain. A save that fails
  has changed neither the file nor the store, and has left the Keychain as it was unless it says that the
  rollback failed too.
\<close>

theorem profile_save_all_or_nothing:
  assumes sound: "sound_env env store" and run: "save_request env kf request store m k = (result, store', m', k')"
  shows "case result of
      Inr (saved, _) \<Rightarrow>
        (\<exists>auth update revision.
           resolve_auth request (store_find store (req_profile_id request)) = Inr (auth, update) \<and>
           saved = (requested_profile request auth)\<lparr>prof_revision := revision\<rparr> \<and>
           store_find store' (req_profile_id request) = Some saved \<and> stored env store m' = Inr (ps_profiles store') \<and>
           (case update of None \<Rightarrow> True | Some (secret_ref, secret) \<Rightarrow> k' secret_ref = Some secret))
    | Inl error \<Rightarrow>
        store' = store \<and> stored env store m' = stored env store m \<and>
        (k' = k \<or> (\<exists>storage rollback. error = StorageRollback storage rollback))"
  by (rule save_request_outcome[OF sound run])

theorem profile_save_all_or_nothing_witness:
  "\<exists>m'. save_request toy_env quiet_keychain toy_request toy_store empty_directory (\<lambda>_. None) =
     (Inr (toy_profile, []), toy_store\<lparr>ps_profiles := toy_file\<rparr>, m', [password_ref \<mapsto> lit ''s'']) \<and>
     stored toy_env toy_store m' = Inr toy_file"
proof (rule toy_run)
  fix m'
  assume run: "save_request toy_env quiet_keychain toy_request toy_store empty_directory (\<lambda>_. None) =
     (Inr (toy_profile, []), toy_store\<lparr>ps_profiles := toy_file\<rparr>, m', [password_ref \<mapsto> lit ''s''])"
  then show ?thesis using profile_save_all_or_nothing[OF toy_sound run] by auto
qed



section \<open>Stores that share a file\<close>



text \<open>
  C39 (failed_save_drops_other_secret): the Keychain is written before the lock is taken and restored after it is
  released. When two stores save a new profile under the same identifier, the one whose save is refused
  removes the secret that the other one has just committed.
\<close>

theorem failed_save_drops_other_secret:
  assumes first: "prepare_save kf1 request1 store1 k = (Inr prep1, k1)" "pr_update prep1 = Some (secret_ref, secret1)" "k secret_ref = None"
    and second: "prepare_save kf2 request2 store2 k1 = (Inr prep2, k2)" "pr_update prep2 = Some (secret_ref, secret2)"
      "conclude_save kf2 request2 prep2 (Inr (Committed ws)) store2' k2 = (Inr (saved, warnings), k3)"
      "secret_ref \<in> set (secret_refs_for_auth (prof_auth saved))"
    and refused: "conclude_save kf1 request1 prep1 (Inl (error, ws')) store1 k3 = (Inl (Storage error), k4)"
  shows "k3 secret_ref = Some secret2 \<and> k4 secret_ref = None"
proof -
  have k1: "pr_previous_secret prep1 = None"
    using prepare_save_keychain[OF first(1)] first(2,3) by simp
  have k2: "k2 secret_ref = Some secret2" using prepare_save_keychain[OF second(1)] second(2) by simp
  have "k3 secret_ref = k2 secret_ref"
    using second(3,4) by (auto simp: conclude_save_def Let_def split_beta remove_refs_other split: option.splits)
  moreover have "k4 secret_ref = None"
    using refused first(2) k1
    by (auto simp: conclude_save_def roll_back_def keychain_delete_def split: option.splits prod.splits)
  ultimately show ?thesis using k2 by simp
qed

definition other_request :: ProfileSaveRequest where
  "other_request = toy_request\<lparr>req_auth := ProfileAuthUpdate.Password (Some (lit ''t''))\<rparr>"

theorem failed_save_drops_other_secret_witness:
  "\<exists>prep1 k1 prep2 k2 k3 k4. prepare_save quiet_keychain toy_request toy_store (\<lambda>_. None) = (Inr prep1, k1) \<and>
     prepare_save quiet_keychain other_request toy_store k1 = (Inr prep2, k2) \<and>
     apply_transaction (Save toy_profile) profiles_file_new profiles_file_new = Inr (Some toy_file) \<and>
     conclude_save quiet_keychain other_request prep2 (Inr (Committed [])) (toy_store\<lparr>ps_profiles := toy_file\<rparr>) k2 =
       (Inr (toy_profile, []), k3) \<and>
     apply_transaction (Save toy_profile) profiles_file_new toy_file = Inl (ConcurrentModification (ProfileId 1)) \<and>
     conclude_save quiet_keychain toy_request prep1 (Inl (ConcurrentModification (ProfileId 1), [])) toy_store k3 =
       (Inl (Storage (ConcurrentModification (ProfileId 1))), k4) \<and>
     k3 password_ref = Some (lit ''t'') \<and> k4 password_ref = None"
proof -
  let ?k1 = "[password_ref \<mapsto> lit ''s'']" and ?k2 = "[password_ref \<mapsto> lit ''t'']"
  let ?p1 = "\<lparr>pr_previous = None, pr_auth = AuthMethod.Password password_ref, pr_update = Some (password_ref, lit ''s''),
    pr_previous_secret = None\<rparr>"
  let ?p2 = "\<lparr>pr_previous = None, pr_auth = AuthMethod.Password password_ref, pr_update = Some (password_ref, lit ''t''),
    pr_previous_secret = Some (lit ''s'')\<rparr>"
  have first: "prepare_save quiet_keychain toy_request toy_store (\<lambda>_. None) = (Inr ?p1, ?k1)"
    using toy_prepare[of "lit ''s''" "\<lambda>_. None"] by (simp add: toy_request_def)
  have second: "prepare_save quiet_keychain other_request toy_store ?k1 = (Inr ?p2, ?k2)"
    using toy_prepare[of "lit ''t''" ?k1] by (simp add: other_request_def)
  have wins: "conclude_save quiet_keychain other_request ?p2 (Inr (Committed [])) (toy_store\<lparr>ps_profiles := toy_file\<rparr>) ?k2 =
      (Inr (toy_profile, []), ?k2)"
    by (simp add: conclude_save_def other_request_def toy_request_def toy_found)
  have conflict: "apply_transaction (Save toy_profile) profiles_file_new toy_file = Inl (ConcurrentModification (ProfileId 1))"
    using toy_found by (simp add: find_profile_def profiles_file_new_def toy_profile_def connection_profile_new_def)
  have loses: "conclude_save quiet_keychain toy_request ?p1 (Inl (ConcurrentModification (ProfileId 1), [])) toy_store ?k2 =
      (Inl (Storage (ConcurrentModification (ProfileId 1))), \<lambda>_. None)"
    by (simp add: conclude_save_def roll_back_def keychain_delete_def quiet_keychain_def)
  have "password_ref \<in> set (secret_refs_for_auth (prof_auth toy_profile))"
    by (simp add: toy_profile_def connection_profile_new_def)
  from failed_save_drops_other_secret[OF first _ _ second _ wins this loses] show ?thesis
    using first second wins loses conflict toy_apply by (intro exI conjI) (assumption | simp)+
qed

end
