(* ===== verification/Spec2Isabelle.thy ===== *)
theory Spec2Isabelle
  imports File_Sort Tab_Store Event_Routing Transfer_Properties Editor_Rules Remote_Edit_Properties
    Prompt_Registry Transfer_Manager_Properties Early_Cancels
    Pipelined_Reader_Laws Pipelined_Writer_Laws Download_Planner_Laws
    Append_Race Known_Hosts_Properties Profile_Save
begin

text \<open>
  \<^bold>\<open>macSFTP: the state machines of the core, the transfer engine and the stores on disk\<close>

  macSFTP is an SFTP client. Its user interface (\<open>crates/app\<close>, \<open>crates/ui\<close>) holds windows with tabs; each
  tab browses a local and a remote directory. Commands go to a runtime (\<open>crates/sftp\<close>) that owns
  connections, browsing sessions and transfers, and events come back. What the interface shows, and what it
  may do, is decided by state machines in \<open>crates/core\<close> that are free of input and output; the transfer
  engine of \<open>crates/sftp\<close> plans transfers, schedules them and moves their bytes. Trusted host keys, connection
  profiles and credentials are kept in files and in the Keychain by \<open>crates/storage\<close>. This development models
  these three parts and proves what the rest of the program relies on.

  \<^bold>\<open>The core\<close>

  \<^item> \<open>Prelude\<close>: the integer widths, strings as lists of code points, searching and replacing in lists, and the
    locales of state machines: \<open>state_machine\<close> (an invariant kept by every step), \<open>guarded_machine\<close> (kept by the
    steps an environment may take) and \<open>latch\<close> (an observation that never reverts). \<open>Rust_Search\<close>, \<open>Rust_Sort\<close>
    and \<open>Rust_Format\<close> model what the sources use of the standard library: binary search, the stable sort
    and the digits of a number, each with the contract its clients rely on as a locale.
  \<^item> \<open>Core_Types\<close>, \<open>Protocol\<close>, \<open>Paths\<close>, \<open>Event_Routing\<close>: the data of \<open>core.rs\<close>: identifiers, timestamps, errors,
    profiles, commands and events; path operations; where an event goes.
  \<^item> \<open>File_Sort\<close>: the order of a listing. \<open>Editor_Rules\<close>: glob matching and the choice of an editor.
  \<^item> \<open>Tab_State\<close>, \<open>Tab_Store\<close>: a tab with its connection, epochs and navigation history, and the tabs of a window.
  \<^item> \<open>Id_Matcher\<close>, \<open>Transfer_Store\<close> and the theories \<open>Transfer_Plans\<close>, \<open>Transfer_Laws\<close>, \<open>Transfer_Invariant\<close>,
    \<open>Transfer_Replay\<close>, \<open>Transfer_Properties\<close>: the reducer that turns transfer events into what the queue view
    shows, with every arm of \<open>TransferStore::apply_event\<close>; its invariant, the sealing of finished plans, exact
    cancellation and idempotent replay.
  \<^item> \<open>Edit_Session\<close>, \<open>Remote_Edit\<close>, \<open>Remote_Edit_Laws\<close>, \<open>Remote_Edit_Properties\<close>: the lifecycle of files edited in
    place (\<open>remote_edit.rs\<close>): a download, an editor, checks of the server before an upload, conflicts. A
    lifecycle operation answers the effects the application carries out.

  \<^bold>\<open>The transfer engine\<close>

  \<^item> \<open>Prompt_Registry\<close>: pending questions about host keys and passwords (\<open>trust.rs\<close>, \<open>keyboard_interactive.rs\<close>).
    \<open>Pool\<close>: shared connections and the attempts to make them (\<open>pool.rs\<close>).
  \<^item> \<open>Transfer_Planner\<close>, \<open>Transfer_Planner_Laws\<close>, \<open>Transfer_Planner_Tree\<close>: \<open>transfer_planner.rs\<close>, which walks a local
    tree and reports a job per entry in batches. \<open>Download_Planner\<close>, \<open>Download_Planner_Laws\<close>: the planner of
    \<open>transfer_job.rs\<close> that does the same on the server with eight listings in flight. Both meet the
    locale \<open>batch_sender\<close>, from which the shape of their reports follows.
  \<^item> \<open>Download_Paths\<close>, \<open>Download_Path_Laws\<close>: where a job may write: destinations, renames, temporary names and the
    check of downloaded links.
  \<^item> \<open>Transfer_Manager\<close>, \<open>Transfer_Manager_Laws\<close>, \<open>Transfer_Manager_Steps\<close>, \<open>Transfer_System\<close>, \<open>Transfer_Progress\<close>,
    \<open>Transfer_Flow\<close>, \<open>Transfer_Clear\<close>, \<open>Transfer_Manager_Properties\<close>, \<open>Early_Cancels\<close>: \<open>transfer_manager.rs\<close>:
    queue, limits, scheduling, retries, conflicts and cancels that overtake their jobs. A system step is a
    request, a task that ends, a completion that is read, or a browsing session that opens or closes.
  \<^item> \<open>Pipeline\<close>, \<open>Pipelined_Reader\<close>, \<open>Pipelined_Writer\<close> with their laws: the loops of \<open>pipelined_reader.rs\<close> and
    \<open>pipelined_writer.rs\<close> that keep a window of requests in flight while answers come in any order.

  \<^bold>\<open>The stores on disk\<close>

  \<^item> \<open>Rust_Utf8\<close>: UTF-8 encoding, lossy decoding, lines and white space as the standard library has them.
  \<^item> \<open>Atomic_File\<close>, \<open>Atomic_File_Laws\<close>, \<open>Atomic_File_Properties\<close>: \<open>atomic_file.rs\<close> and \<open>file_lock.rs\<close>. A machine has
    the directory entries a process sees and those that are durable; each system call takes its failure
    from a record, and a routine answers every state it goes through, so that a crash at any of them can be
    judged. The locale \<open>private_replace\<close> is what callers of the replacement rely on.
  \<^item> \<open>Append_Race\<close>: the appends of several processes as an interleaving of steps under the lock; a call of
    \<open>append_private_line_atomically\<close> is such a run.
  \<^item> \<open>Known_Hosts\<close>, \<open>Known_Hosts_Properties\<close>: \<open>known_hosts.rs\<close>: loading, checking and trusting host keys.
  \<^item> \<open>Profile_File\<close>, \<open>Profile_Store\<close>, \<open>Profile_Store_Laws\<close>, \<open>Profile_Properties\<close>, \<open>Profile_Save\<close>: \<open>profile_file.rs\<close>,
    \<open>profiles.rs\<close> and \<open>keychain.rs\<close>: validation and migration of the profile file, transactions on it under the
    lock (the locale \<open>profile_transactions\<close>), and saving or deleting a profile with its secret, with the
    rollback. A save is three phases (before, in and after the transaction), so that two stores can be
    interleaved.

  \<^bold>\<open>How the code is rendered\<close>

  A struct is a record, an enum a datatype, \<open>u8\<close> to \<open>u64\<close> are words; \<open>usize\<close> and byte offsets are natural numbers
  where the code cannot make them wrap. A method that mutates its object answers the new object; a fallible
  one answers a sum with the error on the left. An asynchronous loop is a step function over the events the
  loop waits for, so a list of events is one interleaving. What the loop asks of the outside (a lowercase
  mapping, a file system, the identifiers a shared counter yields, when a cancellation is seen, the parsers and
  hashes of other crates) is an argument. A file system call that fails is an error value given from outside.
  Loops whose end needs an argument are functions with a termination proof; only the upload planner, whose
  tree is given from outside, counts the folders it reads as fuel, and a tree of \<open>n\<close> folders needs
  exactly \<open>n\<close> (\<open>upload_plan_mirrors_tree\<close>). Times are integers in nanoseconds that events carry.

  \<^bold>\<open>What is shown\<close>

  Invariants of every stateful component over all sequences of its operations; that old sessions, superseded
  attempts, late checks and replayed events have no effect; the limits and the liveness of the scheduler;
  that plans list a tree exactly once and inside the destination; that transfers which report success have
  moved every byte, and that they end; equivalence of optimised code with plain definitions (id matcher, glob,
  next job, link check, host-key check), and refinements (early cancels as one bounded log, an append as a
  run of the interleaving model). Files are replaced all or nothing at every crash, no append is lost, a
  trusted key and a saved profile are found again after a restart, and profile identifiers are not used
  twice. Theorems named in the findings show where the code does less than it means to: a plan's job range
  that reaches a foreign job, two live edits of one file, a queued transfer that nothing wakes, root-level
  names that become relative, links that pass the check one by one but lead out together, a secret lost
  to another store's rollback, a deleted profile that stays listed, and a bare file name that is never
  written.

  \<^bold>\<open>Not modelled\<close>

  The runtime and session actors, the physical connection and the calls of one transfer job are sequences of
  library calls (russh, tokio, the operating system) whose decisions are made by the modelled components; the
  scheduler sees a job as a task with an arbitrary outcome. Of \<open>crates/storage\<close> the configuration, the recent
  connections, the saved windows and the sweep of residual files are left out: they are serialised as a
  whole through the modelled writes. \<open>crates/app\<close>, \<open>crates/ui\<close>, \<open>crates/native-menu\<close> and \<open>crates/platform\<close> render and bind to
  macOS. \<open>vendor-russh\<close> and \<open>vendor-block\<close> are third-party code. Of the types in \<open>core.rs\<close>, formatting for logs and
  serialisation are left out.
\<close>

end
